(* ===== verification/Go_Prelude.thy ===== *)
theory Go_Prelude
  imports Main "HOL-Library.Char_ord"
begin

text \<open>
  What every component shares: the Go integers and clock values the source computes
  with, results and transactions, tables of rows as the SQL statements of the
  repositories see them, and ASCII string helpers. Nothing here is a definition of the
  program; the definitions of the components are built from these.
\<close>

named_theorems row_simps \<open>projections and updates of table rows\<close>
named_theorems guard_defs \<open>unfolding of the guards of operations\<close>

section \<open>64-bit integers, durations and instants\<close>

text \<open>
  Go's \<open>int\<close> and \<open>time.Duration\<close> are 64-bit two's complement. A value is an
  \<open>int\<close>; where an operation of the source can leave the range, its result is
  wrapped with \<open>wrap64\<close>.
\<close>

definition wrap64 :: "int \<Rightarrow> int" where
  "wrap64 x = (x + 2 ^ 63) mod 2 ^ 64 - 2 ^ 63"

definition in_int64 :: "int \<Rightarrow> bool" where
  "in_int64 x \<longleftrightarrow> - (2 ^ 63) \<le> x \<and> x < 2 ^ 63"

lemma wrap64_id [simp]: "in_int64 x \<Longrightarrow> wrap64 x = x"
  by (simp add: wrap64_def in_int64_def)

lemma in_int64_wrap64 [simp]: "in_int64 (wrap64 x)"
proof -
  have "0 \<le> (x + 2 ^ 63) mod 2 ^ 64" and "(x + 2 ^ 63) mod 2 ^ 64 < 2 ^ 64"
    by (rule pos_mod_sign, simp) (rule pos_mod_bound, simp)
  then show ?thesis by (simp add: wrap64_def in_int64_def)
qed

lemma wrap64_eq_iff: "wrap64 x = x \<longleftrightarrow> in_int64 x"
  by (metis wrap64_id in_int64_wrap64)

text \<open>\<open>x << n\<close> on a 64-bit integer: the bits above the width are lost.\<close>

definition shl64 :: "int \<Rightarrow> nat \<Rightarrow> int" where
  "shl64 x n = wrap64 (x * 2 ^ n)"

text \<open>
  An instant is the number of nanoseconds since Go's zero time, so the zero
  \<open>time.Time\<close> is 0. \<open>t.Sub(u)\<close> (and so \<open>time.Since\<close>) saturates at the
  ends of \<open>time.Duration\<close>.
\<close>

type_synonym instant = int
type_synonym duration = int

abbreviation (input) zero_time :: instant where
  "zero_time \<equiv> 0"

definition time_sub :: "instant \<Rightarrow> instant \<Rightarrow> duration" where
  "time_sub t u = max (- (2 ^ 63)) (min (2 ^ 63 - 1) (t - u))"

definition nanosecond :: duration where "nanosecond = 1"
definition second :: duration where "second = 1000000000"
definition minute :: duration where "minute = 60 * second"

lemmas duration_defs = nanosecond_def second_def minute_def

lemma time_sub_gt: "d < 2 ^ 63 - 1 \<Longrightarrow> - (2 ^ 63) \<le> d \<Longrightarrow> time_sub t u > d \<longleftrightarrow> t - u > d"
  by (auto simp: time_sub_def)

lemma time_sub_self [simp]: "time_sub t t = 0"
  by (simp add: time_sub_def)

section \<open>Results and transactions\<close>

text \<open>
  A fallible operation over a state returns an error or a value, and the state. A
  transaction that ends in an error is rolled back.
\<close>

type_synonym ('e, 'a, 's) outcome = "('e + 'a) \<times> 's"

definition in_tx :: "('s \<Rightarrow> ('e, 'a, 's) outcome) \<Rightarrow> 's \<Rightarrow> ('e, 'a, 's) outcome" where
  "in_tx body s = (case body s of (Inl e, _) \<Rightarrow> (Inl e, s) | (Inr x, s') \<Rightarrow> (Inr x, s'))"

lemma in_tx_Inl [simp]: "body s = (Inl e, s') \<Longrightarrow> in_tx body s = (Inl e, s)"
  by (simp add: in_tx_def)

lemma in_tx_Inr [simp]: "body s = (Inr x, s') \<Longrightarrow> in_tx body s = (Inr x, s')"
  by (simp add: in_tx_def)

lemma in_tx_InrD: "in_tx body s = (Inr x, s') \<Longrightarrow> body s = (Inr x, s')"
  by (auto simp: in_tx_def split: prod.splits sum.splits)

lemma in_tx_InlD: "in_tx body s = (Inl e, s') \<Longrightarrow> s' = s"
  by (auto simp: in_tx_def split: prod.splits sum.splits)

lemma in_tx_preserves:
  assumes "P s" and "\<And>x s'. body s = (Inr x, s') \<Longrightarrow> P s'"
  shows "P (snd (in_tx body s))"
  using assms by (auto simp: in_tx_def split: prod.splits sum.splits)

text \<open>A call of the database works, fails before it changes anything, or is committed with its
  answer lost.\<close>

datatype fault = Works | Fails | Answer_Lost

section \<open>Tables\<close>

text \<open>
  A table is the list of its rows. \<open>UPDATE .. SET f WHERE p\<close> maps \<open>f\<close> over
  the rows that satisfy \<open>p\<close>; the number of rows affected is their number.
\<close>

definition sql_update :: "('r \<Rightarrow> bool) \<Rightarrow> ('r \<Rightarrow> 'r) \<Rightarrow> 'r list \<Rightarrow> 'r list" where
  "sql_update p f t = map (\<lambda>r. if p r then f r else r) t"

definition sql_count :: "('r \<Rightarrow> bool) \<Rightarrow> 'r list \<Rightarrow> nat" where
  "sql_count p t = length (filter p t)"

definition sql_delete :: "('r \<Rightarrow> bool) \<Rightarrow> 'r list \<Rightarrow> 'r list" where
  "sql_delete p t = filter (\<lambda>r. \<not> p r) t"

definition sql_exists :: "('r \<Rightarrow> bool) \<Rightarrow> 'r list \<Rightarrow> bool" where
  "sql_exists p t = list_ex p t"

lemma sql_exists_iff: "sql_exists p t \<longleftrightarrow> (\<exists>r \<in> set t. p r)"
  by (simp add: sql_exists_def list_ex_iff)

lemma sql_update_Nil [simp]: "sql_update p f [] = []"
  by (simp add: sql_update_def)

lemma sql_update_Cons [simp]:
  "sql_update p f (r # t) = (if p r then f r else r) # sql_update p f t"
  by (simp add: sql_update_def)

lemma set_sql_update: "set (sql_update p f t) = (\<lambda>r. if p r then f r else r) ` set t"
  by (simp add: sql_update_def)

lemma map_sql_update [simp]:
  "(\<And>r. key (f r) = key r) \<Longrightarrow> map key (sql_update p f t) = map key t"
  by (simp add: sql_update_def)

lemma length_sql_update [simp]: "length (sql_update p f t) = length t"
  by (simp add: sql_update_def)

lemma sql_update_none: "(\<And>r. r \<in> set t \<Longrightarrow> \<not> p r) \<Longrightarrow> sql_update p f t = t"
  by (induction t) auto

lemma sql_count_0_iff: "sql_count p t = 0 \<longleftrightarrow> (\<forall>r \<in> set t. \<not> p r)"
  by (auto simp: sql_count_def filter_empty_conv)

lemma sql_update_count_0: "sql_count p t = 0 \<Longrightarrow> sql_update p f t = t"
  by (simp add: sql_update_none sql_count_0_iff)

lemma set_sql_delete [simp]: "set (sql_delete p t) = {r \<in> set t. \<not> p r}"
  by (auto simp: sql_delete_def)

lemma distinct_map_sql_delete [intro]:
  "distinct (map key t) \<Longrightarrow> distinct (map key (sql_delete p t))"
  by (induction t) (auto simp: sql_delete_def)

lemma sql_count_append [simp]: "sql_count p (t @ u) = sql_count p t + sql_count p u"
  by (simp add: sql_count_def)

lemma sql_count_Cons [simp]: "sql_count p (r # t) = (if p r then 1 else 0) + sql_count p t"
  by (simp add: sql_count_def)

lemma sql_count_Nil [simp]: "sql_count p [] = 0"
  by (simp add: sql_count_def)

lemma sql_count_mono: "(\<And>r. r \<in> set t \<Longrightarrow> p r \<Longrightarrow> q r) \<Longrightarrow> sql_count p t \<le> sql_count q t"
  by (induction t) auto

text \<open>An update never raises a count when it keeps or loses the counted predicate.\<close>

lemma sql_count_update_le:
  "(\<And>r. r \<in> set t \<Longrightarrow> p r \<Longrightarrow> q (f r) \<Longrightarrow> q r) \<Longrightarrow> sql_count q (sql_update p f t) \<le> sql_count q t"
  by (induction t) auto

lemma sql_count_update_eq:
  "(\<And>r. r \<in> set t \<Longrightarrow> p r \<Longrightarrow> q (f r) = q r) \<Longrightarrow> sql_count q (sql_update p f t) = sql_count q t"
  by (induction t) auto

text \<open>\<open>SELECT .. WHERE key = k\<close> on a unique key, and the row it finds.\<close>

definition sql_find :: "('r \<Rightarrow> bool) \<Rightarrow> 'r list \<Rightarrow> 'r option" where
  "sql_find p t = find p t"

lemma sql_find_SomeD: "sql_find p t = Some r \<Longrightarrow> r \<in> set t \<and> p r"
  by (auto simp: sql_find_def find_Some_iff)

lemma sql_find_None_iff: "sql_find p t = None \<longleftrightarrow> (\<forall>r \<in> set t. \<not> p r)"
  by (auto simp: sql_find_def find_None_iff)

lemma sql_find_Nil [simp]: "sql_find p [] = None"
  by (simp add: sql_find_def)

lemma sql_find_Cons [simp]: "sql_find p (r # t) = (if p r then Some r else sql_find p t)"
  by (simp add: sql_find_def)

lemma sql_find_append:
  "sql_find p (t @ u) = (case sql_find p t of None \<Rightarrow> sql_find p u | Some r \<Rightarrow> Some r)"
  by (induction t) auto

lemma sql_find_update_key:
  assumes "\<And>r. key (f r) = key r"
  shows "sql_find (\<lambda>r. key r = k) (sql_update p f t) =
    map_option (\<lambda>r. if p r then f r else r) (sql_find (\<lambda>r. key r = k) t)"
  by (induction t) (auto simp: assms)

lemma unique_rowD:
  "distinct (map key t) \<Longrightarrow> r \<in> set t \<Longrightarrow> r' \<in> set t \<Longrightarrow> key r = key r' \<Longrightarrow> r = r'"
  by (auto simp: distinct_map dest: inj_onD)

lemma sql_find_unique:
  "distinct (map key t) \<Longrightarrow> r \<in> set t \<Longrightarrow> sql_find (\<lambda>x. key x = key r) t = Some r"
  by (induction t) (auto simp: rev_image_eqI image_iff)

lemma sql_count_key_le_1: "distinct (map key t) \<Longrightarrow> sql_count (\<lambda>x. key x = k) t \<le> 1"
proof (induction t)
  case (Cons r t)
  then have "key r = k \<Longrightarrow> sql_count (\<lambda>x. key x = k) t = 0"
    by (auto simp: sql_count_0_iff image_iff)
  with Cons show ?case by (cases "key r = k") auto
qed simp

section \<open>ASCII strings\<close>

text \<open>
  Error texts are sequences of bytes. \<open>strings.ToLower\<close> is modelled on ASCII: bytes
  from 128 on are left as they are.
\<close>

definition lower_char :: "char \<Rightarrow> char" where
  "lower_char c =
     (let n = (of_char c :: nat) in if 65 \<le> n \<and> n \<le> 90 then char_of (n + 32) else c)"

definition to_lower :: "string \<Rightarrow> string" where
  "to_lower s = map lower_char s"

fun is_prefix :: "string \<Rightarrow> string \<Rightarrow> bool" where
  "is_prefix [] s = True"
| "is_prefix (c # cs) [] = False"
| "is_prefix (c # cs) (d # ds) = (c = d \<and> is_prefix cs ds)"

fun str_contains :: "string \<Rightarrow> string \<Rightarrow> bool" where
  "str_contains [] p = is_prefix p []"
| "str_contains (c # cs) p = (is_prefix p (c # cs) \<or> str_contains cs p)"

lemma is_prefix_append_iff: "is_prefix p s \<longleftrightarrow> (\<exists>rest. s = p @ rest)"
  by (induction p s rule: is_prefix.induct) auto

lemma str_contains_iff: "str_contains s p \<longleftrightarrow> (\<exists>pre post. s = pre @ p @ post)"
proof (induction s)
  case Nil
  then show ?case by (auto simp: is_prefix_append_iff)
next
  case (Cons c cs)
  have "str_contains (c # cs) p \<longleftrightarrow>
      (\<exists>rest. c # cs = p @ rest) \<or> (\<exists>pre post. cs = pre @ p @ post)"
    using Cons by (simp add: is_prefix_append_iff)
  also have "\<dots> \<longleftrightarrow> (\<exists>pre post. c # cs = pre @ p @ post)"
    by (metis append_Cons append_Nil neq_Nil_conv list.inject)
  finally show ?case .
qed

definition is_digit :: "char \<Rightarrow> bool" where
  "is_digit c = (let n = (of_char c :: nat) in 48 \<le> n \<and> n \<le> 57)"

definition digit_val :: "char \<Rightarrow> nat" where
  "digit_val c = of_char c - 48"

lemma digit_val_le: "is_digit c \<Longrightarrow> digit_val c \<le> 9"
  unfolding is_digit_def digit_val_def Let_def by linarith

text \<open>RE2's \<open>\s\<close>: tab, newline, form feed, carriage return and space.\<close>

definition is_re_space :: "char \<Rightarrow> bool" where
  "is_re_space c = ((of_char c :: nat) \<in> {9, 10, 12, 13, 32})"

section \<open>Decimal numerals\<close>

fun show_nat :: "nat \<Rightarrow> string" where
  "show_nat n = (if n < 10 then [char_of (48 + n)] else show_nat (n div 10) @ [char_of (48 + n mod 10)])"

declare show_nat.simps [simp del]

definition show_int :: "int \<Rightarrow> string" where
  "show_int i = (if i < 0 then CHR ''-'' # show_nat (nat (- i)) else show_nat (nat i))"

end
