(* ===== verification/Delivery_Status.thy ===== *)
theory Delivery_Status
  imports Go_Prelude
begin

text \<open>
  \<open>internal/domain/delivery.go\<close>: the status graph of a delivery and the deterministic
  effect key that makes a delivery intent unique. \<open>norm.NFKC\<close> (a third-party package)
  and SHA-256 are parameters of the key; the JSON array the key hashes is written out, for
  ASCII strings, as \<open>encoding/json\<close> writes it.
\<close>

section \<open>Statuses\<close>

text \<open>\<open>DeliveryStatus\<close> is a Go string type: \<open>DS_Other\<close> is any other string, the empty
  one included.\<close>

datatype delivery_status =
    DS_Planned | DS_Reserved | DS_Queued | DS_Submitting | DS_ProviderAccepted | DS_Confirmed
  | DS_Suppressed | DS_Deferred | DS_TransientFailed | DS_TerminalFailed | DS_Unknown
  | DS_Cancelled | DS_Other string

fun deliveryStatusTransitions :: "delivery_status \<Rightarrow> delivery_status list" where
  "deliveryStatusTransitions DS_Planned = [DS_Reserved, DS_Suppressed, DS_Deferred, DS_Cancelled]"
| "deliveryStatusTransitions DS_Reserved = [DS_Queued, DS_Suppressed, DS_Deferred, DS_Cancelled]"
| "deliveryStatusTransitions DS_Queued =
     [DS_Submitting, DS_Suppressed, DS_Deferred, DS_TransientFailed, DS_Cancelled]"
| "deliveryStatusTransitions DS_Submitting =
     [DS_ProviderAccepted, DS_TransientFailed, DS_TerminalFailed, DS_Unknown]"
| "deliveryStatusTransitions DS_ProviderAccepted = [DS_Confirmed, DS_TerminalFailed, DS_Unknown]"
| "deliveryStatusTransitions DS_Deferred = [DS_Queued, DS_Cancelled]"
| "deliveryStatusTransitions DS_TransientFailed = [DS_Queued, DS_TerminalFailed, DS_Cancelled]"
| "deliveryStatusTransitions DS_Unknown =
     [DS_ProviderAccepted, DS_Confirmed, DS_TerminalFailed, DS_Cancelled]"
| "deliveryStatusTransitions _ = []"

fun DeliveryStatus_Valid :: "delivery_status \<Rightarrow> bool" where
  "DeliveryStatus_Valid (DS_Other _) = False"
| "DeliveryStatus_Valid _ = True"

definition CanTransitionTo :: "delivery_status \<Rightarrow> delivery_status \<Rightarrow> bool" where
  "CanTransitionTo s next =
     (if \<not> DeliveryStatus_Valid s \<or> \<not> DeliveryStatus_Valid next \<or> s = next then False
      else next \<in> set (deliveryStatusTransitions s))"

definition final_status :: "delivery_status \<Rightarrow> bool" where
  "final_status s \<longleftrightarrow> (\<forall>n. \<not> CanTransitionTo s n)"

lemma CanTransitionTo_iff: "CanTransitionTo s n \<longleftrightarrow> n \<in> set (deliveryStatusTransitions s)"
  by (cases s; cases n) (auto simp: CanTransitionTo_def)

lemma final_status_iff:
  "final_status s \<longleftrightarrow>
     s \<in> {DS_Confirmed, DS_Suppressed, DS_TerminalFailed, DS_Cancelled} \<or> (\<exists>x. s = DS_Other x)"
  by (cases s) (auto simp: final_status_def CanTransitionTo_iff)

text \<open>A history of one intent: consecutive statuses related by the graph.\<close>

inductive status_path :: "delivery_status \<Rightarrow> delivery_status list \<Rightarrow> delivery_status \<Rightarrow> bool" where
  here: "status_path s [] s"
| there: "CanTransitionTo s n \<Longrightarrow> status_path n ns t \<Longrightarrow> status_path s (n # ns) t"

inductive_cases status_path_NilE: "status_path s [] t"
inductive_cases status_path_ConsE: "status_path s (n # ns) t"

definition before_submission :: "delivery_status set" where
  "before_submission =
     {DS_Planned, DS_Reserved, DS_Queued, DS_Deferred, DS_TransientFailed, DS_TerminalFailed,
      DS_Suppressed, DS_Cancelled}"

text \<open> Every status history that the graph allows from \<open>reserved\<close> to \<open>confirmed\<close>
  passes through \<open>submitting\<close>, no history leaves a final status, and the final statuses are
  \<open>confirmed\<close>, \<open>suppressed\<close>, \<open>terminal_failed\<close>, \<open>cancelled\<close> and every string that is
  no status.\<close>

theorem confirmed_only_after_submitting:
  "(status_path DS_Reserved ns DS_Confirmed \<longrightarrow> DS_Submitting \<in> set ns) \<and>
   (final_status s \<and> status_path s ms t \<longrightarrow> ms = [] \<and> t = s) \<and>
   (final_status s \<longleftrightarrow>
      s \<in> {DS_Confirmed, DS_Suppressed, DS_TerminalFailed, DS_Cancelled} \<or> (\<exists>x. s = DS_Other x))"
proof -
  have "status_path u ns t \<Longrightarrow> u \<in> before_submission \<Longrightarrow> DS_Submitting \<notin> set ns \<Longrightarrow>
      t \<in> before_submission" for u ns t
  proof (induction rule: status_path.induct)
    case (there u n ns t)
    then have "n \<in> before_submission"
      by (cases u) (auto simp: CanTransitionTo_iff before_submission_def)
    with there show ?case by simp
  qed simp
  from this[of DS_Reserved ns DS_Confirmed]
  have "status_path DS_Reserved ns DS_Confirmed \<longrightarrow> DS_Submitting \<in> set ns"
    by (auto simp: before_submission_def)
  moreover have "final_status s \<and> status_path s ms t \<longrightarrow> ms = [] \<and> t = s"
    by (auto simp: final_status_def elim: status_path.cases)
  ultimately show ?thesis using final_status_iff by blast
qed

theorem confirmed_only_after_submitting_witness:
  "status_path DS_Reserved [DS_Queued, DS_Submitting, DS_ProviderAccepted, DS_Confirmed] DS_Confirmed \<and>
   DS_Submitting \<in> set [DS_Queued, DS_Submitting, DS_ProviderAccepted, DS_Confirmed]"
proof -
  have p: "status_path DS_Reserved [DS_Queued, DS_Submitting, DS_ProviderAccepted, DS_Confirmed] DS_Confirmed"
    by (auto intro!: status_path.intros simp: CanTransitionTo_iff)
  then show ?thesis using confirmed_only_after_submitting by blast
qed

section \<open>Effect keys\<close>

record effect_key_input =
  ek_WorkspaceID :: string
  ek_SourceType :: string
  ek_SourceID :: string
  ek_SourceVersion :: string
  ek_CustomerID :: string
  ek_NodeOrPhase :: string
  ek_Occurrence :: string
  ek_Variant :: string

text \<open>\<open>strings.TrimSpace\<close> on ASCII: also the vertical tab.\<close>

definition is_go_space :: "char \<Rightarrow> bool" where
  "is_go_space c = ((of_char c :: nat) \<in> {9, 10, 11, 12, 13, 32})"

definition trim_space :: "string \<Rightarrow> string" where
  "trim_space s = rev (dropWhile is_go_space (rev (dropWhile is_go_space s)))"

definition canonicalDeliveryDimension :: "(string \<Rightarrow> string) \<Rightarrow> string \<Rightarrow> string" where
  "canonicalDeliveryDimension nfkc value = trim_space (nfkc value)"

fun canonical_loop :: "(string \<Rightarrow> string) \<Rightarrow> (string \<times> string) list \<Rightarrow> string + string list" where
  "canonical_loop nfkc [] = Inr []"
| "canonical_loop nfkc ((name, v) # ds) =
     (let value = canonicalDeliveryDimension nfkc v
      in if value = '''' then Inl (name @ '' is required'')
         else (case canonical_loop nfkc ds of Inl e \<Rightarrow> Inl e | Inr vs \<Rightarrow> Inr (value # vs)))"

definition canonicalDimensions :: "(string \<Rightarrow> string) \<Rightarrow> effect_key_input \<Rightarrow> string + string list" where
  "canonicalDimensions nfkc i =
     canonical_loop nfkc
       [(''workspace_id'', ek_WorkspaceID i), (''source_type'', to_lower (ek_SourceType i)),
        (''source_id'', ek_SourceID i), (''source_version'', ek_SourceVersion i),
        (''customer_id'', ek_CustomerID i), (''node_or_phase'', ek_NodeOrPhase i),
        (''occurrence'', ek_Occurrence i), (''variant'', ek_Variant i)]"

text \<open>\<open>json.Marshal\<close> of a list of ASCII strings.\<close>

definition hex_digit :: "nat \<Rightarrow> char" where
  "hex_digit n = (if n < 10 then char_of (48 + n) else char_of (87 + n))"

definition bslash :: char where "bslash = char_of (92 :: nat)"
definition dquote :: char where "dquote = char_of (34 :: nat)"

definition json_char :: "char \<Rightarrow> string" where
  "json_char c =
     (let n = (of_char c :: nat)
      in if n = 34 \<or> n = 92 then [bslash, c]
         else if n = 8 then [bslash, CHR ''b'']
         else if n = 12 then [bslash, CHR ''f'']
         else if n = 10 then [bslash, CHR ''n'']
         else if n = 13 then [bslash, CHR ''r'']
         else if n = 9 then [bslash, CHR ''t'']
         else if n < 32 \<or> n = 60 \<or> n = 62 \<or> n = 38
         then [bslash, CHR ''u'', CHR ''0'', CHR ''0'', hex_digit (n div 16), hex_digit (n mod 16)]
         else [c])"

definition json_string :: "string \<Rightarrow> string" where
  "json_string s = [dquote] @ concat (map json_char s) @ [dquote]"

fun json_items :: "string list \<Rightarrow> string" where
  "json_items [] = ''''"
| "json_items [s] = json_string s"
| "json_items (s # ss) = json_string s @ '','' @ json_items ss"

definition json_array :: "string list \<Rightarrow> string" where
  "json_array ss = ''['' @ json_items ss @ '']''"

definition EffectKey ::
  "(string \<Rightarrow> string) \<Rightarrow> (string \<Rightarrow> string) \<Rightarrow> effect_key_input \<Rightarrow> string + string" where
  "EffectKey nfkc sha256_hex i =
     (case canonicalDimensions nfkc i of
        Inl e \<Rightarrow> Inl e
      | Inr dims \<Rightarrow> Inr (sha256_hex (json_array dims)))"

subsection \<open>The key determines the dimensions\<close>

definition unhex :: "char \<Rightarrow> nat" where
  "unhex c = (let n = (of_char c :: nat) in if n < 58 then n - 48 else n - 87)"

lemma unhex_hex_digit: "k < 16 \<Longrightarrow> unhex (hex_digit k) = k"
  by (auto simp: unhex_def hex_digit_def Let_def)

text \<open>A decoder of one encoded character; it only serves the injectivity proof.\<close>

fun json_next :: "string \<Rightarrow> (char \<times> string) option" where
  "json_next [] = None"
| "json_next (a # r) =
     (if a \<noteq> bslash then Some (a, r)
      else (case r of
          [] \<Rightarrow> None
        | b # r1 \<Rightarrow>
            if b = CHR ''b'' then Some (char_of (8 :: nat), r1)
            else if b = CHR ''f'' then Some (char_of (12 :: nat), r1)
            else if b = CHR ''n'' then Some (char_of (10 :: nat), r1)
            else if b = CHR ''r'' then Some (char_of (13 :: nat), r1)
            else if b = CHR ''t'' then Some (char_of (9 :: nat), r1)
            else if b = CHR ''u''
            then (case r1 of
                _ # _ # h # l # r2 \<Rightarrow> Some (char_of (16 * unhex h + unhex l), r2) | _ \<Rightarrow> None)
            else Some (b, r1)))"

lemma char_neqI: "(of_char c :: nat) \<noteq> of_char d \<Longrightarrow> c \<noteq> d"
  by auto

lemma json_next_json_char: "json_next (json_char c @ r) = Some (c, r)"
proof -
  define n where "n = (of_char c :: nat)"
  have n: "n < 256" "char_of n = c" by (simp_all add: n_def)
  have hex: "char_of (16 * unhex (hex_digit (n div 16)) + unhex (hex_digit (n mod 16))) = c"
    using n by (simp add: unhex_hex_digit)
  have lit: "n \<noteq> 92 \<Longrightarrow> c \<noteq> bslash"
    unfolding n_def bslash_def by (rule char_neqI) simp
  have quoted: "n = 34 \<or> n = 92 \<Longrightarrow>
      c \<noteq> CHR ''b'' \<and> c \<noteq> CHR ''f'' \<and> c \<noteq> CHR ''n'' \<and> c \<noteq> CHR ''r'' \<and> c \<noteq> CHR ''t'' \<and> c \<noteq> CHR ''u''"
    unfolding n_def by auto
  show ?thesis
    using lit quoted hex n(2) by (auto simp: json_char_def Let_def n_def[symmetric])
qed

lemma json_char_no_quote: "\<exists>x xs. json_char c = x # xs \<and> x \<noteq> dquote"
proof -
  have "(of_char c :: nat) \<noteq> 34 \<Longrightarrow> c \<noteq> dquote"
    unfolding dquote_def by (rule char_neqI) simp
  then show ?thesis by (auto simp: json_char_def Let_def bslash_def dquote_def)
qed

lemma json_body_unique:
  "concat (map json_char s) @ dquote # r = concat (map json_char t) @ dquote # r' \<Longrightarrow> s = t \<and> r = r'"
proof (induction s arbitrary: t)
  case Nil
  show ?case
  proof (cases t)
    case (Cons d t')
    with Nil json_char_no_quote[of d] show ?thesis by auto
  qed (use Nil in simp)
next
  case (Cons c s)
  show ?case
  proof (cases t)
    case Nil
    with Cons.prems json_char_no_quote[of c] show ?thesis by auto
  next
    case (Cons d t')
    with Cons.prems have
      e: "json_char c @ concat (map json_char s) @ dquote # r =
          json_char d @ concat (map json_char t') @ dquote # r'" by simp
    from arg_cong[OF this, of json_next]
    have "c = d" "concat (map json_char s) @ dquote # r = concat (map json_char t') @ dquote # r'"
      by (simp_all add: json_next_json_char)
    with Cons.IH[of t'] Cons show ?thesis by simp
  qed
qed

lemma json_string_unique: "json_string s @ r = json_string t @ r' \<Longrightarrow> s = t \<and> r = r'"
  using json_body_unique[of s r t r'] by (simp add: json_string_def)

lemma json_string_quote: "\<exists>x. json_string s = dquote # x"
  by (simp add: json_string_def)

lemma bracket_neq: "CHR '']'' \<noteq> dquote" "dquote \<noteq> CHR '']''" "CHR '','' \<noteq> CHR '']''"
  unfolding dquote_def by (auto intro!: char_neqI simp del: of_char_eq_iff)

lemma json_items_unique: "json_items ss @ '']'' = json_items ts @ '']'' \<Longrightarrow> ss = ts"
proof (induction ss arbitrary: ts rule: json_items.induct)
  case 1
  then show ?case
    using bracket_neq json_string_quote[of "hd ts"] by (cases ts rule: json_items.cases) auto
next
  case (2 s)
  note prem = this
  show ?case
  proof (cases ts rule: json_items.cases)
    case 1
    with prem json_string_quote[of s] bracket_neq show ?thesis by auto
  next
    case (2 t)
    with prem json_string_unique[of s "'']''" t "'']''"] show ?thesis by simp
  next
    case (3 t t' ts')
    with prem json_string_unique[of s "'']''" t "'','' @ json_items (t' # ts') @ '']''"]
    show ?thesis by simp
  qed
next
  case (3 s s' ss)
  note prem = "3.prems" and IH = "3.IH"
  show ?case
  proof (cases ts rule: json_items.cases)
    case 1
    with prem json_string_quote[of s] bracket_neq show ?thesis by auto
  next
    case (2 t)
    with prem json_string_unique[of s "'','' @ json_items (s' # ss) @ '']''" t "'']''"]
    show ?thesis by simp
  next
    case t: (3 t t' ts')
    with prem json_string_unique[of s "'','' @ json_items (s' # ss) @ '']''" t
          "'','' @ json_items (t' # ts') @ '']''"]
    have "s = t" "json_items (s' # ss) @ '']'' = json_items (t' # ts') @ '']''" by auto
    with IH t show ?thesis by simp
  qed
qed

lemma json_array_unique: "json_array ss = json_array ts \<Longrightarrow> ss = ts"
  by (rule json_items_unique) (simp add: json_array_def)

lemma canonical_loop_Inl_iff:
  "(\<exists>e. canonical_loop nfkc ds = Inl e) \<longleftrightarrow>
     (\<exists>d \<in> set ds. canonicalDeliveryDimension nfkc (snd d) = [])"
  by (induction ds) (auto simp: Let_def split: sum.splits)

text \<open> The effect key is a function of the eight canonical dimensions and of nothing
  else: two inputs whose keys agree have the same canonical dimensions (given that SHA-256
  does not collide on the two encodings), and the key is refused exactly when a dimension is
  blank after normalisation.\<close>

theorem effect_key_injective:
  assumes "EffectKey nfkc sha i = Inr k" and "EffectKey nfkc sha j = Inr k"
    and "\<And>x y. canonicalDimensions nfkc i = Inr x \<Longrightarrow> canonicalDimensions nfkc j = Inr y \<Longrightarrow>
           sha (json_array x) = sha (json_array y) \<Longrightarrow> json_array x = json_array y"
  shows "canonicalDimensions nfkc i = canonicalDimensions nfkc j \<and>
    ((\<exists>e. EffectKey nfkc sha l = Inl e) \<longleftrightarrow>
       (\<exists>v \<in> {ek_WorkspaceID l, to_lower (ek_SourceType l), ek_SourceID l, ek_SourceVersion l,
              ek_CustomerID l, ek_NodeOrPhase l, ek_Occurrence l, ek_Variant l}.
          canonicalDeliveryDimension nfkc v = []))"
proof
  from assms(1,2) obtain x y where
    x: "canonicalDimensions nfkc i = Inr x" and y: "canonicalDimensions nfkc j = Inr y"
    and "sha (json_array x) = sha (json_array y)"
    by (auto simp: EffectKey_def split: sum.splits)
  with assms(3)[OF x y] json_array_unique[of x y]
  show "canonicalDimensions nfkc i = canonicalDimensions nfkc j" by simp
next
  have "(\<exists>e. EffectKey nfkc sha l = Inl e) \<longleftrightarrow> (\<exists>e. canonicalDimensions nfkc l = Inl e)"
    by (auto simp: EffectKey_def split: sum.splits)
  also have "\<dots> \<longleftrightarrow> (\<exists>v \<in> {ek_WorkspaceID l, to_lower (ek_SourceType l), ek_SourceID l,
              ek_SourceVersion l, ek_CustomerID l, ek_NodeOrPhase l, ek_Occurrence l, ek_Variant l}.
          canonicalDeliveryDimension nfkc v = [])"
    unfolding canonicalDimensions_def canonical_loop_Inl_iff by simp
  finally show "(\<exists>e. EffectKey nfkc sha l = Inl e) \<longleftrightarrow>
       (\<exists>v \<in> {ek_WorkspaceID l, to_lower (ek_SourceType l), ek_SourceID l, ek_SourceVersion l,
              ek_CustomerID l, ek_NodeOrPhase l, ek_Occurrence l, ek_Variant l}.
          canonicalDeliveryDimension nfkc v = [])" .
qed

definition sample_key_input :: "string \<Rightarrow> effect_key_input" where
  "sample_key_input variant =
     \<lparr>ek_WorkspaceID = ''w'', ek_SourceType = ''Broadcast'', ek_SourceID = ''b'',
      ek_SourceVersion = ''1'', ek_CustomerID = ''c'', ek_NodeOrPhase = ''n'',
      ek_Occurrence = ''o'', ek_Variant = variant\<rparr>"

theorem effect_key_injective_witness:
  "canonicalDimensions (\<lambda>x. x) (sample_key_input ''a '') =
     canonicalDimensions (\<lambda>x. x) (sample_key_input '' a'')"
proof -
  define k where "k = json_array [''w'', ''broadcast'', ''b'', ''1'', ''c'', ''n'', ''o'', ''a'']"
  have "canonicalDimensions (\<lambda>x. x) (sample_key_input ''a '') =
      Inr [''w'', ''broadcast'', ''b'', ''1'', ''c'', ''n'', ''o'', ''a'']"
    "canonicalDimensions (\<lambda>x. x) (sample_key_input '' a'') =
      Inr [''w'', ''broadcast'', ''b'', ''1'', ''c'', ''n'', ''o'', ''a'']"
    by code_simp+
  then have "EffectKey (\<lambda>x. x) (\<lambda>x. x) (sample_key_input ''a '') = Inr k"
    "EffectKey (\<lambda>x. x) (\<lambda>x. x) (sample_key_input '' a'') = Inr k"
    by (simp_all add: EffectKey_def k_def)
  from effect_key_injective[OF this] show ?thesis by simp
qed

end
