(* ===== verification/Ledger_Spec.thy ===== *)
theory Ledger_Spec
  imports Delivery_Status
begin

text \<open>
  What the delivery ledger promises, stated on the statuses alone: an intent has a status, an
  attempt belongs to an intent and has a status, and \<open>ledger_step\<close> lists the moves the
  operations may make. \<open>R\<close> is the set of attempts whose message really reached the
  recipient, which no component knows: the moves that put an intent back on the way to another
  submission require that the attempt they give up did not. \<open>Ledger_Runs\<close> shows that the
  repository's operations only make these moves.
\<close>

record ledger_view =
  lv_status :: "string \<Rightarrow> delivery_status option"
  lv_attempt :: "string \<Rightarrow> (string \<times> delivery_status) option"

definition pre_submission :: "delivery_status set" where
  "pre_submission = {DS_Planned, DS_Reserved, DS_Queued, DS_Deferred, DS_TransientFailed}"

definition settled :: "delivery_status set" where
  "settled = {DS_Confirmed, DS_Suppressed, DS_TerminalFailed, DS_Cancelled}"

text \<open>The statuses of an attempt that may have reached the recipient.\<close>

definition reached_status :: "delivery_status set" where
  "reached_status = {DS_Submitting, DS_ProviderAccepted, DS_Unknown, DS_Confirmed}"

definition attempt_status :: "delivery_status set" where
  "attempt_status = reached_status \<union> {DS_TransientFailed, DS_TerminalFailed}"

lemmas status_sets = pre_submission_def settled_def reached_status_def attempt_status_def

inductive ledger_step :: "string set \<Rightarrow> ledger_view \<Rightarrow> ledger_view \<Rightarrow> bool" for R where
  stay: "ledger_step R v v"
| reserve: "lv_status v i = None \<Longrightarrow> s \<in> {DS_Reserved, DS_Suppressed, DS_Deferred} \<Longrightarrow>
    ledger_step R v (v\<lparr>lv_status := (lv_status v)(i := Some s)\<rparr>)"
| move: "lv_status v i = Some s \<Longrightarrow> s \<in> pre_submission \<Longrightarrow> t \<in> pre_submission \<union> settled \<Longrightarrow>
    ledger_step R v (v\<lparr>lv_status := (lv_status v)(i := Some t)\<rparr>)"
| start: "lv_status v i = Some s \<Longrightarrow> s \<in> {DS_Queued, DS_TransientFailed} \<Longrightarrow> lv_attempt v a = None \<Longrightarrow>
    ledger_step R v \<lparr>lv_status = (lv_status v)(i := Some DS_Submitting),
      lv_attempt = (lv_attempt v)(a := Some (i, DS_Submitting))\<rparr>"
| outcome: "lv_attempt v a = Some (i, s) \<Longrightarrow> lv_status v i = Some t \<Longrightarrow>
    CanTransitionTo s u \<Longrightarrow> CanTransitionTo t u \<Longrightarrow> u \<in> attempt_status \<Longrightarrow>
    (u = DS_TransientFailed \<Longrightarrow> a \<notin> R) \<Longrightarrow>
    ledger_step R v \<lparr>lv_status = (lv_status v)(i := Some u), lv_attempt = (lv_attempt v)(a := Some (i, u))\<rparr>"
| resolve: "lv_attempt v a = Some (i, DS_Unknown) \<Longrightarrow> lv_status v i = Some DS_Unknown \<Longrightarrow>
    (t, u) = (DS_Confirmed, DS_Confirmed) \<or> (t, u) = (DS_TerminalFailed, DS_TerminalFailed) \<or>
      (t, u) = (DS_Queued, DS_TerminalFailed) \<and> a \<notin> R \<Longrightarrow>
    ledger_step R v \<lparr>lv_status = (lv_status v)(i := Some t), lv_attempt = (lv_attempt v)(a := Some (i, u))\<rparr>"
| receipt_both: "lv_attempt v a = Some (i, s) \<Longrightarrow> lv_status v i = Some t \<Longrightarrow>
    s \<in> {DS_Submitting, DS_ProviderAccepted, DS_Unknown} \<Longrightarrow>
    t \<in> {DS_Submitting, DS_ProviderAccepted, DS_Unknown} \<Longrightarrow>
    u \<in> {DS_ProviderAccepted, DS_Confirmed, DS_TerminalFailed} \<Longrightarrow>
    ledger_step R v \<lparr>lv_status = (lv_status v)(i := Some u), lv_attempt = (lv_attempt v)(a := Some (i, u))\<rparr>"
| receipt_intent: "lv_status v i = Some t \<Longrightarrow> t \<in> {DS_Submitting, DS_ProviderAccepted, DS_Unknown} \<Longrightarrow>
    u \<in> {DS_ProviderAccepted, DS_Confirmed, DS_TerminalFailed} \<Longrightarrow>
    ledger_step R v (v\<lparr>lv_status := (lv_status v)(i := Some u)\<rparr>)"
| receipt_attempt: "lv_attempt v a = Some (i, s) \<Longrightarrow> lv_status v i = Some t \<Longrightarrow>
    s \<in> {DS_Submitting, DS_ProviderAccepted, DS_Unknown} \<Longrightarrow>
    t \<notin> {DS_Submitting, DS_Unknown} \<Longrightarrow>
    u = DS_ProviderAccepted \<or> u \<in> {DS_Confirmed, DS_TerminalFailed} \<and> t \<noteq> DS_ProviderAccepted \<Longrightarrow>
    ledger_step R v (v\<lparr>lv_attempt := (lv_attempt v)(a := Some (i, u))\<rparr>)"

text \<open>The invariant: statuses in range and attempts of known intents; per intent at most one
  attempt that may have reached the recipient, and none while another submission is possible;
  and the attempts that did reach it (\<open>R\<close>) are among them unless the intent is settled, at
  most one per intent.\<close>

definition ledger_ok :: "string set \<Rightarrow> ledger_view \<Rightarrow> bool" where
  "ledger_ok R v \<longleftrightarrow>
     (\<forall>i s. lv_status v i = Some s \<longrightarrow> DeliveryStatus_Valid s) \<and>
     (\<forall>a i s. lv_attempt v a = Some (i, s) \<longrightarrow> s \<in> attempt_status \<and> lv_status v i \<noteq> None) \<and>
     (\<forall>a b i s t. lv_attempt v a = Some (i, s) \<and> lv_attempt v b = Some (i, t) \<and>
        s \<in> reached_status \<and> t \<in> reached_status \<longrightarrow> a = b) \<and>
     (\<forall>a i s t. lv_attempt v a = Some (i, s) \<and> lv_status v i = Some t \<and> t \<in> pre_submission \<longrightarrow>
        s \<notin> reached_status) \<and>
     (\<forall>a i s t. a \<in> R \<and> lv_attempt v a = Some (i, s) \<and> lv_status v i = Some t \<longrightarrow>
        s \<in> reached_status \<or> t \<in> settled) \<and>
     (\<forall>a b i s t. a \<in> R \<and> b \<in> R \<and> lv_attempt v a = Some (i, s) \<and> lv_attempt v b = Some (i, t) \<longrightarrow> a = b)"

lemma ok_valid: "ledger_ok R v \<Longrightarrow> lv_status v i = Some s \<Longrightarrow> DeliveryStatus_Valid s"
  unfolding ledger_ok_def by (elim conjE) metis

lemma ok_attempt:
  "ledger_ok R v \<Longrightarrow> lv_attempt v a = Some (i, s) \<Longrightarrow> s \<in> attempt_status \<and> lv_status v i \<noteq> None"
  unfolding ledger_ok_def by (elim conjE) metis

lemma ok_one:
  "ledger_ok R v \<Longrightarrow> lv_attempt v a = Some (i, s) \<Longrightarrow> lv_attempt v b = Some (i, t) \<Longrightarrow>
   s \<in> reached_status \<Longrightarrow> t \<in> reached_status \<Longrightarrow> a = b"
  unfolding ledger_ok_def by (elim conjE) metis

lemma ok_pre:
  "ledger_ok R v \<Longrightarrow> lv_attempt v a = Some (i, s) \<Longrightarrow> lv_status v i = Some t \<Longrightarrow> t \<in> pre_submission \<Longrightarrow>
   s \<notin> reached_status"
  unfolding ledger_ok_def by (elim conjE) metis

lemma ok_R:
  "ledger_ok R v \<Longrightarrow> a \<in> R \<Longrightarrow> lv_attempt v a = Some (i, s) \<Longrightarrow> lv_status v i = Some t \<Longrightarrow>
   s \<in> reached_status \<or> t \<in> settled"
  unfolding ledger_ok_def by (elim conjE) metis

lemma ok_R_one:
  "ledger_ok R v \<Longrightarrow> a \<in> R \<Longrightarrow> b \<in> R \<Longrightarrow> lv_attempt v a = Some (i, s) \<Longrightarrow>
   lv_attempt v b = Some (i, t) \<Longrightarrow> a = b"
  unfolding ledger_ok_def by (elim conjE) metis

text \<open>The converse, with the parts proved one by one.\<close>

lemma ledger_okI:
  assumes "\<And>i s. lv_status v i = Some s \<Longrightarrow> DeliveryStatus_Valid s"
    and "\<And>a i s. lv_attempt v a = Some (i, s) \<Longrightarrow> s \<in> attempt_status \<and> lv_status v i \<noteq> None"
    and "\<And>a b i s t. lv_attempt v a = Some (i, s) \<Longrightarrow> lv_attempt v b = Some (i, t) \<Longrightarrow>
      s \<in> reached_status \<Longrightarrow> t \<in> reached_status \<Longrightarrow> a = b"
    and "\<And>a i s t. lv_attempt v a = Some (i, s) \<Longrightarrow> lv_status v i = Some t \<Longrightarrow> t \<in> pre_submission \<Longrightarrow>
      s \<notin> reached_status"
    and "\<And>a i s t. a \<in> R \<Longrightarrow> lv_attempt v a = Some (i, s) \<Longrightarrow> lv_status v i = Some t \<Longrightarrow>
      s \<in> reached_status \<or> t \<in> settled"
    and "\<And>a b i s t. a \<in> R \<Longrightarrow> b \<in> R \<Longrightarrow> lv_attempt v a = Some (i, s) \<Longrightarrow>
      lv_attempt v b = Some (i, t) \<Longrightarrow> a = b"
  shows "ledger_ok R v"
  unfolding ledger_ok_def
proof (intro conjI allI impI)
  show "DeliveryStatus_Valid s" if "lv_status v i = Some s" for i s by (rule assms(1)[OF that])
  show "s \<in> attempt_status" if "lv_attempt v a = Some (i, s)" for a i s using assms(2)[OF that] by blast
  show "lv_status v i \<noteq> None" if "lv_attempt v a = Some (i, s)" for a i s using assms(2)[OF that] by blast
qed (use assms(3-6) in metis)+

lemma pre_not_R:
  assumes "ledger_ok R v" and "lv_status v i = Some t" and "t \<in> pre_submission"
    and "lv_attempt v a = Some (i, s)"
  shows "a \<notin> R"
  using ok_R[OF assms(1) _ assms(4,2)] ok_pre[OF assms(1,4,2,3)] assms(3)
  by (auto simp: status_sets)

text \<open>How the two maps change, one rule per kind of change.\<close>

lemma ok_status_only:
  assumes ok: "ledger_ok R v" and t: "DeliveryStatus_Valid t"
    and pre: "\<And>a s. t \<in> pre_submission \<Longrightarrow> lv_attempt v a = Some (i, s) \<Longrightarrow> s \<notin> reached_status"
    and R: "\<And>a s. a \<in> R \<Longrightarrow> lv_attempt v a = Some (i, s) \<Longrightarrow> s \<in> reached_status \<or> t \<in> settled"
  shows "ledger_ok R (v\<lparr>lv_status := (lv_status v)(i := Some t)\<rparr>)"
proof (rule ledger_okI)
  let ?v = "v\<lparr>lv_status := (lv_status v)(i := Some t)\<rparr>"
  show "DeliveryStatus_Valid s" if "lv_status ?v j = Some s" for j s
    using that ok_valid[OF ok] t by (cases "j = i") auto
  show "s \<in> attempt_status \<and> lv_status ?v j \<noteq> None" if "lv_attempt ?v a = Some (j, s)" for a j s
    using that ok_attempt[OF ok] by (cases "j = i") auto
  show "a = b" if "lv_attempt ?v a = Some (j, s)" "lv_attempt ?v b = Some (j, w)"
      "s \<in> reached_status" "w \<in> reached_status" for a b j s w
    using that ok_one[OF ok] by simp
  show "s \<notin> reached_status" if "lv_attempt ?v a = Some (j, s)" "lv_status ?v j = Some w"
      "w \<in> pre_submission" for a j s w
    using that ok_pre[OF ok] pre by (cases "j = i") auto
  show "s \<in> reached_status \<or> w \<in> settled" if "a \<in> R" "lv_attempt ?v a = Some (j, s)"
      "lv_status ?v j = Some w" for a j s w
    using that ok_R[OF ok] R by (cases "j = i") auto
  show "a = b" if "a \<in> R" "b \<in> R" "lv_attempt ?v a = Some (j, s)" "lv_attempt ?v b = Some (j, w)"
    for a b j s w
    using that ok_R_one[OF ok] by simp
qed

lemma upd_SomeD:
  "(m(a := Some (i, u))) b = Some (j, s) \<Longrightarrow> (b = a \<and> j = i \<and> s = u) \<or> (b \<noteq> a \<and> m b = Some (j, s))"
  by (simp split: if_splits)

lemma ok_attempt_change:
  assumes ok: "ledger_ok R v" and u: "u \<in> attempt_status" and i: "lv_status v i \<noteq> None"
    and one: "\<And>b t. u \<in> reached_status \<Longrightarrow> lv_attempt v b = Some (i, t) \<Longrightarrow> t \<in> reached_status \<Longrightarrow> b = a"
    and pre: "\<And>t. lv_status v i = Some t \<Longrightarrow> t \<in> pre_submission \<Longrightarrow> u \<notin> reached_status"
    and R: "\<And>t. a \<in> R \<Longrightarrow> lv_status v i = Some t \<Longrightarrow> u \<in> reached_status \<or> t \<in> settled"
    and R_one: "\<And>b t. a \<in> R \<Longrightarrow> b \<in> R \<Longrightarrow> lv_attempt v b = Some (i, t) \<Longrightarrow> a = b"
  shows "ledger_ok R \<lparr>lv_status = lv_status v, lv_attempt = (lv_attempt v)(a := Some (i, u))\<rparr>"
proof (rule ledger_okI, unfold ledger_view.select_convs)
  let ?att = "(lv_attempt v)(a := Some (i, u))"
  show "DeliveryStatus_Valid s" if "lv_status v j = Some s" for j s by (rule ok_valid[OF ok that])
  show "s' \<in> attempt_status \<and> lv_status v j \<noteq> None" if "?att b = Some (j, s')" for b j s'
    using upd_SomeD[OF that] ok_attempt[OF ok] u i by blast
  show "b = c" if "?att b = Some (j, s')" "?att c = Some (j, t')" "s' \<in> reached_status"
      "t' \<in> reached_status" for b c j s' t'
    using upd_SomeD[OF that(1)] upd_SomeD[OF that(2)] that(3,4) ok_one[OF ok] one by metis
  show "s' \<notin> reached_status" if "?att b = Some (j, s')" "lv_status v j = Some t'"
      "t' \<in> pre_submission" for b j s' t'
    using upd_SomeD[OF that(1)] that(2,3) ok_pre[OF ok] pre by metis
  show "s' \<in> reached_status \<or> t' \<in> settled" if "b \<in> R" "?att b = Some (j, s')"
      "lv_status v j = Some t'" for b j s' t'
    using upd_SomeD[OF that(2)] that(1,3) ok_R[OF ok] R by metis
  show "b = c" if "b \<in> R" "c \<in> R" "?att b = Some (j, s')" "?att c = Some (j, t')" for b c j s' t'
    using upd_SomeD[OF that(3)] upd_SomeD[OF that(4)] that(1,2) ok_R_one[OF ok] R_one by metis
qed

lemma attempt_transition:
  "CanTransitionTo s u \<Longrightarrow> s \<in> attempt_status \<Longrightarrow> u \<in> attempt_status \<Longrightarrow>
   s \<in> {DS_Submitting, DS_ProviderAccepted, DS_Unknown} \<or> (s = DS_TransientFailed \<and> u = DS_TerminalFailed)"
  by (cases s) (auto simp: CanTransitionTo_iff status_sets)

lemma not_settled_transition: "CanTransitionTo t u \<Longrightarrow> t \<notin> settled"
  by (auto simp: CanTransitionTo_iff settled_def)

text \<open>An intent and one of its attempts move together.\<close>

lemma ok_both:
  assumes ok: "ledger_ok R v" and a: "lv_attempt v a = Some (i, s)" and i: "lv_status v i = Some t"
    and nt: "t \<notin> settled" and t': "DeliveryStatus_Valid t'" and u: "u \<in> attempt_status"
    and one: "u \<in> reached_status \<Longrightarrow> s \<in> reached_status"
    and reach: "u \<notin> reached_status \<Longrightarrow> t' \<in> pre_submission \<Longrightarrow> s \<in> reached_status"
    and pre: "t' \<in> pre_submission \<Longrightarrow> u \<notin> reached_status \<and> a \<notin> R"
    and R: "u \<notin> reached_status \<Longrightarrow> t' \<in> pre_submission \<or> t' \<in> settled"
  shows "ledger_ok R \<lparr>lv_status = (lv_status v)(i := Some t'), lv_attempt = (lv_attempt v)(a := Some (i, u))\<rparr>"
proof -
  have others: "b \<noteq> a \<Longrightarrow> lv_attempt v b = Some (i, w) \<Longrightarrow> s \<in> reached_status \<Longrightarrow> w \<notin> reached_status"
    for b w using ok_one[OF ok a] by blast
  have Rothers: "b \<in> R \<Longrightarrow> lv_attempt v b = Some (i, w) \<Longrightarrow> w \<in> reached_status" for b w
    using ok_R[OF ok _ _ i] nt by blast
  let ?att = "(lv_attempt v)(a := Some (i, u))"
  let ?st = "(lv_status v)(i := Some t')"
  have st: "?st j = Some w \<Longrightarrow> (j = i \<and> w = t') \<or> (j \<noteq> i \<and> lv_status v j = Some w)" for j w
    by (simp split: if_splits)
  show ?thesis
  proof (rule ledger_okI, unfold ledger_view.select_convs)
    show "DeliveryStatus_Valid w" if "?st j = Some w" for j w
      using st[OF that] ok_valid[OF ok] t' by metis
    show "w \<in> attempt_status \<and> ?st j \<noteq> None" if "?att b = Some (j, w)" for b j w
      using upd_SomeD[OF that] ok_attempt[OF ok] u by (metis fun_upd_apply option.distinct(1))
    show "b = c" if "?att b = Some (j, w)" "?att c = Some (j, w')" "w \<in> reached_status"
        "w' \<in> reached_status" for b c j w w'
      using upd_SomeD[OF that(1)] upd_SomeD[OF that(2)] that(3,4) ok_one[OF ok] others one by metis
    show "w \<notin> reached_status" if "?att b = Some (j, w)" "?st j = Some w'" "w' \<in> pre_submission" for b j w w'
      using upd_SomeD[OF that(1)] st[OF that(2)] that(3) ok_pre[OF ok] others pre reach by metis
    show "w \<in> reached_status \<or> w' \<in> settled" if "b \<in> R" "?att b = Some (j, w)" "?st j = Some w'" for b j w w'
      using upd_SomeD[OF that(2)] st[OF that(3)] that(1) ok_R[OF ok] Rothers R pre by metis
    show "b = c" if "b \<in> R" "c \<in> R" "?att b = Some (j, w)" "?att c = Some (j, w')" for b c j w w'
      using upd_SomeD[OF that(3)] upd_SomeD[OF that(4)] that(1,2) ok_R_one[OF ok] a by metis
  qed
qed

theorem ledger_step_ok: "ledger_step R v v' \<Longrightarrow> ledger_ok R v \<Longrightarrow> ledger_ok R v'"
proof (induction rule: ledger_step.induct)
  case (stay v)
  then show ?case .
next
  case (reserve v i s)
  then have "lv_attempt v a \<noteq> Some (i, w)" for a w using ok_attempt[OF reserve(3)] by blast
  with reserve show ?case by (intro ok_status_only) auto
next
  case (move v i s t)
  note none = ok_pre[OF move(4) _ move(1,2)] and noR = pre_not_R[OF move(4,1,2)]
  show ?case using move none noR by (intro ok_status_only) (auto simp: status_sets)
next
  case (start v i s a)
  have pre: "s \<in> pre_submission" using start(2) by (auto simp: status_sets)
  note none = ok_pre[OF start(4) _ start(1) pre] and noR = pre_not_R[OF start(4,1) pre]
  have w: "ledger_ok R (v\<lparr>lv_status := (lv_status v)(i := Some DS_Submitting)\<rparr>)"
    using start(4) none noR by (intro ok_status_only) (auto simp: status_sets)
  have "ledger_ok R
      \<lparr>lv_status = lv_status (v\<lparr>lv_status := (lv_status v)(i := Some DS_Submitting)\<rparr>),
       lv_attempt = (lv_attempt (v\<lparr>lv_status := (lv_status v)(i := Some DS_Submitting)\<rparr>))
         (a := Some (i, DS_Submitting))\<rparr>"
    using start(3) none noR by (intro ok_attempt_change[OF w]) (auto simp: status_sets)
  then show ?case by simp
next
  case (outcome v a i s t u)
  have s: "s \<in> attempt_status" using ok_attempt[OF outcome(7,1)] by blast
  note cases = attempt_transition[OF outcome(3) s outcome(5)]
  show ?case
  proof (rule ok_both[OF outcome(7,1,2) not_settled_transition[OF outcome(4)]])
    show "DeliveryStatus_Valid u" using outcome(5) by (auto simp: status_sets)
    show "u \<in> attempt_status" by (rule outcome(5))
    show "u \<in> reached_status \<Longrightarrow> s \<in> reached_status" using cases by (auto simp: status_sets)
    show "u \<notin> reached_status \<Longrightarrow> u \<in> pre_submission \<Longrightarrow> s \<in> reached_status"
      using cases by (auto simp: status_sets)
    show "u \<in> pre_submission \<Longrightarrow> u \<notin> reached_status \<and> a \<notin> R"
      using outcome(5,6) by (auto simp: status_sets)
    show "u \<notin> reached_status \<Longrightarrow> u \<in> pre_submission \<or> u \<in> settled"
      using outcome(5) by (auto simp: status_sets)
  qed
next
  case (resolve v a i t u)
  then show ?case by (intro ok_both[OF resolve(4,1,2)]) (auto simp: status_sets)
next
  case (receipt_both v a i s t u)
  then show ?case by (intro ok_both[OF receipt_both(6,1,2)]) (auto simp: status_sets)
next
  case (receipt_intent v i t u)
  have "t \<notin> settled" using receipt_intent(2) by (auto simp: status_sets)
  then have R: "a \<in> R \<Longrightarrow> lv_attempt v a = Some (i, s) \<Longrightarrow> s \<in> reached_status" for a s
    using ok_R[OF receipt_intent(4) _ _ receipt_intent(1)] by blast
  show ?case using receipt_intent R by (intro ok_status_only) (auto simp: status_sets)
next
  case (receipt_attempt v a i s t u)
  have s: "s \<in> reached_status" using receipt_attempt(3) by (auto simp: status_sets)
  have np: "t \<notin> pre_submission" using ok_pre[OF receipt_attempt(6,1,2)] s by blast
  have val: "DeliveryStatus_Valid t" by (rule ok_valid[OF receipt_attempt(6,2)])
  have t: "t \<in> settled \<or> t = DS_ProviderAccepted"
    using np receipt_attempt(4) val by (cases t) (auto simp: status_sets)
  have eq: "v\<lparr>lv_attempt := m\<rparr> = \<lparr>lv_status = lv_status v, lv_attempt = m\<rparr>" for m by (cases v) simp
  show ?case unfolding eq
  proof (rule ok_attempt_change[OF receipt_attempt(6)])
    show "u \<in> attempt_status" using receipt_attempt(5) by (auto simp: status_sets)
    show "lv_status v i \<noteq> None" using receipt_attempt(2) by simp
    show "b = a" if "lv_attempt v b = Some (i, w)" "w \<in> reached_status" for b w
      using ok_one[OF receipt_attempt(6) that(1) receipt_attempt(1) that(2) s] .
    show "u \<notin> reached_status" if "lv_status v i = Some w" "w \<in> pre_submission" for w
      using that np receipt_attempt(2) by simp
    show "u \<in> reached_status \<or> w \<in> settled" if "lv_status v i = Some w" for w
      using that t receipt_attempt(2,5) by (auto simp: status_sets)
    show "a = b" if "a \<in> R" "b \<in> R" "lv_attempt v b = Some (i, w)" for b w
      using ok_R_one[OF receipt_attempt(6) that(1,2) receipt_attempt(1) that(3)] .
  qed
qed

text \<open>A settled intent stays as it is.\<close>

theorem settled_stays:
  "ledger_step R v v' \<Longrightarrow> lv_status v i = Some s \<Longrightarrow> s \<in> settled \<Longrightarrow> lv_status v' i = Some s"
proof (induction rule: ledger_step.induct)
  case (outcome v a j w t u)
  then have "j \<noteq> i" using not_settled_transition[OF outcome(4)] by auto
  with outcome show ?case by simp
qed (auto simp: status_sets)

end
