(* ===== verification/Email_Error.thy ===== *)
theory Email_Error
  imports Go_Prelude
begin

text \<open>
  \<open>pkg/emailerror\<close>: the classifier that decides, from the text of a send error and the
  provider it came from, whether the recipient or the provider is at fault and whether
  the send may be retried. The queue worker feeds the result to the circuit breaker and
  to the retry decision. Texts are ASCII; the three regular expressions of
  \<open>classifier.go\<close> are hand-written matchers with RE2's leftmost-first choice.
\<close>

section \<open>Types\<close>

text \<open>\<open>ErrorType\<close> and \<open>EmailProviderKind\<close> are Go string types; the last
  constructor of the latter stands for every other string.\<close>

datatype error_type = ErrorTypeRecipient | ErrorTypeProvider | ErrorTypeUnknown

datatype email_provider_kind =
    SMTP | SES | SparkPost | Postmark | Mailgun | Mailjet | SendGrid | OtherKind string

record classified_error =
  ce_original :: string
  ce_type :: error_type
  ce_provider :: string
  ce_http_status :: int
  ce_retryable :: bool

definition IsRecipientError :: "classified_error \<Rightarrow> bool" where
  "IsRecipientError e = (ce_type e = ErrorTypeRecipient)"

definition IsProviderError :: "classified_error \<Rightarrow> bool" where
  "IsProviderError e = (ce_type e = ErrorTypeProvider \<or> ce_type e = ErrorTypeUnknown)"

definition ShouldTriggerCircuitBreaker :: "classified_error \<Rightarrow> bool" where
  "ShouldTriggerCircuitBreaker e = IsProviderError e"

section \<open>HTTP status extraction\<close>

text \<open>\<open>(\d{3})\<close> at the head of the text: the value of the group.\<close>

fun three_digits :: "string \<Rightarrow> int option" where
  "three_digits (a # b # c # _) =
     (if is_digit a \<and> is_digit b \<and> is_digit c
      then Some (int (100 * digit_val a + 10 * digit_val b + digit_val c)) else None)"
| "three_digits _ = None"

text \<open>
  \<open>(?i)status[_\s]code[:\s]*(\d{3})\<close> at the head. \<open>[:\s]\<close> and \<open>\d\<close> are disjoint,
  so the greedy star never has to give a character back.
\<close>

definition match_status_at :: "string \<Rightarrow> int option" where
  "match_status_at s =
     (if is_prefix ''status'' (to_lower s)
      then (case drop 6 s of
              [] \<Rightarrow> None
            | c # r \<Rightarrow>
                if (c = CHR ''_'' \<or> is_re_space c) \<and> is_prefix ''code'' (to_lower r)
                then three_digits (dropWhile (\<lambda>c. c = CHR '':'' \<or> is_re_space c) (drop 4 r))
                else None)
      else None)"

text \<open>
  \<open>(?i)http[/\d.]*\s*(\d{3})\<close> at the head. The class of the first star contains the
  digits of the group, so the star is tried with its longest run first and gives
  characters back one at a time (\<open>n\<close> is the number of characters it keeps).
\<close>

definition http_class :: "char \<Rightarrow> bool" where
  "http_class c = (c = CHR ''/'' \<or> is_digit c \<or> c = CHR ''.'')"

fun http_backtrack :: "nat \<Rightarrow> string \<Rightarrow> int option" where
  "http_backtrack 0 s = three_digits (dropWhile is_re_space s)"
| "http_backtrack (Suc n) s =
     (case three_digits (dropWhile is_re_space (drop (Suc n) s)) of
        Some v \<Rightarrow> Some v
      | None \<Rightarrow> http_backtrack n s)"

definition match_http_at :: "string \<Rightarrow> int option" where
  "match_http_at s =
     (if is_prefix ''http'' (to_lower s)
      then (let r = drop 4 s in http_backtrack (length (takeWhile http_class r)) r)
      else None)"

text \<open>\<open>[\[(](\d{3})[\])]\<close> at the head.\<close>

definition match_bracket_at :: "string \<Rightarrow> int option" where
  "match_bracket_at s =
     (case s of
        [] \<Rightarrow> None
      | o' # r \<Rightarrow>
          if o' = CHR ''['' \<or> o' = CHR ''(''
          then (case drop 3 r of
                  c # _ \<Rightarrow> if c = CHR '']'' \<or> c = CHR '')'' then three_digits r else None
                | [] \<Rightarrow> None)
          else None)"

text \<open>\<open>FindStringSubmatch\<close>: the leftmost position where the pattern matches.\<close>

fun find_submatch :: "(string \<Rightarrow> int option) \<Rightarrow> string \<Rightarrow> int option" where
  "find_submatch m [] = m []"
| "find_submatch m (c # cs) = (case m (c # cs) of Some v \<Rightarrow> Some v | None \<Rightarrow> find_submatch m cs)"

definition extractHTTPStatus :: "string \<Rightarrow> int" where
  "extractHTTPStatus s =
     (case find_submatch match_status_at s of
        Some v \<Rightarrow> v
      | None \<Rightarrow>
          (case find_submatch match_http_at s of
             Some v \<Rightarrow> v
           | None \<Rightarrow>
               (case find_submatch match_bracket_at s of
                  Some v \<Rightarrow> v
                | None \<Rightarrow> 0)))"

definition classifyByHTTPStatus :: "int \<Rightarrow> error_type" where
  "classifyByHTTPStatus status =
     (if status = 406 then ErrorTypeRecipient
      else if status = 429 then ErrorTypeProvider
      else if status \<ge> 500 then ErrorTypeProvider
      else if status = 401 \<or> status = 403 then ErrorTypeProvider
      else if status \<ge> 400 \<and> status < 500 then ErrorTypeUnknown
      else ErrorTypeUnknown)"

definition containsAny :: "string \<Rightarrow> string list \<Rightarrow> bool" where
  "containsAny errStr patterns =
     (let errLower = to_lower errStr
      in list_ex (\<lambda>p. str_contains errLower (to_lower p)) patterns)"

section \<open>Provider classifiers\<close>

text \<open>\<open>result := &ClassifiedError{..., Retryable: true}\<close> with the type then set.\<close>

definition mk_classified ::
  "string \<Rightarrow> string \<Rightarrow> int \<Rightarrow> error_type \<Rightarrow> bool \<Rightarrow> classified_error" where
  "mk_classified err provider status ty retry =
     \<lparr>ce_original = err, ce_type = ty, ce_provider = provider, ce_http_status = status,
      ce_retryable = retry\<rparr>"

text \<open>The fallback every provider's classifier ends with.\<close>

definition http_fallback :: "string \<Rightarrow> string \<Rightarrow> int \<Rightarrow> classified_error" where
  "http_fallback err provider status =
     (if status > 0
      then mk_classified err provider status (classifyByHTTPStatus status)
             (status \<ge> 500 \<or> status = 429)
      else mk_classified err provider status ErrorTypeUnknown True)"

definition smtpRecipientPatterns :: "string list" where
  "smtpRecipientPatterns =
     [''550 '', ''550:'', ''551 '', ''551:'', ''552 '', ''552:'', ''553 '', ''553:'',
      ''5.1.1'', ''5.1.2'', ''5.1.3'', ''5.2.1'', ''5.2.2'', ''5.7.1'',
      ''mailbox unavailable'', ''mailbox not found'', ''user unknown'', ''no such user'',
      ''recipient rejected'', ''does not exist'', ''mailbox full'', ''over quota'']"

definition smtpProviderPatterns :: "string list" where
  "smtpProviderPatterns =
     [''421 '', ''421:'', ''450 '', ''450:'', ''451 '', ''451:'', ''452 '', ''452:'',
      ''4.7.1'', ''connection refused'', ''connection reset'', ''connection timeout'',
      ''timed out'', ''timeout'', ''tls handshake'', ''tls error'', ''ssl error'',
      ''authentication failed'', ''auth failed'', ''login failed'', ''service unavailable'',
      ''try again later'', ''temporary failure'', ''greylisted'', ''greylist'']"

definition classifySMTPError :: "string \<Rightarrow> int \<Rightarrow> classified_error" where
  "classifySMTPError err status =
     (if containsAny err smtpRecipientPatterns
      then mk_classified err ''smtp'' status ErrorTypeRecipient False
      else if containsAny err smtpProviderPatterns
      then mk_classified err ''smtp'' status ErrorTypeProvider True
      else http_fallback err ''smtp'' status)"

definition sesRecipientPatterns :: "string list" where
  "sesRecipientPatterns =
     [''messagerejected'', ''email address is not verified'', ''invalid recipient'',
      ''mailbox unavailable'', ''mailbox not found'', ''user unknown'', ''address rejected'',
      ''no recipients'', ''recipient rejected'']"

definition sesProviderPatterns :: "string list" where
  "sesProviderPatterns =
     [''throttling'', ''throttlingexception'', ''limitexceeded'', ''quota exceeded'',
      ''daily message quota'', ''serviceunavailable'', ''service unavailable'',
      ''accessdenied'', ''accessdeniedexception'', ''invalidclienttokenid'',
      ''signaturedoesnotmatch'', ''expiredtoken'', ''expired token'', ''account is paused'',
      ''account paused'', ''sending paused'', ''configurationset'']"

definition classifySESError :: "string \<Rightarrow> int \<Rightarrow> classified_error" where
  "classifySESError err status =
     (if containsAny err sesRecipientPatterns
      then if containsAny err [''sender'', ''from address''] \<and> containsAny err [''not verified'']
           then mk_classified err ''ses'' status ErrorTypeProvider False
           else mk_classified err ''ses'' status ErrorTypeRecipient False
      else if containsAny err sesProviderPatterns
      then mk_classified err ''ses'' status ErrorTypeProvider
             (containsAny err [''throttl'', ''quota''])
      else http_fallback err ''ses'' status)"

definition mailgunRecipientPatterns :: "string list" where
  "mailgunRecipientPatterns =
     [''550 '', ''550:'', ''551 '', ''551:'', ''552 '', ''552:'', ''553 '', ''553:'',
      ''554 '', ''554:'', ''mailbox unavailable'', ''mailbox not found'', ''user not found'',
      ''user unknown'', ''no such user'', ''recipient rejected'', ''invalid recipient'',
      ''does not exist'', ''storage exceeded'', ''mailbox full'']"

definition mailgunProviderPatterns :: "string list" where
  "mailgunProviderPatterns =
     [''421 '', ''421:'', ''unauthorized'', ''forbidden'', ''rate limit'',
      ''too many requests'', ''service unavailable'', ''internal server error'',
      ''bad gateway'', ''authentication failed'', ''invalid api key'', ''api key'']"

definition classifyMailgunError :: "string \<Rightarrow> int \<Rightarrow> classified_error" where
  "classifyMailgunError err status =
     (if containsAny err mailgunRecipientPatterns
      then mk_classified err ''mailgun'' status ErrorTypeRecipient False
      else if containsAny err mailgunProviderPatterns
      then mk_classified err ''mailgun'' status ErrorTypeProvider
             (status \<ge> 500 \<or> status = 429 \<or>
              containsAny err [''421'', ''rate limit'', ''too many'', ''service unavailable''])
      else http_fallback err ''mailgun'' status)"

definition mailjetRecipientPatterns :: "string list" where
  "mailjetRecipientPatterns =
     [''hard_bounce'', ''hardbounce'', ''hard bounce'', ''error_related_to.*recipient'',
      ''blocked'', ''preblocked'', ''invalid recipient'', ''recipient rejected'',
      ''user unknown'', ''mailbox not found'', ''duplicate in campaign'']"

definition mailjetProviderPatterns :: "string list" where
  "mailjetProviderPatterns =
     [''unauthorized'', ''authentication'', ''not found'', ''rate limit'',
      ''too many requests'', ''service unavailable'', ''internal server error'',
      ''bad gateway'', ''api key'']"

definition classifyMailjetError :: "string \<Rightarrow> int \<Rightarrow> classified_error" where
  "classifyMailjetError err status =
     (if containsAny err mailjetRecipientPatterns
      then mk_classified err ''mailjet'' status ErrorTypeRecipient False
      else if containsAny err mailjetProviderPatterns
      then mk_classified err ''mailjet'' status ErrorTypeProvider
             (status \<ge> 500 \<or> status = 429 \<or> containsAny err [''rate limit'', ''too many''])
      else http_fallback err ''mailjet'' status)"

definition postmarkRecipientPatterns :: "string list" where
  "postmarkRecipientPatterns =
     [''inactive recipient'', ''invalid email'', ''invalid address'', ''hard bounce'',
      ''hardbounce'', ''unsubscribed'', ''spam complaint'', ''recipient not found'',
      ''mailbox not found'']"

definition postmarkProviderPatterns :: "string list" where
  "postmarkProviderPatterns =
     [''rate limit'', ''ratelimit'', ''too many requests'', ''unauthorized'',
      ''authentication'', ''invalid api'', ''api key'', ''server error'', ''internal error'',
      ''service unavailable'']"

definition classifyPostmarkError :: "string \<Rightarrow> int \<Rightarrow> classified_error" where
  "classifyPostmarkError err status =
     (if status = 406
      then mk_classified err ''postmark'' status ErrorTypeRecipient False
      else if containsAny err postmarkRecipientPatterns
      then mk_classified err ''postmark'' status ErrorTypeRecipient False
      else if containsAny err postmarkProviderPatterns
      then mk_classified err ''postmark'' status ErrorTypeProvider
             (status \<ge> 500 \<or> status = 429 \<or> containsAny err [''rate limit'', ''too many''])
      else http_fallback err ''postmark'' status)"

definition sendgridRecipientPatterns :: "string list" where
  "sendgridRecipientPatterns =
     [''invalid email'', ''mailbox not found'', ''user unknown'', ''does not exist'',
      ''invalid recipient'', ''recipient rejected'', ''550'', ''551'', ''552'', ''553'',
      ''554'', ''no such user'', ''address rejected'']"

definition sendgridProviderPatterns :: "string list" where
  "sendgridProviderPatterns =
     [''rate limit'', ''too many requests'', ''throttl'', ''service unavailable'',
      ''internal server error'', ''authentication'', ''unauthorized'', ''forbidden'',
      ''api error'', ''timeout'']"

definition classifySendGridError :: "string \<Rightarrow> int \<Rightarrow> classified_error" where
  "classifySendGridError err status =
     (if containsAny err sendgridRecipientPatterns
      then mk_classified err ''sendgrid'' status ErrorTypeRecipient False
      else if containsAny err sendgridProviderPatterns
      then mk_classified err ''sendgrid'' status ErrorTypeProvider
             (status \<ge> 500 \<or> status = 429 \<or>
              containsAny err [''rate limit'', ''too many'', ''throttl'', ''timeout'',
                ''service unavailable''])
      else http_fallback err ''sendgrid'' status)"

definition sparkpostRecipientPatterns :: "string list" where
  "sparkpostRecipientPatterns =
     [''5002'', ''2008'', ''no valid recipients'', ''invalid recipient'',
      ''recipient rejected'', ''mailbox not found'', ''user unknown'']"

definition sparkpostProviderPatterns :: "string list" where
  "sparkpostProviderPatterns =
     [''rate limit'', ''too many requests'', ''throttl'', ''service unavailable'',
      ''internal server error'', ''transmission error'', ''sending limit'', ''api error'',
      ''authentication'', ''unauthorized'']"

definition classifySparkPostError :: "string \<Rightarrow> int \<Rightarrow> classified_error" where
  "classifySparkPostError err status =
     (if containsAny err sparkpostRecipientPatterns
      then mk_classified err ''sparkpost'' status ErrorTypeRecipient False
      else if containsAny err sparkpostProviderPatterns
      then mk_classified err ''sparkpost'' status ErrorTypeProvider
             (status \<ge> 500 \<or> status = 429 \<or>
              containsAny err [''rate limit'', ''too many'', ''throttl''])
      else http_fallback err ''sparkpost'' status)"

definition classifyUnknownProvider :: "string \<Rightarrow> int \<Rightarrow> classified_error" where
  "classifyUnknownProvider err status =
     (if status > 0
      then mk_classified err ''unknown'' status (classifyByHTTPStatus status)
             (status \<ge> 500 \<or> status = 429)
      else mk_classified err ''unknown'' status ErrorTypeUnknown True)"

text \<open>\<open>Classify(nil, _)\<close> is nil.\<close>

definition Classify :: "string option \<Rightarrow> email_provider_kind \<Rightarrow> classified_error option" where
  "Classify err provider =
     (case err of
        None \<Rightarrow> None
      | Some errStr \<Rightarrow>
          (let httpStatus = extractHTTPStatus errStr
           in Some (case provider of
                SES \<Rightarrow> classifySESError errStr httpStatus
              | Postmark \<Rightarrow> classifyPostmarkError errStr httpStatus
              | Mailgun \<Rightarrow> classifyMailgunError errStr httpStatus
              | Mailjet \<Rightarrow> classifyMailjetError errStr httpStatus
              | SparkPost \<Rightarrow> classifySparkPostError errStr httpStatus
              | SMTP \<Rightarrow> classifySMTPError errStr httpStatus
              | SendGrid \<Rightarrow> classifySendGridError errStr httpStatus
              | OtherKind _ \<Rightarrow> classifyUnknownProvider errStr httpStatus)))"


section \<open>Correctness\<close>

lemma three_digits_SomeD:
  "three_digits s = Some v \<Longrightarrow>
     \<exists>a b c rest. s = [a, b, c] @ rest \<and> is_digit a \<and> is_digit b \<and> is_digit c \<and>
       v = int (100 * digit_val a + 10 * digit_val b + digit_val c)"
  by (cases s rule: three_digits.cases) (auto split: if_splits)

lemma three_digits_range: "three_digits s = Some v \<Longrightarrow> 0 \<le> v \<and> v \<le> 999"
proof -
  assume "three_digits s = Some v"
  then obtain a b c where "is_digit a" "is_digit b" "is_digit c"
    and v: "v = int (100 * digit_val a + 10 * digit_val b + digit_val c)"
    by (auto dest!: three_digits_SomeD)
  then have "digit_val a \<le> 9" "digit_val b \<le> 9" "digit_val c \<le> 9"
    by (auto simp: digit_val_le)
  then show ?thesis unfolding v by linarith
qed

lemma http_backtrack_iff:
  "http_backtrack n s \<noteq> None \<longleftrightarrow>
     (\<exists>k \<le> n. three_digits (dropWhile is_re_space (drop k s)) \<noteq> None)"
proof (induction n)
  case 0
  then show ?case by simp
next
  case (Suc n)
  then show ?case by (auto simp: le_Suc_eq split: option.splits)
qed

lemma http_backtrack_range: "http_backtrack n s = Some v \<Longrightarrow> 0 \<le> v \<and> v \<le> 999"
  by (induction n) (auto simp: three_digits_range dest: three_digits_range split: option.splits)

lemma find_submatch_SomeD: "find_submatch m s = Some v \<Longrightarrow> \<exists>u. m u = Some v"
  by (induction s) (auto split: option.splits)

lemma match_at_range:
  "match_status_at s = Some v \<Longrightarrow> 0 \<le> v \<and> v \<le> 999"
  "match_http_at s = Some v \<Longrightarrow> 0 \<le> v \<and> v \<le> 999"
  "match_bracket_at s = Some v \<Longrightarrow> 0 \<le> v \<and> v \<le> 999"
  using three_digits_range http_backtrack_range
  by (fastforce simp: match_status_at_def match_http_at_def match_bracket_at_def Let_def
      split: if_splits list.splits)+

lemma extractHTTPStatus_bounds: "0 \<le> extractHTTPStatus s \<and> extractHTTPStatus s \<le> 999"
  using match_at_range
  by (fastforce simp: extractHTTPStatus_def dest: find_submatch_SomeD split: option.splits)

text \<open>\<open>dropWhile\<close> stops in front of the digits, which are no space.\<close>

lemma digit_not_space: "is_digit c \<Longrightarrow> \<not> is_re_space c"
  unfolding is_digit_def is_re_space_def Let_def by auto

lemma three_digits_after_space_iff:
  "three_digits (dropWhile is_re_space s) \<noteq> None \<longleftrightarrow>
     (\<exists>ws d rest. s = ws @ d @ rest \<and> list_all is_re_space ws \<and> length d = 3 \<and> list_all is_digit d)"
  (is "?L \<longleftrightarrow> ?R")
proof
  assume ?L
  then obtain a b c rest where
    *: "dropWhile is_re_space s = [a, b, c] @ rest" "is_digit a" "is_digit b" "is_digit c"
    by (auto dest!: three_digits_SomeD)
  have "s = takeWhile is_re_space s @ [a, b, c] @ rest"
    by (metis *(1) takeWhile_dropWhile_id)
  moreover have "list_all is_re_space (takeWhile is_re_space s)"
    by (auto simp: list_all_iff dest: set_takeWhileD)
  ultimately show ?R using *(2-4)
    by (intro exI[of _ "takeWhile is_re_space s"] exI[of _ "[a, b, c]"] exI[of _ rest]) simp
next
  assume ?R
  then obtain ws d rest where
    *: "s = ws @ d @ rest" "list_all is_re_space ws" "length d = 3" "list_all is_digit d"
    by blast
  then obtain a b c where d: "d = [a, b, c]"
    by (auto simp: numeral_3_eq_3 length_Suc_conv)
  have "dropWhile is_re_space s = d @ rest"
    using * d by (auto simp: list_all_iff dropWhile_append2 digit_not_space)
  then show ?L using * d by simp
qed

lemma run_prefix_iff:
  "k \<le> length (takeWhile P r) \<longleftrightarrow> k \<le> length r \<and> list_all P (take k r)"
proof (induction r arbitrary: k)
  case (Cons a r)
  then show ?case by (cases k) auto
qed simp

text \<open>The greedy matcher with its backtracking finds exactly what the pattern describes.\<close>

lemma match_http_at_spec:
  "match_http_at s \<noteq> None \<longleftrightarrow>
     (\<exists>h run ws d rest. s = h @ run @ ws @ d @ rest \<and> to_lower h = ''http'' \<and>
        list_all http_class run \<and> list_all is_re_space ws \<and>
        length d = 3 \<and> list_all is_digit d)"
  (is "?L \<longleftrightarrow> ?R")
proof
  assume ?L
  then have pre: "is_prefix ''http'' (to_lower s)"
    and bt: "http_backtrack (length (takeWhile http_class (drop 4 s))) (drop 4 s) \<noteq> None"
    by (auto simp: match_http_at_def Let_def split: if_splits)
  from bt obtain k where k: "k \<le> length (takeWhile http_class (drop 4 s))"
    and td: "three_digits (dropWhile is_re_space (drop k (drop 4 s))) \<noteq> None"
    unfolding http_backtrack_iff by blast
  from td obtain ws d rest where
    r: "drop k (drop 4 s) = ws @ d @ rest" "list_all is_re_space ws" "length d = 3" "list_all is_digit d"
    unfolding three_digits_after_space_iff by blast
  have "to_lower (take 4 s) = ''http''"
    using pre by (auto simp: is_prefix_append_iff to_lower_def simp flip: take_map)
  moreover have "s = take 4 s @ take k (drop 4 s) @ ws @ d @ rest"
    by (metis r(1) append_take_drop_id)
  ultimately show ?R using r k by (metis run_prefix_iff)
next
  assume ?R
  then obtain h run ws d rest where
    s: "s = h @ run @ ws @ d @ rest" and h: "to_lower h = ''http''"
    and run: "list_all http_class run" and r: "list_all is_re_space ws" "length d = 3" "list_all is_digit d"
    by blast
  have len: "length h = 4" using h by (metis length_map to_lower_def length_Cons list.size(3) numeral_eq_Suc pred_numeral_simps(2) pred_numeral_simps(3) BitM.simps One_nat_def numeral_One)
  have pre: "is_prefix ''http'' (to_lower s)"
    using s h by (auto simp: is_prefix_append_iff to_lower_def)
  have "length run \<le> length (takeWhile http_class (drop 4 s))"
    using s len run by (simp add: run_prefix_iff)
  moreover have "three_digits (dropWhile is_re_space (drop (length run) (drop 4 s))) \<noteq> None"
  proof -
    have "drop (length run) (drop 4 s) = ws @ d @ rest" using s len by simp
    then show ?thesis unfolding three_digits_after_space_iff using r by blast
  qed
  ultimately have "http_backtrack (length (takeWhile http_class (drop 4 s))) (drop 4 s) \<noteq> None"
    unfolding http_backtrack_iff by blast
  then show ?L using pre by (simp add: match_http_at_def Let_def)
qed

subsection \<open>Case does not matter\<close>

lemma of_char_lower_char:
  "(of_char (lower_char c) :: nat) =
     (if 65 \<le> (of_char c :: nat) \<and> (of_char c :: nat) \<le> 90 then of_char c + 32 else of_char c)"
  by (simp add: lower_char_def Let_def)

lemma lower_char_class [simp]:
  "is_digit (lower_char c) = is_digit c"
  "is_re_space (lower_char c) = is_re_space c"
  unfolding is_digit_def is_re_space_def Let_def of_char_lower_char by auto

lemma lower_char_lower [simp]: "lower_char (lower_char c) = lower_char c"
  unfolding lower_char_def[of "lower_char c"] Let_def of_char_lower_char
  by (auto simp: lower_char_def)

lemma to_lower_to_lower [simp]: "to_lower (to_lower s) = to_lower s"
  by (simp add: to_lower_def)

lemma digit_val_lower [simp]: "is_digit c \<Longrightarrow> digit_val (lower_char c) = digit_val c"
  unfolding is_digit_def digit_val_def Let_def of_char_lower_char by auto

lemma lower_char_eq_iff:
  "\<not> (97 \<le> (of_char d :: nat) \<and> (of_char d :: nat) \<le> 122) \<Longrightarrow>
   \<not> (65 \<le> (of_char d :: nat) \<and> (of_char d :: nat) \<le> 90) \<Longrightarrow>
   lower_char c = d \<longleftrightarrow> c = d"
  using of_char_lower_char[of c] by (auto simp: lower_char_def Let_def split: if_splits)

lemma three_digits_lower [simp]: "three_digits (map lower_char s) = three_digits s"
  by (cases s rule: three_digits.cases) auto

lemma dropWhile_lower:
  "(\<And>c. P (lower_char c) = P c) \<Longrightarrow> dropWhile P (map lower_char s) = map lower_char (dropWhile P s)"
  by (simp add: dropWhile_map comp_def)

lemma takeWhile_lower:
  "(\<And>c. P (lower_char c) = P c) \<Longrightarrow> takeWhile P (map lower_char s) = map lower_char (takeWhile P s)"
  by (simp add: takeWhile_map comp_def)

lemma http_class_lower [simp]: "http_class (lower_char c) = http_class c"
  by (simp add: http_class_def lower_char_eq_iff)

lemma http_backtrack_lower [simp]: "http_backtrack n (map lower_char s) = http_backtrack n s"
  by (induction n) (auto simp: dropWhile_lower drop_map split: option.split)

lemma match_at_lower [simp]:
  "match_status_at (map lower_char s) = match_status_at s"
  "match_http_at (map lower_char s) = match_http_at s"
  "match_bracket_at (map lower_char s) = match_bracket_at s"
proof -
  show "match_status_at (map lower_char s) = match_status_at s"
    by (simp add: match_status_at_def to_lower_def drop_map dropWhile_lower lower_char_eq_iff
        comp_def split: list.splits)
  show "match_http_at (map lower_char s) = match_http_at s"
    by (simp add: match_http_at_def to_lower_def drop_map takeWhile_lower Let_def comp_def)
  show "match_bracket_at (map lower_char s) = match_bracket_at s"
    by (cases s) (auto simp: match_bracket_at_def lower_char_eq_iff drop_map split: list.splits)
qed

lemma find_submatch_lower:
  "(\<And>u. m (map lower_char u) = m u) \<Longrightarrow> find_submatch m (map lower_char s) = find_submatch m s"
proof (induction s)
  case (Cons c s)
  from Cons.prems[of "c # s"] Cons show ?case by (auto split: option.split)
qed (use in \<open>auto dest: meta_spec[of _ "[]"]\<close>)

lemma extractHTTPStatus_lower: "extractHTTPStatus (to_lower s) = extractHTTPStatus s"
  by (simp add: extractHTTPStatus_def to_lower_def find_submatch_lower split: option.split)

lemma containsAny_lower: "containsAny (to_lower s) ps = containsAny s ps"
  by (simp add: containsAny_def)


lemmas classifier_defs =
  classifySESError_def classifyPostmarkError_def classifyMailgunError_def
  classifyMailjetError_def classifySparkPostError_def classifySMTPError_def
  classifySendGridError_def classifyUnknownProvider_def http_fallback_def

subsection \<open>Verdicts\<close>

lemma mk_classified_sel [simp]:
  "ce_type (mk_classified e p st ty r) = ty" "ce_retryable (mk_classified e p st ty r) = r"
  "ce_http_status (mk_classified e p st ty r) = st" "ce_original (mk_classified e p st ty r) = e"
  by (simp_all add: mk_classified_def)

lemma classifyByHTTPStatus_recipient_iff:
  "classifyByHTTPStatus st = ErrorTypeRecipient \<longleftrightarrow> st = 406"
  by (simp add: classifyByHTTPStatus_def)

lemma http_fallback_recipient:
  "ce_type (http_fallback e p st) = ErrorTypeRecipient \<Longrightarrow> \<not> ce_retryable (http_fallback e p st)"
  by (auto simp: http_fallback_def classifyByHTTPStatus_recipient_iff split: if_splits)

lemma classifyUnknownProvider_eq: "classifyUnknownProvider e st = http_fallback e ''unknown'' st"
  by (simp add: classifyUnknownProvider_def http_fallback_def)

lemma IsProviderError_iff: "IsProviderError e \<longleftrightarrow> \<not> IsRecipientError e"
  by (cases "ce_type e") (auto simp: IsProviderError_def IsRecipientError_def)

text \<open> A send error that is blamed on the recipient is never retried, whatever the
  provider, and it is exactly the errors not blamed on the recipient that count toward the
  circuit breaker.\<close>

theorem Classify_recipient_final:
  assumes "Classify (Some err) provider = Some ce"
  shows "(IsRecipientError ce \<longrightarrow> \<not> ce_retryable ce) \<and>
         (ShouldTriggerCircuitBreaker ce \<longleftrightarrow> \<not> IsRecipientError ce)"
proof -
  have "IsRecipientError ce \<longrightarrow> \<not> ce_retryable ce"
    using assms http_fallback_recipient
    by (cases provider)
       (auto simp: Classify_def Let_def IsRecipientError_def classifyUnknownProvider_eq
          classifySESError_def classifyPostmarkError_def classifyMailgunError_def
          classifyMailjetError_def classifySparkPostError_def classifySMTPError_def
          classifySendGridError_def split: if_splits)
  then show ?thesis by (simp add: ShouldTriggerCircuitBreaker_def IsProviderError_iff)
qed

theorem Classify_recipient_final_witness:
  "\<exists>ce. Classify (Some ''550 5.1.1 user unknown'') SMTP = Some ce \<and> IsRecipientError ce \<and>
     \<not> ce_retryable ce \<and> \<not> ShouldTriggerCircuitBreaker ce"
proof -
  have c: "Classify (Some ''550 5.1.1 user unknown'') SMTP =
      Some (mk_classified ''550 5.1.1 user unknown'' ''smtp'' 0 ErrorTypeRecipient False)"
    by code_simp
  show ?thesis
    using Classify_recipient_final[OF c] c by (simp add: IsRecipientError_def)
qed


text \<open> The matcher for \<open>(?i)http[/\d.]*\s*(\d{3})\<close>, with its greedy star and its
  backtracking, succeeds at the head of a text exactly when the text is "http" in any case,
  a run of the star's class, spaces, and three digits; and the status extracted from any
  text lies between 0 and 999.\<close>

theorem http_status_matcher_correct:
  "(match_http_at s \<noteq> None \<longleftrightarrow>
     (\<exists>h run ws d rest. s = h @ run @ ws @ d @ rest \<and> to_lower h = ''http'' \<and>
        list_all http_class run \<and> list_all is_re_space ws \<and>
        length d = 3 \<and> list_all is_digit d)) \<and>
   0 \<le> extractHTTPStatus s \<and> extractHTTPStatus s \<le> 999"
  using match_http_at_spec extractHTTPStatus_bounds by blast

lemma containsAny_append: "containsAny s (ps @ qs) = (containsAny s ps \<or> containsAny s qs)"
  by (simp add: containsAny_def Let_def)

definition verdict :: "classified_error \<Rightarrow> error_type \<times> bool \<times> int" where
  "verdict e = (ce_type e, ce_retryable e, ce_http_status e)"

lemma verdict_mk [simp]: "verdict (mk_classified e p st ty r) = (ty, r, st)"
  by (simp add: verdict_def)

lemma verdict_fallback [simp]: "verdict (http_fallback (to_lower e) p st) = verdict (http_fallback e p st)"
  by (simp add: http_fallback_def)

lemma verdict_lower:
  "verdict (classifySESError (to_lower e) st) = verdict (classifySESError e st)"
  "verdict (classifyPostmarkError (to_lower e) st) = verdict (classifyPostmarkError e st)"
  "verdict (classifyMailgunError (to_lower e) st) = verdict (classifyMailgunError e st)"
  "verdict (classifyMailjetError (to_lower e) st) = verdict (classifyMailjetError e st)"
  "verdict (classifySparkPostError (to_lower e) st) = verdict (classifySparkPostError e st)"
  "verdict (classifySMTPError (to_lower e) st) = verdict (classifySMTPError e st)"
  "verdict (classifySendGridError (to_lower e) st) = verdict (classifySendGridError e st)"
  "verdict (classifyUnknownProvider (to_lower e) st) = verdict (classifyUnknownProvider e st)"
  unfolding classifySESError_def classifyPostmarkError_def classifyMailgunError_def
    classifyMailjetError_def classifySparkPostError_def classifySMTPError_def
    classifySendGridError_def classifyUnknownProvider_eq containsAny_lower
  by simp_all

text \<open> Classification does not depend on the case of the error text: the lower-cased
  text gets the same type, the same retry decision and the same HTTP status, for every
  provider.\<close>

theorem Classify_case_insensitive:
  "map_option verdict (Classify (Some (to_lower s)) k) = map_option verdict (Classify (Some s) k)"
  by (cases k) (simp_all add: Classify_def Let_def extractHTTPStatus_lower verdict_lower)

lemma lower_char_star: "lower_char c = CHR ''*'' \<longleftrightarrow> c = CHR ''*''"
  by (rule lower_char_eq_iff) simp_all

lemma str_contains_set: "str_contains s p \<Longrightarrow> set p \<subseteq> set s"
  by (auto simp: str_contains_iff)

text \<open> The Mailjet recipient rule \<open>error_related_to.*recipient\<close> is written as a regular
  expression but matched as a literal substring, so for every error text without an asterisk
  the table decides as if the rule were not there; the documented Mailjet payload for a
  recipient fault is then classified as unknown, retried, and counted against the provider.\<close>

theorem mailjet_related_to_rule_is_dead:
  assumes "CHR ''*'' \<notin> set err"
  shows "containsAny err mailjetRecipientPatterns =
           containsAny err (remove1 ''error_related_to.*recipient'' mailjetRecipientPatterns)"
proof -
  have star: "CHR ''*'' \<notin> set (to_lower err)"
  proof
    assume "CHR ''*'' \<in> set (to_lower err)"
    then obtain c where "c \<in> set err" and "CHR ''*'' = lower_char c"
      unfolding to_lower_def set_map by (rule imageE)
    then show False using assms lower_char_star[of c] by metis
  qed
  have "CHR ''*'' \<in> set (to_lower ''error_related_to.*recipient'')"
    by (simp add: to_lower_def lower_char_def)
  then have "\<not> str_contains (to_lower err) (to_lower ''error_related_to.*recipient'')"
    using star str_contains_set by blast
  then show ?thesis by (simp add: containsAny_def Let_def mailjetRecipientPatterns_def)
qed

theorem mailjet_related_to_rule_is_dead_witness:
  "containsAny ''error_related_to: recipient'' mailjetRecipientPatterns =
     containsAny ''error_related_to: recipient''
       (remove1 ''error_related_to.*recipient'' mailjetRecipientPatterns) \<and>
   Classify (Some ''error_related_to: recipient'') Mailjet =
     Some (mk_classified ''error_related_to: recipient'' ''mailjet'' 0 ErrorTypeUnknown True)"
proof -
  have "CHR ''*'' \<notin> set ''error_related_to: recipient''" by simp
  from mailjet_related_to_rule_is_dead[OF this]
  have "containsAny ''error_related_to: recipient'' mailjetRecipientPatterns =
     containsAny ''error_related_to: recipient''
       (remove1 ''error_related_to.*recipient'' mailjetRecipientPatterns)" .
  moreover have "Classify (Some ''error_related_to: recipient'') Mailjet =
     Some (mk_classified ''error_related_to: recipient'' ''mailjet'' 0 ErrorTypeUnknown True)"
    by code_simp
  ultimately show ?thesis by blast
qed

end
