(* ===== verification/Delivery_Store.thy ===== *)
theory Delivery_Store
  imports Go_Prelude Email_Error Delivery_Status
begin

text \<open>
  The tables of one workspace's database that the delivery ledger, the e-mail queue and
  the receipts write: \<open>delivery_intents\<close>, \<open>delivery_attempts\<close>, \<open>email_queue\<close>,
  \<open>delivery_reconciliations\<close>, \<open>delivery_receipts\<close> and \<open>message_history\<close>
  (\<open>internal/database/schema/delivery_tables.go\<close> and \<open>init.go\<close>), with a row as the Go
  struct it is scanned into (\<open>internal/domain/delivery.go\<close>, \<open>email_queue.go\<close>).
  A nullable column is an option, except where the code maps NULL to the empty string
  both ways (\<open>NULLIF($7, '')\<close> and \<open>sql.NullString\<close>), which is the empty string here. A
  JSON column is its text. The keys and unique indexes of the schema are
  \<open>db_wf\<close>; a statement that would break one fails.
\<close>

section \<open>Queue rows\<close>

datatype email_queue_status =
    QS_Pending | QS_Processing | QS_Failed | QS_Paused | QS_Confirmed | QS_Other string

text \<open>A status column is text: \<open>QS_Other\<close> is any other string, as the empty one an entry
  starts with.\<close>

abbreviation QS_Empty :: email_queue_status where "QS_Empty \<equiv> QS_Other []"

datatype email_queue_source = Src_Broadcast | Src_Automation | Src_Other string

record audience_eligibility =
  ae_AudienceID :: string
  ae_AudienceVersion :: int
  ae_AudienceBuildID :: string
  ae_CustomerID :: string

record email_options =
  eo_FromName :: "string option"
  eo_Subject :: "string option"
  eo_SubjectPreview :: "string option"
  eo_CC :: "string list"
  eo_BCC :: "string list"
  eo_ReplyTo :: string
  eo_Attachments :: "string list"
  eo_ListUnsubscribeURL :: string

record email_queue_payload =
  p_FromAddress :: string
  p_FromName :: string
  p_Subject :: string
  p_HTMLContent :: string
  p_EmailOptions :: email_options
  p_RateLimitPerMinute :: int
  p_ProviderSettings :: string
  p_TemplateVersion :: int
  p_ListID :: string
  p_TemplateData :: string
  p_ContactAutomationID :: "string option"
  p_AudienceEligibility :: "audience_eligibility option"

record queue_entry =
  q_ID :: string
  q_DeliveryIntentID :: "string option"
  q_Status :: email_queue_status
  q_Priority :: int
  q_SourceType :: email_queue_source
  q_SourceID :: string
  q_IntegrationID :: string
  q_ProviderKind :: email_provider_kind
  q_ContactEmail :: string
  q_MessageID :: string
  q_TemplateID :: string
  q_Payload :: email_queue_payload
  q_Attempts :: int
  q_MaxAttempts :: int
  q_LastError :: "string option"
  q_NextRetryAt :: "instant option"
  q_CreatedAt :: instant
  q_UpdatedAt :: instant
  q_ProcessedAt :: "instant option"
  q_ClaimToken :: "string option"
  q_LeaseExpiresAt :: "instant option"
  q_CompletedAt :: "instant option"

section \<open>Ledger rows\<close>

record delivery_intent =
  di_ID :: string
  di_EffectKey :: string
  di_RequestHash :: string
  di_SourceType :: string
  di_SourceID :: string
  di_SourceVersion :: string
  di_CustomerID :: string
  di_LegacyIdentity :: string
  di_Channel :: string
  di_TemplateID :: string
  di_TemplateVersion :: int
  di_NodeOrPhase :: string
  di_Occurrence :: string
  di_Variant :: string
  di_Status :: delivery_status
  di_SuppressionReason :: string
  di_Metadata :: string
  di_CreatedAt :: instant
  di_UpdatedAt :: instant

record delivery_attempt =
  da_ID :: string
  da_IntentID :: string
  da_AttemptNo :: int
  da_Provider :: string
  da_RequestHash :: string
  da_ProviderMessageID :: string
  da_Status :: delivery_status
  da_ClaimToken :: string
  da_LeaseExpiresAt :: "instant option"
  da_SubmittedAt :: "instant option"
  da_AcceptedAt :: "instant option"
  da_CompletedAt :: "instant option"
  da_ErrorCategory :: string
  da_ErrorCode :: string
  da_ErrorDetail :: string
  da_CreatedAt :: instant
  da_UpdatedAt :: instant

record delivery_reconciliation =
  dr_IntentID :: string
  dr_AttemptID :: "string option"
  dr_Status :: string
  dr_Resolution :: string
  dr_ActorID :: string
  dr_Reason :: string
  dr_NextQueryAt :: "instant option"
  dr_CreatedAt :: instant
  dr_UpdatedAt :: instant
  dr_ResolvedAt :: "instant option"

section \<open>Receipts and message history\<close>

datatype delivery_receipt_event =
    RE_Accepted | RE_Sent | RE_Delivered | RE_Opened | RE_Clicked | RE_Bounced | RE_Complained
  | RE_Failed | RE_Other string

record delivery_receipt =
  r_Provider :: string
  r_ReceiptID :: string
  r_ProviderMessageID :: string
  r_MessageID :: string
  r_EffectKey :: string
  r_Event :: delivery_receipt_event
  r_OccurredAt :: instant
  r_ReceivedAt :: instant
  r_ErrorCode :: string
  r_Metadata :: string
  r_PayloadHash :: string

record message_row =
  m_ID :: string
  m_ExternalID :: "string option"
  m_SMTPMessageID :: "string option"
  m_ContactEmail :: string
  m_BroadcastID :: "string option"
  m_AutomationID :: "string option"
  m_ListID :: "string option"
  m_TemplateID :: string
  m_TemplateVersion :: int
  m_Channel :: string
  m_StatusInfo :: "string option"
  m_MessageData :: string
  m_SentAt :: instant
  m_DeliveredAt :: "instant option"
  m_FailedAt :: "instant option"
  m_OpenedAt :: "instant option"
  m_ClickedAt :: "instant option"
  m_BouncedAt :: "instant option"
  m_ComplainedAt :: "instant option"
  m_CreatedAt :: instant
  m_UpdatedAt :: instant

section \<open>The database\<close>

record delivery_db =
  db_intents :: "delivery_intent list"
  db_attempts :: "delivery_attempt list"
  db_queue :: "queue_entry list"
  db_recons :: "delivery_reconciliation list"
  db_receipts :: "delivery_receipt list"
  db_messages :: "message_row list"

definition empty_db :: delivery_db where
  "empty_db = \<lparr>db_intents = [], db_attempts = [], db_queue = [], db_recons = [],
     db_receipts = [], db_messages = []\<rparr>"

text \<open>The errors of the repositories, one constructor per message of the source.
  \<open>E_UniqueViolation\<close>, \<open>E_ForeignKey\<close> and \<open>E_CheckViolation\<close> are the database's own; \<open>E_Infra\<close>
  is a connection, transaction or driver failure.\<close>

datatype db_error =
    E_Infra | E_UniqueViolation | E_ForeignKey | E_CheckViolation | E_NoRows
  | E_LeaseDuration | E_ClaimLost string | E_NotFoundOrProcessing string
  | E_EntryRequired | E_IntentIDRequired
  | E_EffectKeyRequired | E_BadInitialStatus | E_HashConflict | E_QueueTransitionRejected
  | E_TransitionNotAllowed delivery_status delivery_status
  | E_StartFieldsRequired | E_CannotStart string delivery_status | E_UnresolvedAttempt string
  | E_SubmittingRejected | E_OutcomeFieldsRequired | E_UnsupportedOutcome delivery_status
  | E_QueueClaimLost | E_DeliveryNotFound | E_NotUnknown delivery_status | E_UnsupportedAction

type_synonym 'a db_op = "delivery_db \<Rightarrow> (db_error, 'a, delivery_db) outcome"

primrec queue_intents :: "queue_entry list \<Rightarrow> string list" where
  "queue_intents [] = []"
| "queue_intents (q # qs) = (case q_DeliveryIntentID q of None \<Rightarrow> queue_intents qs
     | Some i \<Rightarrow> i # queue_intents qs)"

text \<open>Keys, unique indexes and foreign keys of the ledger's tables.\<close>

definition db_wf :: "delivery_db \<Rightarrow> bool" where
  "db_wf db \<longleftrightarrow>
     distinct (map di_ID (db_intents db)) \<and>
     distinct (map di_EffectKey (db_intents db)) \<and>
     distinct (map da_ID (db_attempts db)) \<and>
     distinct (map (\<lambda>a. (da_IntentID a, da_AttemptNo a)) (db_attempts db)) \<and>
     (\<forall>a \<in> set (db_attempts db). da_IntentID a \<in> di_ID ` set (db_intents db)) \<and>
     distinct (map q_ID (db_queue db)) \<and>
     distinct (queue_intents (db_queue db)) \<and>
     set (queue_intents (db_queue db)) \<subseteq> di_ID ` set (db_intents db)"

lemma db_wf_empty [simp]: "db_wf empty_db"
  by (simp add: db_wf_def empty_db_def)

lemma queue_intents_append [simp]: "queue_intents (qs @ qs') = queue_intents qs @ queue_intents qs'"
  by (induction qs) (auto split: option.splits)

lemma set_queue_intents: "set (queue_intents qs) = {i. \<exists>q \<in> set qs. q_DeliveryIntentID q = Some i}"
  by (induction qs) (auto split: option.splits)

lemma queue_intents_update:
  "(\<And>q. q_DeliveryIntentID (f q) = q_DeliveryIntentID q) \<Longrightarrow>
   queue_intents (sql_update p f qs) = queue_intents qs"
  by (induction qs) (auto split: option.splits)

lemma distinct_queue_intents_delete:
  "distinct (queue_intents qs) \<Longrightarrow> distinct (queue_intents (sql_delete p qs))"
  by (induction qs) (auto simp: sql_delete_def set_queue_intents split: option.splits)

lemma queue_intent_unique:
  "distinct (queue_intents qs) \<Longrightarrow> sql_count (\<lambda>q. q_DeliveryIntentID q = Some i) qs \<le> 1"
proof (induction qs)
  case (Cons q qs)
  have "q_DeliveryIntentID q = Some i \<Longrightarrow> sql_count (\<lambda>q. q_DeliveryIntentID q = Some i) qs = 0"
    using Cons.prems by (auto simp: sql_count_0_iff set_queue_intents)
  with Cons show ?case by (cases "q_DeliveryIntentID q = Some i") (auto split: option.splits)
qed simp


text \<open>An operation that touches none of the keys keeps them: queue-only and status-only
  updates are all of this form.\<close>

lemma db_wf_queue_update:
  assumes "db_wf db"
    and "\<And>q. q_ID (f q) = q_ID q" and "\<And>q. q_DeliveryIntentID (f q) = q_DeliveryIntentID q"
  shows "db_wf (db\<lparr>db_queue := sql_update p f (db_queue db)\<rparr>)"
  using assms by (simp add: db_wf_def queue_intents_update)

lemma db_wf_queue_delete:
  "db_wf db \<Longrightarrow> db_wf (db\<lparr>db_queue := sql_delete p (db_queue db)\<rparr>)"
  by (auto simp: db_wf_def distinct_queue_intents_delete set_queue_intents)

lemma image_key_update:
  "(\<And>r. key (f r) = key r) \<Longrightarrow> key ` set (sql_update p f t) = key ` set t"
  by (simp flip: set_map)

lemma db_wf_intent_update:
  assumes "db_wf db"
    and "\<And>i. di_ID (f i) = di_ID i" and "\<And>i. di_EffectKey (f i) = di_EffectKey i"
  shows "db_wf (db\<lparr>db_intents := sql_update p f (db_intents db)\<rparr>)"
  using assms by (simp add: db_wf_def image_key_update)

lemma db_wf_attempt_update:
  assumes "db_wf db"
    and "\<And>a. da_ID (f a) = da_ID a" and "\<And>a. da_IntentID (f a) = da_IntentID a"
    and "\<And>a. da_AttemptNo (f a) = da_AttemptNo a"
  shows "db_wf (db\<lparr>db_attempts := sql_update p f (db_attempts db)\<rparr>)"
  using assms by (auto simp: db_wf_def set_sql_update)

lemma db_wf_other_tables [simp]:
  "db_wf (db\<lparr>db_recons := rc\<rparr>) = db_wf db"
  "db_wf (db\<lparr>db_receipts := rs\<rparr>) = db_wf db"
  "db_wf (db\<lparr>db_messages := ms\<rparr>) = db_wf db"
  by (simp_all add: db_wf_def)

text \<open>The intent, attempt and queue row that a key names.\<close>

definition intent_of :: "delivery_db \<Rightarrow> string \<Rightarrow> delivery_intent option" where
  "intent_of db i = sql_find (\<lambda>x. di_ID x = i) (db_intents db)"

definition attempts_of_intent :: "delivery_db \<Rightarrow> string \<Rightarrow> delivery_attempt list" where
  "attempts_of_intent db i = filter (\<lambda>a. da_IntentID a = i) (db_attempts db)"

definition intent_status :: "delivery_db \<Rightarrow> string \<Rightarrow> delivery_status option" where
  "intent_status db i = map_option di_Status (intent_of db i)"

lemma intent_of_SomeD: "intent_of db i = Some x \<Longrightarrow> x \<in> set (db_intents db) \<and> di_ID x = i"
  unfolding intent_of_def by (rule sql_find_SomeD)

lemma intent_of_unique: "db_wf db \<Longrightarrow> x \<in> set (db_intents db) \<Longrightarrow> intent_of db (di_ID x) = Some x"
  unfolding intent_of_def db_wf_def by (blast intro: sql_find_unique)

end
