(* ===== verification/Leased_Store.thy ===== *)
theory Leased_Store
  imports Go_Prelude
begin

text \<open>
  The contract between a worker and a store that hands out rows under a lease: a claim takes
  rows that nobody holds or whose lease has lapsed, and only the token of the claim releases
  a row. The e-mail queue provides it (\<open>Email_Queue\<close>); what a worker may rely on while its
  lease runs is proved here once.
\<close>

datatype ('c, 'f, 'k, 'tok) lease_event = Claim 'c instant 'tok | Finish 'f 'k 'tok

datatype 'k lease_answer = Claimed "'k list" | Finished bool

text \<open>A sequence of claims and releases by any number of workers, with the store's answers.\<close>

fun lease_run ::
    "('c \<Rightarrow> instant \<Rightarrow> 'tok \<Rightarrow> 's \<Rightarrow> 'k list \<times> 's) \<Rightarrow> ('f \<Rightarrow> 'k \<Rightarrow> 'tok \<Rightarrow> 's \<Rightarrow> bool \<times> 's) \<Rightarrow>
     ('c, 'f, 'k, 'tok) lease_event list \<Rightarrow> 's \<Rightarrow> 'k lease_answer list \<times> 's" where
  "lease_run claim finish [] s = ([], s)"
| "lease_run claim finish (Claim c now t # es) s =
     (let (ks, s1) = claim c now t s; (outs, s2) = lease_run claim finish es s1
      in (Claimed ks # outs, s2))"
| "lease_run claim finish (Finish f k t # es) s =
     (let (ok, s1) = finish f k t s; (outs, s2) = lease_run claim finish es s1
      in (Finished ok # outs, s2))"

text \<open>The events of others while row \<open>k\<close> is held under \<open>t\<close> until \<open>l\<close>: claims before the
  lease ends, and no release of \<open>k\<close> under \<open>t\<close>.\<close>

fun others_before :: "'k \<Rightarrow> 'tok \<Rightarrow> instant \<Rightarrow> ('c, 'f, 'k, 'tok) lease_event \<Rightarrow> bool" where
  "others_before k t l (Claim c now t') = (now < l)"
| "others_before k t l (Finish f k' t') = (k' \<noteq> k \<or> t' \<noteq> t)"

text \<open>The answers that leave \<open>k\<close> with its holder.\<close>

fun spares :: "'k \<Rightarrow> ('c, 'f, 'k, 'tok) lease_event \<Rightarrow> 'k lease_answer \<Rightarrow> bool" where
  "spares k (Claim c now t) (Claimed ks) = (k \<notin> set ks)"
| "spares k (Finish f k' t) (Finished ok) = (k' = k \<longrightarrow> \<not> ok)"
| "spares k _ _ = False"

locale leased_store =
  fixes inv :: "'s \<Rightarrow> bool"
    and lease :: "'s \<Rightarrow> 'k \<Rightarrow> ('tok \<times> instant) option"
    and claim :: "'c \<Rightarrow> instant \<Rightarrow> 'tok \<Rightarrow> 's \<Rightarrow> 'k list \<times> 's"
    and finish :: "'f \<Rightarrow> 'k \<Rightarrow> 'tok \<Rightarrow> 's \<Rightarrow> bool \<times> 's"
  assumes claim_inv: "inv s \<Longrightarrow> claim c now t s = (ks, s') \<Longrightarrow> inv s'"
    and claim_free:
      "inv s \<Longrightarrow> claim c now t s = (ks, s') \<Longrightarrow> k \<in> set ks \<Longrightarrow> lease s k = Some (t', l) \<Longrightarrow> l \<le> now"
    and claim_frame:
      "inv s \<Longrightarrow> claim c now t s = (ks, s') \<Longrightarrow> k \<notin> set ks \<Longrightarrow> lease s' k = lease s k"
    and finish_inv: "inv s \<Longrightarrow> finish f k t s = (ok, s') \<Longrightarrow> inv s'"
    and finish_owner: "inv s \<Longrightarrow> finish f k t s = (ok, s') \<Longrightarrow> ok \<longleftrightarrow> (\<exists>l. lease s k = Some (t, l))"
    and finish_stale: "inv s \<Longrightarrow> finish f k t s = (False, s') \<Longrightarrow> s' = s"
    and finish_frame:
      "inv s \<Longrightarrow> finish f k t s = (ok, s') \<Longrightarrow> k' \<noteq> k \<Longrightarrow> lease s' k' = lease s k'"
begin

lemma held_step_claim:
  assumes "inv s" and "lease s k = Some (t, l)" and "claim c now t' s = (ks, s')" and "now < l"
  shows "k \<notin> set ks \<and> lease s' k = Some (t, l)"
proof -
  have "k \<notin> set ks" using claim_free[OF assms(1,3) _ assms(2)] assms(4) by force
  with claim_frame[OF assms(1,3)] assms(2) show ?thesis by simp
qed

lemma held_step_finish:
  assumes "inv s" and "lease s k = Some (t, l)" and "finish f k' t' s = (ok, s')"
    and "k' \<noteq> k \<or> t' \<noteq> t"
  shows "(k' = k \<longrightarrow> \<not> ok) \<and> lease s' k = Some (t, l)"
proof (cases "k' = k")
  case True
  with assms(2,4) finish_owner[OF assms(1,3)] have "\<not> ok" by auto
  with True finish_stale[OF assms(1)] assms(2,3) show ?thesis by auto
next
  case False
  with finish_frame[OF assms(1,3)] assms(2) show ?thesis by auto
qed

theorem held_until_released:
  assumes "inv s" and "lease s k = Some (t, l)"
    and "lease_run claim finish es s = (outs, s')"
    and "\<forall>e \<in> set es. others_before k t l e"
  shows "inv s' \<and> lease s' k = Some (t, l) \<and> list_all2 (spares k) es outs"
  using assms
proof (induction es arbitrary: s outs)
  case Nil
  then show ?case by simp
next
  case (Cons e es)
  show ?case
  proof (cases e)
    case (Claim c now t')
    obtain ks s1 where c: "claim c now t' s = (ks, s1)" by fastforce
    obtain outs1 s2 where r: "lease_run claim finish es s1 = (outs1, s2)" by fastforce
    have held: "k \<notin> set ks \<and> lease s1 k = Some (t, l)"
      using held_step_claim[OF Cons(2,3) c] Cons(5) Claim by simp
    have s: "s' = s2" and o: "outs = Claimed ks # outs1" using Cons(4) c r Claim by auto
    have "inv s' \<and> lease s' k = Some (t, l) \<and> list_all2 (spares k) es outs1"
      using Cons(1)[of s1] claim_inv[OF Cons(2) c] r held Cons(5) s by simp
    with held o Claim show ?thesis by simp
  next
    case (Finish f k' t')
    obtain ok s1 where c: "finish f k' t' s = (ok, s1)" by fastforce
    obtain outs1 s2 where r: "lease_run claim finish es s1 = (outs1, s2)" by fastforce
    have held: "(k' = k \<longrightarrow> \<not> ok) \<and> lease s1 k = Some (t, l)"
      using held_step_finish[OF Cons(2,3) c] Cons(5) Finish by simp
    have s: "s' = s2" and o: "outs = Finished ok # outs1" using Cons(4) c r Finish by auto
    have "inv s' \<and> lease s' k = Some (t, l) \<and> list_all2 (spares k) es outs1"
      using Cons(1)[of s1] finish_inv[OF Cons(2) c] r held Cons(5) s by simp
    with held o Finish show ?thesis by simp
  qed
qed

end

end
