(* ===== verification/Email_Queue.thy ===== *)
theory Email_Queue
  imports Delivery_Store Leased_Store "HOL-Library.Product_Lexorder"
begin

text \<open>
  \<open>internal/repository/email_queue_postgres.go\<close>: the queue's operations on the tables, and
  the retry times of \<open>internal/domain/email_queue.go\<close>. An operation is one SQL statement,
  or one transaction, so it is a function of the database; \<open>now\<close> is the caller's clock and
  \<open>dbnow\<close> the database's. A random identifier the code draws is an argument.
\<close>

section \<open>Retry times\<close>

text \<open>\<open>EMAIL_QUEUE_RETRY_BASE\<close>, when it is set, is given by its parse: \<open>None\<close> when
  \<open>time.ParseDuration\<close> rejects it.\<close>

definition getEmailQueueRetryBase :: "duration option option \<Rightarrow> duration" where
  "getEmailQueueRetryBase env = (case env of Some (Some d) \<Rightarrow> d | _ \<Rightarrow> minute)"

text \<open>\<open>1 << uint(attempts-1)\<close> and the product wrap at 64 bits. The zero of the clock is the
  zero time, so adding a duration stays far inside \<open>time.Time\<close>'s range.\<close>

definition CalculateNextRetryTime :: "duration \<Rightarrow> instant \<Rightarrow> int \<Rightarrow> instant" where
  "CalculateNextRetryTime base now attempts =
     (let attempts = (if attempts \<le> 0 then 1 else attempts);
          multiplier = shl64 1 (nat (attempts - 1))
      in now + wrap64 (multiplier * base))"

section \<open>Insertion\<close>

definition enqueue_defaults :: "string \<Rightarrow> instant \<Rightarrow> queue_entry \<Rightarrow> queue_entry" where
  "enqueue_defaults uid now e =
     (let e = (if q_ID e = [] then e\<lparr>q_ID := uid\<rparr> else e);
          e = (if q_Status e = QS_Empty then e\<lparr>q_Status := QS_Pending\<rparr> else e);
          e = (if q_Priority e = 0 then e\<lparr>q_Priority := 5\<rparr> else e);
          e = (if q_MaxAttempts e = 0 then e\<lparr>q_MaxAttempts := 3\<rparr> else e)
      in e\<lparr>q_CreatedAt := now, q_UpdatedAt := now\<rparr>)"

text \<open>The columns an insert does not name are NULL.\<close>

definition inserted_row :: "queue_entry \<Rightarrow> queue_entry" where
  "inserted_row e = e\<lparr>q_LastError := None, q_NextRetryAt := None, q_ProcessedAt := None,
     q_ClaimToken := None, q_LeaseExpiresAt := None, q_CompletedAt := None\<rparr>"

definition insert_on_conflict_id :: "queue_entry \<Rightarrow> queue_entry list \<Rightarrow> queue_entry list" where
  "insert_on_conflict_id e t =
     (if sql_exists (\<lambda>q. q_ID q = q_ID e) t then t
      else t @ [inserted_row (e\<lparr>q_DeliveryIntentID := None\<rparr>)])"

definition EnqueueTx :: "instant \<Rightarrow> (string \<times> queue_entry) list \<Rightarrow> unit db_op" where
  "EnqueueTx now entries db =
     (Inr (), db\<lparr>db_queue :=
        fold (\<lambda>(uid, e). insert_on_conflict_id (enqueue_defaults uid now e)) entries (db_queue db)\<rparr>)"

definition Enqueue :: "instant \<Rightarrow> (string \<times> queue_entry) list \<Rightarrow> unit db_op" where
  "Enqueue now entries db =
     (if entries = [] then (Inr (), db) else in_tx (EnqueueTx now entries) db)"

text \<open>The conflict target of \<open>ON CONFLICT\<close> is the unique index on the intent: an entry of a
  known intent is skipped, any other broken key fails the statement.\<close>

definition EnqueueIntentTx :: "string \<Rightarrow> instant \<Rightarrow> queue_entry option \<Rightarrow> bool db_op" where
  "EnqueueIntentTx uid now entry db =
     (case entry of
        None \<Rightarrow> (Inl E_EntryRequired, db)
      | Some e \<Rightarrow>
          (case q_DeliveryIntentID e of
             None \<Rightarrow> (Inl E_IntentIDRequired, db)
           | Some i \<Rightarrow>
               (let e = enqueue_defaults uid now e in
                if sql_exists (\<lambda>q. q_DeliveryIntentID q = Some i) (db_queue db)
                then (Inr False, db)
                else if sql_exists (\<lambda>q. q_ID q = q_ID e) (db_queue db)
                then (Inl E_UniqueViolation, db)
                else if intent_of db i = None then (Inl E_ForeignKey, db)
                else (Inr True, db\<lparr>db_queue := db_queue db @ [inserted_row e]\<rparr>))))"

section \<open>Claims\<close>

definition unresolved_status :: "delivery_status \<Rightarrow> bool" where
  "unresolved_status s \<longleftrightarrow> s \<in> {DS_Submitting, DS_ProviderAccepted, DS_Unknown}"

definition has_unresolved_attempt :: "delivery_db \<Rightarrow> string \<Rightarrow> bool" where
  "has_unresolved_attempt db i =
     sql_exists (\<lambda>a. da_IntentID a = i \<and> unresolved_status (da_Status a)) (db_attempts db)"

definition null_or_le :: "instant option \<Rightarrow> instant \<Rightarrow> bool" where
  "null_or_le x t = (case x of None \<Rightarrow> True | Some u \<Rightarrow> u \<le> t)"

definition due :: "instant option \<Rightarrow> instant \<Rightarrow> bool" where
  "due x t = (case x of None \<Rightarrow> False | Some u \<Rightarrow> u \<le> t)"

definition claim_due :: "instant \<Rightarrow> queue_entry \<Rightarrow> bool" where
  "claim_due dbnow q \<longleftrightarrow>
     (q_Status q = QS_Pending \<and> null_or_le (q_NextRetryAt q) dbnow) \<or>
     (q_Status q = QS_Failed \<and> q_Attempts q < q_MaxAttempts q \<and> due (q_NextRetryAt q) dbnow) \<or>
     (q_Status q = QS_Processing \<and> due (q_LeaseExpiresAt q) dbnow)"

definition claim_intent_ready :: "delivery_db \<Rightarrow> queue_entry \<Rightarrow> bool" where
  "claim_intent_ready db q =
     (case q_DeliveryIntentID q of
        None \<Rightarrow> True
      | Some i \<Rightarrow>
          (case intent_status db i of
             None \<Rightarrow> False
           | Some s \<Rightarrow> s \<in> {DS_Reserved, DS_Queued, DS_TransientFailed}) \<and>
          \<not> has_unresolved_attempt db i)"

definition claimable :: "delivery_db \<Rightarrow> instant \<Rightarrow> queue_entry \<Rightarrow> bool" where
  "claimable db dbnow q \<longleftrightarrow> claim_due dbnow q \<and> claim_intent_ready db q"

text \<open>\<open>ORDER BY priority, created_at\<close>: a stable sort by the pair.\<close>

definition claim_rank :: "queue_entry \<Rightarrow> int \<times> int" where
  "claim_rank q = (q_Priority q, q_CreatedAt q)"

definition claim_order :: "queue_entry list \<Rightarrow> queue_entry list" where
  "claim_order qs = sort_key claim_rank qs"

text \<open>\<open>FOR UPDATE SKIP LOCKED\<close> passes over the rows that other transactions hold (\<open>locked\<close>)
  before \<open>LIMIT\<close> counts them.\<close>

definition claim_candidates :: "delivery_db \<Rightarrow> instant \<Rightarrow> (string \<Rightarrow> bool) \<Rightarrow> int \<Rightarrow> string list" where
  "claim_candidates db dbnow locked limit =
     map q_ID (take (nat limit)
       (filter (\<lambda>q. \<not> locked (q_ID q)) (claim_order (filter (claimable db dbnow) (db_queue db)))))"

definition claim_row :: "string \<Rightarrow> instant \<Rightarrow> instant \<Rightarrow> queue_entry \<Rightarrow> queue_entry" where
  "claim_row token lease dbnow q =
     q\<lparr>q_Status := QS_Processing, q_ClaimToken := Some token, q_LeaseExpiresAt := Some lease,
       q_Attempts := q_Attempts q + 1, q_UpdatedAt := dbnow\<rparr>"

definition ClaimPending ::
    "string \<Rightarrow> instant \<Rightarrow> instant \<Rightarrow> (string \<Rightarrow> bool) \<Rightarrow> int \<Rightarrow> duration \<Rightarrow> queue_entry list db_op" where
  "ClaimPending token now dbnow locked limit leaseDuration db =
     (if limit \<le> 0 then (Inr [], db)
      else if leaseDuration \<le> 0 then (Inl E_LeaseDuration, db)
      else
        let ids = claim_candidates db dbnow locked limit;
            queue' = sql_update (\<lambda>q. q_ID q \<in> set ids)
                       (claim_row token (now + leaseDuration) dbnow) (db_queue db)
        in (Inr (filter (\<lambda>q. q_ID q \<in> set ids) queue'), db\<lparr>db_queue := queue'\<rparr>))"

definition owned_by :: "string \<Rightarrow> string \<Rightarrow> queue_entry \<Rightarrow> bool" where
  "owned_by eid token q \<longleftrightarrow> q_ID q = eid \<and> q_ClaimToken q = Some token"

definition complete_row :: "instant \<Rightarrow> queue_entry \<Rightarrow> queue_entry" where
  "complete_row at q =
     q\<lparr>q_Status := QS_Confirmed, q_CompletedAt := Some at, q_ProcessedAt := Some at,
       q_ClaimToken := None, q_LeaseExpiresAt := None, q_UpdatedAt := at\<rparr>"

definition CompleteClaim :: "string \<Rightarrow> string \<Rightarrow> instant \<Rightarrow> unit db_op" where
  "CompleteClaim eid token completedAt db =
     (let db' = db\<lparr>db_queue := sql_update (owned_by eid token) (complete_row completedAt) (db_queue db)\<rparr>
      in if sql_count (owned_by eid token) (db_queue db) \<noteq> 1 then (Inl (E_ClaimLost eid), db')
         else (Inr (), db'))"

definition fail_row :: "instant \<Rightarrow> string \<Rightarrow> instant option \<Rightarrow> queue_entry \<Rightarrow> queue_entry" where
  "fail_row at errorMsg nextRetryAt q =
     q\<lparr>q_Status := QS_Failed, q_LastError := Some errorMsg, q_NextRetryAt := nextRetryAt,
       q_ClaimToken := None, q_LeaseExpiresAt := None, q_UpdatedAt := at\<rparr>"

definition FailClaim ::
    "instant \<Rightarrow> string \<Rightarrow> string \<Rightarrow> string \<Rightarrow> instant option \<Rightarrow> unit db_op" where
  "FailClaim dbnow eid token errorMsg nextRetryAt db =
     (let db' = db\<lparr>db_queue := sql_update (owned_by eid token) (fail_row dbnow errorMsg nextRetryAt)
                                 (db_queue db)\<rparr>
      in if sql_count (owned_by eid token) (db_queue db) \<noteq> 1 then (Inl (E_ClaimLost eid), db')
         else (Inr (), db'))"

section \<open>The unclaimed path\<close>

definition stuck_after :: duration where
  "stuck_after = 2 * minute"

definition fetchable :: "instant \<Rightarrow> queue_entry \<Rightarrow> bool" where
  "fetchable dbnow q \<longleftrightarrow>
     (q_Status q = QS_Pending \<and> null_or_le (q_NextRetryAt q) dbnow) \<or>
     (q_Status q = QS_Failed \<and> q_Attempts q < q_MaxAttempts q \<and> due (q_NextRetryAt q) dbnow) \<or>
     (q_Status q = QS_Processing \<and> q_UpdatedAt q < dbnow - stuck_after)"

text \<open>The 18 columns \<open>scanEmailQueueEntry\<close> reads: the entry knows neither its intent nor its
  claim.\<close>

definition scanEmailQueueEntry :: "queue_entry \<Rightarrow> queue_entry" where
  "scanEmailQueueEntry q = q\<lparr>q_DeliveryIntentID := None, q_ClaimToken := None,
     q_LeaseExpiresAt := None, q_CompletedAt := None\<rparr>"

definition FetchPending :: "instant \<Rightarrow> (string \<Rightarrow> bool) \<Rightarrow> int \<Rightarrow> queue_entry list db_op" where
  "FetchPending dbnow locked limit db =
     (Inr (map scanEmailQueueEntry (take (nat limit)
        (filter (\<lambda>q. \<not> locked (q_ID q)) (claim_order (filter (fetchable dbnow) (db_queue db)))))), db)"

definition markable :: "instant \<Rightarrow> string \<Rightarrow> queue_entry \<Rightarrow> bool" where
  "markable dbnow eid q \<longleftrightarrow> q_ID q = eid \<and>
     (q_Status q = QS_Pending \<or> q_Status q = QS_Failed \<or>
      (q_Status q = QS_Processing \<and> q_UpdatedAt q < dbnow - stuck_after))"

definition MarkAsProcessing :: "instant \<Rightarrow> string \<Rightarrow> unit db_op" where
  "MarkAsProcessing dbnow eid db =
     (if sql_count (markable dbnow eid) (db_queue db) = 0 then (Inl (E_NotFoundOrProcessing eid), db)
      else (Inr (), db\<lparr>db_queue := sql_update (markable dbnow eid)
        (\<lambda>q. q\<lparr>q_Status := QS_Processing, q_UpdatedAt := dbnow, q_Attempts := q_Attempts q + 1\<rparr>)
        (db_queue db)\<rparr>))"

definition MarkAsSent :: "string \<Rightarrow> unit db_op" where
  "MarkAsSent eid db = (Inr (), db\<lparr>db_queue := sql_delete (\<lambda>q. q_ID q = eid) (db_queue db)\<rparr>)"

definition MarkAsFailed :: "instant \<Rightarrow> string \<Rightarrow> string \<Rightarrow> instant option \<Rightarrow> unit db_op" where
  "MarkAsFailed now eid errorMsg nextRetryAt db =
     (Inr (), db\<lparr>db_queue := sql_update (\<lambda>q. q_ID q = eid)
        (\<lambda>q. q\<lparr>q_Status := QS_Failed, q_UpdatedAt := now, q_LastError := Some errorMsg,
               q_NextRetryAt := nextRetryAt\<rparr>) (db_queue db)\<rparr>)"

definition Delete :: "string \<Rightarrow> unit db_op" where
  "Delete eid db = (Inr (), db\<lparr>db_queue := sql_delete (\<lambda>q. q_ID q = eid) (db_queue db)\<rparr>)"

definition SetNextRetry :: "instant \<Rightarrow> string \<Rightarrow> instant \<Rightarrow> unit db_op" where
  "SetNextRetry dbnow eid nextRetry db =
     (Inr (), db\<lparr>db_queue := sql_update (\<lambda>q. q_ID q = eid)
        (\<lambda>q. q\<lparr>q_NextRetryAt := Some nextRetry, q_Status := QS_Pending, q_UpdatedAt := dbnow\<rparr>)
        (db_queue db)\<rparr>)"

section \<open>Statistics and sources\<close>

record email_queue_stats =
  st_Pending :: nat
  st_Processing :: nat
  st_Failed :: nat

definition GetStats :: "delivery_db \<Rightarrow> email_queue_stats" where
  "GetStats db = \<lparr>
     st_Pending = sum_list (map (\<lambda>q. if q_Status q = QS_Pending then 1 else 0) (db_queue db)),
     st_Processing = sum_list (map (\<lambda>q. if q_Status q = QS_Processing then 1 else 0) (db_queue db)),
     st_Failed = sum_list (map (\<lambda>q. if q_Status q = QS_Failed then 1 else 0) (db_queue db))\<rparr>"

definition of_source :: "email_queue_source \<Rightarrow> string \<Rightarrow> queue_entry \<Rightarrow> bool" where
  "of_source srcType srcID q \<longleftrightarrow> q_SourceType q = srcType \<and> q_SourceID q = srcID"

definition GetBySourceID :: "email_queue_source \<Rightarrow> string \<Rightarrow> delivery_db \<Rightarrow> queue_entry list" where
  "GetBySourceID srcType srcID db =
     map scanEmailQueueEntry (sort_key q_CreatedAt (filter (of_source srcType srcID) (db_queue db)))"

definition CountBySourceAndStatus ::
    "email_queue_source \<Rightarrow> string \<Rightarrow> email_queue_status \<Rightarrow> delivery_db \<Rightarrow> nat" where
  "CountBySourceAndStatus srcType srcID status db =
     sql_count (\<lambda>q. of_source srcType srcID q \<and> q_Status q = status) (db_queue db)"

definition pausable :: "email_queue_source \<Rightarrow> string \<Rightarrow> queue_entry \<Rightarrow> bool" where
  "pausable srcType srcID q \<longleftrightarrow> of_source srcType srcID q \<and> q_Status q \<in> {QS_Pending, QS_Failed}"

definition PauseBySource :: "instant \<Rightarrow> email_queue_source \<Rightarrow> string \<Rightarrow> nat db_op" where
  "PauseBySource dbnow srcType srcID db =
     (Inr (sql_count (pausable srcType srcID) (db_queue db)),
      db\<lparr>db_queue := sql_update (pausable srcType srcID)
        (\<lambda>q. q\<lparr>q_Status := QS_Paused, q_UpdatedAt := dbnow\<rparr>) (db_queue db)\<rparr>)"

definition resumable :: "email_queue_source \<Rightarrow> string \<Rightarrow> queue_entry \<Rightarrow> bool" where
  "resumable srcType srcID q \<longleftrightarrow> of_source srcType srcID q \<and> q_Status q = QS_Paused"

definition ResumeBySource :: "instant \<Rightarrow> email_queue_source \<Rightarrow> string \<Rightarrow> nat db_op" where
  "ResumeBySource dbnow srcType srcID db =
     (Inr (sql_count (resumable srcType srcID) (db_queue db)),
      db\<lparr>db_queue := sql_update (resumable srcType srcID)
        (\<lambda>q. q\<lparr>q_Status := QS_Pending, q_NextRetryAt := None, q_UpdatedAt := dbnow\<rparr>) (db_queue db)\<rparr>)"

definition deletable :: "email_queue_source \<Rightarrow> string \<Rightarrow> queue_entry \<Rightarrow> bool" where
  "deletable srcType srcID q \<longleftrightarrow>
     of_source srcType srcID q \<and> q_Status q \<in> {QS_Pending, QS_Failed, QS_Paused}"

definition DeleteBySource :: "email_queue_source \<Rightarrow> string \<Rightarrow> nat db_op" where
  "DeleteBySource srcType srcID db =
     (Inr (sql_count (deletable srcType srcID) (db_queue db)),
      db\<lparr>db_queue := sql_delete (deletable srcType srcID) (db_queue db)\<rparr>)"

definition DeleteForEmail :: "string \<Rightarrow> nat db_op" where
  "DeleteForEmail email db =
     (Inr (sql_count (\<lambda>q. q_ContactEmail q = email) (db_queue db)),
      db\<lparr>db_queue := sql_delete (\<lambda>q. q_ContactEmail q = email) (db_queue db)\<rparr>)"

section \<open>Well-formedness\<close>

text \<open>Every queue operation keeps the keys and indexes.\<close>

lemma insert_on_conflict_id_wf:
  "db_wf (db\<lparr>db_queue := t\<rparr>) \<Longrightarrow> db_wf (db\<lparr>db_queue := insert_on_conflict_id e t\<rparr>)"
  by (auto simp: db_wf_def insert_on_conflict_id_def inserted_row_def sql_exists_iff set_queue_intents)

lemma EnqueueTx_wf: "db_wf db \<Longrightarrow> EnqueueTx now es db = (r, db') \<Longrightarrow> db_wf db'"
proof -
  have "db_wf (db\<lparr>db_queue := t\<rparr>) \<Longrightarrow>
      db_wf (db\<lparr>db_queue := fold (\<lambda>(uid, e). insert_on_conflict_id (enqueue_defaults uid now e)) es t\<rparr>)" for t
    by (induction es arbitrary: t) (auto simp: insert_on_conflict_id_wf)
  from this[of "db_queue db"]
  show "db_wf db \<Longrightarrow> EnqueueTx now es db = (r, db') \<Longrightarrow> db_wf db'"
    by (auto simp: EnqueueTx_def)
qed

lemma Enqueue_wf: "db_wf db \<Longrightarrow> Enqueue now es db = (r, db') \<Longrightarrow> db_wf db'"
  by (cases r) (auto simp: Enqueue_def split: if_splits dest: in_tx_InrD in_tx_InlD EnqueueTx_wf)

lemma EnqueueIntentTx_wf:
  assumes "db_wf db" and "EnqueueIntentTx uid now entry db = (r, db')"
  shows "db_wf db'"
proof (cases "\<exists>e i. entry = Some e \<and> q_DeliveryIntentID e = Some i \<and> r = Inr True \<and>
    \<not> sql_exists (\<lambda>q. q_DeliveryIntentID q = Some i) (db_queue db) \<and>
    \<not> sql_exists (\<lambda>q. q_ID q = q_ID (enqueue_defaults uid now e)) (db_queue db) \<and>
    intent_of db i \<noteq> None \<and>
    db' = db\<lparr>db_queue := db_queue db @ [inserted_row (enqueue_defaults uid now e)]\<rparr>")
  case True
  then obtain e i x where e: "q_DeliveryIntentID e = Some i"
    "\<not> sql_exists (\<lambda>q. q_DeliveryIntentID q = Some i) (db_queue db)"
    "\<not> sql_exists (\<lambda>q. q_ID q = q_ID (enqueue_defaults uid now e)) (db_queue db)"
    "intent_of db i = Some x"
    "db' = db\<lparr>db_queue := db_queue db @ [inserted_row (enqueue_defaults uid now e)]\<rparr>" by blast
  moreover have "q_DeliveryIntentID (inserted_row (enqueue_defaults uid now e)) = Some i"
    using e(1) by (simp add: inserted_row_def enqueue_defaults_def Let_def)
  moreover have "q_ID (inserted_row (enqueue_defaults uid now e)) = q_ID (enqueue_defaults uid now e)"
    by (simp add: inserted_row_def)
  ultimately show ?thesis
    using assms(1) intent_of_SomeD[OF e(4)]
    by (auto simp: db_wf_def sql_exists_iff set_queue_intents)
next
  case False
  with assms(2) have "db' = db"
    by (auto simp: EnqueueIntentTx_def Let_def split: option.splits if_splits)
  with assms(1) show ?thesis by simp
qed

lemma ClaimPending_wf:
  "db_wf db \<Longrightarrow> ClaimPending token now dbnow locked limit d db = (r, db') \<Longrightarrow> db_wf db'"
  by (auto simp: ClaimPending_def Let_def claim_row_def split: if_splits intro!: db_wf_queue_update)

lemma CompleteClaim_wf: "db_wf db \<Longrightarrow> CompleteClaim eid token at db = (r, db') \<Longrightarrow> db_wf db'"
  by (auto simp: CompleteClaim_def Let_def complete_row_def split: if_splits intro!: db_wf_queue_update)

lemma FailClaim_wf: "db_wf db \<Longrightarrow> FailClaim dbnow eid token msg nr db = (r, db') \<Longrightarrow> db_wf db'"
  by (auto simp: FailClaim_def Let_def fail_row_def split: if_splits intro!: db_wf_queue_update)

lemma queue_write_wf:
  assumes "db_wf db"
  shows "db_wf (snd (MarkAsProcessing dbnow eid db))"
    and "db_wf (snd (MarkAsSent eid db))"
    and "db_wf (snd (MarkAsFailed now eid msg nr db))"
    and "db_wf (snd (Delete eid db))"
    and "db_wf (snd (SetNextRetry dbnow eid t db))"
    and "db_wf (snd (PauseBySource dbnow st si db))"
    and "db_wf (snd (ResumeBySource dbnow st si db))"
    and "db_wf (snd (DeleteBySource st si db))"
    and "db_wf (snd (DeleteForEmail email db))"
  using assms
  by (simp_all add: MarkAsProcessing_def MarkAsSent_def MarkAsFailed_def Delete_def SetNextRetry_def
      PauseBySource_def ResumeBySource_def DeleteBySource_def DeleteForEmail_def
      db_wf_queue_update db_wf_queue_delete)

section \<open>What a claim takes\<close>

lemma claim_candidates_subset:
  assumes "eid \<in> set (claim_candidates db dbnow locked limit)"
  shows "\<not> locked eid \<and> (\<exists>q \<in> set (db_queue db). q_ID q = eid \<and> claimable db dbnow q)"
proof -
  from assms obtain q where q: "q_ID q = eid"
    "q \<in> set (take (nat limit) (filter (\<lambda>q. \<not> locked (q_ID q))
           (claim_order (filter (claimable db dbnow) (db_queue db)))))"
    by (auto simp: claim_candidates_def)
  then have "q \<in> set (filter (\<lambda>q. \<not> locked (q_ID q)) (claim_order (filter (claimable db dbnow) (db_queue db))))"
    by (blast dest: in_set_takeD)
  with q(1) show ?thesis by (auto simp: claim_order_def)
qed

lemma sorted_take_drop:
  assumes "sorted (map f xs)" and "x \<in> set (take n xs)" and "y \<in> set (drop n xs)"
  shows "f x \<le> f y"
proof -
  have "sorted (map f (take n xs @ drop n xs))" using assms(1) by simp
  then show ?thesis using assms(2,3) unfolding map_append sorted_append by auto
qed

lemma claim_candidates_best:
  assumes wf: "distinct (map q_ID (db_queue db))"
    and q: "q \<in> set (db_queue db)" "q_ID q \<in> set (claim_candidates db dbnow locked limit)"
    and r: "r \<in> set (db_queue db)" "claimable db dbnow r" "\<not> locked (q_ID r)"
    and nr: "q_ID r \<notin> set (claim_candidates db dbnow locked limit)"
  shows "claim_rank q \<le> claim_rank r"
proof -
  let ?xs = "filter (\<lambda>q. \<not> locked (q_ID q)) (claim_order (filter (claimable db dbnow) (db_queue db)))"
  have sorted: "sorted (map claim_rank ?xs)"
    by (simp add: claim_order_def sorted_filter)
  from q(2) obtain q' where q': "q' \<in> set (take (nat limit) ?xs)" "q_ID q' = q_ID q"
    by (auto simp: claim_candidates_def)
  have "q' \<in> set (db_queue db)" using q'(1) by (auto simp: claim_order_def dest: in_set_takeD)
  then have "q' = q" using unique_rowD[OF wf] q(1) q'(2) by blast
  moreover have "r \<in> set ?xs" using r by (auto simp: claim_order_def)
  moreover have "r \<notin> set (take (nat limit) ?xs)" using nr by (auto simp: claim_candidates_def)
  ultimately have "r \<in> set (drop (nat limit) ?xs)"
    by (metis append_take_drop_id set_append UnE)
  from sorted_take_drop[OF sorted q'(1) this] \<open>q' = q\<close> show ?thesis by simp
qed

section \<open>The queue is a leased store\<close>

text \<open>Who holds a row and until when; the rows with a token are the ones in processing.\<close>

definition queue_lease :: "delivery_db \<Rightarrow> string \<Rightarrow> (string \<times> instant) option" where
  "queue_lease db k =
     (case sql_find (\<lambda>q. q_ID q = k) (db_queue db) of
        None \<Rightarrow> None
      | Some q \<Rightarrow>
          (case (q_ClaimToken q, q_LeaseExpiresAt q) of
             (Some t, Some l) \<Rightarrow> Some (t, l) | _ \<Rightarrow> None))"

definition lease_inv :: "delivery_db \<Rightarrow> bool" where
  "lease_inv db \<longleftrightarrow> distinct (map q_ID (db_queue db)) \<and>
     (\<forall>q \<in> set (db_queue db). q_ClaimToken q \<noteq> None \<longrightarrow>
        q_Status q = QS_Processing \<and> q_LeaseExpiresAt q \<noteq> None)"

type_synonym claim_args = "int \<times> (string \<Rightarrow> bool) \<times> instant \<times> duration"

datatype claim_release = ByComplete instant | ByFail instant string "instant option"

definition queue_claim :: "claim_args \<Rightarrow> instant \<Rightarrow> string \<Rightarrow> delivery_db \<Rightarrow> string list \<times> delivery_db" where
  "queue_claim c dbnow token db =
     (case c of (limit, locked, now, d) \<Rightarrow>
        (case ClaimPending token now dbnow locked limit d db of
           (Inl _, db') \<Rightarrow> ([], db') | (Inr qs, db') \<Rightarrow> (map q_ID qs, db')))"

definition queue_finish :: "claim_release \<Rightarrow> string \<Rightarrow> string \<Rightarrow> delivery_db \<Rightarrow> bool \<times> delivery_db" where
  "queue_finish f k token db =
     (let (r, db') = (case f of ByComplete at \<Rightarrow> CompleteClaim k token at db
                      | ByFail at msg nr \<Rightarrow> FailClaim at k token msg nr db)
      in (\<not> isl r, db'))"

lemma release_row_simps [simp]:
  "q_ID (complete_row at q) = q_ID q" "q_ID (fail_row at msg nr q) = q_ID q"
  "q_ID (claim_row token l dbnow q) = q_ID q"
  by (simp_all add: complete_row_def fail_row_def claim_row_def)

lemma queue_claim_cases:
  assumes "queue_claim (limit, locked, now, d) dbnow token db = (ks, db')"
  obtains "ks = []" and "db' = db"
  | "0 < limit" and "0 < d"
    and "set ks \<subseteq> set (claim_candidates db dbnow locked limit)"
    and "\<And>k. k \<in> set (claim_candidates db dbnow locked limit) \<Longrightarrow> k \<in> set ks"
    and "db' = db\<lparr>db_queue := sql_update (\<lambda>q. q_ID q \<in> set (claim_candidates db dbnow locked limit))
                       (claim_row token (now + d) dbnow) (db_queue db)\<rparr>"
proof (cases "limit \<le> 0 \<or> d \<le> 0")
  case True
  then show thesis using assms that(1)
    by (auto simp: queue_claim_def ClaimPending_def split: if_splits)
next
  case False
  let ?ids = "claim_candidates db dbnow locked limit"
  have keys: "map q_ID (filter (\<lambda>q. q_ID q \<in> set ?ids) t) = filter (\<lambda>k. k \<in> set ?ids) (map q_ID t)" for t
    by (induction t) auto
  have ks: "set ks = q_ID ` {q \<in> set (db_queue db). q_ID q \<in> set ?ids}"
    and db': "db' = db\<lparr>db_queue := sql_update (\<lambda>q. q_ID q \<in> set ?ids)
                       (claim_row token (now + d) dbnow) (db_queue db)\<rparr>"
    using assms False
    by (auto simp: queue_claim_def ClaimPending_def Let_def keys)
  have "k \<in> set ks" if "k \<in> set ?ids" for k
    using claim_candidates_subset[OF that] that by (auto simp: ks)
  moreover have "set ks \<subseteq> set ?ids" by (auto simp: ks)
  ultimately show thesis using that(2) False db' by force
qed

lemma queue_finish_eq:
  assumes "lease_inv db" and "queue_finish f k token db = (ok, db')"
  shows "(ok \<longleftrightarrow> (\<exists>q. sql_find (\<lambda>q. q_ID q = k) (db_queue db) = Some q \<and> q_ClaimToken q = Some token)) \<and>
    db' = db\<lparr>db_queue := sql_update (owned_by k token)
      (case f of ByComplete at \<Rightarrow> complete_row at | ByFail at msg nr \<Rightarrow> fail_row at msg nr) (db_queue db)\<rparr>"
proof -
  have d: "distinct (map q_ID (db_queue db))" using assms(1) by (simp add: lease_inv_def)
  have le: "sql_count (owned_by k token) (db_queue db) \<le> 1"
    using sql_count_mono[of "db_queue db" "owned_by k token" "\<lambda>q. q_ID q = k"]
      sql_count_key_le_1[OF d, of k] by (auto simp: owned_by_def)
  have "sql_count (owned_by k token) (db_queue db) = 0 \<longleftrightarrow>
      \<not> (\<exists>q. sql_find (\<lambda>q. q_ID q = k) (db_queue db) = Some q \<and> q_ClaimToken q = Some token)"
    using sql_find_unique[OF d] by (fastforce simp: sql_count_0_iff owned_by_def dest: sql_find_SomeD)
  with le assms(2) show ?thesis
    by (cases f) (auto simp: queue_finish_def CompleteClaim_def FailClaim_def Let_def split: if_splits)
qed


interpretation qs: leased_store lease_inv queue_lease queue_claim queue_finish
proof unfold_locales
  fix s s' and c :: claim_args and dbnow t ks k t' l
  obtain limit locked now d where c: "c = (limit, locked, now, d)" by (cases c)
  assume inv: "lease_inv s" and run: "queue_claim c dbnow t s = (ks, s')"
  note run' = run[unfolded c]
  have d: "distinct (map q_ID (db_queue s))" using inv by (simp add: lease_inv_def)
  show "lease_inv s'" using inv
    by (rule_tac queue_claim_cases[OF run']) (auto simp: lease_inv_def set_sql_update claim_row_def)
  show "l \<le> dbnow" if k: "k \<in> set ks" and held: "queue_lease s k = Some (t', l)"
  proof -
    have "k \<in> set (claim_candidates s dbnow locked limit)"
      using k by (rule_tac queue_claim_cases[OF run']) auto
    then obtain q where q: "q \<in> set (db_queue s)" "q_ID q = k" "claimable s dbnow q"
      by (blast dest: claim_candidates_subset)
    have "sql_find (\<lambda>q. q_ID q = k) (db_queue s) = Some q" using sql_find_unique[OF d q(1)] q(2) by simp
    with held have tl: "q_ClaimToken q = Some t'" "q_LeaseExpiresAt q = Some l"
      by (auto simp: queue_lease_def split: option.splits)
    with inv q have "q_Status q = QS_Processing" by (auto simp: lease_inv_def)
    with q(3) tl show ?thesis by (simp add: claimable_def claim_due_def due_def)
  qed
  show "queue_lease s' k = queue_lease s k" if "k \<notin> set ks"
    using that
    by (rule_tac queue_claim_cases[OF run'])
      (auto simp: queue_lease_def sql_find_update_key split: option.splits dest!: sql_find_SomeD)
next
  fix s s' :: delivery_db and f :: claim_release and k k' t :: string and ok
  assume inv: "lease_inv s" and run: "queue_finish f k t s = (ok, s')"
  note eq = queue_finish_eq[OF inv run]
  show "lease_inv s'" using inv eq
    by (cases f) (auto simp: lease_inv_def set_sql_update complete_row_def fail_row_def)
  show "ok = (\<exists>l. queue_lease s k = Some (t, l))"
    using eq inv by (auto simp: queue_lease_def lease_inv_def split: option.splits dest: sql_find_SomeD)
  show "queue_lease s' k' = queue_lease s k'" if "k' \<noteq> k"
    using that eq
    by (cases f) (auto simp: queue_lease_def sql_find_update_key owned_by_def split: option.splits
        dest!: sql_find_SomeD)
next
  fix s s' :: delivery_db and f :: claim_release and k t :: string
  assume inv: "lease_inv s" and run: "queue_finish f k t s = (False, s')"
  have "sql_update (owned_by k t) g (db_queue s) = db_queue s" for g
    using queue_finish_eq[OF inv run] inv sql_find_unique
    by (intro sql_update_none) (fastforce simp: owned_by_def lease_inv_def)
  with queue_finish_eq[OF inv run] show "s' = s" by simp
qed

section \<open>Properties\<close>

lemma distinct_claim_order: "distinct (map q_ID (claim_order qs)) = distinct (map q_ID qs)"
  by (simp add: claim_order_def distinct_map inj_on_def) 

lemma claim_candidates_distinct:
  assumes "distinct (map q_ID (db_queue db))"
  shows "distinct (claim_candidates db dbnow locked limit)"
proof -
  have "distinct (map q_ID (filter P (claim_order (filter R (db_queue db)))))" for P R
    using assms by (simp add: distinct_map_filter distinct_claim_order)
  then show ?thesis unfolding claim_candidates_def
    by (metis distinct_take take_map)
qed

lemma ClaimPending_InrD:
  assumes "distinct (map q_ID (db_queue db))" and "0 < limit" and "0 < d"
    and "ClaimPending token now dbnow locked limit d db = (Inr qs, db')"
  shows "db' = db\<lparr>db_queue := sql_update (\<lambda>q. q_ID q \<in> set (claim_candidates db dbnow locked limit))
                       (claim_row token (now + d) dbnow) (db_queue db)\<rparr>"
    and "q_ID ` set qs = set (claim_candidates db dbnow locked limit)"
    and "length qs = length (claim_candidates db dbnow locked limit)"
    and "q' \<in> set qs \<Longrightarrow> \<exists>q \<in> set (db_queue db). claimable db dbnow q \<and> \<not> locked (q_ID q) \<and>
           q_ID q \<in> set (claim_candidates db dbnow locked limit) \<and> q' = claim_row token (now + d) dbnow q"
proof -
  let ?ids = "claim_candidates db dbnow locked limit"
  let ?f = "claim_row token (now + d) dbnow"
  have qs: "qs = filter (\<lambda>q. q_ID q \<in> set ?ids) (sql_update (\<lambda>q. q_ID q \<in> set ?ids) ?f (db_queue db))"
    and db': "db' = db\<lparr>db_queue := sql_update (\<lambda>q. q_ID q \<in> set ?ids) ?f (db_queue db)\<rparr>"
    using assms(2-4) by (auto simp: ClaimPending_def Let_def)
  have keys: "map q_ID (filter (\<lambda>q. q_ID q \<in> set ?ids) t) = filter (\<lambda>k. k \<in> set ?ids) (map q_ID t)" for t
    by (induction t) auto
  have mqs: "map q_ID qs = filter (\<lambda>k. k \<in> set ?ids) (map q_ID (db_queue db))"
    by (simp add: qs keys)
  have ids: "set ?ids \<subseteq> q_ID ` set (db_queue db)" using claim_candidates_subset by fastforce
  have set: "set (map q_ID qs) = set ?ids" unfolding mqs using ids by auto
  have dist: "distinct (map q_ID qs)" unfolding mqs using assms(1) by simp
  show "db' = db\<lparr>db_queue := sql_update (\<lambda>q. q_ID q \<in> set ?ids) ?f (db_queue db)\<rparr>" by (rule db')
  show "q_ID ` set qs = set ?ids" using set by simp
  show "length qs = length ?ids"
    using distinct_card[OF dist] distinct_card[OF claim_candidates_distinct[OF assms(1)], of dbnow locked limit]
    unfolding set by simp
  show "\<exists>q \<in> set (db_queue db). claimable db dbnow q \<and> \<not> locked (q_ID q) \<and> q_ID q \<in> set ?ids \<and> q' = ?f q"
    if "q' \<in> set qs"
  proof -
    from that obtain q where q: "q \<in> set (db_queue db)" "q_ID q \<in> set ?ids" "q' = ?f q"
      by (auto simp: qs set_sql_update split: if_splits)
    with claim_candidates_subset[OF q(2)] unique_rowD[OF assms(1)] show ?thesis by blast
  qed
qed

text \<open>C16. A claim of a positive limit and lease returns rows that were due (pending, failed
  with attempts left, or in processing under a lapsed lease), whose intent, if any, may still
  be submitted and has no unresolved attempt, and that no other transaction locks; each is now
  in processing under the claim's token and lease with one more attempt. It returns at most
  \<open>limit\<close> rows, a row left behind although it could be taken means the limit was reached
  and that it ranks no better by priority and age, and rows not returned are unchanged.\<close>

theorem claim_takes_the_best:
  assumes "distinct (map q_ID (db_queue db))" and "0 < limit" and "0 < d"
    and "ClaimPending token now dbnow locked limit d db = (Inr qs, db')"
  shows "int (length qs) \<le> limit \<and>
    (\<forall>q' \<in> set qs. \<exists>q \<in> set (db_queue db). claimable db dbnow q \<and> \<not> locked (q_ID q) \<and>
       q' = claim_row token (now + d) dbnow q) \<and>
    (\<forall>r \<in> set (db_queue db). claimable db dbnow r \<and> \<not> locked (q_ID r) \<and> q_ID r \<notin> q_ID ` set qs \<longrightarrow>
       int (length qs) = limit \<and> (\<forall>q' \<in> set qs. claim_rank q' \<le> claim_rank r)) \<and>
    (\<forall>r \<in> set (db_queue db). q_ID r \<notin> q_ID ` set qs \<longrightarrow> r \<in> set (db_queue db'))"
proof (intro conjI ballI impI)
  note D = ClaimPending_InrD[OF assms]
  let ?xs = "filter (\<lambda>q. \<not> locked (q_ID q)) (claim_order (filter (claimable db dbnow) (db_queue db)))"
  have len: "length qs = min (length ?xs) (nat limit)"
    using D(3) by (simp add: claim_candidates_def)
  then show "int (length qs) \<le> limit" using assms(2) by simp
  show "\<exists>q \<in> set (db_queue db). claimable db dbnow q \<and> \<not> locked (q_ID q) \<and>
       q' = claim_row token (now + d) dbnow q" if "q' \<in> set qs" for q'
    using D(4)[OF that] by blast
  fix r assume r: "r \<in> set (db_queue db)"
  show "r \<in> set (db_queue db')" if "q_ID r \<notin> q_ID ` set qs"
    using that r D(1,2) by (auto simp: set_sql_update intro: image_eqI[of r _ r])
  assume c: "claimable db dbnow r \<and> \<not> locked (q_ID r) \<and> q_ID r \<notin> q_ID ` set qs"
  then have nr: "q_ID r \<notin> set (claim_candidates db dbnow locked limit)" using D(2) by simp
  have "r \<in> set ?xs" using c r by (simp add: claim_order_def)
  with nr have "nat limit < length ?xs" by (auto simp: claim_candidates_def intro: ccontr)
  then show "int (length qs) = limit" using len assms(2) by simp
  fix q' assume "q' \<in> set qs"
  with D(4) obtain q where q: "q \<in> set (db_queue db)" "q_ID q \<in> set (claim_candidates db dbnow locked limit)"
    "q' = claim_row token (now + d) dbnow q" by blast
  have "claim_rank q \<le> claim_rank r"
    using claim_candidates_best[OF assms(1) q(1,2) r _ _ nr] c by blast
  then show "claim_rank q' \<le> claim_rank r" by (simp add: q(3) claim_rank_def claim_row_def)
qed

text \<open>C15. From the moment a claim returns a row until its lease ends, whatever other workers
  do - claims, and completions or failures under other tokens or of other rows - no claim
  returns the row again, every completion or failure of the row under another token reports
  a lost claim and changes nothing, and the holder's own completion still succeeds.\<close>

theorem claim_is_exclusive:
  assumes "lease_inv db" and "0 < limit" and "0 < d"
    and "ClaimPending token now dbnow locked limit d db = (Inr qs, db1)" and "q \<in> set qs"
    and "lease_run queue_claim queue_finish es db1 = (outs, db2)"
    and "\<forall>e \<in> set es. others_before (q_ID q) token (now + d) e"
  shows "list_all2 (spares (q_ID q)) es outs \<and>
    fst (CompleteClaim (q_ID q) token at db2) = Inr () \<and>
    (\<forall>token'. token' \<noteq> token \<longrightarrow> CompleteClaim (q_ID q) token' at db2 = (Inl (E_ClaimLost (q_ID q)), db2))"
proof -
  have dist: "distinct (map q_ID (db_queue db))" using assms(1) by (simp add: lease_inv_def)
  note D = ClaimPending_InrD[OF dist assms(2-4)]
  have qc: "queue_claim (limit, locked, now, d) dbnow token db = (map q_ID qs, db1)"
    by (simp add: queue_claim_def assms(4))
  have inv1: "lease_inv db1" by (rule qs.claim_inv[OF assms(1) qc])
  then have dist1: "distinct (map q_ID (db_queue db1))" by (simp add: lease_inv_def)
  from D(4)[OF assms(5)] obtain r where r: "r \<in> set (db_queue db)"
    "q_ID r \<in> set (claim_candidates db dbnow locked limit)" "q = claim_row token (now + d) dbnow r" by blast
  then have "q \<in> set (db_queue db1)" by (auto simp: D(1) set_sql_update)
  then have "sql_find (\<lambda>x. q_ID x = q_ID q) (db_queue db1) = Some q" by (rule sql_find_unique[OF dist1])
  moreover have "q_ClaimToken q = Some token" "q_LeaseExpiresAt q = Some (now + d)"
    by (simp_all add: r(3) claim_row_def)
  ultimately have "queue_lease db1 (q_ID q) = Some (token, now + d)" by (simp add: queue_lease_def)
  from qs.held_until_released[OF inv1 this assms(6,7)]
  have inv2: "lease_inv db2" and lease2: "queue_lease db2 (q_ID q) = Some (token, now + d)"
    and sp: "list_all2 (spares (q_ID q)) es outs" by auto
  have fin: "queue_finish (ByComplete at) (q_ID q) t db2 =
      (\<not> isl (fst (CompleteClaim (q_ID q) t at db2)), snd (CompleteClaim (q_ID q) t at db2))" for t
    by (simp add: queue_finish_def split: prod.split)
  have ok: "\<not> isl (fst (CompleteClaim (q_ID q) t at db2)) \<longleftrightarrow> t = token" for t
    using qs.finish_owner[OF inv2 fin] lease2 by auto
  have res: "fst (CompleteClaim k t at db2) \<in> {Inl (E_ClaimLost k), Inr ()}" for k t
    by (simp add: CompleteClaim_def Let_def)
  have "snd (CompleteClaim (q_ID q) t at db2) = db2" if "t \<noteq> token" for t
    using qs.finish_stale[OF inv2] fin[of t] ok[of t] that by auto
  then show ?thesis using sp ok res by (metis insert_iff empty_iff isl_def prod.collapse sum.disc(1))
qed

text \<open>Two rows of one broadcast, the second less urgent.\<close>

definition sample_payload :: email_queue_payload where
  "sample_payload = \<lparr>p_FromAddress = ''a@b.c'', p_FromName = ''A'', p_Subject = ''S'',
     p_HTMLContent = ''H'', p_EmailOptions = \<lparr>eo_FromName = None, eo_Subject = None,
       eo_SubjectPreview = None, eo_CC = [], eo_BCC = [], eo_ReplyTo = [], eo_Attachments = [],
       eo_ListUnsubscribeURL = []\<rparr>, p_RateLimitPerMinute = 60, p_ProviderSettings = [],
     p_TemplateVersion = 1, p_ListID = [], p_TemplateData = [], p_ContactAutomationID = None,
     p_AudienceEligibility = None\<rparr>"

definition sample_row :: "string \<Rightarrow> int \<Rightarrow> queue_entry" where
  "sample_row k prio = \<lparr>q_ID = k, q_DeliveryIntentID = None, q_Status = QS_Pending,
     q_Priority = prio, q_SourceType = Src_Broadcast, q_SourceID = ''b1'', q_IntegrationID = ''i1'',
     q_ProviderKind = SMTP, q_ContactEmail = ''x@y.z'', q_MessageID = ''m'' @ k,
     q_TemplateID = ''tpl'', q_Payload = sample_payload, q_Attempts = 0, q_MaxAttempts = 3,
     q_LastError = None, q_NextRetryAt = None, q_CreatedAt = 10, q_UpdatedAt = 10,
     q_ProcessedAt = None, q_ClaimToken = None, q_LeaseExpiresAt = None, q_CompletedAt = None\<rparr>"

definition sample_queue :: delivery_db where
  "sample_queue = empty_db\<lparr>db_queue := [sample_row ''q2'' 9, sample_row ''q1'' 5]\<rparr>"

definition sample_claimed :: delivery_db where
  "sample_claimed = empty_db\<lparr>db_queue :=
     [sample_row ''q2'' 9, claim_row ''t'' 150 100 (sample_row ''q1'' 5)]\<rparr>"

lemma sample_claim:
  "ClaimPending ''t'' 100 100 (\<lambda>_. False) 1 50 sample_queue =
     (Inr [claim_row ''t'' 150 100 (sample_row ''q1'' 5)], sample_claimed)"
  by code_simp

theorem claim_takes_the_best_witness:
  "ClaimPending ''t'' 100 100 (\<lambda>_. False) 1 50 sample_queue =
     (Inr [claim_row ''t'' 150 100 (sample_row ''q1'' 5)], sample_claimed) \<and>
   sample_row ''q2'' 9 \<in> set (db_queue sample_claimed)"
proof -
  have d: "distinct (map q_ID (db_queue sample_queue))" by code_simp
  have "sample_row ''q2'' 9 \<in> set (db_queue sample_queue)" by code_simp
  moreover have "q_ID (sample_row ''q2'' 9) \<notin> q_ID ` set [claim_row ''t'' 150 100 (sample_row ''q1'' 5)]"
    by code_simp
  ultimately have "sample_row ''q2'' 9 \<in> set (db_queue sample_claimed)"
    using claim_takes_the_best[OF d _ _ sample_claim] by fastforce
  with sample_claim show ?thesis by simp
qed

theorem claim_is_exclusive_witness:
  "\<exists>outs db2. lease_run queue_claim queue_finish
     [Claim (10, \<lambda>_. False, 120, 50) 120 ''u'', Finish (ByComplete 130) ''q1'' ''u''] sample_claimed =
       (outs, db2) \<and> fst (CompleteClaim ''q1'' ''t'' 140 db2) = Inr ()"
proof -
  have i: "lease_inv sample_queue" by code_simp
  obtain outs db2 where r: "lease_run queue_claim queue_finish
     [Claim (10, \<lambda>_. False, 120, 50) 120 ''u'', Finish (ByComplete 130) ''q1'' ''u''] sample_claimed =
       (outs, db2)" by fastforce
  let ?q = "claim_row ''t'' 150 100 (sample_row ''q1'' 5)"
  have k: "q_ID ?q = ''q1''" by (simp add: sample_row_def)
  have "fst (CompleteClaim (q_ID ?q) ''t'' 140 db2) = Inr ()"
    using claim_is_exclusive[OF i _ _ sample_claim _ r, of ?q 140] by (simp add: k)
  with r k show ?thesis by auto
qed

section \<open>Retry times\<close>

lemma shl64_small: "n < 63 \<Longrightarrow> shl64 1 n = 2 ^ n"
proof -
  assume "n < 63"
  then have "(2::int) ^ n < 2 ^ 63" by (rule power_strict_increasing) simp
  then show ?thesis
    unfolding shl64_def by (intro wrap64_id[THEN trans]) (auto simp: in_int64_def intro: order_trans[of _ 0])
qed

lemma shl64_large: "64 \<le> n \<Longrightarrow> shl64 1 n = 0"
proof -
  assume "64 \<le> n"
  then have "n = (n - 64) + 64" by simp
  then have "(2::int) ^ n = 2 ^ (n - 64) * 2 ^ 64" by (metis power_add)
  then show ?thesis by (simp add: shl64_def wrap64_def)
qed

text \<open> With the default base of one minute the retry of attempt \<open>n\<close> is \<open>2^(n-1)\<close> minutes
  away for attempts 1 to 28, non-positive attempt counts count as the first, attempt 29
  overflows \<open>time.Duration\<close> and gives a time in the past, and from attempt 65 on the delay
  is zero.\<close>

theorem retry_backoff_range:
  "(1 \<le> n \<and> n \<le> 28 \<longrightarrow> CalculateNextRetryTime minute now n = now + 2 ^ nat (n - 1) * minute) \<and>
   (n \<le> 0 \<longrightarrow> CalculateNextRetryTime minute now n = now + minute) \<and>
   CalculateNextRetryTime minute now 29 < now \<and>
   (65 \<le> n \<longrightarrow> CalculateNextRetryTime minute now n = now)"
proof (intro conjI impI)
  assume n: "1 \<le> n \<and> n \<le> 28"
  then have "(2::int) ^ nat (n - 1) \<le> 2 ^ 27" by (intro power_increasing) auto
  then have "2 ^ nat (n - 1) * minute \<le> 2 ^ 27 * minute"
    by (intro mult_right_mono) (simp_all add: duration_defs)
  then have "in_int64 (2 ^ nat (n - 1) * minute)"
    by (simp add: in_int64_def duration_defs)
       (rule order_trans[of _ 0], simp_all)
  moreover have "shl64 1 (nat (n - 1)) = 2 ^ nat (n - 1)" using n by (intro shl64_small) auto
  ultimately show "CalculateNextRetryTime minute now n = now + 2 ^ nat (n - 1) * minute"
    using n by (simp add: CalculateNextRetryTime_def Let_def)
next
  assume "n \<le> 0"
  moreover have "shl64 1 0 = 1" by code_simp
  moreover have "wrap64 minute = minute" by code_simp
  ultimately show "CalculateNextRetryTime minute now n = now + minute"
    by (simp add: CalculateNextRetryTime_def)
next
  have "wrap64 (shl64 1 28 * minute) < 0" by code_simp
  then show "CalculateNextRetryTime minute now 29 < now"
    by (simp add: CalculateNextRetryTime_def Let_def)
next
  assume n: "65 \<le> n"
  then have "shl64 1 (nat (n - 1)) = 0" by (intro shl64_large) auto
  moreover have "wrap64 0 = 0" by code_simp
  ultimately show "CalculateNextRetryTime minute now n = now"
    using n by (simp add: CalculateNextRetryTime_def Let_def)
qed

theorem retry_backoff_range_witness:
  "CalculateNextRetryTime minute 0 3 = 4 * minute \<and> CalculateNextRetryTime minute 7 65 = 7"
proof -
  have "CalculateNextRetryTime minute 0 3 = 4 * minute"
    using retry_backoff_range[of 3 0] by (simp add: nat_diff_distrib eval_nat_numeral)
  moreover have "CalculateNextRetryTime minute 7 65 = 7" using retry_backoff_range[of 65 7] by simp
  ultimately show ?thesis by simp
qed

text \<open> A claimed row that is failed for good (no next retry) is never due again as it
  stands. But pausing and then resuming its source makes it pending without a retry time: if it
  has no delivery intent, it is due at once, whatever its attempts.\<close>

theorem resume_revives_permanent_failures:
  assumes "db_wf db" and "q \<in> set (db_queue db)" and "q_DeliveryIntentID q = None"
    and "q_ClaimToken q = Some token"
    and "FailClaim now (q_ID q) token msg None db = (Inr (), db1)"
    and "PauseBySource t1 (q_SourceType q) (q_SourceID q) db1 = (Inr n, db2)"
    and "ResumeBySource t2 (q_SourceType q) (q_SourceID q) db2 = (Inr n', db3)"
  shows "(\<forall>q1 \<in> set (db_queue db1). q_ID q1 = q_ID q \<longrightarrow> \<not> claim_due dbnow q1) \<and>
    (\<exists>q3 \<in> set (db_queue db3). q_ID q3 = q_ID q \<and> q_Attempts q3 = q_Attempts q \<and> claimable db3 dbnow q3)"
proof
  have dist: "distinct (map q_ID (db_queue db))" using assms(1) by (simp add: db_wf_def)
  have db1: "db1 = db\<lparr>db_queue := sql_update (owned_by (q_ID q) token) (fail_row now msg None) (db_queue db)\<rparr>"
    using assms(5) by (auto simp: FailClaim_def Let_def split: if_splits)
  have "q1 \<in> set (db_queue db1) \<Longrightarrow> q_ID q1 = q_ID q \<Longrightarrow> q1 = fail_row now msg None q" for q1
    using unique_rowD[OF dist _ assms(2)] assms(4)
    by (auto simp: db1 set_sql_update owned_by_def split: if_splits)
  then show "\<forall>q1 \<in> set (db_queue db1). q_ID q1 = q_ID q \<longrightarrow> \<not> claim_due dbnow q1"
    by (fastforce simp: claim_due_def fail_row_def due_def)
  let ?q1 = "fail_row now msg None q"
  let ?q2 = "?q1\<lparr>q_Status := QS_Paused, q_UpdatedAt := t1\<rparr>"
  let ?q3 = "?q2\<lparr>q_Status := QS_Pending, q_NextRetryAt := None, q_UpdatedAt := t2\<rparr>"
  have "?q1 \<in> set (db_queue db1)" using assms(2,4) by (auto simp: db1 set_sql_update owned_by_def)
  moreover have "pausable (q_SourceType q) (q_SourceID q) ?q1"
    by (simp add: pausable_def of_source_def fail_row_def)
  ultimately have "?q2 \<in> set (db_queue db2)"
    using assms(6) by (auto simp: PauseBySource_def set_sql_update intro!: rev_image_eqI[of ?q1])
  moreover have "resumable (q_SourceType q) (q_SourceID q) ?q2"
    by (simp add: resumable_def of_source_def fail_row_def)
  ultimately have "?q3 \<in> set (db_queue db3)"
    using assms(7) by (auto simp: ResumeBySource_def set_sql_update intro!: rev_image_eqI[of ?q2])
  moreover have "claimable db3 dbnow ?q3"
    using assms(3) by (simp add: claimable_def claim_due_def null_or_le_def claim_intent_ready_def fail_row_def)
  ultimately show "\<exists>q3 \<in> set (db_queue db3). q_ID q3 = q_ID q \<and> q_Attempts q3 = q_Attempts q \<and> claimable db3 dbnow q3"
    by (intro bexI[of _ ?q3]) (auto simp: fail_row_def)
qed

theorem resume_revives_permanent_failures_witness:
  "\<exists>db1 db2 db3 q3. FailClaim 110 ''q1'' ''t'' ''bounce'' None sample_claimed = (Inr (), db1) \<and>
     PauseBySource 120 Src_Broadcast ''b1'' db1 = (Inr 2, db2) \<and>
     ResumeBySource 130 Src_Broadcast ''b1'' db2 = (Inr 2, db3) \<and>
     q3 \<in> set (db_queue db3) \<and> q_ID q3 = ''q1'' \<and> claimable db3 140 q3"
proof -
  let ?q = "claim_row ''t'' 150 100 (sample_row ''q1'' 5)"
  define db1 where "db1 = snd (FailClaim 110 ''q1'' ''t'' ''bounce'' None sample_claimed)"
  define db2 where "db2 = snd (PauseBySource 120 Src_Broadcast ''b1'' db1)"
  define db3 where "db3 = snd (ResumeBySource 130 Src_Broadcast ''b1'' db2)"
  have f: "fst (FailClaim 110 ''q1'' ''t'' ''bounce'' None sample_claimed) = Inr ()" by code_simp
  have p: "fst (PauseBySource 120 Src_Broadcast ''b1''
      (snd (FailClaim 110 ''q1'' ''t'' ''bounce'' None sample_claimed))) = Inr 2" by code_simp
  have u: "fst (ResumeBySource 130 Src_Broadcast ''b1'' (snd (PauseBySource 120 Src_Broadcast ''b1''
      (snd (FailClaim 110 ''q1'' ''t'' ''bounce'' None sample_claimed))))) = Inr 2" by code_simp
  have runs: "FailClaim 110 ''q1'' ''t'' ''bounce'' None sample_claimed = (Inr (), db1)"
    "PauseBySource 120 Src_Broadcast ''b1'' db1 = (Inr 2, db2)"
    "ResumeBySource 130 Src_Broadcast ''b1'' db2 = (Inr 2, db3)"
    using f p u by (simp_all add: db1_def db2_def db3_def prod_eq_iff)
  have w: "db_wf sample_claimed" and m: "?q \<in> set (db_queue sample_claimed)" by code_simp+
  have e: "q_ID ?q = ''q1''" "q_DeliveryIntentID ?q = None" "q_ClaimToken ?q = Some ''t''"
    "q_SourceType ?q = Src_Broadcast" "q_SourceID ?q = ''b1''" by code_simp+
  from resume_revives_permanent_failures[OF w m e(2,3), unfolded e(1,4,5), OF runs, of 140] runs
  show ?thesis by blast
qed

end
