(* ===== verification/Delivery_Ledger.thy ===== *)
theory Delivery_Ledger
  imports Email_Queue
begin

text \<open>
  \<open>internal/repository/delivery_postgres.go\<close> and the writing operations of
  \<open>delivery_management_postgres.go\<close>: reservation of an intent, its attempts and their
  outcomes, and the manual resolution of an unknown outcome. Each operation is one transaction
  (\<open>in_tx\<close>) or one statement. \<open>now\<close> is the caller's clock, \<open>dbnow\<close> the
  database's, and the identifiers drawn from \<open>uuid.New\<close> are arguments.
\<close>

section \<open>Reservation\<close>

text \<open>The CHECK constraints of \<open>delivery_intents\<close> on the columns a new intent sets.\<close>

definition delivery_channels :: "string list" where
  "delivery_channels =
     [''email'', ''sms'', ''push'', ''whatsapp'', ''telegram'', ''in_app'', ''webhook'']"

definition intent_row_ok :: "delivery_intent \<Rightarrow> bool" where
  "intent_row_ok i \<longleftrightarrow> di_Channel i \<in> set delivery_channels \<and> 0 \<le> di_TemplateVersion i"

definition intent_by_key :: "delivery_db \<Rightarrow> string \<Rightarrow> delivery_intent option" where
  "intent_by_key db key = sql_find (\<lambda>i. di_EffectKey i = key) (db_intents db)"

definition reserve_defaults :: "string \<Rightarrow> delivery_intent \<Rightarrow> delivery_intent" where
  "reserve_defaults uid i =
     (let i = (if di_ID i = [] then i\<lparr>di_ID := uid\<rparr> else i)
      in if di_Status i = DS_Other [] then i\<lparr>di_Status := DS_Reserved\<rparr> else i)"

definition reserveDeliveryIntentTx ::
    "string \<Rightarrow> instant \<Rightarrow> delivery_intent \<Rightarrow> (delivery_intent \<times> bool) db_op" where
  "reserveDeliveryIntentTx uid dbnow intent db =
     (if di_EffectKey intent = [] \<or> di_RequestHash intent = [] then (Inl E_EffectKeyRequired, db)
      else
        let i = reserve_defaults uid intent in
        if di_Status i \<noteq> DS_Reserved \<and> di_Status i \<noteq> DS_Suppressed \<and> di_Status i \<noteq> DS_Deferred
        then (Inl E_BadInitialStatus, db)
        else if \<not> intent_row_ok i then (Inl E_CheckViolation, db)
        else
          (case intent_by_key db (di_EffectKey i) of
             Some stored \<Rightarrow>
               if di_RequestHash stored \<noteq> di_RequestHash i then (Inl E_HashConflict, db)
               else (Inr (stored, False), db)
           | None \<Rightarrow>
               if sql_exists (\<lambda>x. di_ID x = di_ID i) (db_intents db) then (Inl E_UniqueViolation, db)
               else
                 let row = i\<lparr>di_CreatedAt := dbnow, di_UpdatedAt := dbnow\<rparr>
                 in (Inr (row, True), db\<lparr>db_intents := db_intents db @ [row]\<rparr>)))"

definition ReserveIntent ::
    "string \<Rightarrow> instant \<Rightarrow> delivery_intent \<Rightarrow> (delivery_intent \<times> bool) db_op" where
  "ReserveIntent uid dbnow intent = in_tx (reserveDeliveryIntentTx uid dbnow intent)"

record reserve_delivery_result =
  rr_Intent :: delivery_intent
  rr_Created :: bool
  rr_QueueCreated :: bool

definition requeueable :: "string \<Rightarrow> delivery_intent \<Rightarrow> bool" where
  "requeueable i x \<longleftrightarrow> di_ID x = i \<and> di_Status x \<in> {DS_Reserved, DS_TransientFailed}"

definition reserve_and_enqueue_tx ::
    "string \<Rightarrow> string \<Rightarrow> instant \<Rightarrow> instant \<Rightarrow> delivery_intent \<Rightarrow> queue_entry \<Rightarrow> reserve_delivery_result db_op"
  where
  "reserve_and_enqueue_tx uid quid now dbnow intent entry db =
     (case reserveDeliveryIntentTx uid dbnow intent db of
        (Inl e, db1) \<Rightarrow> (Inl e, db1)
      | (Inr (stored, created), db1) \<Rightarrow>
          if di_Status stored = DS_Reserved \<or> di_Status stored = DS_TransientFailed then
            (case EnqueueIntentTx quid now (Some (entry\<lparr>q_DeliveryIntentID := Some (di_ID stored)\<rparr>)) db1 of
               (Inl e, db2) \<Rightarrow> (Inl e, db2)
             | (Inr queueCreated, db2) \<Rightarrow>
                 if sql_count (requeueable (di_ID stored)) (db_intents db2) \<noteq> 1
                 then (Inl E_QueueTransitionRejected, db2)
                 else (Inr \<lparr>rr_Intent = stored\<lparr>di_Status := DS_Queued\<rparr>, rr_Created = created,
                            rr_QueueCreated = queueCreated\<rparr>,
                       db2\<lparr>db_intents := sql_update (requeueable (di_ID stored))
                         (\<lambda>x. x\<lparr>di_Status := DS_Queued, di_UpdatedAt := dbnow\<rparr>) (db_intents db2)\<rparr>))
          else (Inr \<lparr>rr_Intent = stored, rr_Created = created, rr_QueueCreated = False\<rparr>, db1))"

definition ReserveAndEnqueue ::
    "string \<Rightarrow> string \<Rightarrow> instant \<Rightarrow> instant \<Rightarrow> delivery_intent \<Rightarrow> queue_entry option \<Rightarrow>
     reserve_delivery_result db_op" where
  "ReserveAndEnqueue uid quid now dbnow intent entry db =
     (case entry of
        None \<Rightarrow> (Inl E_EntryRequired, db)
      | Some e \<Rightarrow> in_tx (reserve_and_enqueue_tx uid quid now dbnow intent e) db)"

definition GetIntentByEffectKey :: "string \<Rightarrow> delivery_db \<Rightarrow> delivery_intent option" where
  "GetIntentByEffectKey key db = intent_by_key db key"

section \<open>Status changes\<close>

definition in_status :: "string \<Rightarrow> delivery_status \<Rightarrow> delivery_intent \<Rightarrow> bool" where
  "in_status i s x \<longleftrightarrow> di_ID x = i \<and> di_Status x = s"

definition SuppressIntent :: "string \<Rightarrow> delivery_status \<Rightarrow> string \<Rightarrow> instant \<Rightarrow> bool db_op" where
  "SuppressIntent i expected reason occurredAt db =
     (Inr (sql_count (in_status i expected) (db_intents db) = 1),
      db\<lparr>db_intents := sql_update (in_status i expected)
        (\<lambda>x. x\<lparr>di_Status := DS_Suppressed, di_SuppressionReason := reason, di_UpdatedAt := occurredAt\<rparr>)
        (db_intents db)\<rparr>)"

definition TransitionIntent ::
    "string \<Rightarrow> delivery_status \<Rightarrow> delivery_status \<Rightarrow> instant \<Rightarrow> bool db_op" where
  "TransitionIntent i from to at db =
     (if \<not> CanTransitionTo from to then (Inl (E_TransitionNotAllowed from to), db)
      else (Inr (sql_count (in_status i from) (db_intents db) = 1),
            db\<lparr>db_intents := sql_update (in_status i from)
              (\<lambda>x. x\<lparr>di_Status := to, di_UpdatedAt := at\<rparr>) (db_intents db)\<rparr>))"

definition set_intent_status :: "string \<Rightarrow> delivery_status \<Rightarrow> instant \<Rightarrow> delivery_db \<Rightarrow> delivery_db" where
  "set_intent_status i s at db =
     db\<lparr>db_intents := sql_update (\<lambda>x. di_ID x = i) (\<lambda>x. x\<lparr>di_Status := s, di_UpdatedAt := at\<rparr>)
       (db_intents db)\<rparr>"

section \<open>Attempts\<close>

record delivery_attempt_start =
  as_IntentID :: string
  as_Provider :: string
  as_ClaimToken :: string
  as_LeaseExpiresAt :: instant

definition next_attempt_no :: "delivery_attempt list \<Rightarrow> int" where
  "next_attempt_no as = fold max (map da_AttemptNo as) 0 + 1"

definition new_attempt ::
    "string \<Rightarrow> instant \<Rightarrow> delivery_attempt_start \<Rightarrow> int \<Rightarrow> string \<Rightarrow> delivery_attempt" where
  "new_attempt uid now start no hash = \<lparr>da_ID = uid, da_IntentID = as_IntentID start,
     da_AttemptNo = no, da_Provider = as_Provider start, da_RequestHash = hash,
     da_ProviderMessageID = [], da_Status = DS_Submitting, da_ClaimToken = as_ClaimToken start,
     da_LeaseExpiresAt = (if as_LeaseExpiresAt start = zero_time then None
                          else Some (as_LeaseExpiresAt start)),
     da_SubmittedAt = Some now, da_AcceptedAt = None, da_CompletedAt = None, da_ErrorCategory = [],
     da_ErrorCode = [], da_ErrorDetail = [], da_CreatedAt = now, da_UpdatedAt = now\<rparr>"

text \<open>The attempt handed to the worker also carries the effect key of its intent.\<close>

definition start_attempt_tx ::
    "string \<Rightarrow> instant \<Rightarrow> instant \<Rightarrow> delivery_attempt_start \<Rightarrow> (delivery_attempt \<times> string) db_op" where
  "start_attempt_tx uid now dbnow start db =
     (let i = as_IntentID start in
      case intent_of db i of
        None \<Rightarrow> (Inl E_NoRows, db)
      | Some intent \<Rightarrow>
          let db1 = (if di_Status intent = DS_TransientFailed
                     then db\<lparr>db_intents := sql_update (in_status i DS_TransientFailed)
                       (\<lambda>x. x\<lparr>di_Status := DS_Queued, di_UpdatedAt := dbnow\<rparr>) (db_intents db)\<rparr>
                     else db);
              status = (if di_Status intent = DS_TransientFailed then DS_Queued else di_Status intent)
          in if status \<noteq> DS_Queued then (Inl (E_CannotStart i status), db1)
             else if has_unresolved_attempt db1 i then (Inl (E_UnresolvedAttempt i), db1)
             else
               let attempt = new_attempt uid now start
                     (next_attempt_no (attempts_of_intent db1 i)) (di_RequestHash intent)
               in if sql_exists (\<lambda>a. da_ID a = uid) (db_attempts db1) then (Inl E_UniqueViolation, db1)
                  else
                    let db2 = db1\<lparr>db_attempts := db_attempts db1 @ [attempt]\<rparr>
                    in if sql_count (in_status i DS_Queued) (db_intents db2) \<noteq> 1
                       then (Inl E_SubmittingRejected, db2)
                       else (Inr (attempt, di_EffectKey intent),
                             db2\<lparr>db_intents := sql_update (in_status i DS_Queued)
                               (\<lambda>x. x\<lparr>di_Status := DS_Submitting, di_UpdatedAt := now\<rparr>) (db_intents db2)\<rparr>))"

definition StartAttempt ::
    "string \<Rightarrow> instant \<Rightarrow> instant \<Rightarrow> delivery_attempt_start \<Rightarrow> (delivery_attempt \<times> string) db_op" where
  "StartAttempt uid now dbnow start db =
     (if as_IntentID start = [] \<or> as_Provider start = [] \<or> as_ClaimToken start = []
      then (Inl E_StartFieldsRequired, db)
      else in_tx (start_attempt_tx uid now dbnow start) db)"

record delivery_attempt_outcome =
  ao_Status :: delivery_status
  ao_ProviderMessageID :: string
  ao_ErrorCategory :: string
  ao_ErrorCode :: string
  ao_ErrorDetail :: string
  ao_NextRetryAt :: "instant option"
  ao_OccurredAt :: instant

definition outcome_statuses :: "delivery_status list" where
  "outcome_statuses = [DS_ProviderAccepted, DS_Confirmed, DS_TransientFailed, DS_TerminalFailed, DS_Unknown]"

definition outcome_attempt :: "delivery_attempt_outcome \<Rightarrow> instant \<Rightarrow> delivery_attempt \<Rightarrow> delivery_attempt" where
  "outcome_attempt out at a = a\<lparr>
     da_Status := ao_Status out, da_ProviderMessageID := ao_ProviderMessageID out,
     da_AcceptedAt := (if ao_Status out = DS_ProviderAccepted then Some at else da_AcceptedAt a),
     da_CompletedAt := (if ao_Status out = DS_Confirmed then Some at else da_CompletedAt a),
     da_ErrorCategory := ao_ErrorCategory out, da_ErrorCode := ao_ErrorCode out,
     da_ErrorDetail := ao_ErrorDetail out, da_UpdatedAt := at\<rparr>"

text \<open>What an outcome does to the queue row of the intent: nothing on acceptance, and
  otherwise the row must still be held under the attempt's token.\<close>

definition outcome_queue ::
    "delivery_attempt_outcome \<Rightarrow> instant \<Rightarrow> (queue_entry \<Rightarrow> queue_entry) option" where
  "outcome_queue out at =
     (case ao_Status out of
        DS_Confirmed \<Rightarrow> Some (complete_row at)
      | DS_TransientFailed \<Rightarrow> Some (fail_row at (ao_ErrorDetail out) (ao_NextRetryAt out))
      | DS_TerminalFailed \<Rightarrow> Some (fail_row at (ao_ErrorDetail out) None)
      | DS_Unknown \<Rightarrow> Some (fail_row at (ao_ErrorDetail out) None)
      | _ \<Rightarrow> None)"

definition held_for :: "string \<Rightarrow> string \<Rightarrow> queue_entry \<Rightarrow> bool" where
  "held_for i token q \<longleftrightarrow> q_DeliveryIntentID q = Some i \<and> q_ClaimToken q = Some token"

definition pending_reconciliation ::
    "instant \<Rightarrow> string \<Rightarrow> string option \<Rightarrow> string \<Rightarrow> instant \<Rightarrow> delivery_reconciliation" where
  "pending_reconciliation dbnow i a reason at = \<lparr>dr_IntentID = i, dr_AttemptID = a,
     dr_Status = ''pending'', dr_Resolution = [], dr_ActorID = [], dr_Reason = reason,
     dr_NextQueryAt = Some at, dr_CreatedAt = dbnow, dr_UpdatedAt = dbnow, dr_ResolvedAt = None\<rparr>"

definition record_outcome_tx ::
    "instant \<Rightarrow> instant \<Rightarrow> string \<Rightarrow> string \<Rightarrow> delivery_attempt_outcome \<Rightarrow> unit db_op" where
  "record_outcome_tx at dbnow aid token out db =
     (case sql_find (\<lambda>a. da_ID a = aid \<and> da_ClaimToken a = token) (db_attempts db) of
        None \<Rightarrow> (Inl E_NoRows, db)
      | Some a \<Rightarrow>
          if \<not> CanTransitionTo (da_Status a) (ao_Status out)
          then (Inl (E_TransitionNotAllowed (da_Status a) (ao_Status out)), db)
          else
            (case intent_status db (da_IntentID a) of
               None \<Rightarrow> (Inl E_NoRows, db)
             | Some s \<Rightarrow>
                 if \<not> CanTransitionTo s (ao_Status out)
                 then (Inl (E_TransitionNotAllowed s (ao_Status out)), db)
                 else
                   let i = da_IntentID a;
                       db1 = db\<lparr>db_attempts := sql_update (\<lambda>a. da_ID a = aid \<and> da_ClaimToken a = token)
                                 (outcome_attempt out at) (db_attempts db)\<rparr>;
                       db2 = set_intent_status i (ao_Status out) at db1;
                       db3 = (case outcome_queue out at of
                                None \<Rightarrow> db2
                              | Some f \<Rightarrow> db2\<lparr>db_queue := sql_update (held_for i token) f (db_queue db2)\<rparr>);
                       db4 = (if ao_Status out = DS_Unknown
                              then db3\<lparr>db_recons := db_recons db3 @
                                [pending_reconciliation dbnow i (Some aid) (ao_ErrorDetail out) at]\<rparr>
                              else db3)
                   in if outcome_queue out at \<noteq> None \<and> sql_count (held_for i token) (db_queue db2) \<noteq> 1
                      then (Inl E_QueueClaimLost, db3)
                      else (Inr (), db4)))"

definition RecordAttemptOutcome ::
    "instant \<Rightarrow> instant \<Rightarrow> string \<Rightarrow> string \<Rightarrow> delivery_attempt_outcome \<Rightarrow> unit db_op" where
  "RecordAttemptOutcome now dbnow aid token out db =
     (if aid = [] \<or> token = [] then (Inl E_OutcomeFieldsRequired, db)
      else if ao_Status out \<notin> set outcome_statuses then (Inl (E_UnsupportedOutcome (ao_Status out)), db)
      else
        let at = (if ao_OccurredAt out = zero_time then now else ao_OccurredAt out)
        in in_tx (record_outcome_tx at dbnow aid token out) db)"

section \<open>Management\<close>

definition latest_attempt :: "delivery_attempt list \<Rightarrow> delivery_attempt option" where
  "latest_attempt as = (case sort_key (\<lambda>a. - da_AttemptNo a) as of [] \<Rightarrow> None | a # _ \<Rightarrow> Some a)"

definition open_reconciliation :: "delivery_db \<Rightarrow> string \<Rightarrow> bool" where
  "open_reconciliation db i =
     sql_exists (\<lambda>r. dr_IntentID r = i \<and> dr_Status r \<in> {''pending'', ''querying''}) (db_recons db)"

definition RequestDeliveryReconciliation :: "instant \<Rightarrow> string \<Rightarrow> string \<Rightarrow> unit db_op" where
  "RequestDeliveryReconciliation dbnow i reason db =
     (case intent_status db i of
        None \<Rightarrow> (Inl E_DeliveryNotFound, db)
      | Some s \<Rightarrow>
          if unresolved_status s \<and> \<not> open_reconciliation db i
          then (Inr (), db\<lparr>db_recons := db_recons db @
                 [pending_reconciliation dbnow i
                    (map_option da_ID (latest_attempt (attempts_of_intent db i))) reason dbnow]\<rparr>)
          else (Inr (), db))"

datatype delivery_resolution_action =
    RA_MarkConfirmed | RA_MarkTerminalFailed | RA_RetryVerifiedNotAccepted | RA_Other string

fun resolution_text :: "delivery_resolution_action \<Rightarrow> string" where
  "resolution_text RA_MarkConfirmed = ''mark_confirmed''"
| "resolution_text RA_MarkTerminalFailed = ''mark_terminal_failed''"
| "resolution_text RA_RetryVerifiedNotAccepted = ''retry_after_verified_not_accepted''"
| "resolution_text (RA_Other s) = s"

fun resolution_target :: "delivery_resolution_action \<Rightarrow> delivery_status option" where
  "resolution_target RA_MarkConfirmed = Some DS_Confirmed"
| "resolution_target RA_MarkTerminalFailed = Some DS_TerminalFailed"
| "resolution_target RA_RetryVerifiedNotAccepted = Some DS_Queued"
| "resolution_target (RA_Other _) = None"

definition resolved_attempt :: "delivery_status \<Rightarrow> string \<Rightarrow> instant \<Rightarrow> delivery_attempt \<Rightarrow> delivery_attempt" where
  "resolved_attempt s reason now a = a\<lparr>da_Status := s, da_ErrorCategory := ''manual_resolution'',
     da_ErrorDetail := reason,
     da_CompletedAt := (if s \<in> {DS_Confirmed, DS_TerminalFailed} then Some now else da_CompletedAt a),
     da_UpdatedAt := now\<rparr>"

definition resolved_row :: "delivery_resolution_action \<Rightarrow> instant \<Rightarrow> queue_entry \<Rightarrow> queue_entry" where
  "resolved_row action now q =
     (if action = RA_MarkConfirmed then complete_row now q
      else q\<lparr>q_Status := QS_Failed,
             q_NextRetryAt := (if action = RA_RetryVerifiedNotAccepted then Some now else None),
             q_ClaimToken := None, q_LeaseExpiresAt := None, q_UpdatedAt := now\<rparr>)"

definition resolve_unknown_tx ::
    "instant \<Rightarrow> string \<Rightarrow> delivery_resolution_action \<Rightarrow> string \<Rightarrow> string \<Rightarrow> unit db_op" where
  "resolve_unknown_tx now i action actor reason db =
     (case intent_status db i of
        None \<Rightarrow> (Inl E_DeliveryNotFound, db)
      | Some s \<Rightarrow>
          if s \<noteq> DS_Unknown then (Inl (E_NotUnknown s), db)
          else
            (case latest_attempt (filter (\<lambda>a. da_Status a = DS_Unknown) (attempts_of_intent db i)) of
               None \<Rightarrow> (Inl E_NoRows, db)
             | Some a \<Rightarrow>
                 (case resolution_target action of
                    None \<Rightarrow> (Inl E_UnsupportedAction, db)
                  | Some target \<Rightarrow>
                      let attemptTarget = (if action = RA_RetryVerifiedNotAccepted then DS_TerminalFailed
                                           else target);
                          db1 = db\<lparr>db_attempts := sql_update (\<lambda>x. da_ID x = da_ID a)
                                    (resolved_attempt attemptTarget reason now) (db_attempts db)\<rparr>;
                          db2 = set_intent_status i target now db1;
                          db3 = db2\<lparr>db_queue := sql_update (\<lambda>q. q_DeliveryIntentID q = Some i)
                                     (resolved_row action now) (db_queue db2)\<rparr>
                      in (Inr (), db3\<lparr>db_recons := db_recons db3 @
                           [\<lparr>dr_IntentID = i, dr_AttemptID = Some (da_ID a), dr_Status = ''resolved'',
                             dr_Resolution = resolution_text action, dr_ActorID = actor,
                             dr_Reason = reason, dr_NextQueryAt = None, dr_CreatedAt = now,
                             dr_UpdatedAt = now, dr_ResolvedAt = Some now\<rparr>]\<rparr>))))"

definition ResolveUnknownDelivery ::
    "instant \<Rightarrow> string \<Rightarrow> delivery_resolution_action \<Rightarrow> string \<Rightarrow> string \<Rightarrow> unit db_op" where
  "ResolveUnknownDelivery now i action actor reason = in_tx (resolve_unknown_tx now i action actor reason)"

definition DeliveryResolveUnknownRequest_Validate ::
    "string \<Rightarrow> string \<Rightarrow> delivery_resolution_action \<Rightarrow> string \<Rightarrow> string option" where
  "DeliveryResolveUnknownRequest_Validate ws i action reason =
     (if trim_space ws = [] \<or> trim_space i = [] then Some ''workspace_id and intent_id are required''
      else if resolution_target action = None then Some ''action is invalid''
      else if length (trim_space reason) < 8 \<or> 2000 < length reason
      then Some ''reason must contain between 8 and 2000 characters''
      else None)"

record delivery_progress =
  dp_AudienceTotal :: nat
  dp_Planned :: nat
  dp_Reserved :: nat
  dp_Queued :: nat
  dp_Submitting :: nat
  dp_Accepted :: nat
  dp_Confirmed :: nat
  dp_Suppressed :: nat
  dp_Deferred :: nat
  dp_Failed :: nat
  dp_Unknown :: nat
  dp_Cancelled :: nat
  dp_Processed :: nat

definition GetDeliveryProgress :: "string \<Rightarrow> string \<Rightarrow> string \<Rightarrow> delivery_db \<Rightarrow> delivery_progress" where
  "GetDeliveryProgress srcType srcID srcVersion db =
     (let rows = filter (\<lambda>i. di_SourceType i = srcType \<and> di_SourceID i = srcID \<and>
                    (srcVersion = [] \<or> di_SourceVersion i = srcVersion)) (db_intents db);
          count = (\<lambda>ss. sql_count (\<lambda>i. di_Status i \<in> set ss) rows)
      in \<lparr>dp_AudienceTotal = length rows, dp_Planned = count [DS_Planned], dp_Reserved = count [DS_Reserved],
          dp_Queued = count [DS_Queued], dp_Submitting = count [DS_Submitting],
          dp_Accepted = count [DS_ProviderAccepted], dp_Confirmed = count [DS_Confirmed],
          dp_Suppressed = count [DS_Suppressed], dp_Deferred = count [DS_Deferred],
          dp_Failed = count [DS_TransientFailed, DS_TerminalFailed], dp_Unknown = count [DS_Unknown],
          dp_Cancelled = count [DS_Cancelled],
          dp_Processed = count [DS_Confirmed] + count [DS_Suppressed] +
            count [DS_TransientFailed, DS_TerminalFailed] + count [DS_Cancelled]\<rparr>)"

end
