(* ===== verification/Delivery_Receipts.thy ===== *)
theory Delivery_Receipts
  imports Delivery_Ledger
begin

text \<open>
  Provider receipts: \<open>internal/repository/delivery_receipt_postgres.go\<close> and the validation
  of \<open>internal/domain/delivery_receipt.go\<close>. A receipt is stored once per provider and
  receipt id, matched to a message and to the delivery ledger, and applied to both. The
  fingerprint of a receipt is a hash (a parameter: JSON and SHA-256) of the fields the
  provider supplied.
\<close>

section \<open>Validation and fingerprint\<close>

definition delivery_providers :: "string list" where
  "delivery_providers = [''twilio'', ''fcm'', ''smtp'', ''ses'', ''sparkpost'', ''postmark'',
     ''mailgun'', ''mailjet'', ''sendgrid'', ''channel_webhook'']"

fun receipt_event_valid :: "delivery_receipt_event \<Rightarrow> bool" where
  "receipt_event_valid (RE_Other _) = False"
| "receipt_event_valid _ = True"

definition DeliveryReceipt_Validate :: "delivery_receipt option \<Rightarrow> string option" where
  "DeliveryReceipt_Validate receipt =
     (case receipt of
        None \<Rightarrow> Some ''receipt is required''
      | Some r \<Rightarrow>
          if r_Provider r \<notin> set delivery_providers then Some ''provider is not supported''
          else if trim_space (r_ReceiptID r) = [] \<or> 255 < length (r_ReceiptID r)
          then Some ''receipt_id is required and must not exceed 255 characters''
          else if 255 < length (r_ProviderMessageID r) \<or> 255 < length (r_MessageID r) \<or>
                  255 < length (r_EffectKey r)
          then Some ''provider_message_id, message_id and effect_key must not exceed 255 characters''
          else if trim_space (r_ProviderMessageID r) = [] \<and> trim_space (r_MessageID r) = [] \<and>
                  trim_space (r_EffectKey r) = []
          then Some ''provider_message_id or message_id or effect_key is required''
          else if \<not> receipt_event_valid (r_Event r) then Some ''event is invalid''
          else if r_OccurredAt r = zero_time then Some ''occurred_at is required''
          else if 255 < length (r_ErrorCode r) then Some ''error_code must not exceed 255 characters''
          else if 16 * 1024 < length (r_Metadata r) then Some ''metadata must not exceed 16384 bytes''
          else None)"

type_synonym fingerprint =
  "string \<times> string \<times> string \<times> string \<times> string \<times> delivery_receipt_event \<times> instant \<times> string \<times> string"

definition fingerprint_of :: "delivery_receipt \<Rightarrow> fingerprint" where
  "fingerprint_of r = (r_Provider r, r_ReceiptID r, r_ProviderMessageID r, r_MessageID r,
     r_EffectKey r, r_Event r, r_OccurredAt r, r_ErrorCode r, r_Metadata r)"

definition ComputePayloadHash :: "(fingerprint \<Rightarrow> string) \<Rightarrow> delivery_receipt \<Rightarrow> string" where
  "ComputePayloadHash sha r = sha (fingerprint_of r)"

section \<open>Matching\<close>

definition isEmailDeliveryProvider :: "string \<Rightarrow> bool" where
  "isEmailDeliveryProvider p \<longleftrightarrow> p \<in> set [''smtp'', ''ses'', ''sparkpost'', ''postmark'', ''mailgun'',
     ''mailjet'', ''sendgrid'']"

text \<open>\<open>COALESCE(queue.message_id, '')\<close> of the left-joined queue row.\<close>

definition queue_message_id :: "delivery_db \<Rightarrow> string \<Rightarrow> string" where
  "queue_message_id db i =
     (case sql_find (\<lambda>q. q_DeliveryIntentID q = Some i) (db_queue db) of
        None \<Rightarrow> [] | Some q \<Rightarrow> q_MessageID q)"

text \<open>The attempt (if any), the intent and the message a receipt belongs to; \<open>None\<close> is the
  empty intent id of the code.\<close>

definition resolveReceiptDeliveryLedger ::
    "delivery_receipt \<Rightarrow> delivery_db \<Rightarrow> (string option \<times> string \<times> string) option" where
  "resolveReceiptDeliveryLedger r db =
     (case (if r_ProviderMessageID r = [] then None
            else latest_attempt (filter (\<lambda>a. to_lower (da_Provider a) = to_lower (r_Provider r) \<and>
                   da_ProviderMessageID a = r_ProviderMessageID r) (db_attempts db))) of
        Some a \<Rightarrow> Some (Some (da_ID a), da_IntentID a, queue_message_id db (da_IntentID a))
      | None \<Rightarrow>
          if r_EffectKey r = [] then None
          else
            (case intent_by_key db (r_EffectKey r) of
               None \<Rightarrow> None
             | Some i \<Rightarrow>
                 Some (map_option da_ID (latest_attempt (attempts_of_intent db (di_ID i))),
                       di_ID i, queue_message_id db (di_ID i))))"

definition resolveReceiptMessageID :: "delivery_receipt \<Rightarrow> delivery_db \<Rightarrow> string" where
  "resolveReceiptMessageID r db =
     (if r_MessageID r \<noteq> [] then
        (if sql_exists (\<lambda>m. m_ID m = r_MessageID r) (db_messages db) then r_MessageID r else [])
      else if r_ProviderMessageID r = [] then []
      else
        (case sort_key (\<lambda>m. - m_CreatedAt m)
            (filter (\<lambda>m. m_ExternalID m = Some (r_ProviderMessageID r)) (db_messages db)) of
           [] \<Rightarrow> [] | m # _ \<Rightarrow> m_ID m))"

section \<open>Effect on the ledger\<close>

fun receipt_target :: "delivery_receipt_event \<Rightarrow> (delivery_status \<times> delivery_status list) option" where
  "receipt_target RE_Accepted = Some (DS_ProviderAccepted, [DS_Submitting, DS_Unknown])"
| "receipt_target RE_Sent = Some (DS_ProviderAccepted, [DS_Submitting, DS_Unknown])"
| "receipt_target RE_Delivered = Some (DS_Confirmed, [DS_Submitting, DS_ProviderAccepted, DS_Unknown])"
| "receipt_target RE_Opened = Some (DS_Confirmed, [DS_Submitting, DS_ProviderAccepted, DS_Unknown])"
| "receipt_target RE_Clicked = Some (DS_Confirmed, [DS_Submitting, DS_ProviderAccepted, DS_Unknown])"
| "receipt_target RE_Failed = Some (DS_TerminalFailed, [DS_Submitting, DS_ProviderAccepted, DS_Unknown])"
| "receipt_target RE_Bounced = Some (DS_TerminalFailed, [DS_Submitting, DS_ProviderAccepted, DS_Unknown])"
| "receipt_target RE_Complained = Some (DS_TerminalFailed, [DS_Submitting, DS_ProviderAccepted, DS_Unknown])"
| "receipt_target (RE_Other _) = None"

definition coalesce :: "'a option \<Rightarrow> 'a \<Rightarrow> 'a option" where
  "coalesce x y = (case x of None \<Rightarrow> Some y | Some z \<Rightarrow> Some z)"

definition receipt_attempt :: "delivery_status \<Rightarrow> delivery_receipt \<Rightarrow> delivery_attempt \<Rightarrow> delivery_attempt" where
  "receipt_attempt target r a = a\<lparr>da_Status := target,
     da_AcceptedAt := (if target = DS_ProviderAccepted then coalesce (da_AcceptedAt a) (r_OccurredAt r)
                       else da_AcceptedAt a),
     da_CompletedAt := (if target \<in> {DS_Confirmed, DS_TerminalFailed}
                        then coalesce (da_CompletedAt a) (r_OccurredAt r) else da_CompletedAt a),
     da_ErrorCode := (if r_ErrorCode r = [] then da_ErrorCode a else r_ErrorCode r),
     da_UpdatedAt := r_OccurredAt r\<rparr>"

definition receipt_row :: "delivery_receipt \<Rightarrow> queue_entry \<Rightarrow> queue_entry" where
  "receipt_row r q = q\<lparr>q_Status := QS_Confirmed,
     q_CompletedAt := coalesce (q_CompletedAt q) (r_OccurredAt r),
     q_ProcessedAt := coalesce (q_ProcessedAt q) (r_OccurredAt r),
     q_ClaimToken := None, q_LeaseExpiresAt := None, q_UpdatedAt := r_OccurredAt r\<rparr>"

definition applyReceiptToDeliveryLedger ::
    "delivery_receipt \<Rightarrow> (string option \<times> string \<times> string) option \<Rightarrow> delivery_db \<Rightarrow> bool \<times> delivery_db" where
  "applyReceiptToDeliveryLedger r match db =
     (case match of
        None \<Rightarrow> (False, db)
      | Some (aid, i, _) \<Rightarrow>
          (case receipt_target (r_Event r) of
             None \<Rightarrow> (False, db)
           | Some (target, allowed) \<Rightarrow>
               let hit = (\<lambda>x. di_ID x = i \<and> di_Status x \<in> set allowed);
                   intentRows = sql_count hit (db_intents db);
                   db1 = db\<lparr>db_intents := sql_update hit
                     (\<lambda>x. x\<lparr>di_Status := target, di_UpdatedAt := r_OccurredAt r\<rparr>) (db_intents db)\<rparr>;
                   db2 = (case aid of
                            None \<Rightarrow> db1
                          | Some a \<Rightarrow> db1\<lparr>db_attempts := sql_update
                              (\<lambda>x. da_ID x = a \<and> da_Status x \<in> set allowed)
                              (receipt_attempt target r) (db_attempts db1)\<rparr>);
                   db3 = (if intentRows > 0 \<and> target = DS_Confirmed
                          then db2\<lparr>db_queue := sql_update (\<lambda>q. q_DeliveryIntentID q = Some i)
                                 (receipt_row r) (db_queue db2)\<rparr>
                          else db2)
               in (intentRows > 0, db3)))"

section \<open>Effect on the message history\<close>

datatype receipt_field = F_DeliveredAt | F_OpenedAt | F_ClickedAt | F_BouncedAt | F_ComplainedAt | F_FailedAt

fun deliveryReceiptStatusField :: "delivery_receipt_event \<Rightarrow> receipt_field option" where
  "deliveryReceiptStatusField RE_Delivered = Some F_DeliveredAt"
| "deliveryReceiptStatusField RE_Opened = Some F_OpenedAt"
| "deliveryReceiptStatusField RE_Clicked = Some F_ClickedAt"
| "deliveryReceiptStatusField RE_Bounced = Some F_BouncedAt"
| "deliveryReceiptStatusField RE_Complained = Some F_ComplainedAt"
| "deliveryReceiptStatusField RE_Failed = Some F_FailedAt"
| "deliveryReceiptStatusField _ = None"

fun field_of :: "receipt_field \<Rightarrow> message_row \<Rightarrow> instant option" where
  "field_of F_DeliveredAt m = m_DeliveredAt m"
| "field_of F_OpenedAt m = m_OpenedAt m"
| "field_of F_ClickedAt m = m_ClickedAt m"
| "field_of F_BouncedAt m = m_BouncedAt m"
| "field_of F_ComplainedAt m = m_ComplainedAt m"
| "field_of F_FailedAt m = m_FailedAt m"

fun set_field :: "receipt_field \<Rightarrow> instant \<Rightarrow> message_row \<Rightarrow> message_row" where
  "set_field F_DeliveredAt t m = m\<lparr>m_DeliveredAt := Some t\<rparr>"
| "set_field F_OpenedAt t m = m\<lparr>m_OpenedAt := Some t\<rparr>"
| "set_field F_ClickedAt t m = m\<lparr>m_ClickedAt := Some t\<rparr>"
| "set_field F_BouncedAt t m = m\<lparr>m_BouncedAt := Some t\<rparr>"
| "set_field F_ComplainedAt t m = m\<lparr>m_ComplainedAt := Some t\<rparr>"
| "set_field F_FailedAt t m = m\<lparr>m_FailedAt := Some t\<rparr>"

definition receipt_message :: "receipt_field \<Rightarrow> delivery_receipt \<Rightarrow> instant \<Rightarrow> message_row \<Rightarrow> message_row" where
  "receipt_message f r dbnow m = (set_field f (r_OccurredAt r) m)\<lparr>
     m_StatusInfo := (if r_ErrorCode r = [] then m_StatusInfo m else Some (take 255 (r_ErrorCode r))),
     m_UpdatedAt := dbnow\<rparr>"

section \<open>Recording\<close>

record receipt_result =
  rs_Provider :: string
  rs_ReceiptID :: string
  rs_MessageID :: string
  rs_IntentID :: string
  rs_AttemptID :: string
  rs_Duplicate :: bool
  rs_Matched :: bool
  rs_Applied :: bool
  rs_Conflict :: bool

definition same_receipt :: "delivery_receipt \<Rightarrow> delivery_receipt \<Rightarrow> bool" where
  "same_receipt r x \<longleftrightarrow> r_Provider x = r_Provider r \<and> r_ReceiptID x = r_ReceiptID r"

definition link_and_apply ::
    "delivery_receipt \<Rightarrow> bool \<Rightarrow> string \<Rightarrow> instant \<Rightarrow> delivery_db \<Rightarrow> receipt_result \<times> delivery_db" where
  "link_and_apply r duplicate storedMessageID dbnow db =
     (let messageID = (if storedMessageID = [] then resolveReceiptMessageID r db else storedMessageID);
          match = (if messageID = [] \<or> r_EffectKey r \<noteq> [] \<or> isEmailDeliveryProvider (r_Provider r)
                   then resolveReceiptDeliveryLedger r db else None);
          messageID = (case match of Some (_, _, m) \<Rightarrow> if messageID = [] then m else messageID
                       | None \<Rightarrow> messageID);
          db1 = (if messageID \<noteq> [] \<and> storedMessageID \<noteq> messageID
                 then db\<lparr>db_receipts := sql_update (same_receipt r) (\<lambda>x. x\<lparr>r_MessageID := messageID\<rparr>)
                        (db_receipts db)\<rparr>
                 else db);
          (ledgerApplied, db2) = applyReceiptToDeliveryLedger r match db1;
          res = \<lparr>rs_Provider = r_Provider r, rs_ReceiptID = r_ReceiptID r, rs_MessageID = messageID,
                 rs_IntentID = (case match of Some (_, i, _) \<Rightarrow> i | None \<Rightarrow> []),
                 rs_AttemptID = (case match of Some (Some a, _, _) \<Rightarrow> a | _ \<Rightarrow> []),
                 rs_Duplicate = duplicate, rs_Matched = (match \<noteq> None \<or> messageID \<noteq> []),
                 rs_Applied = ledgerApplied, rs_Conflict = False\<rparr>
      in case deliveryReceiptStatusField (r_Event r) of
           None \<Rightarrow> (res, db2)
         | Some f \<Rightarrow>
             if messageID = [] then (res, db2)
             else
               let hit = (\<lambda>m. m_ID m = messageID \<and> field_of f m = None)
               in (res\<lparr>rs_Applied := (sql_count hit (db_messages db2) > 0 \<or> ledgerApplied)\<rparr>,
                   db2\<lparr>db_messages := sql_update hit (receipt_message f r dbnow) (db_messages db2)\<rparr>))"

definition recordDeliveryReceiptTx ::
    "(fingerprint \<Rightarrow> string) \<Rightarrow> instant \<Rightarrow> instant \<Rightarrow> delivery_receipt \<Rightarrow> delivery_db \<Rightarrow>
     receipt_result \<times> delivery_db" where
  "recordDeliveryReceiptTx sha receivedAt dbnow receipt db =
     (let r = (if r_PayloadHash receipt = [] then receipt\<lparr>r_PayloadHash := ComputePayloadHash sha receipt\<rparr>
               else receipt)
      in case sql_find (same_receipt r) (db_receipts db) of
           None \<Rightarrow>
             link_and_apply r False (r_MessageID r) dbnow
               (db\<lparr>db_receipts := db_receipts db @ [r\<lparr>r_ReceivedAt := receivedAt\<rparr>]\<rparr>)
         | Some old \<Rightarrow>
             if r_PayloadHash old \<noteq> r_PayloadHash r then
               (\<lparr>rs_Provider = r_Provider r, rs_ReceiptID = r_ReceiptID r, rs_MessageID = [],
                 rs_IntentID = [], rs_AttemptID = [], rs_Duplicate = True, rs_Matched = False,
                 rs_Applied = False, rs_Conflict = True\<rparr>, db)
             else link_and_apply r True (r_MessageID old) dbnow db)"

fun record_receipts ::
    "(fingerprint \<Rightarrow> string) \<Rightarrow> instant \<Rightarrow> instant \<Rightarrow> delivery_receipt list \<Rightarrow> delivery_db \<Rightarrow>
     receipt_result list \<times> delivery_db" where
  "record_receipts sha receivedAt dbnow [] db = ([], db)"
| "record_receipts sha receivedAt dbnow (r # rs) db =
     (let (x, db1) = recordDeliveryReceiptTx sha receivedAt dbnow r db;
          (xs, db2) = record_receipts sha receivedAt dbnow rs db1
      in (x # xs, db2))"

definition RecordBatch ::
    "(fingerprint \<Rightarrow> string) \<Rightarrow> instant \<Rightarrow> instant \<Rightarrow> delivery_receipt list \<Rightarrow> receipt_result list db_op" where
  "RecordBatch sha receivedAt dbnow receipts db =
     (if receipts = [] then (Inr [], db)
      else let (xs, db') = record_receipts sha receivedAt dbnow receipts db in (Inr xs, db'))"

end
