(* ===== verification/Message_History.thy ===== *)
theory Message_History
  imports Delivery_Store
begin

text \<open>
  The upsert of \<open>internal/repository/message_history_postgre.go\<close> on the columns modelled
  (encryption of the message data and the attachments column are not): a message row is
  written once, and a later upsert of the same id only changes the failure fields and the
  RFC Message-ID, which it never clears.
\<close>

definition merge_message :: "message_row \<Rightarrow> message_row \<Rightarrow> message_row" where
  "merge_message new old = old\<lparr>m_FailedAt := m_FailedAt new, m_StatusInfo := m_StatusInfo new,
     m_UpdatedAt := m_UpdatedAt new,
     m_SMTPMessageID := (case m_SMTPMessageID new of None \<Rightarrow> m_SMTPMessageID old | Some x \<Rightarrow> Some x)\<rparr>"

definition Upsert :: "message_row \<Rightarrow> unit db_op" where
  "Upsert msg db =
     (let row = msg\<lparr>m_StatusInfo := map_option (take 255) (m_StatusInfo msg)\<rparr> in
      if sql_exists (\<lambda>m. m_ID m = m_ID msg) (db_messages db)
      then (Inr (), db\<lparr>db_messages := sql_update (\<lambda>m. m_ID m = m_ID msg) (merge_message row) (db_messages db)\<rparr>)
      else (Inr (), db\<lparr>db_messages := db_messages db @ [row]\<rparr>))"

lemma Upsert_frame:
  "Upsert msg db = (r, db') \<Longrightarrow> r = Inr () \<and> db_intents db' = db_intents db \<and>
   db_attempts db' = db_attempts db \<and> db_queue db' = db_queue db"
  by (auto simp: Upsert_def Let_def split: if_splits)

end
