(* ===== verification/Ledger_Runs.thy ===== *)
theory Ledger_Runs
  imports Ledger_Spec Delivery_Receipts Message_History
begin

text \<open>
  The operations on the delivery tables put together: every one of them keeps the keys of the
  tables and makes only moves of \<open>Ledger_Spec\<close>, so what the abstract ledger promises holds of
  every database the operations can reach, in any order and interleaving. Transactions that
  fail, for a reason of the code or of the database, leave the tables as they were.
\<close>

section \<open>The abstract view of the tables\<close>

definition attempt_view :: "delivery_db \<Rightarrow> string \<Rightarrow> (string \<times> delivery_status) option" where
  "attempt_view db a =
     map_option (\<lambda>x. (da_IntentID x, da_Status x)) (sql_find (\<lambda>x. da_ID x = a) (db_attempts db))"

definition ledger_view_of :: "delivery_db \<Rightarrow> ledger_view" where
  "ledger_view_of db = \<lparr>lv_status = intent_status db, lv_attempt = attempt_view db\<rparr>"

lemma view_sel [simp]:
  "lv_status (ledger_view_of db) = intent_status db"
  "lv_attempt (ledger_view_of db) = attempt_view db"
  by (simp_all add: ledger_view_of_def)

lemma view_cong:
  "db_intents db' = db_intents db \<Longrightarrow> db_attempts db' = db_attempts db \<Longrightarrow>
   ledger_view_of db' = ledger_view_of db"
  by (simp add: ledger_view_of_def intent_status_def intent_of_def attempt_view_def fun_eq_iff)

lemma view_other_tables [simp]:
  "intent_status (db\<lparr>db_queue := q\<rparr>) = intent_status db" "attempt_view (db\<lparr>db_queue := q\<rparr>) = attempt_view db"
  "intent_status (db\<lparr>db_recons := rc\<rparr>) = intent_status db" "attempt_view (db\<lparr>db_recons := rc\<rparr>) = attempt_view db"
  "intent_status (db\<lparr>db_receipts := rs\<rparr>) = intent_status db" "attempt_view (db\<lparr>db_receipts := rs\<rparr>) = attempt_view db"
  "intent_status (db\<lparr>db_messages := ms\<rparr>) = intent_status db" "attempt_view (db\<lparr>db_messages := ms\<rparr>) = attempt_view db"
  "intent_status (db\<lparr>db_attempts := as\<rparr>) = intent_status db"
  "attempt_view (db\<lparr>db_intents := is\<rparr>) = attempt_view db"
  by (simp_all add: intent_status_def intent_of_def attempt_view_def fun_eq_iff)

lemma intent_status_update:
  assumes "\<And>x. di_ID (f x) = di_ID x"
  shows "intent_status (db\<lparr>db_intents := sql_update p f (db_intents db)\<rparr>) j =
    map_option (\<lambda>x. di_Status (if p x then f x else x)) (intent_of db j)"
  by (simp add: intent_status_def intent_of_def sql_find_update_key[of di_ID f, OF assms]
      option.map_comp comp_def)

lemma intent_status_set:
  assumes s: "intent_status db i = Some s" and f: "\<And>x. di_ID (f x) = di_ID x"
    and p: "\<And>x. p x \<Longrightarrow> di_ID x = i" and q: "\<And>x. di_ID x = i \<Longrightarrow> di_Status x = s \<Longrightarrow> p x"
    and t: "\<And>x. di_Status (f x) = t"
  shows "intent_status (db\<lparr>db_intents := sql_update p f (db_intents db)\<rparr>) = (intent_status db)(i := Some t)"
proof
  fix j
  show "intent_status (db\<lparr>db_intents := sql_update p f (db_intents db)\<rparr>) j = ((intent_status db)(i := Some t)) j"
  proof (cases "j = i")
    case True
    from s obtain x where x: "intent_of db i = Some x" "di_Status x = s" by (auto simp: intent_status_def)
    then have "p x" using q intent_of_SomeD by blast
    with x t True show ?thesis by (simp add: intent_status_update[of f, OF f])
  next
    case False
    then have "intent_of db j = Some x \<Longrightarrow> \<not> p x" for x using p intent_of_SomeD by blast
    moreover have "intent_status db j = map_option di_Status (intent_of db j)"
      by (simp add: intent_status_def)
    ultimately show ?thesis using False
      by (cases "intent_of db j") (simp_all add: intent_status_update[of f, OF f])
  qed
qed

lemma intent_status_keep:
  assumes "\<And>x. di_ID (f x) = di_ID x" and "\<And>x. p x \<Longrightarrow> di_ID x = i"
    and "\<And>x. p x \<Longrightarrow> intent_of db i = Some x \<Longrightarrow> False"
  shows "intent_status (db\<lparr>db_intents := sql_update p f (db_intents db)\<rparr>) = intent_status db"
proof
  fix j
  have "intent_of db j = Some x \<Longrightarrow> \<not> p x" for x using assms(2,3) intent_of_SomeD by metis
  moreover have "intent_status db j = map_option di_Status (intent_of db j)"
    by (simp add: intent_status_def)
  ultimately show "intent_status (db\<lparr>db_intents := sql_update p f (db_intents db)\<rparr>) j = intent_status db j"
    by (cases "intent_of db j") (simp_all add: intent_status_update[of f, OF assms(1)])
qed

lemma intent_status_set_intent_status:
  "intent_status db i = Some s \<Longrightarrow>
   intent_status (set_intent_status i t at db) = (intent_status db)(i := Some t)"
  unfolding set_intent_status_def by (rule intent_status_set) auto

lemma attempt_view_set_intent_status [simp]: "attempt_view (set_intent_status i t at db) = attempt_view db"
  by (simp add: set_intent_status_def)

lemma attempt_view_update:
  assumes id: "\<And>x. da_ID (f x) = da_ID x" and i: "\<And>x. da_IntentID (f x) = da_IntentID x"
    and a: "sql_find (\<lambda>x. da_ID x = a) (db_attempts db) = Some x" "p x" "da_Status (f x) = s"
    and p: "\<And>y. p y \<Longrightarrow> da_ID y = a"
  shows "attempt_view (db\<lparr>db_attempts := sql_update p f (db_attempts db)\<rparr>) =
    (attempt_view db)(a := Some (da_IntentID x, s))"
proof
  fix b
  have find: "sql_find (\<lambda>x. da_ID x = b) (sql_update p f (db_attempts db)) =
      map_option (\<lambda>x. if p x then f x else x) (sql_find (\<lambda>x. da_ID x = b) (db_attempts db))"
    by (rule sql_find_update_key) (rule id)
  show "attempt_view (db\<lparr>db_attempts := sql_update p f (db_attempts db)\<rparr>) b =
      ((attempt_view db)(a := Some (da_IntentID x, s))) b"
  proof (cases "b = a")
    case True
    then show ?thesis using a i find by (simp add: attempt_view_def)
  next
    case False
    then have "sql_find (\<lambda>x. da_ID x = b) (db_attempts db) = Some y \<Longrightarrow> \<not> p y" for y
      using p sql_find_SomeD by fastforce
    with False show ?thesis
      by (cases "sql_find (\<lambda>x. da_ID x = b) (db_attempts db)") (simp_all add: attempt_view_def find)
  qed
qed

lemma attempt_view_append:
  "attempt_view db (da_ID x) = None \<Longrightarrow>
   attempt_view (db\<lparr>db_attempts := db_attempts db @ [x]\<rparr>) =
     (attempt_view db)(da_ID x := Some (da_IntentID x, da_Status x))"
  by (auto simp: attempt_view_def fun_eq_iff sql_find_append split: option.splits)

lemma intent_status_append:
  "intent_status db (di_ID x) = None \<Longrightarrow>
   intent_status (db\<lparr>db_intents := db_intents db @ [x]\<rparr>) =
     (intent_status db)(di_ID x := Some (di_Status x))"
  by (auto simp: intent_status_def intent_of_def fun_eq_iff sql_find_append split: option.splits)

lemma attempt_view_row:
  assumes "db_wf db" and "x \<in> set (db_attempts db)"
  shows "attempt_view db (da_ID x) = Some (da_IntentID x, da_Status x)"
    and "sql_find (\<lambda>y. da_ID y = da_ID x) (db_attempts db) = Some x"
proof -
  show "sql_find (\<lambda>y. da_ID y = da_ID x) (db_attempts db) = Some x"
    by (rule sql_find_unique) (use assms in \<open>simp_all add: db_wf_def\<close>)
  then show "attempt_view db (da_ID x) = Some (da_IntentID x, da_Status x)" by (simp add: attempt_view_def)
qed

lemma attempt_intent_known:
  assumes "db_wf db" and "x \<in> set (db_attempts db)"
  shows "intent_status db (da_IntentID x) \<noteq> None"
proof -
  from assms have "da_IntentID x \<in> di_ID ` set (db_intents db)" by (simp add: db_wf_def)
  then show ?thesis by (auto simp: intent_status_def intent_of_def sql_find_None_iff)
qed

section \<open>Every operation makes ledger moves\<close>

definition sound_write :: "string set \<Rightarrow> delivery_db \<Rightarrow> delivery_db \<Rightarrow> bool" where
  "sound_write R db db' \<longleftrightarrow>
     db_wf db' \<and> (ledger_step R)\<^sup>*\<^sup>* (ledger_view_of db) (ledger_view_of db')"

lemma sound_refl [simp]: "db_wf db \<Longrightarrow> sound_write R db db"
  by (simp add: sound_write_def)

lemma sound_trans: "sound_write R a b \<Longrightarrow> sound_write R b c \<Longrightarrow> sound_write R a c"
  unfolding sound_write_def by (meson rtranclp_trans)

lemma sound_stepI:
  "db_wf db' \<Longrightarrow> ledger_step R (ledger_view_of db) (ledger_view_of db') \<Longrightarrow> sound_write R db db'"
  unfolding sound_write_def by blast

lemma sound_queue_only:
  "db_wf db' \<Longrightarrow> db_intents db' = db_intents db \<Longrightarrow> db_attempts db' = db_attempts db \<Longrightarrow>
   sound_write R db db'"
  by (metis sound_stepI view_cong ledger_step.stay)

lemma sound_in_tx:
  assumes "db_wf db" and "in_tx body db = (r, db')"
    and "\<And>x db'. body db = (Inr x, db') \<Longrightarrow> sound_write R db db'"
  shows "sound_write R db db'"
proof (cases r)
  case (Inl e)
  with in_tx_InlD assms(1,2) show ?thesis by fastforce
next
  case (Inr x)
  with in_tx_InrD assms(2,3) show ?thesis by fastforce
qed

lemma view_status_eq:
  "intent_status db' = (intent_status db)(i := Some t) \<Longrightarrow> attempt_view db' = attempt_view db \<Longrightarrow>
   ledger_view_of db' = (ledger_view_of db)\<lparr>lv_status := (lv_status (ledger_view_of db))(i := Some t)\<rparr>"
  by (simp add: ledger_view_of_def)

lemma step_reserve:
  assumes "intent_status db i = None" and "s \<in> {DS_Reserved, DS_Suppressed, DS_Deferred}"
    and "intent_status db' = (intent_status db)(i := Some s)" and "attempt_view db' = attempt_view db"
  shows "ledger_step R (ledger_view_of db) (ledger_view_of db')"
  unfolding view_status_eq[OF assms(3,4)] by (rule ledger_step.reserve) (use assms in simp_all)

lemma step_move:
  assumes "intent_status db i = Some s" and "s \<in> pre_submission" and "t \<in> pre_submission \<union> settled"
    and "intent_status db' = (intent_status db)(i := Some t)" and "attempt_view db' = attempt_view db"
  shows "ledger_step R (ledger_view_of db) (ledger_view_of db')"
  unfolding view_status_eq[OF assms(4,5)] by (rule ledger_step.move) (use assms in simp_all)

lemma reserve_cases:
  assumes "reserveDeliveryIntentTx uid dbnow intent db = (Inr (stored, created), db')"
  obtains "db' = db" and "stored \<in> set (db_intents db)"
      and "di_EffectKey stored = di_EffectKey intent" and "di_RequestHash stored = di_RequestHash intent"
      and "\<not> created"
  | "created" and "db' = db\<lparr>db_intents := db_intents db @ [stored]\<rparr>"
      and "intent_by_key db (di_EffectKey stored) = None"
      and "\<not> sql_exists (\<lambda>x. di_ID x = di_ID stored) (db_intents db)"
      and "di_Status stored \<in> {DS_Reserved, DS_Suppressed, DS_Deferred}"
      and "di_EffectKey stored = di_EffectKey intent" and "di_RequestHash stored = di_RequestHash intent"
proof -
  define i where "i = reserve_defaults uid intent"
  have keep: "di_EffectKey i = di_EffectKey intent" "di_RequestHash i = di_RequestHash intent"
    by (simp_all add: i_def reserve_defaults_def Let_def)
  have st: "di_Status i \<in> {DS_Reserved, DS_Suppressed, DS_Deferred}"
    and run: "(case intent_by_key db (di_EffectKey intent) of
             Some x \<Rightarrow> if di_RequestHash x \<noteq> di_RequestHash intent then (Inl E_HashConflict, db) else (Inr (x, False), db)
           | None \<Rightarrow>
               if sql_exists (\<lambda>x. di_ID x = di_ID i) (db_intents db) then (Inl E_UniqueViolation, db)
               else (Inr (i\<lparr>di_CreatedAt := dbnow, di_UpdatedAt := dbnow\<rparr>, True),
                     db\<lparr>db_intents := db_intents db @ [i\<lparr>di_CreatedAt := dbnow, di_UpdatedAt := dbnow\<rparr>]\<rparr>)) =
         (Inr (stored, created), db')"
    using assms unfolding reserveDeliveryIntentTx_def Let_def i_def[symmetric] keep
    by (auto split: if_splits)
  show thesis
  proof (cases "intent_by_key db (di_EffectKey intent)")
    case None
    with run have new: "\<not> sql_exists (\<lambda>x. di_ID x = di_ID i) (db_intents db) \<and> created \<and>
        stored = i\<lparr>di_CreatedAt := dbnow, di_UpdatedAt := dbnow\<rparr> \<and>
        db' = db\<lparr>db_intents := db_intents db @ [i\<lparr>di_CreatedAt := dbnow, di_UpdatedAt := dbnow\<rparr>]\<rparr>"
      by (auto split: if_splits)
    then have db': "db' = db\<lparr>db_intents := db_intents db @ [stored]\<rparr>" by blast
    have sel: "di_ID stored = di_ID i" "di_EffectKey stored = di_EffectKey i"
      "di_RequestHash stored = di_RequestHash i" "di_Status stored = di_Status i"
      using new by simp_all
    show thesis
      by (rule that(2)[OF _ db']) (use None st keep sel new in simp_all)
  next
    case (Some x)
    with run have "stored = x" "\<not> created" "db' = db" "di_RequestHash x = di_RequestHash intent"
      by (simp_all split: if_splits)
    moreover have "x \<in> set (db_intents db)" "di_EffectKey x = di_EffectKey intent"
      using Some sql_find_SomeD[of _ "db_intents db" x] by (auto simp: intent_by_key_def)
    ultimately show thesis by (intro that(1)) simp_all
  qed
qed

lemma insert_intent_sound:
  assumes wf: "db_wf db" and k: "intent_by_key db (di_EffectKey x) = None"
    and i: "\<not> sql_exists (\<lambda>y. di_ID y = di_ID x) (db_intents db)"
    and s: "di_Status x \<in> {DS_Reserved, DS_Suppressed, DS_Deferred}"
  shows "sound_write R db (db\<lparr>db_intents := db_intents db @ [x]\<rparr>)"
proof (rule sound_stepI)
  have new: "intent_status db (di_ID x) = None"
    using i by (auto simp: intent_status_def intent_of_def sql_find_None_iff sql_exists_iff)
  show "db_wf (db\<lparr>db_intents := db_intents db @ [x]\<rparr>)"
    using wf k i by (auto simp: db_wf_def intent_by_key_def sql_find_None_iff sql_exists_iff)
  show "ledger_step R (ledger_view_of db) (ledger_view_of (db\<lparr>db_intents := db_intents db @ [x]\<rparr>))"
    by (rule step_reserve[OF new s]) (simp_all add: intent_status_append[OF new])
qed

lemma reserve_sound:
  assumes "db_wf db" and "reserveDeliveryIntentTx uid dbnow intent db = (Inr (stored, created), db')"
  shows "sound_write R db db' \<and> intent_status db' (di_ID stored) = Some (di_Status stored)"
  using assms(2)
proof (cases rule: reserve_cases)
  case 1
  then show ?thesis using assms(1) intent_of_unique[of db stored] by (simp add: intent_status_def)
next
  case 2
  have "intent_status db (di_ID stored) = None"
    using 2(4) by (auto simp: intent_status_def intent_of_def sql_find_None_iff sql_exists_iff)
  then show ?thesis using insert_intent_sound[OF assms(1) 2(3,4,5)] intent_status_append 2(2) by simp
qed

lemma ReserveIntent_sound:
  assumes "db_wf db" and "ReserveIntent uid dbnow intent db = (r, db')"
  shows "sound_write R db db'"
  using assms(1) assms(2)[unfolded ReserveIntent_def]
  by (rule sound_in_tx) (metis reserve_sound[OF assms(1)] surj_pair)

lemma EnqueueIntentTx_frame:
  "EnqueueIntentTx uid now e db = (r, db') \<Longrightarrow>
   db_intents db' = db_intents db \<and> db_attempts db' = db_attempts db"
  by (auto simp: EnqueueIntentTx_def Let_def split: option.splits if_splits)

text \<open>Status updates of one intent that are conditional on its status.\<close>

lemma conditional_status_sound:
  assumes wf: "db_wf db" and f: "\<And>x. di_ID (f x) = di_ID x" "\<And>x. di_EffectKey (f x) = di_EffectKey x"
      "\<And>x. di_Status (f x) = t"
    and p: "\<And>x. p x \<longleftrightarrow> di_ID x = i \<and> di_Status x \<in> S"
    and step: "\<And>s. s \<in> S \<Longrightarrow> s \<in> pre_submission \<and> t \<in> pre_submission \<union> settled"
  shows "sound_write R db (db\<lparr>db_intents := sql_update p f (db_intents db)\<rparr>)"
proof (cases "\<exists>s \<in> S. intent_status db i = Some s")
  case True
  then obtain s where s: "s \<in> S" "intent_status db i = Some s" by blast
  have "intent_status (db\<lparr>db_intents := sql_update p f (db_intents db)\<rparr>) = (intent_status db)(i := Some t)"
    using s f p by (intro intent_status_set[OF s(2)]) auto
  then show ?thesis
    using s step[OF s(1)] db_wf_intent_update[OF wf f(1,2)]
    by (intro sound_stepI step_move[OF s(2), where t = t]) simp_all
next
  case False
  then have "intent_status (db\<lparr>db_intents := sql_update p f (db_intents db)\<rparr>) = intent_status db"
    using f p by (intro intent_status_keep[where i = i]) (auto simp: intent_status_def)
  then have "ledger_view_of (db\<lparr>db_intents := sql_update p f (db_intents db)\<rparr>) = ledger_view_of db"
    by (simp add: ledger_view_of_def)
  then show ?thesis
    using db_wf_intent_update[OF wf f(1,2)] by (intro sound_stepI) (simp_all add: ledger_step.stay)
qed

lemma reserve_and_enqueue_sound:
  assumes "db_wf db" and "reserve_and_enqueue_tx uid quid now dbnow intent entry db = (Inr r, db')"
  shows "sound_write R db db'"
proof -
  obtain stored created db1 where r: "reserveDeliveryIntentTx uid dbnow intent db = (Inr (stored, created), db1)"
    using assms(2) by (auto simp: reserve_and_enqueue_tx_def split: prod.splits sum.splits)
  have s1: "sound_write R db db1" using reserve_sound[OF assms(1) r] by blast
  then have wf1: "db_wf db1" by (simp add: sound_write_def)
  show ?thesis
  proof (cases "di_Status stored = DS_Reserved \<or> di_Status stored = DS_TransientFailed")
    case False
    with assms(2) r s1 show ?thesis by (auto simp: reserve_and_enqueue_tx_def)
  next
    case True
    obtain res db2 where e: "EnqueueIntentTx quid now
        (Some (entry\<lparr>q_DeliveryIntentID := Some (di_ID stored)\<rparr>)) db1 = (res, db2)" by fastforce
    note wf2 = EnqueueIntentTx_wf[OF wf1 e]
    have s2: "sound_write R db1 db2" using EnqueueIntentTx_frame[OF e] wf2 by (intro sound_queue_only) auto
    have "db' = db2\<lparr>db_intents := sql_update (requeueable (di_ID stored))
        (\<lambda>x. x\<lparr>di_Status := DS_Queued, di_UpdatedAt := dbnow\<rparr>) (db_intents db2)\<rparr>"
      using assms(2) True
      by (auto simp: reserve_and_enqueue_tx_def r e split: sum.splits if_splits)
    moreover have "sound_write R db2 (db2\<lparr>db_intents := sql_update (requeueable (di_ID stored))
        (\<lambda>x. x\<lparr>di_Status := DS_Queued, di_UpdatedAt := dbnow\<rparr>) (db_intents db2)\<rparr>)"
      by (rule conditional_status_sound[OF wf2, where i = "di_ID stored" and S = "{DS_Reserved, DS_TransientFailed}"])
        (auto simp: requeueable_def status_sets)
    ultimately show ?thesis using s1 s2 by (metis sound_trans)
  qed
qed

lemma ReserveAndEnqueue_sound:
  "db_wf db \<Longrightarrow> ReserveAndEnqueue uid quid now dbnow intent e db = (r, db') \<Longrightarrow> sound_write R db db'"
  by (cases e) (auto simp: ReserveAndEnqueue_def intro: reserve_and_enqueue_sound sound_in_tx)

lemma SuppressIntent_sound:
  "db_wf db \<Longrightarrow> s \<in> pre_submission \<Longrightarrow> SuppressIntent i s reason at db = (r, db') \<Longrightarrow> sound_write R db db'"
  unfolding SuppressIntent_def
  by (elim Pair_inject, hypsubst, rule conditional_status_sound[where i = i and S = "{s}"])
    (auto simp: in_status_def status_sets)

lemma TransitionIntent_sound:
  assumes "db_wf db" and "s \<in> pre_submission" and "t \<noteq> DS_Submitting"
    and "TransitionIntent i s t at db = (r, db')"
  shows "sound_write R db db'"
proof (cases "CanTransitionTo s t")
  case True
  have t: "t \<in> pre_submission \<union> settled"
    using True assms(2,3) by (auto simp: CanTransitionTo_iff status_sets)
  have "sound_write R db (db\<lparr>db_intents := sql_update (in_status i s)
              (\<lambda>x. x\<lparr>di_Status := t, di_UpdatedAt := at\<rparr>) (db_intents db)\<rparr>)"
    by (rule conditional_status_sound[OF assms(1), where i = i and S = "{s}"])
      (use assms(2) t in \<open>auto simp: in_status_def\<close>)
  with True assms(4) show ?thesis by (auto simp: TransitionIntent_def)
next
  case False
  with assms show ?thesis by (auto simp: TransitionIntent_def)
qed

text \<open>A successful start: the intent could be submitted and had no unresolved attempt.\<close>

definition requeue_transient :: "string \<Rightarrow> instant \<Rightarrow> delivery_db \<Rightarrow> delivery_db" where
  "requeue_transient i dbnow db = db\<lparr>db_intents := sql_update (in_status i DS_TransientFailed)
     (\<lambda>x. x\<lparr>di_Status := DS_Queued, di_UpdatedAt := dbnow\<rparr>) (db_intents db)\<rparr>"

definition mark_submitting :: "string \<Rightarrow> instant \<Rightarrow> delivery_db \<Rightarrow> delivery_db" where
  "mark_submitting i now db = db\<lparr>db_intents := sql_update (in_status i DS_Queued)
     (\<lambda>x. x\<lparr>di_Status := DS_Submitting, di_UpdatedAt := now\<rparr>) (db_intents db)\<rparr>"

lemma start_attempt_txD:
  assumes "start_attempt_tx uid now dbnow start db = (Inr (attempt, key), db')"
  obtains x db1 where "intent_of db (as_IntentID start) = Some x"
    and "key = di_EffectKey x"
    and "(di_Status x = DS_TransientFailed \<and> db1 = requeue_transient (as_IntentID start) dbnow db) \<or>
         (di_Status x = DS_Queued \<and> db1 = db)"
    and "\<not> has_unresolved_attempt db (as_IntentID start)"
    and "attempt = new_attempt uid now start (next_attempt_no (attempts_of_intent db (as_IntentID start)))
           (di_RequestHash x)"
    and "\<not> sql_exists (\<lambda>a. da_ID a = uid) (db_attempts db)"
    and "db' = mark_submitting (as_IntentID start) now (db1\<lparr>db_attempts := db_attempts db1 @ [attempt]\<rparr>)"
proof -
  have same: "db_attempts (requeue_transient i dbnow db) = db_attempts db" for i
    by (simp add: requeue_transient_def)
  then have same': "has_unresolved_attempt (requeue_transient i dbnow db) j = has_unresolved_attempt db j"
    "attempts_of_intent (requeue_transient i dbnow db) j = attempts_of_intent db j" for i j
    by (simp_all add: has_unresolved_attempt_def attempts_of_intent_def)
  obtain x where x: "intent_of db (as_IntentID start) = Some x"
    using assms by (cases "intent_of db (as_IntentID start)") (simp_all add: start_attempt_tx_def)
  define db1 where "db1 = (if di_Status x = DS_TransientFailed
    then requeue_transient (as_IntentID start) dbnow db else db)"
  have same1: "db_attempts db1 = db_attempts db"
    "has_unresolved_attempt db1 j = has_unresolved_attempt db j"
    "attempts_of_intent db1 j = attempts_of_intent db j" for j
    by (simp_all add: db1_def same same')
  have run: "(if (if di_Status x = DS_TransientFailed then DS_Queued else di_Status x) \<noteq> DS_Queued
        then (Inl (E_CannotStart (as_IntentID start)
               (if di_Status x = DS_TransientFailed then DS_Queued else di_Status x)), db1)
        else if has_unresolved_attempt db1 (as_IntentID start)
        then (Inl (E_UnresolvedAttempt (as_IntentID start)), db1)
        else let att = new_attempt uid now start (next_attempt_no (attempts_of_intent db1 (as_IntentID start)))
                         (di_RequestHash x)
             in if sql_exists (\<lambda>a. da_ID a = uid) (db_attempts db1) then (Inl E_UniqueViolation, db1)
                else let db2 = db1\<lparr>db_attempts := db_attempts db1 @ [att]\<rparr>
                     in if sql_count (in_status (as_IntentID start) DS_Queued) (db_intents db2) \<noteq> 1
                        then (Inl E_SubmittingRejected, db2)
                        else (Inr (att, di_EffectKey x), mark_submitting (as_IntentID start) now db2)) =
      (Inr (attempt, key), db')"
    using assms x unfolding start_attempt_tx_def db1_def requeue_transient_def mark_submitting_def
    by (simp add: Let_def)
  show thesis
    by (rule that[OF x, of db1]; use run in \<open>auto simp: Let_def db1_def[symmetric] same1 split: if_splits\<close>;
        simp add: db1_def)
qed

lemma next_attempt_no_above: "a \<in> set as \<Longrightarrow> da_AttemptNo a < next_attempt_no as"
proof -
  have mono: "b \<le> fold max xs b" for b :: int and xs
    by (induction xs arbitrary: b) (auto intro: order_trans[OF max.cobounded2])
  have "x \<in> set xs \<Longrightarrow> x \<le> fold max xs b" for x b :: int and xs
  proof (induction xs arbitrary: b)
    case (Cons y xs)
    then show ?case using mono[of "max y b" xs] by (cases "x = y") auto
  qed simp
  then show "a \<in> set as \<Longrightarrow> da_AttemptNo a < next_attempt_no as"
    by (fastforce simp: next_attempt_no_def)
qed

lemma db_wf_new_attempt:
  assumes "db_wf db" and "\<not> sql_exists (\<lambda>a. da_ID a = da_ID x) (db_attempts db)"
    and "intent_of db (da_IntentID x) \<noteq> None"
    and "da_AttemptNo x = next_attempt_no (attempts_of_intent db (da_IntentID x))"
  shows "db_wf (db\<lparr>db_attempts := db_attempts db @ [x]\<rparr>)"
proof -
  have "(da_IntentID x, da_AttemptNo x) \<notin> (\<lambda>a. (da_IntentID a, da_AttemptNo a)) ` set (db_attempts db)"
    using next_attempt_no_above[of _ "attempts_of_intent db (da_IntentID x)"] assms(4)
    by (fastforce simp: attempts_of_intent_def)
  moreover have "da_IntentID x \<in> di_ID ` set (db_intents db)"
    using assms(3) intent_of_SomeD by (metis image_eqI not_None_eq)
  ultimately show ?thesis
    using assms(1,2) unfolding db_wf_def sql_exists_iff by auto
qed

lemma start_attempt_sound:
  assumes wf: "db_wf db" and run: "start_attempt_tx uid now dbnow start db = (Inr (attempt, key), db')"
  shows "sound_write R db db'"
proof -
  let ?i = "as_IntentID start"
  from run obtain x db1 where x: "intent_of db ?i = Some x"
    and db1: "(di_Status x = DS_TransientFailed \<and> db1 = requeue_transient ?i dbnow db) \<or>
         (di_Status x = DS_Queued \<and> db1 = db)"
    and att: "attempt = new_attempt uid now start (next_attempt_no (attempts_of_intent db ?i)) (di_RequestHash x)"
    and fresh: "\<not> sql_exists (\<lambda>a. da_ID a = uid) (db_attempts db)"
    and db': "db' = mark_submitting ?i now (db1\<lparr>db_attempts := db_attempts db1 @ [attempt]\<rparr>)"
    by (rule start_attempt_txD)
  have st: "intent_status db ?i = Some (di_Status x)" by (simp add: intent_status_def x)
  have wf1: "db_wf db1" using db1 wf by (auto simp: requeue_transient_def intro: db_wf_intent_update)
  have same: "db_attempts db1 = db_attempts db" using db1 by (auto simp: requeue_transient_def)
  have st1: "intent_status db1 = (intent_status db)(?i := Some DS_Queued)"
  proof (cases "di_Status x = DS_TransientFailed")
    case True
    then have "db1 = requeue_transient ?i dbnow db" using db1 by auto
    with st True show ?thesis
      by (auto simp: requeue_transient_def in_status_def intro!: intent_status_set)
  next
    case False
    then have "db1 = db" "di_Status x = DS_Queued" using db1 by auto
    with st show ?thesis by (simp add: fun_upd_idem)
  qed
  let ?db2 = "db1\<lparr>db_attempts := db_attempts db1 @ [attempt]\<rparr>"
  have sel: "da_ID attempt = uid" "da_IntentID attempt = ?i" "da_Status attempt = DS_Submitting"
    "da_AttemptNo attempt = next_attempt_no (attempts_of_intent db1 ?i)"
    by (simp_all add: att new_attempt_def attempts_of_intent_def same)
  have "intent_of db1 ?i \<noteq> None" using st1 by (metis fun_upd_same intent_status_def option.distinct(1) option.map(1))
  then have wf2: "db_wf ?db2"
    using db_wf_new_attempt[OF wf1, of attempt] fresh by (simp add: sel same)
  have wf': "db_wf db'" unfolding db' mark_submitting_def
    by (rule db_wf_intent_update[OF wf2]) simp_all
  have "intent_status ?db2 ?i = Some DS_Queued" by (simp add: st1)
  then have st': "intent_status db' = (intent_status db)(?i := Some DS_Submitting)"
    unfolding db' mark_submitting_def
    by (subst intent_status_set[where i = ?i and s = DS_Queued and t = DS_Submitting])
      (auto simp: in_status_def st1)
  have none: "attempt_view db uid = None"
    using fresh by (auto simp: attempt_view_def sql_exists_iff sql_find_None_iff)
  have "attempt_view db1 = attempt_view db" by (simp add: attempt_view_def fun_eq_iff same)
  then have av: "attempt_view db' = (attempt_view db)(uid := Some (?i, DS_Submitting))"
    using attempt_view_append[of db1 attempt] none by (simp add: db' mark_submitting_def sel)
  show ?thesis
  proof (rule sound_stepI[OF wf'])
    have "ledger_step R (ledger_view_of db)
        \<lparr>lv_status = (lv_status (ledger_view_of db))(?i := Some DS_Submitting),
         lv_attempt = (lv_attempt (ledger_view_of db))(uid := Some (?i, DS_Submitting))\<rparr>"
      by (rule ledger_step.start[where s = "di_Status x"]) (use st none db1 in auto)
    then show "ledger_step R (ledger_view_of db) (ledger_view_of db')"
      by (simp add: ledger_view_of_def st' av)
  qed
qed

lemma StartAttempt_sound:
  assumes "db_wf db" and "StartAttempt uid now dbnow start db = (r, db')"
  shows "sound_write R db db'"
proof (cases "as_IntentID start = [] \<or> as_Provider start = [] \<or> as_ClaimToken start = []")
  case True
  with assms show ?thesis by (auto simp: StartAttempt_def)
next
  case False
  with assms(2) have "in_tx (start_attempt_tx uid now dbnow start) db = (r, db')"
    by (auto simp: StartAttempt_def)
  with assms(1) show ?thesis
    by (rule sound_in_tx) (metis start_attempt_sound[OF assms(1)] surj_pair)
qed

lemma record_outcome_txD:
  assumes "record_outcome_tx at dbnow aid token out db = (Inr r, db')"
  obtains a s where "sql_find (\<lambda>a. da_ID a = aid \<and> da_ClaimToken a = token) (db_attempts db) = Some a"
    and "intent_status db (da_IntentID a) = Some s"
    and "CanTransitionTo (da_Status a) (ao_Status out)" and "CanTransitionTo s (ao_Status out)"
    and "db_attempts db' = sql_update (\<lambda>a. da_ID a = aid \<and> da_ClaimToken a = token)
                             (outcome_attempt out at) (db_attempts db)"
    and "db_intents db' = db_intents (set_intent_status (da_IntentID a) (ao_Status out) at db)"
    and "db_queue db' = (case outcome_queue out at of None \<Rightarrow> db_queue db
           | Some f \<Rightarrow> sql_update (held_for (da_IntentID a) token) f (db_queue db))"
    and "outcome_queue out at \<noteq> None \<longrightarrow> sql_count (held_for (da_IntentID a) token) (db_queue db) = 1"
proof -
  obtain a where a: "sql_find (\<lambda>a. da_ID a = aid \<and> da_ClaimToken a = token) (db_attempts db) = Some a"
    using assms by (cases "sql_find (\<lambda>a. da_ID a = aid \<and> da_ClaimToken a = token) (db_attempts db)")
      (simp_all add: record_outcome_tx_def)
  obtain s where s: "intent_status db (da_IntentID a) = Some s"
    using assms by (cases "intent_status db (da_IntentID a)") (simp_all add: record_outcome_tx_def a split: if_splits)
  have c: "CanTransitionTo (da_Status a) (ao_Status out)" "CanTransitionTo s (ao_Status out)"
    using assms by (simp_all add: record_outcome_tx_def a s split: if_splits)
  show thesis
    by (rule that[OF a s c]; use assms in \<open>auto simp: record_outcome_tx_def a s c Let_def
        set_intent_status_def split: if_splits option.splits\<close>)
qed

lemma outcome_row_keys [simp]:
  "da_ID (outcome_attempt out at a) = da_ID a" "da_IntentID (outcome_attempt out at a) = da_IntentID a"
  "da_AttemptNo (outcome_attempt out at a) = da_AttemptNo a"
  "da_Status (outcome_attempt out at a) = ao_Status out"
  "da_ClaimToken (outcome_attempt out at a) = da_ClaimToken a"
  by (simp_all add: outcome_attempt_def)

lemma outcome_queue_keys:
  "outcome_queue out at = Some f \<Longrightarrow> q_ID (f q) = q_ID q \<and> q_DeliveryIntentID (f q) = q_DeliveryIntentID q"
  by (auto simp: outcome_queue_def complete_row_def fail_row_def split: delivery_status.splits)

text \<open>A database with new attempt, intent and queue rows under the old keys is well formed.\<close>

lemma db_wf_same_keys:
  assumes "db_wf db"
    and "map (\<lambda>i. (di_ID i, di_EffectKey i)) (db_intents db') = map (\<lambda>i. (di_ID i, di_EffectKey i)) (db_intents db)"
    and "map (\<lambda>a. (da_ID a, da_IntentID a, da_AttemptNo a)) (db_attempts db') =
      map (\<lambda>a. (da_ID a, da_IntentID a, da_AttemptNo a)) (db_attempts db)"
    and "map q_ID (db_queue db') = map q_ID (db_queue db)"
    and "queue_intents (db_queue db') = queue_intents (db_queue db)"
  shows "db_wf db'"
proof -
  have i: "map di_ID (db_intents db') = map di_ID (db_intents db)"
    "map di_EffectKey (db_intents db') = map di_EffectKey (db_intents db)"
    using arg_cong[OF assms(2), of "map fst"] arg_cong[OF assms(2), of "map snd"]
    by (simp_all add: comp_def)
  have a: "map da_ID (db_attempts db') = map da_ID (db_attempts db)"
    "map (\<lambda>a. (da_IntentID a, da_AttemptNo a)) (db_attempts db') =
      map (\<lambda>a. (da_IntentID a, da_AttemptNo a)) (db_attempts db)"
    "map da_IntentID (db_attempts db') = map da_IntentID (db_attempts db)"
    using arg_cong[OF assms(3), of "map fst"] arg_cong[OF assms(3), of "map snd"]
      arg_cong[OF assms(3), of "map (\<lambda>x. fst (snd x))"]
    by (simp_all add: comp_def)
  have "set (map da_IntentID (db_attempts db')) \<subseteq> set (map di_ID (db_intents db'))"
    using assms(1) unfolding i a by (auto simp: db_wf_def)
  then show ?thesis
    using assms(1) i a assms(4,5) unfolding db_wf_def by (metis (no_types, lifting) image_subset_iff set_map)
qed

lemma sql_update_keys:
  "(\<And>r. key (f r) = key r) \<Longrightarrow> map key (sql_update p f t) = map key t"
  by simp

lemma record_outcome_sound:
  assumes wf: "db_wf db" and run: "record_outcome_tx at dbnow aid token out db = (Inr r, db')"
    and st: "ao_Status out \<in> set outcome_statuses"
    and R: "ao_Status out = DS_TransientFailed \<longrightarrow> aid \<notin> R"
  shows "sound_write R db db'"
proof -
  from run obtain a s where a: "sql_find (\<lambda>a. da_ID a = aid \<and> da_ClaimToken a = token) (db_attempts db) = Some a"
    and s: "intent_status db (da_IntentID a) = Some s"
    and c: "CanTransitionTo (da_Status a) (ao_Status out)" "CanTransitionTo s (ao_Status out)"
    and as: "db_attempts db' = sql_update (\<lambda>a. da_ID a = aid \<and> da_ClaimToken a = token)
                             (outcome_attempt out at) (db_attempts db)"
    and ints: "db_intents db' = db_intents (set_intent_status (da_IntentID a) (ao_Status out) at db)"
    and q: "db_queue db' = (case outcome_queue out at of None \<Rightarrow> db_queue db
           | Some f \<Rightarrow> sql_update (held_for (da_IntentID a) token) f (db_queue db))"
    by (rule record_outcome_txD)
  have a': "a \<in> set (db_attempts db)" "da_ID a = aid" "da_ClaimToken a = token"
    using sql_find_SomeD[OF a] by auto
  note av = attempt_view_row[OF wf a'(1)]
  have wf': "db_wf db'"
    using wf
  proof (rule db_wf_same_keys)
    show "map q_ID (db_queue db') = map q_ID (db_queue db)"
      "queue_intents (db_queue db') = queue_intents (db_queue db)"
      using outcome_queue_keys[of out at]
      by (auto simp: q queue_intents_update split: option.split)
  qed (simp_all add: as ints set_intent_status_def)
  have ist: "intent_status db' = (intent_status db)(da_IntentID a := Some (ao_Status out))"
    using intent_status_set_intent_status[OF s, of "ao_Status out" at]
    by (simp add: intent_status_def intent_of_def ints fun_eq_iff)
  have avt: "attempt_view db' = (attempt_view db)(aid := Some (da_IntentID a, ao_Status out))"
    using attempt_view_update[of "outcome_attempt out at" aid db a "\<lambda>a. da_ID a = aid \<and> da_ClaimToken a = token"]
      av(2) a'
    by (simp add: attempt_view_def as fun_eq_iff)
  have "ledger_step R (ledger_view_of db)
      \<lparr>lv_status = (lv_status (ledger_view_of db))(da_IntentID a := Some (ao_Status out)),
       lv_attempt = (lv_attempt (ledger_view_of db))(aid := Some (da_IntentID a, ao_Status out))\<rparr>"
    by (rule ledger_step.outcome[where s = "da_Status a" and t = s])
      (use av s c st R a' in \<open>auto simp: outcome_statuses_def status_sets\<close>)
  then show ?thesis by (intro sound_stepI[OF wf']) (simp add: ledger_view_of_def ist avt)
qed

lemma RecordAttemptOutcome_sound:
  assumes "db_wf db" and "RecordAttemptOutcome now dbnow aid token out db = (r, db')"
    and "ao_Status out = DS_TransientFailed \<longrightarrow> aid \<notin> R"
  shows "sound_write R db db'"
proof (cases "aid = [] \<or> token = [] \<or> ao_Status out \<notin> set outcome_statuses")
  case True
  with assms(2) have "db' = db" by (auto simp: RecordAttemptOutcome_def split: if_splits)
  with assms(1) show ?thesis by simp
next
  case False
  with assms(2) have "in_tx (record_outcome_tx (if ao_OccurredAt out = zero_time then now else ao_OccurredAt out)
      dbnow aid token out) db = (r, db')"
    by (auto simp: RecordAttemptOutcome_def Let_def)
  with assms(1) show ?thesis
    by (rule sound_in_tx) (use record_outcome_sound[OF assms(1)] False assms(3) in blast)
qed

lemma latest_attempt_in: "latest_attempt as = Some a \<Longrightarrow> a \<in> set as"
  unfolding latest_attempt_def
  by (metis (no_types, lifting) list.case_eq_if list.set_sel(1) option.distinct(1) option.inject set_sort)

lemma resolve_unknown_txD:
  assumes "resolve_unknown_tx now i action actor reason db = (Inr r, db')"
  obtains a t where "intent_status db i = Some DS_Unknown"
    and "latest_attempt (filter (\<lambda>a. da_Status a = DS_Unknown) (attempts_of_intent db i)) = Some a"
    and "resolution_target action = Some t"
    and "db_attempts db' = sql_update (\<lambda>x. da_ID x = da_ID a)
           (resolved_attempt (if action = RA_RetryVerifiedNotAccepted then DS_TerminalFailed else t) reason now)
           (db_attempts db)"
    and "db_intents db' = db_intents (set_intent_status i t now db)"
    and "db_queue db' = sql_update (\<lambda>q. q_DeliveryIntentID q = Some i) (resolved_row action now) (db_queue db)"
proof -
  have s: "intent_status db i = Some DS_Unknown"
    using assms by (auto simp: resolve_unknown_tx_def split: option.splits if_splits)
  obtain a where a: "latest_attempt (filter (\<lambda>a. da_Status a = DS_Unknown) (attempts_of_intent db i)) = Some a"
    using assms by (cases "latest_attempt (filter (\<lambda>a. da_Status a = DS_Unknown) (attempts_of_intent db i))")
      (simp_all add: resolve_unknown_tx_def s)
  obtain t where t: "resolution_target action = Some t"
    using assms by (cases "resolution_target action") (simp_all add: resolve_unknown_tx_def s a)
  show thesis
    by (rule that[OF s a t]; use assms in \<open>auto simp: resolve_unknown_tx_def s a t Let_def
        set_intent_status_def\<close>)
qed

lemma resolve_unknown_sound:
  assumes wf: "db_wf db" and run: "resolve_unknown_tx now i action actor reason db = (Inr r, db')"
    and R: "\<And>a. action = RA_RetryVerifiedNotAccepted \<Longrightarrow>
      latest_attempt (filter (\<lambda>a. da_Status a = DS_Unknown) (attempts_of_intent db i)) = Some a \<Longrightarrow> da_ID a \<notin> R"
  shows "sound_write R db db'"
proof -
  from run obtain a t where s: "intent_status db i = Some DS_Unknown"
    and a: "latest_attempt (filter (\<lambda>a. da_Status a = DS_Unknown) (attempts_of_intent db i)) = Some a"
    and t: "resolution_target action = Some t"
    and as: "db_attempts db' = sql_update (\<lambda>x. da_ID x = da_ID a)
           (resolved_attempt (if action = RA_RetryVerifiedNotAccepted then DS_TerminalFailed else t) reason now)
           (db_attempts db)"
    and ints: "db_intents db' = db_intents (set_intent_status i t now db)"
    and q: "db_queue db' = sql_update (\<lambda>q. q_DeliveryIntentID q = Some i) (resolved_row action now) (db_queue db)"
    by (rule resolve_unknown_txD)
  let ?u = "if action = RA_RetryVerifiedNotAccepted then DS_TerminalFailed else t"
  have a': "a \<in> set (db_attempts db)" "da_IntentID a = i" "da_Status a = DS_Unknown"
    using latest_attempt_in[OF a] by (auto simp: attempts_of_intent_def)
  note av = attempt_view_row[OF wf a'(1)]
  have wf': "db_wf db'"
    by (rule db_wf_same_keys[OF wf])
      (simp_all add: as ints q set_intent_status_def resolved_attempt_def resolved_row_def complete_row_def queue_intents_update)
  have ist: "intent_status db' = (intent_status db)(i := Some t)"
    using intent_status_set_intent_status[OF s, of t now]
    by (simp add: intent_status_def intent_of_def ints fun_eq_iff)
  have avt: "attempt_view db' = (attempt_view db)(da_ID a := Some (i, ?u))"
    using attempt_view_update[of "resolved_attempt ?u reason now" "da_ID a" db a "\<lambda>x. da_ID x = da_ID a" ?u]
      av(2) a'
    by (simp add: attempt_view_def as fun_eq_iff resolved_attempt_def)
  have "ledger_step R (ledger_view_of db)
      \<lparr>lv_status = (lv_status (ledger_view_of db))(i := Some t),
       lv_attempt = (lv_attempt (ledger_view_of db))(da_ID a := Some (i, ?u))\<rparr>"
    by (rule ledger_step.resolve) (use av s a' t R[OF _ a] in \<open>cases action; auto\<close>)+
  then show ?thesis by (intro sound_stepI[OF wf']) (simp add: ledger_view_of_def ist avt)
qed

lemma RequestDeliveryReconciliation_sound:
  "db_wf db \<Longrightarrow> RequestDeliveryReconciliation dbnow i reason db = (r, db') \<Longrightarrow> sound_write R db db'"
  by (rule sound_queue_only) (auto simp: RequestDeliveryReconciliation_def split: option.splits if_splits)

lemma resolveReceiptDeliveryLedgerD:
  assumes "db_wf db" and "resolveReceiptDeliveryLedger r db = Some (aid, i, m)"
  shows "intent_status db i \<noteq> None \<and> (\<forall>a. aid = Some a \<longrightarrow> (\<exists>x \<in> set (db_attempts db). da_ID x = a \<and> da_IntentID x = i))"
proof (cases "(if r_ProviderMessageID r = [] then None
            else latest_attempt (filter (\<lambda>a. to_lower (da_Provider a) = to_lower (r_Provider r) \<and>
                   da_ProviderMessageID a = r_ProviderMessageID r) (db_attempts db)))")
  case None
  with assms(2) obtain x where x: "intent_by_key db (r_EffectKey r) = Some x"
    and i: "i = di_ID x" and aid: "aid = map_option da_ID (latest_attempt (attempts_of_intent db (di_ID x)))"
    by (auto simp: resolveReceiptDeliveryLedger_def split: if_splits option.splits)
  have "x \<in> set (db_intents db)" using x sql_find_SomeD by (fastforce simp: intent_by_key_def)
  then have "intent_status db i \<noteq> None" using intent_of_unique[OF assms(1)] by (simp add: i intent_status_def)
  moreover have "\<exists>x \<in> set (db_attempts db). da_ID x = a \<and> da_IntentID x = i" if "aid = Some a" for a
  proof -
    from that aid obtain y where y: "latest_attempt (attempts_of_intent db (di_ID x)) = Some y" "da_ID y = a"
      by auto
    from latest_attempt_in[OF y(1)] y(2) show ?thesis by (auto simp: i attempts_of_intent_def)
  qed
  ultimately show ?thesis by blast
next
  case (Some x)
  then have x: "x \<in> set (db_attempts db)" by (auto split: if_splits dest: latest_attempt_in)
  have "aid = Some (da_ID x) \<and> i = da_IntentID x"
    using assms(2) Some unfolding resolveReceiptDeliveryLedger_def by simp
  with x attempt_intent_known[OF assms(1) x] show ?thesis by auto
qed

lemma receipt_row_keys [simp]:
  "da_ID (receipt_attempt t r a) = da_ID a" "da_IntentID (receipt_attempt t r a) = da_IntentID a"
  "da_AttemptNo (receipt_attempt t r a) = da_AttemptNo a" "da_Status (receipt_attempt t r a) = t"
  "q_ID (receipt_row r q) = q_ID q" "q_DeliveryIntentID (receipt_row r q) = q_DeliveryIntentID q"
  by (simp_all add: receipt_attempt_def receipt_row_def)

lemma receipt_target_allowed:
  "receipt_target e = Some (u, S) \<Longrightarrow> u \<in> {DS_ProviderAccepted, DS_Confirmed, DS_TerminalFailed} \<and>
     set S \<subseteq> {DS_Submitting, DS_ProviderAccepted, DS_Unknown} \<and> {DS_Submitting, DS_Unknown} \<subseteq> set S \<and>
     (u \<noteq> DS_ProviderAccepted \<longrightarrow> DS_ProviderAccepted \<in> set S)"
  by (cases e) auto

lemma attempt_view_no_hit:
  assumes "\<And>y. y \<in> set (db_attempts db) \<Longrightarrow> \<not> p y"
  shows "attempt_view (db\<lparr>db_attempts := sql_update p f (db_attempts db)\<rparr>) = attempt_view db"
proof -
  have "sql_update p f (db_attempts db) = db_attempts db"
    by (rule sql_update_none) (rule assms)
  then show ?thesis by simp
qed

text \<open>The tables after a receipt, as far as the ledger goes.\<close>

lemma apply_receipt_frame:
  assumes "applyReceiptToDeliveryLedger r (Some (aid, i, m)) db = (b, db')"
    and "receipt_target (r_Event r) = Some (u, S)"
  shows "db_intents db' = sql_update (\<lambda>x. di_ID x = i \<and> di_Status x \<in> set S)
           (\<lambda>x. x\<lparr>di_Status := u, di_UpdatedAt := r_OccurredAt r\<rparr>) (db_intents db)"
    and "db_attempts db' = sql_update (\<lambda>x. Some (da_ID x) = aid \<and> da_Status x \<in> set S)
           (receipt_attempt u r) (db_attempts db)"
    and "map q_ID (db_queue db') = map q_ID (db_queue db)"
    and "queue_intents (db_queue db') = queue_intents (db_queue db)"
proof -
  have none: "sql_update (\<lambda>x. False) f t = t" for f :: "delivery_attempt \<Rightarrow> delivery_attempt" and t
    by (induction t) auto
  have q: "db_queue db' = db_queue db \<or>
      db_queue db' = sql_update (\<lambda>q. q_DeliveryIntentID q = Some i) (receipt_row r) (db_queue db)"
    using assms by (auto simp: applyReceiptToDeliveryLedger_def Let_def split: option.splits if_splits)
  then show "map q_ID (db_queue db') = map q_ID (db_queue db)"
    and "queue_intents (db_queue db') = queue_intents (db_queue db)"
    by (auto simp: queue_intents_update)
  have eq: "(\<lambda>x. Some (da_ID x) = Some a \<and> P x) = (\<lambda>x. da_ID x = a \<and> P x)" for a P by auto
  show "db_intents db' = sql_update (\<lambda>x. di_ID x = i \<and> di_Status x \<in> set S)
           (\<lambda>x. x\<lparr>di_Status := u, di_UpdatedAt := r_OccurredAt r\<rparr>) (db_intents db)"
    using assms by (auto simp: applyReceiptToDeliveryLedger_def Let_def split: option.splits if_splits)
  show "db_attempts db' = sql_update (\<lambda>x. Some (da_ID x) = aid \<and> da_Status x \<in> set S)
           (receipt_attempt u r) (db_attempts db)"
    using assms by (cases aid) (auto simp: applyReceiptToDeliveryLedger_def Let_def none eq split: if_splits)
qed

lemma apply_receipt_sound:
  assumes wf: "db_wf db" and run: "applyReceiptToDeliveryLedger r match db = (b, db')"
    and match: "match = resolveReceiptDeliveryLedger r db \<or> match = None"
  shows "sound_write R db db'"
proof (cases "\<exists>aid i m u S. match = Some (aid, i, m) \<and> receipt_target (r_Event r) = Some (u, S)")
  case False
  with run have "db' = db" by (auto simp: applyReceiptToDeliveryLedger_def split: option.splits)
  with wf show ?thesis by simp
next
  case True
  then obtain aid i m u S where mt: "match = Some (aid, i, m)" and tgt: "receipt_target (r_Event r) = Some (u, S)"
    by blast
  note fr = apply_receipt_frame[OF run[unfolded mt] tgt]
  note al = receipt_target_allowed[OF tgt]
  have res: "resolveReceiptDeliveryLedger r db = Some (aid, i, m)" using match mt by auto
  note known = resolveReceiptDeliveryLedgerD[OF wf res]
  then obtain t where t: "intent_status db i = Some t" by blast
  have wf': "db_wf db'" by (rule db_wf_same_keys[OF wf]) (simp_all add: fr)
  have ist: "intent_status db' = (if t \<in> set S then (intent_status db)(i := Some u) else intent_status db)"
  proof -
    have "intent_status (db\<lparr>db_intents := db_intents db'\<rparr>) =
        (if t \<in> set S then (intent_status db)(i := Some u) else intent_status db)"
    proof (cases "t \<in> set S")
      case True
      then show ?thesis unfolding fr(1) by (subst intent_status_set[OF t, where t = u]) auto
    next
      case False
      then show ?thesis unfolding fr(1) using t
        by (subst intent_status_keep[where i = i]) (auto simp: intent_status_def)
    qed
    then show ?thesis by (simp add: intent_status_def intent_of_def fun_eq_iff)
  qed
  have avb: "attempt_view db' = attempt_view (db\<lparr>db_attempts := db_attempts db'\<rparr>)"
    by (simp add: attempt_view_def fun_eq_iff)
  show ?thesis
  proof (cases "\<exists>x \<in> set (db_attempts db). Some (da_ID x) = aid \<and> da_Status x \<in> set S")
    case False
    then have av: "attempt_view db' = attempt_view db"
      unfolding avb fr(2) by (intro attempt_view_no_hit) auto
    show ?thesis
    proof (rule sound_stepI[OF wf'], cases "t \<in> set S")
      case True
      have "ledger_step R (ledger_view_of db)
          ((ledger_view_of db)\<lparr>lv_status := (lv_status (ledger_view_of db))(i := Some u)\<rparr>)"
        by (rule ledger_step.receipt_intent[where t = t]) (use t True al in auto)
      with True show "ledger_step R (ledger_view_of db) (ledger_view_of db')"
        by (simp add: ledger_view_of_def ist av)
    next
      case False
      then show "ledger_step R (ledger_view_of db) (ledger_view_of db')"
        by (simp add: ledger_view_of_def ist av ledger_step.stay)
    qed
  next
    case True
    then obtain x where x: "x \<in> set (db_attempts db)" "aid = Some (da_ID x)" "da_Status x \<in> set S" by auto
    have ix: "da_IntentID x = i"
      using known x unique_rowD[of da_ID "db_attempts db" _ x] wf unfolding db_wf_def by metis
    note row = attempt_view_row[OF wf x(1)]
    have av: "attempt_view db' = (attempt_view db)(da_ID x := Some (i, u))"
      unfolding avb fr(2) using row(2) x ix
      by (subst attempt_view_update[where a = "da_ID x" and x = x and s = u]) auto
    show ?thesis
    proof (rule sound_stepI[OF wf'], cases "t \<in> set S")
      case True
      have "ledger_step R (ledger_view_of db)
          \<lparr>lv_status = (lv_status (ledger_view_of db))(i := Some u),
           lv_attempt = (lv_attempt (ledger_view_of db))(da_ID x := Some (i, u))\<rparr>"
        by (rule ledger_step.receipt_both[where s = "da_Status x" and t = t])
          (use t True al x row ix in auto)
      with True show "ledger_step R (ledger_view_of db) (ledger_view_of db')"
        by (simp add: ledger_view_of_def ist av)
    next
      case False
      have "ledger_step R (ledger_view_of db)
          ((ledger_view_of db)\<lparr>lv_attempt := (lv_attempt (ledger_view_of db))(da_ID x := Some (i, u))\<rparr>)"
        by (rule ledger_step.receipt_attempt[where s = "da_Status x" and t = t])
          (use t False al x row ix in auto)
      with False show "ledger_step R (ledger_view_of db) (ledger_view_of db')"
        by (simp add: ledger_view_of_def ist av)
    qed
  qed
qed

lemma resolve_ledger_receipts [simp]:
  "resolveReceiptDeliveryLedger r (db\<lparr>db_receipts := rs\<rparr>) = resolveReceiptDeliveryLedger r db"
proof -
  have "queue_message_id (db\<lparr>db_receipts := rs\<rparr>) = queue_message_id db"
    "intent_by_key (db\<lparr>db_receipts := rs\<rparr>) = intent_by_key db"
    "attempts_of_intent (db\<lparr>db_receipts := rs\<rparr>) = attempts_of_intent db"
    by (simp_all add: fun_eq_iff queue_message_id_def intent_by_key_def attempts_of_intent_def)
  moreover have "db_attempts (db\<lparr>db_receipts := rs\<rparr>) = db_attempts db" by simp
  ultimately show ?thesis unfolding resolveReceiptDeliveryLedger_def by (simp only:)
qed

lemma link_and_apply_sound:
  assumes wf: "db_wf db" and run: "link_and_apply r d stored dbnow db = (x, db')"
  shows "sound_write R db db'"
proof -
  define mid where "mid = (if stored = [] then resolveReceiptMessageID r db else stored)"
  define match where "match = (if mid = [] \<or> r_EffectKey r \<noteq> [] \<or> isEmailDeliveryProvider (r_Provider r)
                   then resolveReceiptDeliveryLedger r db else None)"
  define mid2 where "mid2 = (case match of Some (_, _, m) \<Rightarrow> if mid = [] then m else mid | None \<Rightarrow> mid)"
  define db1 where "db1 = (if mid2 \<noteq> [] \<and> stored \<noteq> mid2
                 then db\<lparr>db_receipts := sql_update (same_receipt r) (\<lambda>x. x\<lparr>r_MessageID := mid2\<rparr>) (db_receipts db)\<rparr>
                 else db)"
  obtain b db2 where ap: "applyReceiptToDeliveryLedger r match db1 = (b, db2)" by fastforce
  have wf1: "db_wf db1" and s1: "sound_write R db db1"
    using wf by (auto simp: db1_def intro!: sound_queue_only)
  have "resolveReceiptDeliveryLedger r db1 = resolveReceiptDeliveryLedger r db" by (simp add: db1_def)
  then have s2: "sound_write R db1 db2" using apply_receipt_sound[OF wf1 ap] by (auto simp: match_def)
  then have wf2: "db_wf db2" by (simp add: sound_write_def)
  have "\<exists>ms. db' = db2\<lparr>db_messages := ms\<rparr>"
    using run ap unfolding link_and_apply_def Let_def mid_def[symmetric] match_def[symmetric]
      mid2_def[symmetric] db1_def[symmetric]
    by (auto split: option.splits if_splits intro: exI[of _ "db_messages db2"])
  then have "sound_write R db2 db'" using wf2 by (auto intro!: sound_queue_only)
  with s1 s2 show ?thesis by (metis sound_trans)
qed

lemma recordDeliveryReceiptTx_sound:
  assumes "db_wf db" and "recordDeliveryReceiptTx sha rt dbnow r db = (x, db')"
  shows "sound_write R db db'"
proof -
  define q where "q = (if r_PayloadHash r = [] then r\<lparr>r_PayloadHash := ComputePayloadHash sha r\<rparr> else r)"
  show ?thesis
  proof (cases "sql_find (same_receipt q) (db_receipts db)")
    case None
    let ?db1 = "db\<lparr>db_receipts := db_receipts db @ [q\<lparr>r_ReceivedAt := rt\<rparr>]\<rparr>"
    have "link_and_apply q False (r_MessageID q) dbnow ?db1 = (x, db')"
      using assms(2) None unfolding recordDeliveryReceiptTx_def q_def[symmetric] by simp
    from link_and_apply_sound[OF _ this] have "sound_write R ?db1 db'" using assms(1) by simp
    moreover have "sound_write R db ?db1" using assms(1) by (intro sound_queue_only) simp_all
    ultimately show ?thesis by (metis sound_trans)
  next
    case (Some old)
    have "(if r_PayloadHash old \<noteq> r_PayloadHash q then db' = db
       else link_and_apply q True (r_MessageID old) dbnow db = (x, db'))"
      using assms(2) Some unfolding recordDeliveryReceiptTx_def q_def[symmetric] by auto
    then show ?thesis
      using assms(1) link_and_apply_sound[OF assms(1)] by (auto split: if_splits)
  qed
qed

lemma record_receipts_sound:
  "db_wf db \<Longrightarrow> record_receipts sha rt dbnow rs db = (xs, db') \<Longrightarrow> sound_write R db db'"
proof (induction rs arbitrary: db xs)
  case (Cons r rs)
  obtain x db1 where x: "recordDeliveryReceiptTx sha rt dbnow r db = (x, db1)" by fastforce
  have s: "sound_write R db db1" by (rule recordDeliveryReceiptTx_sound[OF Cons(2) x])
  then have "db_wf db1" by (simp add: sound_write_def)
  with Cons x s show ?case by (fastforce split: prod.splits intro: sound_trans)
qed simp

lemma RecordBatch_sound:
  "db_wf db \<Longrightarrow> RecordBatch sha rt dbnow rs db = (r, db') \<Longrightarrow> sound_write R db db'"
  using record_receipts_sound by (fastforce simp: RecordBatch_def split: if_splits prod.splits)

section \<open>Runs\<close>

text \<open>One operation of the repositories, with its arguments.\<close>

datatype ledger_op =
    Op_Reserve string instant delivery_intent
  | Op_ReserveAndEnqueue string string instant instant delivery_intent "queue_entry option"
  | Op_Suppress string delivery_status string instant
  | Op_Transition string delivery_status delivery_status instant
  | Op_StartAttempt string instant instant delivery_attempt_start
  | Op_RecordOutcome instant instant string string delivery_attempt_outcome
  | Op_RequestReconciliation instant string string
  | Op_ResolveUnknown instant string delivery_resolution_action string string
  | Op_RecordReceipts "fingerprint \<Rightarrow> string" instant instant "delivery_receipt list"
  | Op_UpsertHistory message_row
  | Op_Enqueue instant "(string \<times> queue_entry) list"
  | Op_Claim string instant instant "string \<Rightarrow> bool" int duration
  | Op_CompleteClaim string string instant
  | Op_FailClaim instant string string string "instant option"
  | Op_MarkAsProcessing instant string
  | Op_MarkAsSent string
  | Op_MarkAsFailed instant string string "instant option"
  | Op_Delete string
  | Op_SetNextRetry instant string instant
  | Op_Pause instant email_queue_source string
  | Op_Resume instant email_queue_source string
  | Op_DeleteBySource email_queue_source string
  | Op_DeleteForEmail string

fun run_op :: "ledger_op \<Rightarrow> delivery_db \<Rightarrow> delivery_db" where
  "run_op (Op_Reserve uid t i) db = snd (ReserveIntent uid t i db)"
| "run_op (Op_ReserveAndEnqueue uid quid now t i e) db = snd (ReserveAndEnqueue uid quid now t i e db)"
| "run_op (Op_Suppress i s reason at) db = snd (SuppressIntent i s reason at db)"
| "run_op (Op_Transition i s t at) db = snd (TransitionIntent i s t at db)"
| "run_op (Op_StartAttempt uid now t start) db = snd (StartAttempt uid now t start db)"
| "run_op (Op_RecordOutcome now t aid token out) db = snd (RecordAttemptOutcome now t aid token out db)"
| "run_op (Op_RequestReconciliation t i reason) db = snd (RequestDeliveryReconciliation t i reason db)"
| "run_op (Op_ResolveUnknown now i act actor reason) db = snd (ResolveUnknownDelivery now i act actor reason db)"
| "run_op (Op_RecordReceipts sha rt t rs) db = snd (RecordBatch sha rt t rs db)"
| "run_op (Op_UpsertHistory m) db = snd (Upsert m db)"
| "run_op (Op_Enqueue now es) db = snd (Enqueue now es db)"
| "run_op (Op_Claim token now t locked limit d) db = snd (ClaimPending token now t locked limit d db)"
| "run_op (Op_CompleteClaim eid token at) db = snd (CompleteClaim eid token at db)"
| "run_op (Op_FailClaim t eid token msg nr) db = snd (FailClaim t eid token msg nr db)"
| "run_op (Op_MarkAsProcessing t eid) db = snd (MarkAsProcessing t eid db)"
| "run_op (Op_MarkAsSent eid) db = snd (MarkAsSent eid db)"
| "run_op (Op_MarkAsFailed now eid msg nr) db = snd (MarkAsFailed now eid msg nr db)"
| "run_op (Op_Delete eid) db = snd (Delete eid db)"
| "run_op (Op_SetNextRetry t eid nr) db = snd (SetNextRetry t eid nr db)"
| "run_op (Op_Pause t st si) db = snd (PauseBySource t st si db)"
| "run_op (Op_Resume t st si) db = snd (ResumeBySource t st si db)"
| "run_op (Op_DeleteBySource st si) db = snd (DeleteBySource st si db)"
| "run_op (Op_DeleteForEmail email) db = snd (DeleteForEmail email db)"

text \<open>How the program calls them. The status writes without an attempt only leave statuses
  before a submission and never enter \<open>submitting\<close> (the worker cancels and suppresses queued
  intents). And the two calls that allow another submission of an intent are truthful about the
  attempt they give up: it is not among the attempts \<open>R\<close> whose message reached the
  recipient.\<close>

fun as_called :: "string set \<Rightarrow> delivery_db \<Rightarrow> ledger_op \<Rightarrow> bool" where
  "as_called R db (Op_Suppress i s _ _) = (s \<in> pre_submission)"
| "as_called R db (Op_Transition i s t _) = (s \<in> pre_submission \<and> t \<noteq> DS_Submitting)"
| "as_called R db (Op_RecordOutcome _ _ aid _ out) = (ao_Status out = DS_TransientFailed \<longrightarrow> aid \<notin> R)"
| "as_called R db (Op_ResolveUnknown _ i act _ _) =
     (act = RA_RetryVerifiedNotAccepted \<longrightarrow>
        (case latest_attempt (filter (\<lambda>a. da_Status a = DS_Unknown) (attempts_of_intent db i)) of
           None \<Rightarrow> True | Some a \<Rightarrow> da_ID a \<notin> R))"
| "as_called R db _ = True"

text \<open>The databases reachable from an empty one. An operation that fails for a reason outside
  the model is one that did not happen.\<close>

inductive ledger_reachable :: "string set \<Rightarrow> delivery_db \<Rightarrow> bool" for R where
  initial: "ledger_reachable R empty_db"
| operation: "ledger_reachable R db \<Longrightarrow> as_called R db op \<Longrightarrow> ledger_reachable R (run_op op db)"

lemma sound_pair:
  "(\<And>r db'. f db = (r, db') \<Longrightarrow> sound_write R db db') \<Longrightarrow> sound_write R db (snd (f db))"
  by (metis prod.collapse)

lemma queue_write_sound:
  assumes "db_wf db"
  shows "sound_write R db (snd (ClaimPending token now t locked limit d db))"
    and "sound_write R db (snd (CompleteClaim eid token at db))"
    and "sound_write R db (snd (FailClaim t eid token msg nr db))"
    and "sound_write R db (snd (Enqueue now es db))"
    and "sound_write R db (snd (MarkAsProcessing t eid db))"
    and "sound_write R db (snd (MarkAsSent eid db))"
    and "sound_write R db (snd (MarkAsFailed now eid msg nr db))"
    and "sound_write R db (snd (Delete eid db))"
    and "sound_write R db (snd (SetNextRetry t eid at db))"
    and "sound_write R db (snd (PauseBySource t st si db))"
    and "sound_write R db (snd (ResumeBySource t st si db))"
    and "sound_write R db (snd (DeleteBySource st si db))"
    and "sound_write R db (snd (DeleteForEmail email db))"
proof -
  note wf = queue_write_wf[OF assms] ClaimPending_wf[OF assms prod.collapse[symmetric]]
    CompleteClaim_wf[OF assms prod.collapse[symmetric]] FailClaim_wf[OF assms prod.collapse[symmetric]]
    Enqueue_wf[OF assms prod.collapse[symmetric]]
  show "sound_write R db (snd (ClaimPending token now t locked limit d db))"
    by (rule sound_queue_only[OF wf(10)]) (simp_all add: ClaimPending_def Let_def)
  show "sound_write R db (snd (CompleteClaim eid token at db))"
    by (rule sound_queue_only[OF wf(11)]) (simp_all add: CompleteClaim_def Let_def)
  show "sound_write R db (snd (FailClaim t eid token msg nr db))"
    by (rule sound_queue_only[OF wf(12)]) (simp_all add: FailClaim_def Let_def)
  show "sound_write R db (snd (Enqueue now es db))"
    by (rule sound_queue_only[OF wf(13)]) (simp_all add: Enqueue_def in_tx_def EnqueueTx_def)
  show "sound_write R db (snd (MarkAsProcessing t eid db))"
    by (rule sound_queue_only[OF wf(1)]) (simp_all add: MarkAsProcessing_def)
  show "sound_write R db (snd (MarkAsSent eid db))"
    by (rule sound_queue_only[OF wf(2)]) (simp_all add: MarkAsSent_def)
  show "sound_write R db (snd (MarkAsFailed now eid msg nr db))"
    by (rule sound_queue_only[OF wf(3)]) (simp_all add: MarkAsFailed_def)
  show "sound_write R db (snd (Delete eid db))"
    by (rule sound_queue_only[OF wf(4)]) (simp_all add: Delete_def)
  show "sound_write R db (snd (SetNextRetry t eid at db))"
    by (rule sound_queue_only[OF wf(5)]) (simp_all add: SetNextRetry_def)
  show "sound_write R db (snd (PauseBySource t st si db))"
    by (rule sound_queue_only[OF wf(6)]) (simp_all add: PauseBySource_def)
  show "sound_write R db (snd (ResumeBySource t st si db))"
    by (rule sound_queue_only[OF wf(7)]) (simp_all add: ResumeBySource_def)
  show "sound_write R db (snd (DeleteBySource st si db))"
    by (rule sound_queue_only[OF wf(8)]) (simp_all add: DeleteBySource_def)
  show "sound_write R db (snd (DeleteForEmail email db))"
    by (rule sound_queue_only[OF wf(9)]) (simp_all add: DeleteForEmail_def)
qed

lemma run_op_sound:
  assumes wf: "db_wf db" and called: "as_called R db op"
  shows "sound_write R db (run_op op db)"
proof (cases op)
  case (Op_Reserve uid t i)
  show ?thesis unfolding Op_Reserve run_op.simps by (rule sound_pair) (rule ReserveIntent_sound[OF wf])
next
  case (Op_ReserveAndEnqueue uid quid now t i e)
  show ?thesis unfolding Op_ReserveAndEnqueue run_op.simps
    by (rule sound_pair) (rule ReserveAndEnqueue_sound[OF wf])
next
  case (Op_Suppress i s reason at)
  with called show ?thesis unfolding Op_Suppress run_op.simps
    by (intro sound_pair) (rule SuppressIntent_sound[OF wf], simp_all)
next
  case (Op_Transition i s t at)
  with called show ?thesis unfolding Op_Transition run_op.simps
    by (intro sound_pair) (rule TransitionIntent_sound[OF wf], simp_all)
next
  case (Op_StartAttempt uid now t start)
  show ?thesis unfolding Op_StartAttempt run_op.simps by (rule sound_pair) (rule StartAttempt_sound[OF wf])
next
  case (Op_RecordOutcome now t aid token out)
  with called show ?thesis unfolding Op_RecordOutcome run_op.simps
    by (intro sound_pair) (rule RecordAttemptOutcome_sound[OF wf], simp_all)
next
  case (Op_RequestReconciliation t i reason)
  show ?thesis unfolding Op_RequestReconciliation run_op.simps
    by (rule sound_pair) (rule RequestDeliveryReconciliation_sound[OF wf])
next
  case (Op_ResolveUnknown now i act actor reason)
  have "sound_write R db db'" if "ResolveUnknownDelivery now i act actor reason db = (r, db')" for r db'
    using wf that[unfolded ResolveUnknownDelivery_def]
    by (rule sound_in_tx)
      (rule resolve_unknown_sound[OF wf], assumption, use called Op_ResolveUnknown in auto)
  then show ?thesis unfolding Op_ResolveUnknown run_op.simps by (rule sound_pair)
next
  case (Op_RecordReceipts sha rt t rs)
  show ?thesis unfolding Op_RecordReceipts run_op.simps by (rule sound_pair) (rule RecordBatch_sound[OF wf])
next
  case (Op_UpsertHistory m)
  have "sound_write R db db'" if "Upsert m db = (r, db')" for r db'
  proof (rule sound_queue_only)
    show "db_wf db'" using wf that by (auto simp: Upsert_def Let_def split: if_splits)
  qed (use Upsert_frame[OF that] in simp_all)
  then show ?thesis unfolding Op_UpsertHistory run_op.simps by (rule sound_pair)
qed (simp_all add: queue_write_sound[OF wf])

lemma ledger_steps_ok: "(ledger_step R)\<^sup>*\<^sup>* v v' \<Longrightarrow> ledger_ok R v \<Longrightarrow> ledger_ok R v'"
  by (induction rule: rtranclp_induct) (auto intro: ledger_step_ok)

lemma settled_steps:
  "(ledger_step R)\<^sup>*\<^sup>* v v' \<Longrightarrow> lv_status v i = Some s \<Longrightarrow> s \<in> settled \<Longrightarrow> lv_status v' i = Some s"
  by (induction rule: rtranclp_induct) (auto intro: settled_stays)

lemma ledger_reachable_ok: "ledger_reachable R db \<Longrightarrow> db_wf db \<and> ledger_ok R (ledger_view_of db)"
proof (induction rule: ledger_reachable.induct)
  case initial
  show ?case
    by (auto simp: empty_db_def db_wf_def ledger_ok_def ledger_view_of_def intent_status_def intent_of_def
        attempt_view_def)
next
  case (operation db op)
  then have "sound_write R db (run_op op db)" by (intro run_op_sound) auto
  with operation show ?case unfolding sound_write_def using ledger_steps_ok by blast
qed

section \<open>What an operation does, branch by branch\<close>

lemma count_in_status:
  assumes "db_wf db" and "intent_status db i = Some s"
  shows "sql_count (in_status i s) (db_intents db) = 1"
proof -
  obtain x where x: "intent_of db i = Some x" "di_Status x = s" using assms(2) by (auto simp: intent_status_def)
  then have "x \<in> set (db_intents db)" "in_status i s x" by (auto simp: in_status_def dest: intent_of_SomeD)
  then have "sql_count (in_status i s) (db_intents db) \<noteq> 0" by (auto simp: sql_count_0_iff)
  moreover have "sql_count (in_status i s) (db_intents db) \<le> sql_count (\<lambda>x. di_ID x = i) (db_intents db)"
    by (rule sql_count_mono) (simp add: in_status_def)
  moreover have "sql_count (\<lambda>x. di_ID x = i) (db_intents db) \<le> 1"
    using assms(1) by (intro sql_count_key_le_1) (simp add: db_wf_def)
  ultimately show ?thesis by linarith
qed

lemma requeue_transient_status:
  "intent_status db i = Some DS_TransientFailed \<Longrightarrow>
   intent_status (requeue_transient i dbnow db) = (intent_status db)(i := Some DS_Queued)"
  unfolding requeue_transient_def by (rule intent_status_set) (auto simp: in_status_def)

lemma start_attempt_tx_good:
  assumes wf: "db_wf db" and x: "intent_of db (as_IntentID start) = Some x"
    and st: "di_Status x \<in> {DS_Queued, DS_TransientFailed}"
    and un: "\<not> has_unresolved_attempt db (as_IntentID start)"
    and fresh: "\<not> sql_exists (\<lambda>a. da_ID a = uid) (db_attempts db)"
  shows "\<exists>att db'. start_attempt_tx uid now dbnow start db = (Inr (att, di_EffectKey x), db')"
proof -
  let ?i = "as_IntentID start"
  define db1 where "db1 = (if di_Status x = DS_TransientFailed then requeue_transient ?i dbnow db else db)"
  have s: "intent_status db ?i = Some (di_Status x)" by (simp add: intent_status_def x)
  have wf1: "db_wf db1" using wf by (auto simp: db1_def requeue_transient_def intro: db_wf_intent_update)
  have "intent_status db1 ?i = Some DS_Queued"
    using s st requeue_transient_status[of db ?i dbnow] by (auto simp: db1_def)
  from count_in_status[OF wf1 this] have c: "sql_count (in_status ?i DS_Queued) (db_intents db1) = 1" .
  have same': "db_attempts (requeue_transient i t db) = db_attempts db" for i t
    by (simp add: requeue_transient_def)
  then have same: "db_attempts db1 = db_attempts db" by (simp add: db1_def)
  have un1: "\<not> has_unresolved_attempt db1 ?i" using un by (simp add: has_unresolved_attempt_def same)
  show ?thesis
    using st x un1 fresh c
    by (auto simp: start_attempt_tx_def Let_def same same' requeue_transient_def[symmetric] db1_def split: if_splits)
qed

lemma start_attempt_effect:
  assumes wf: "db_wf db" and run: "start_attempt_tx uid now dbnow start db = (Inr (att, key), db')"
  shows "db_attempts db' = db_attempts db @ [att] \<and> da_Status att = DS_Submitting \<and>
    da_IntentID att = as_IntentID start \<and>
    da_AttemptNo att = next_attempt_no (attempts_of_intent db (as_IntentID start)) \<and>
    intent_status db' = (intent_status db)(as_IntentID start := Some DS_Submitting)"
proof -
  let ?i = "as_IntentID start"
  from run obtain x db1 where x: "intent_of db ?i = Some x"
    and db1: "(di_Status x = DS_TransientFailed \<and> db1 = requeue_transient ?i dbnow db) \<or>
         (di_Status x = DS_Queued \<and> db1 = db)"
    and att: "att = new_attempt uid now start (next_attempt_no (attempts_of_intent db ?i)) (di_RequestHash x)"
    and db': "db' = mark_submitting ?i now (db1\<lparr>db_attempts := db_attempts db1 @ [att]\<rparr>)"
    by (rule start_attempt_txD)
  have s: "intent_status db ?i = Some (di_Status x)" by (simp add: intent_status_def x)
  have "intent_status db1 = (intent_status db)(?i := Some DS_Queued)"
    using db1 s requeue_transient_status[of db ?i dbnow] by (auto simp: fun_upd_idem)
  moreover from this have "intent_status (db1\<lparr>db_attempts := db_attempts db1 @ [att]\<rparr>) ?i = Some DS_Queued"
    by simp
  then have "intent_status db' = (intent_status (db1\<lparr>db_attempts := db_attempts db1 @ [att]\<rparr>))(?i := Some DS_Submitting)"
    unfolding db' mark_submitting_def by (rule intent_status_set) (auto simp: in_status_def)
  ultimately have "intent_status db' = (intent_status db)(?i := Some DS_Submitting)" by simp
  moreover have "db_attempts db1 = db_attempts db" using db1 by (auto simp: requeue_transient_def)
  ultimately show ?thesis by (simp add: att new_attempt_def db' mark_submitting_def)
qed

lemma start_refused:
  assumes "intent_status db (as_IntentID start) = Some s" and "s \<notin> {DS_Queued, DS_TransientFailed}"
  shows "isl (fst (StartAttempt uid now dbnow start db))"
proof -
  from assms(1) obtain x where "intent_of db (as_IntentID start) = Some x" "di_Status x = s"
    by (auto simp: intent_status_def)
  with assms(2) show ?thesis by (auto simp: StartAttempt_def start_attempt_tx_def Let_def in_tx_def)
qed

section \<open>Properties\<close>


text \<open> The delivery ledger never leaves a settled status: once an intent is confirmed,
  suppressed, failed for good or cancelled, no operation called as the program calls it
  changes its status.\<close>

theorem settled_intents_are_final:
  assumes "ledger_reachable R db" and "as_called R db op"
    and "intent_status db i = Some s" and "s \<in> settled"
  shows "intent_status (run_op op db) i = Some s"
proof -
  have "sound_write R db (run_op op db)"
    using ledger_reachable_ok[OF assms(1)] assms(2) by (intro run_op_sound) auto
  then show ?thesis
    using settled_steps[of R "ledger_view_of db" "ledger_view_of (run_op op db)" i s] assms(3,4)
    by (simp add: sound_write_def)
qed

text \<open>C17. Refinement: every operation of the repositories, called as the program calls it on
  well-formed tables, keeps the keys and indexes and makes only moves of the abstract
  ledger.\<close>

theorem operations_refine_the_ledger:
  assumes "db_wf db" and "as_called R db op"
  shows "db_wf (run_op op db) \<and>
    (ledger_step R)\<^sup>*\<^sup>* (ledger_view_of db) (ledger_view_of (run_op op db))"
  using run_op_sound[OF assms] by (simp add: sound_write_def)

text \<open> In every reachable database an effect key names one intent, an intent has at most one
  queue row and one attempt per number, and attempts and queue rows belong to intents that
  exist.\<close>

theorem ledger_keys_unique:
  assumes "ledger_reachable R db"
  shows "(\<forall>i \<in> set (db_intents db). \<forall>j \<in> set (db_intents db). di_EffectKey i = di_EffectKey j \<longrightarrow> i = j) \<and>
    (\<forall>i. sql_count (\<lambda>q. q_DeliveryIntentID q = Some i) (db_queue db) \<le> 1) \<and>
    (\<forall>a \<in> set (db_attempts db). \<forall>b \<in> set (db_attempts db).
       da_IntentID a = da_IntentID b \<and> da_AttemptNo a = da_AttemptNo b \<longrightarrow> a = b) \<and>
    (\<forall>a \<in> set (db_attempts db). intent_of db (da_IntentID a) \<noteq> None) \<and>
    (\<forall>q \<in> set (db_queue db). \<forall>i. q_DeliveryIntentID q = Some i \<longrightarrow> intent_of db i \<noteq> None)"
proof -
  have wf: "db_wf db" using ledger_reachable_ok[OF assms] by blast
  have "i = j" if "i \<in> set (db_intents db)" "j \<in> set (db_intents db)" "di_EffectKey i = di_EffectKey j" for i j
    using wf that unique_rowD[of di_EffectKey "db_intents db" i j] by (simp add: db_wf_def)
  moreover have "sql_count (\<lambda>q. q_DeliveryIntentID q = Some i) (db_queue db) \<le> 1" for i
    using wf queue_intent_unique by (simp add: db_wf_def)
  moreover have "a = b" if "a \<in> set (db_attempts db)" "b \<in> set (db_attempts db)"
      "da_IntentID a = da_IntentID b" "da_AttemptNo a = da_AttemptNo b" for a b
    using wf that unique_rowD[of "\<lambda>a. (da_IntentID a, da_AttemptNo a)" "db_attempts db" a b]
    by (simp add: db_wf_def)
  moreover have "intent_of db (da_IntentID a) \<noteq> None" if "a \<in> set (db_attempts db)" for a
    using attempt_intent_known[OF wf that] by (auto simp: intent_status_def)
  moreover have "intent_of db i \<noteq> None" if "q \<in> set (db_queue db)" "q_DeliveryIntentID q = Some i" for q i
  proof -
    have "i \<in> set (queue_intents (db_queue db))" using that by (auto simp: set_queue_intents)
    then have "i \<in> di_ID ` set (db_intents db)" using wf by (auto simp: db_wf_def)
    then show ?thesis by (auto simp: intent_of_def sql_find_None_iff)
  qed
  ultimately show ?thesis by blast
qed

section \<open>A run\<close>

text \<open>One intent, reserved, queued, claimed and submitted; the first attempt fails for a
  passing reason, the second is accepted and confirmed.\<close>

fun all_called :: "string set \<Rightarrow> delivery_db \<Rightarrow> ledger_op list \<Rightarrow> bool" where
  "all_called R db [] = True"
| "all_called R db (op # ops) = (as_called R db op \<and> all_called R (run_op op db) ops)"

lemma reachable_fold: "ledger_reachable R db \<Longrightarrow> all_called R db ops \<Longrightarrow> ledger_reachable R (fold run_op ops db)"
  by (induction ops arbitrary: db) (auto intro: ledger_reachable.operation)

definition sample_intent :: delivery_intent where
  "sample_intent = \<lparr>di_ID = ''i1'', di_EffectKey = ''k1'', di_RequestHash = ''h1'',
     di_SourceType = ''broadcast'', di_SourceID = ''b1'', di_SourceVersion = ''1'', di_CustomerID = [],
     di_LegacyIdentity = [], di_Channel = ''email'', di_TemplateID = ''tpl'', di_TemplateVersion = 1,
     di_NodeOrPhase = ''n'', di_Occurrence = ''o'', di_Variant = ''v'', di_Status = DS_Other [],
     di_SuppressionReason = [], di_Metadata = [], di_CreatedAt = 0, di_UpdatedAt = 0\<rparr>"

definition sample_start :: "string \<Rightarrow> delivery_attempt_start" where
  "sample_start token = \<lparr>as_IntentID = ''i1'', as_Provider = ''smtp'', as_ClaimToken = token,
     as_LeaseExpiresAt = 0\<rparr>"

definition sample_outcome :: "delivery_status \<Rightarrow> instant option \<Rightarrow> instant \<Rightarrow> delivery_attempt_outcome" where
  "sample_outcome s nr at = \<lparr>ao_Status = s, ao_ProviderMessageID = ''pm'', ao_ErrorCategory = [],
     ao_ErrorCode = [], ao_ErrorDetail = ''e'', ao_NextRetryAt = nr, ao_OccurredAt = at\<rparr>"

definition sample_ops :: "ledger_op list" where
  "sample_ops =
     [Op_ReserveAndEnqueue ''u'' ''u'' 1 1 sample_intent (Some (sample_row ''q1'' 5)),
      Op_Claim ''t1'' 2 2 (\<lambda>_. False) 10 50,
      Op_StartAttempt ''a1'' 3 3 (sample_start ''t1''),
      Op_RecordOutcome 4 4 ''a1'' ''t1'' (sample_outcome DS_TransientFailed (Some 5) 4),
      Op_Claim ''t2'' 6 6 (\<lambda>_. False) 10 50,
      Op_StartAttempt ''a2'' 7 7 (sample_start ''t2''),
      Op_RecordOutcome 8 8 ''a2'' ''t2'' (sample_outcome DS_ProviderAccepted None 8),
      Op_RecordOutcome 9 9 ''a2'' ''t2'' (sample_outcome DS_Confirmed None 9)]"

definition sample_final :: delivery_db where
  "sample_final = fold run_op sample_ops empty_db"

lemma sample_reachable: "ledger_reachable {''a2''} sample_final"
proof -
  have "all_called {''a2''} empty_db sample_ops" by code_simp
  with reachable_fold[OF ledger_reachable.initial] show ?thesis by (simp add: sample_final_def)
qed

lemma sample_final_statuses:
  "map (\<lambda>a. (da_ID a, da_IntentID a, da_Status a)) (db_attempts sample_final) =
     [(''a1'', ''i1'', DS_TransientFailed), (''a2'', ''i1'', DS_Confirmed)]"
  "intent_status sample_final ''i1'' = Some DS_Confirmed"
  "map q_Status (db_queue sample_final) = [QS_Confirmed]"
  by code_simp+


theorem settled_intents_are_final_witness:
  "intent_status (run_op (Op_StartAttempt ''a3'' 20 20 (sample_start ''t3'')) sample_final) ''i1'' =
     Some DS_Confirmed"
  by (rule settled_intents_are_final[OF sample_reachable])
    (simp_all add: sample_final_statuses settled_def)

theorem operations_refine_the_ledger_witness:
  "(ledger_step {''a2''})\<^sup>*\<^sup>* (ledger_view_of sample_final)
     (ledger_view_of (run_op (Op_StartAttempt ''a3'' 20 20 (sample_start ''t3'')) sample_final))"
proof -
  have "db_wf sample_final" by code_simp
  then show ?thesis
    using operations_refine_the_ledger[of sample_final "{''a2''}" "Op_StartAttempt ''a3'' 20 20 (sample_start ''t3'')"]
    by simp
qed

theorem ledger_keys_unique_witness:
  "ledger_reachable {''a2''} sample_final \<and>
   sql_count (\<lambda>q. q_DeliveryIntentID q = Some ''i1'') (db_queue sample_final) \<le> 1"
  using sample_reachable ledger_keys_unique[OF sample_reachable] by blast

text \<open>C10. Starting an attempt of an intent with a fresh attempt id: an unknown intent, one that
  is neither queued nor waiting for a retry, and one with an unresolved attempt are refused
  and nothing changes. Otherwise the intent is submitting, exactly one attempt is added, numbered
  one above the highest number of the intent's attempts, no other intent's status changes,
  and until the outcome is recorded a second start is refused.\<close>

theorem StartAttempt_behaviour:
  assumes "db_wf db" and "as_IntentID start \<noteq> []" and "as_Provider start \<noteq> []" and "as_ClaimToken start \<noteq> []"
    and "\<not> sql_exists (\<lambda>a. da_ID a = uid) (db_attempts db)"
  shows "case intent_of db (as_IntentID start) of
      None \<Rightarrow> StartAttempt uid now dbnow start db = (Inl E_NoRows, db)
    | Some x \<Rightarrow>
        if di_Status x \<notin> {DS_Queued, DS_TransientFailed}
        then StartAttempt uid now dbnow start db = (Inl (E_CannotStart (as_IntentID start) (di_Status x)), db)
        else if has_unresolved_attempt db (as_IntentID start)
        then StartAttempt uid now dbnow start db = (Inl (E_UnresolvedAttempt (as_IntentID start)), db)
        else \<exists>att db'. StartAttempt uid now dbnow start db = (Inr (att, di_EffectKey x), db') \<and>
               db_attempts db' = db_attempts db @ [att] \<and> da_Status att = DS_Submitting \<and>
               da_IntentID att = as_IntentID start \<and>
               da_AttemptNo att = next_attempt_no (attempts_of_intent db (as_IntentID start)) \<and>
               intent_status db' = (intent_status db)(as_IntentID start := Some DS_Submitting) \<and>
               (\<forall>uid2 start2. as_IntentID start2 = as_IntentID start \<longrightarrow>
                  isl (fst (StartAttempt uid2 now2 dbnow2 start2 db')))"
proof (cases "intent_of db (as_IntentID start)")
  case None
  then have "start_attempt_tx uid now dbnow start db = (Inl E_NoRows, db)" by (simp add: start_attempt_tx_def)
  with None assms(2-4) show ?thesis by (simp add: StartAttempt_def)
next
  case (Some x)
  let ?i = "as_IntentID start"
  have i: "di_ID x = ?i" "x \<in> set (db_intents db)" using intent_of_SomeD[OF Some] by auto
  consider (bad) "di_Status x \<notin> {DS_Queued, DS_TransientFailed}"
    | (blocked) "di_Status x \<in> {DS_Queued, DS_TransientFailed}" "has_unresolved_attempt db ?i"
    | (good) "di_Status x \<in> {DS_Queued, DS_TransientFailed}" "\<not> has_unresolved_attempt db ?i"
    by blast
  then show ?thesis
  proof cases
    case bad
    then have "start_attempt_tx uid now dbnow start db = (Inl (E_CannotStart ?i (di_Status x)), db)"
      by (auto simp: start_attempt_tx_def Some Let_def)
    with bad Some assms(2-4) show ?thesis by (simp add: StartAttempt_def)
  next
    case blocked
    then have "\<exists>db1. start_attempt_tx uid now dbnow start db = (Inl (E_UnresolvedAttempt ?i), db1)"
      by (auto simp: start_attempt_tx_def Some Let_def has_unresolved_attempt_def)
    with blocked Some assms(2-4) show ?thesis by (auto simp: StartAttempt_def)
  next
    case good
    obtain att db' where run: "start_attempt_tx uid now dbnow start db = (Inr (att, di_EffectKey x), db')"
      using start_attempt_tx_good[OF assms(1) Some good assms(5)] by blast
    have full: "StartAttempt uid now dbnow start db = (Inr (att, di_EffectKey x), db')"
      using run assms(2-4) by (simp add: StartAttempt_def)
    note eff = start_attempt_effect[OF assms(1) run]
    have "isl (fst (StartAttempt uid2 now2 dbnow2 start2 db'))" if "as_IntentID start2 = ?i" for uid2 start2
      using start_refused[of db' start2 DS_Submitting] eff that by simp
    then show ?thesis using full eff Some good by auto
  qed
qed

definition sample_claimed_intent :: delivery_db where
  "sample_claimed_intent = fold run_op (take 2 sample_ops) empty_db"

theorem StartAttempt_behaviour_witness:
  "\<exists>att db'. StartAttempt ''a1'' 3 3 (sample_start ''t1'') sample_claimed_intent = (Inr (att, ''k1''), db') \<and>
     intent_status db' ''i1'' = Some DS_Submitting \<and>
     isl (fst (StartAttempt ''a9'' 4 4 (sample_start ''t9'') db'))"
proof -
  let ?s = "sample_start ''t1''"
  have wf: "db_wf sample_claimed_intent"
    and f: "as_IntentID ?s \<noteq> []" "as_Provider ?s \<noteq> []" "as_ClaimToken ?s \<noteq> []"
      "\<not> sql_exists (\<lambda>a. da_ID a = ''a1'') (db_attempts sample_claimed_intent)"
    and i: "as_IntentID ?s = ''i1''" "as_IntentID (sample_start ''t9'') = ''i1''" by code_simp+
  have x: "map_option (\<lambda>x. (di_Status x, di_EffectKey x)) (intent_of sample_claimed_intent ''i1'') =
      Some (DS_Queued, ''k1'')"
    and u: "\<not> has_unresolved_attempt sample_claimed_intent ''i1''" by code_simp+
  from x obtain x where "intent_of sample_claimed_intent ''i1'' = Some x" "di_Status x = DS_Queued"
    "di_EffectKey x = ''k1''" by blast
  then show ?thesis
    using StartAttempt_behaviour[OF wf f, of 3 3 4 4] u i by fastforce
qed

end
