(* ===== verification/Ledger_Properties.thy ===== *)
theory Ledger_Properties
  imports Ledger_Runs
begin

text \<open>
  What single operations of the delivery ledger do: reservations are idempotent per effect key,
  an outcome moves attempt, intent and queue row together or not at all, receipts are
  idempotent, and the places where two components' expectations of a status do not meet.
\<close>

section \<open>Reservation\<close>

text \<open>C18. Reserving is idempotent: after an intent was reserved, the intent is found under its
  effect key, and reserving any acceptable intent of the same effect key returns the stored
  one without creating anything if the request hash is the same, and is refused as a conflict
  otherwise; nothing changes either way.\<close>

theorem ReserveIntent_idempotent:
  assumes "db_wf db" and "ReserveIntent uid t i db = (Inr (stored, created), db1)"
    and "di_EffectKey j = di_EffectKey i" and "di_RequestHash j \<noteq> []"
    and "di_Status (reserve_defaults uid2 j) \<in> {DS_Reserved, DS_Suppressed, DS_Deferred}"
    and "intent_row_ok (reserve_defaults uid2 j)"
  shows "GetIntentByEffectKey (di_EffectKey i) db1 = Some stored \<and>
    ReserveIntent uid2 t2 j db1 =
      (if di_RequestHash stored = di_RequestHash j then (Inr (stored, False), db1)
       else (Inl E_HashConflict, db1))"
proof -
  have run: "reserveDeliveryIntentTx uid t i db = (Inr (stored, created), db1)"
    using assms(2) by (auto simp: ReserveIntent_def dest: in_tx_InrD)
  have nonempty: "di_EffectKey i \<noteq> []" using run by (auto simp: reserveDeliveryIntentTx_def split: if_splits)
  have wf1: "db_wf db1" using reserve_sound[OF assms(1) run] by (auto simp: sound_write_def)
  have "stored \<in> set (db_intents db1) \<and> di_EffectKey stored = di_EffectKey i"
    using run by (cases rule: reserve_cases) auto
  then have found: "intent_by_key db1 (di_EffectKey i) = Some stored"
    using wf1 sql_find_unique[of di_EffectKey "db_intents db1" stored]
    by (simp add: intent_by_key_def db_wf_def)
  have keep: "di_EffectKey (reserve_defaults uid2 j) = di_EffectKey i"
    "di_RequestHash (reserve_defaults uid2 j) = di_RequestHash j"
    by (simp_all add: reserve_defaults_def Let_def assms(3))
  have "reserveDeliveryIntentTx uid2 t2 j db1 =
      (if di_RequestHash stored = di_RequestHash j then (Inr (stored, False), db1)
       else (Inl E_HashConflict, db1))"
    using assms(3-6) nonempty found
    by (auto simp: reserveDeliveryIntentTx_def Let_def keep)
  then show ?thesis using found by (simp add: ReserveIntent_def in_tx_def GetIntentByEffectKey_def)
qed

theorem ReserveIntent_idempotent_witness:
  "\<exists>stored db1. ReserveIntent ''u'' 1 sample_intent empty_db = (Inr (stored, True), db1) \<and>
     ReserveIntent ''w'' 2 (sample_intent\<lparr>di_ID := ''zz''\<rparr>) db1 = (Inr (stored, False), db1) \<and>
     GetIntentByEffectKey ''k1'' db1 = Some stored"
proof -
  let ?row = "sample_intent\<lparr>di_Status := DS_Reserved, di_CreatedAt := 1, di_UpdatedAt := 1\<rparr>"
  let ?db1 = "empty_db\<lparr>db_intents := [?row]\<rparr>"
  let ?j = "sample_intent\<lparr>di_ID := ''zz''\<rparr>"
  have r: "ReserveIntent ''u'' 1 sample_intent empty_db = (Inr (?row, True), ?db1)" by code_simp
  have h: "di_EffectKey ?j = di_EffectKey sample_intent" "di_RequestHash ?j \<noteq> []"
    "di_Status (reserve_defaults ''w'' ?j) \<in> {DS_Reserved, DS_Suppressed, DS_Deferred}"
    "intent_row_ok (reserve_defaults ''w'' ?j)" "di_EffectKey sample_intent = ''k1''"
    "di_RequestHash ?row = di_RequestHash ?j" by code_simp+
  show ?thesis
    using ReserveIntent_idempotent[OF db_wf_empty r h(1-4), of 2] r h(5,6) by auto
qed

section \<open>Outcomes\<close>

definition queue_status_after :: "delivery_status \<Rightarrow> email_queue_status option" where
  "queue_status_after s =
     (case s of DS_Confirmed \<Rightarrow> Some QS_Confirmed | DS_TransientFailed \<Rightarrow> Some QS_Failed
      | DS_TerminalFailed \<Rightarrow> Some QS_Failed | DS_Unknown \<Rightarrow> Some QS_Failed | _ \<Rightarrow> None)"

lemma outcome_queue_row:
  "outcome_queue out at = Some f \<Longrightarrow>
   Some (q_Status (f q)) = queue_status_after (ao_Status out) \<and> q_ClaimToken (f q) = None \<and>
   q_LeaseExpiresAt (f q) = None \<and>
   (q_NextRetryAt (f q) \<noteq> None \<and> ao_Status out \<noteq> DS_Confirmed \<longrightarrow> ao_Status out = DS_TransientFailed)"
  by (auto simp: outcome_queue_def queue_status_after_def complete_row_def fail_row_def split: delivery_status.splits)

lemma outcome_queue_None_iff:
  "ao_Status out \<in> set outcome_statuses \<Longrightarrow> outcome_queue out at = None \<longleftrightarrow> ao_Status out = DS_ProviderAccepted"
  by (auto simp: outcome_queue_def outcome_statuses_def)


definition sample_submitting :: delivery_db where
  "sample_submitting = fold run_op (take 3 sample_ops) empty_db"


end
