(* ===== verification/Circuit_Breaker.thy ===== *)
theory Circuit_Breaker
  imports Email_Error
begin

text \<open>
  \<open>internal/service/queue/circuit_breaker.go\<close>: one breaker per e-mail integration. A
  breaker opens after \<open>threshold\<close> provider failures, closes on a success, and resets
  itself when it is probed after the cooldown. The clock is an argument of the operations
  that read it. \<open>IsOpen\<close> drops its read lock before it takes the write lock, so besides
  the sequential function there is a step relation in which other goroutines run between
  its sections.
\<close>

section \<open>One breaker\<close>

record circuit_breaker =
  cb_failures :: int
  cb_threshold :: int
  cb_cooldownPeriod :: duration
  cb_lastFailure :: instant
  cb_lastError :: "classified_error option"
  cb_isOpen :: bool

definition NewCircuitBreaker :: "int \<Rightarrow> duration \<Rightarrow> circuit_breaker" where
  "NewCircuitBreaker threshold cooldownPeriod =
     \<lparr>cb_failures = 0, cb_threshold = threshold, cb_cooldownPeriod = cooldownPeriod,
      cb_lastFailure = zero_time, cb_lastError = None, cb_isOpen = False\<rparr>"

text \<open>\<open>time.Since(cb.lastFailure) > cb.cooldownPeriod\<close>\<close>

definition cooldown_passed :: "instant \<Rightarrow> circuit_breaker \<Rightarrow> bool" where
  "cooldown_passed now cb = (time_sub now (cb_lastFailure cb) > cb_cooldownPeriod cb)"

text \<open>The section under the write lock, with its second check.\<close>

definition IsOpen_reset :: "instant \<Rightarrow> circuit_breaker \<Rightarrow> circuit_breaker" where
  "IsOpen_reset now cb =
     (if cb_isOpen cb \<and> cooldown_passed now cb
      then cb\<lparr>cb_isOpen := False, cb_failures := 0, cb_lastError := None\<rparr> else cb)"

definition IsOpen :: "instant \<Rightarrow> circuit_breaker \<Rightarrow> bool \<times> circuit_breaker" where
  "IsOpen now cb =
     (if \<not> cb_isOpen cb then (False, cb)
      else if cooldown_passed now cb
      then (let cb' = IsOpen_reset now cb in (cb_isOpen cb', cb'))
      else (cb_isOpen cb, cb))"

definition RecordSuccess :: "circuit_breaker \<Rightarrow> circuit_breaker" where
  "RecordSuccess cb = cb\<lparr>cb_failures := 0, cb_lastError := None, cb_isOpen := False\<rparr>"

definition RecordFailure ::
  "instant \<Rightarrow> classified_error option \<Rightarrow> circuit_breaker \<Rightarrow> circuit_breaker" where
  "RecordFailure now err cb =
     (let cb' = cb\<lparr>cb_failures := wrap64 (cb_failures cb + 1), cb_lastFailure := now,
                   cb_lastError := err\<rparr>
      in if cb_failures cb' \<ge> cb_threshold cb' then cb'\<lparr>cb_isOpen := True\<rparr> else cb')"

definition GetLastError :: "circuit_breaker \<Rightarrow> classified_error option" where
  "GetLastError cb = cb_lastError cb"

definition GetFailures :: "circuit_breaker \<Rightarrow> int" where
  "GetFailures cb = cb_failures cb"

lemmas breaker_defs =
  NewCircuitBreaker_def IsOpen_def IsOpen_reset_def cooldown_passed_def RecordSuccess_def
  RecordFailure_def Let_def

section \<open>What a failure gate promises\<close>

text \<open>
  The abstract gate remembers the times of the failures since the last success or reset,
  latest first. It is open while there are at least \<open>th\<close> of them; a probe after the
  cooldown since the latest one forgets them.
\<close>

datatype gate_op = Probe instant | Failed instant "classified_error option" | Succeeded

fun spec_probe :: "int \<Rightarrow> duration \<Rightarrow> instant \<Rightarrow> instant list \<Rightarrow> bool \<times> instant list" where
  "spec_probe th cd t [] = (False, [])"
| "spec_probe th cd t (u # h) =
     (if int (length (u # h)) < th then (False, u # h)
      else if time_sub t u > cd then (False, [])
      else (True, u # h))"

fun spec_run :: "int \<Rightarrow> duration \<Rightarrow> gate_op list \<Rightarrow> instant list \<Rightarrow> bool list \<times> instant list" where
  "spec_run th cd [] h = ([], h)"
| "spec_run th cd (Probe t # ops) h =
     (let (b, h') = spec_probe th cd t h; (bs, h'') = spec_run th cd ops h' in (b # bs, h''))"
| "spec_run th cd (Failed t e # ops) h = spec_run th cd ops (t # h)"
| "spec_run th cd (Succeeded # ops) h = spec_run th cd ops []"

fun gate_run ::
  "(instant \<Rightarrow> 'g \<Rightarrow> bool \<times> 'g) \<Rightarrow> (instant \<Rightarrow> classified_error option \<Rightarrow> 'g \<Rightarrow> 'g) \<Rightarrow> ('g \<Rightarrow> 'g) \<Rightarrow>
   gate_op list \<Rightarrow> 'g \<Rightarrow> bool list \<times> 'g" where
  "gate_run probe failed succeeded [] g = ([], g)"
| "gate_run probe failed succeeded (Probe t # ops) g =
     (let (b, g') = probe t g; (bs, g'') = gate_run probe failed succeeded ops g'
      in (b # bs, g''))"
| "gate_run probe failed succeeded (Failed t e # ops) g =
     gate_run probe failed succeeded ops (failed t e g)"
| "gate_run probe failed succeeded (Succeeded # ops) g =
     gate_run probe failed succeeded ops (succeeded g)"

locale failure_gate =
  fixes probe :: "instant \<Rightarrow> 'g \<Rightarrow> bool \<times> 'g"
    and failed :: "instant \<Rightarrow> classified_error option \<Rightarrow> 'g \<Rightarrow> 'g"
    and succeeded :: "'g \<Rightarrow> 'g"
    and thr :: "'g \<Rightarrow> int"
    and cool :: "'g \<Rightarrow> duration"
    and rel :: "instant list \<Rightarrow> 'g \<Rightarrow> bool"
  assumes rel_failed: "rel h g \<Longrightarrow> rel (t # h) (failed t e g)"
    and rel_succeeded: "rel h g \<Longrightarrow> rel [] (succeeded g)"
    and rel_probe: "rel h g \<Longrightarrow> rel (snd (spec_probe (thr g) (cool g) t h)) (snd (probe t g))"
    and probe_answer: "rel h g \<Longrightarrow> fst (probe t g) = fst (spec_probe (thr g) (cool g) t h)"
    and config_failed: "thr (failed t e g) = thr g" "cool (failed t e g) = cool g"
    and config_succeeded: "thr (succeeded g) = thr g" "cool (succeeded g) = cool g"
    and config_probe: "thr (snd (probe t g)) = thr g" "cool (snd (probe t g)) = cool g"
begin

lemma run_refines:
  assumes "rel h g"
  shows "fst (gate_run probe failed succeeded ops g) = fst (spec_run (thr g) (cool g) ops h) \<and>
         rel (snd (spec_run (thr g) (cool g) ops h)) (snd (gate_run probe failed succeeded ops g))"
  using assms
proof (induction ops arbitrary: h g)
  case Nil
  then show ?case by simp
next
  case (Cons op ops)
  show ?case
  proof (cases op)
    case (Probe t)
    obtain b g' where p: "probe t g = (b, g')" by fastforce
    obtain b' h' where s: "spec_probe (thr g) (cool g) t h = (b', h')" by fastforce
    have "rel h' g'" "b = b'" "thr g' = thr g" "cool g' = cool g"
      using rel_probe[OF Cons.prems, of t] probe_answer[OF Cons.prems, of t] config_probe[of t g]
      by (simp_all add: p s)
    with Cons.IH[of h' g'] show ?thesis
      by (auto simp: Probe p s Let_def split: prod.splits)
  next
    case (Failed t e)
    with Cons.IH[OF rel_failed[OF Cons.prems, of t e]] show ?thesis by (simp add: config_failed)
  next
    case Succeeded
    with Cons.IH[OF rel_succeeded[OF Cons.prems]] show ?thesis by (simp add: config_succeeded)
  qed
qed

text \<open>A client that stays away while the gate is open: after the threshold is reached the
  gate answers open to every probe within the cooldown of the latest failure.\<close>

lemma stays_open:
  assumes "rel (u # h) g" and "int (length (u # h)) \<ge> thr g" and "time_sub t u \<le> cool g"
  shows "fst (probe t g)"
  using probe_answer[OF assms(1), of t] assms(2,3) by simp

end

text \<open>
  The code's breaker keeps a counter and a flag instead of the list. The counter wraps
  after \<open>2 ^ 63\<close> failures, but the flag is sticky and the counter passes the threshold
  before it wraps.
\<close>

definition cb_rel :: "instant list \<Rightarrow> circuit_breaker \<Rightarrow> bool" where
  "cb_rel h cb \<longleftrightarrow>
     0 < cb_threshold cb \<and> in_int64 (cb_threshold cb) \<and>
     cb_failures cb = wrap64 (int (length h)) \<and>
     (cb_isOpen cb \<longleftrightarrow> int (length h) \<ge> cb_threshold cb) \<and>
     (h \<noteq> [] \<longrightarrow> cb_lastFailure cb = hd h)"

lemma wrap64_add_wrap64: "wrap64 (wrap64 x + y) = wrap64 (x + y)"
proof -
  have "wrap64 x + y + 2 ^ 63 = (x + 2 ^ 63) mod 2 ^ 64 + y"
    by (simp add: wrap64_def)
  then have "(wrap64 x + y + 2 ^ 63) mod 2 ^ 64 = (x + 2 ^ 63 + y) mod 2 ^ 64"
    by (simp only: mod_add_left_eq)
  then show ?thesis
    unfolding wrap64_def[of "wrap64 x + y"] wrap64_def[of "x + y"] by (simp add: ac_simps)
qed

lemma cb_rel_failed: "cb_rel h cb \<Longrightarrow> cb_rel (t # h) (RecordFailure t e cb)"
proof -
  assume r: "cb_rel h cb"
  have w: "wrap64 (cb_failures cb + 1) = wrap64 (int (length (t # h)))"
    using r wrap64_add_wrap64[of "int (length h)" 1] by (simp add: cb_rel_def add.commute)
  have small: "int (length (t # h)) \<le> cb_threshold cb \<Longrightarrow>
      wrap64 (int (length (t # h))) = int (length (t # h))"
    using r by (intro wrap64_id) (auto simp: cb_rel_def in_int64_def)
  show ?thesis
    using r w small by (auto simp: cb_rel_def RecordFailure_def Let_def)
qed

interpretation cb: failure_gate IsOpen RecordFailure RecordSuccess
    cb_threshold cb_cooldownPeriod cb_rel
proof unfold_locales
  fix h g t e
  assume r: "cb_rel h g"
  show "cb_rel (t # h) (RecordFailure t e g)" by (rule cb_rel_failed[OF r])
  show "cb_rel [] (RecordSuccess g)"
    using r by (auto simp: cb_rel_def RecordSuccess_def wrap64_def)
  show "cb_rel (snd (spec_probe (cb_threshold g) (cb_cooldownPeriod g) t h)) (snd (IsOpen t g))"
    using r by (cases h) (auto simp: cb_rel_def IsOpen_def IsOpen_reset_def cooldown_passed_def
        Let_def wrap64_def)
  show "fst (IsOpen t g) = fst (spec_probe (cb_threshold g) (cb_cooldownPeriod g) t h)"
    using r by (cases h) (auto simp: cb_rel_def IsOpen_def IsOpen_reset_def cooldown_passed_def
        Let_def)
qed (auto simp: RecordFailure_def RecordSuccess_def IsOpen_def IsOpen_reset_def Let_def)

lemma cb_rel_new: "0 < th \<Longrightarrow> in_int64 th \<Longrightarrow> cb_rel [] (NewCircuitBreaker th cd)"
  by (simp add: cb_rel_def NewCircuitBreaker_def wrap64_def)

text \<open>C20. Over every sequence of probes, failures and successes, a new breaker with a
  positive threshold answers exactly as the abstract gate: open iff at least \<open>threshold\<close>
  failures were recorded since the last success or reset and the cooldown since the latest
  one has not passed. In particular the wrap-around of the failure counter is invisible.\<close>

theorem breaker_refines_gate:
  assumes "0 < th" and "in_int64 th"
  shows "fst (gate_run IsOpen RecordFailure RecordSuccess ops (NewCircuitBreaker th cd)) =
         fst (spec_run th cd ops [])"
proof -
  have c: "cb_threshold (NewCircuitBreaker th cd) = th"
    "cb_cooldownPeriod (NewCircuitBreaker th cd) = cd"
    by (simp_all add: NewCircuitBreaker_def)
  show ?thesis using cb.run_refines[OF cb_rel_new[OF assms, of cd], of ops] unfolding c by blast
qed

theorem breaker_refines_gate_witness:
  "fst (gate_run IsOpen RecordFailure RecordSuccess
          [Failed 10 None, Probe 11, Failed 12 None, Probe 13, Probe 73] (NewCircuitBreaker 2 60)) =
   [False, True, False]"
proof -
  have h: "(0::int) < 2" "in_int64 2" by (simp_all add: in_int64_def)
  have "fst (spec_run 2 60 [Failed 10 None, Probe 11, Failed 12 None, Probe 13, Probe 73] []) =
      [False, True, False]"
    by (simp add: time_sub_def Let_def)
  then show ?thesis unfolding breaker_refines_gate[OF h] .
qed


section \<open>Goroutines between the sections of \<open>IsOpen\<close>\<close>

text \<open>
  A goroutine in \<open>IsOpen\<close> is idle, about to take the write lock, about to take the read
  lock again, or done with an answer. The state is the breaker, the clock and where each
  goroutine is. A label says what the step was.
\<close>

datatype probe_pc = Idle | WantReset | WantReturn | Answered bool

record breaker_sys =
  bs_cb :: circuit_breaker
  bs_now :: instant
  bs_pc :: "nat \<Rightarrow> probe_pc"

datatype breaker_label = LTick | LFailure | LSuccess | LProbe nat

inductive breaker_step :: "breaker_label \<Rightarrow> breaker_sys \<Rightarrow> breaker_sys \<Rightarrow> bool" where
  tick: "bs_now s \<le> t \<Longrightarrow> breaker_step LTick s (s\<lparr>bs_now := t\<rparr>)"
| failure: "breaker_step LFailure s (s\<lparr>bs_cb := RecordFailure (bs_now s) e (bs_cb s)\<rparr>)"
| success: "breaker_step LSuccess s (s\<lparr>bs_cb := RecordSuccess (bs_cb s)\<rparr>)"
| call: "breaker_step (LProbe i) s (s\<lparr>bs_pc := (bs_pc s)(i := Idle)\<rparr>)"
    if "bs_pc s i = Answered b"
| read_closed: "breaker_step (LProbe i) s (s\<lparr>bs_pc := (bs_pc s)(i := Answered False)\<rparr>)"
    if "bs_pc s i = Idle" "\<not> cb_isOpen (bs_cb s)"
| read_cooling: "breaker_step (LProbe i) s (s\<lparr>bs_pc := (bs_pc s)(i := Answered True)\<rparr>)"
    if "bs_pc s i = Idle" "cb_isOpen (bs_cb s)" "\<not> cooldown_passed (bs_now s) (bs_cb s)"
| read_elapsed: "breaker_step (LProbe i) s (s\<lparr>bs_pc := (bs_pc s)(i := WantReset)\<rparr>)"
    if "bs_pc s i = Idle" "cb_isOpen (bs_cb s)" "cooldown_passed (bs_now s) (bs_cb s)"
| write_reset: "breaker_step (LProbe i) s
      (s\<lparr>bs_cb := IsOpen_reset (bs_now s) (bs_cb s), bs_pc := (bs_pc s)(i := WantReturn)\<rparr>)"
    if "bs_pc s i = WantReset"
| read_return: "breaker_step (LProbe i) s
      (s\<lparr>bs_pc := (bs_pc s)(i := Answered (cb_isOpen (bs_cb s)))\<rparr>)"
    if "bs_pc s i = WantReturn"

inductive_cases breaker_probeE: "breaker_step (LProbe i) s s'"

inductive breaker_steps :: "breaker_sys \<Rightarrow> breaker_label list \<Rightarrow> breaker_sys \<Rightarrow> bool" where
  stop: "breaker_steps s [] s"
| go: "breaker_step l s s' \<Longrightarrow> breaker_steps s' ls s'' \<Longrightarrow> breaker_steps s (l # ls) s''"

text \<open>One step: only a success, or a reset after the cooldown of the latest failure,
  closes an open breaker, and the latest failure never moves backwards in time.\<close>

lemma breaker_step_close:
  assumes "breaker_step l s s'" and "cb_isOpen (bs_cb s)" and "\<not> cb_isOpen (bs_cb s')"
  shows "l = LSuccess \<or>
    time_sub (bs_now s) (cb_lastFailure (bs_cb s)) > cb_cooldownPeriod (bs_cb s)"
  using assms
  by (cases rule: breaker_step.cases)
     (auto simp: RecordFailure_def IsOpen_reset_def cooldown_passed_def Let_def split: if_splits)

definition clock_ok :: "breaker_sys \<Rightarrow> bool" where
  "clock_ok s \<longleftrightarrow> cb_lastFailure (bs_cb s) \<le> bs_now s"

lemma breaker_step_clock:
  assumes "breaker_step l s s'" and "clock_ok s"
  shows "clock_ok s' \<and> bs_now s \<le> bs_now s' \<and> cb_lastFailure (bs_cb s) \<le> cb_lastFailure (bs_cb s') \<and>
    cb_cooldownPeriod (bs_cb s') = cb_cooldownPeriod (bs_cb s)"
  using assms
  by (cases rule: breaker_step.cases)
     (auto simp: clock_ok_def RecordFailure_def RecordSuccess_def IsOpen_reset_def Let_def)

lemma time_sub_mono: "t \<le> t' \<Longrightarrow> u' \<le> u \<Longrightarrow> time_sub t u \<le> time_sub t' u'"
  by (auto simp: time_sub_def)

lemma breaker_steps_stay_open:
  assumes "breaker_steps s ls s'" and "clock_ok s" and "cb_isOpen (bs_cb s)"
    and "LSuccess \<notin> set ls"
    and "time_sub (bs_now s') (cb_lastFailure (bs_cb s)) \<le> cb_cooldownPeriod (bs_cb s)"
  shows "cb_isOpen (bs_cb s') \<and> bs_now s \<le> bs_now s'"
  using assms
proof (induction rule: breaker_steps.induct)
  case (stop s)
  then show ?case by simp
next
  case (go l s s' ls s'')
  note clk = breaker_step_clock[OF go.hyps(1) go.prems(1)]
  have later: "clock_ok x \<Longrightarrow> breaker_steps x ls s'' \<Longrightarrow> bs_now x \<le> bs_now s''" for x
  proof -
    assume "breaker_steps x ls s''" "clock_ok x"
    then show ?thesis
      by (induction rule: breaker_steps.induct) (use breaker_step_clock in \<open>fastforce+\<close>)
  qed
  have le: "bs_now s' \<le> bs_now s''" using later[of s'] clk go.hyps(2) by blast
  have "cb_isOpen (bs_cb s')"
  proof (rule ccontr)
    assume "\<not> cb_isOpen (bs_cb s')"
    with breaker_step_close[OF go.hyps(1) go.prems(2)] go.prems(3)
    have "time_sub (bs_now s) (cb_lastFailure (bs_cb s)) > cb_cooldownPeriod (bs_cb s)" by auto
    moreover have "time_sub (bs_now s) (cb_lastFailure (bs_cb s)) \<le>
        time_sub (bs_now s'') (cb_lastFailure (bs_cb s))"
      using clk le by (intro time_sub_mono) auto
    ultimately show False using go.prems(4) by linarith
  qed
  moreover have "time_sub (bs_now s'') (cb_lastFailure (bs_cb s')) \<le> cb_cooldownPeriod (bs_cb s')"
    using time_sub_mono[of "bs_now s''" "bs_now s''" "cb_lastFailure (bs_cb s)" "cb_lastFailure (bs_cb s')"]
      clk go.prems(4) by auto
  ultimately show ?case using go.IH clk go.prems(3) le by auto
qed

text \<open>C19. Under every interleaving of probing goroutines with failures and clock ticks, an
  open breaker without a recorded success stays open until the cooldown since the failure
  that was the latest at the start has passed: a goroutine that decided to reset before a
  newer failure cannot erase it, because the write section checks again.\<close>

theorem open_breaker_survives_races:
  assumes "breaker_steps s ls s'" and "cb_lastFailure (bs_cb s) \<le> bs_now s"
    and "cb_isOpen (bs_cb s)" and "LSuccess \<notin> set ls"
    and "time_sub (bs_now s') (cb_lastFailure (bs_cb s)) \<le> cb_cooldownPeriod (bs_cb s)"
  shows "cb_isOpen (bs_cb s')"
  using breaker_steps_stay_open[OF assms(1) _ assms(3-5)] assms(2) by (simp add: clock_ok_def)

text \<open>A goroutine that had seen the cooldown pass runs its write section after a new failure.\<close>

definition race_start :: breaker_sys where
  "race_start =
     \<lparr>bs_cb = \<lparr>cb_failures = 6, cb_threshold = 5, cb_cooldownPeriod = 60, cb_lastFailure = 100,
               cb_lastError = None, cb_isOpen = True\<rparr>,
      bs_now = 101, bs_pc = (\<lambda>i. if i = 0 then WantReset else Idle)\<rparr>"

theorem open_breaker_survives_races_witness:
  "\<exists>s'. breaker_steps race_start [LProbe 0] s' \<and> bs_pc s' 0 = WantReturn \<and> cb_isOpen (bs_cb s')"
proof -
  define s' where "s' = race_start\<lparr>bs_cb := IsOpen_reset (bs_now race_start) (bs_cb race_start),
      bs_pc := (bs_pc race_start)(0 := WantReturn)\<rparr>"
  have "breaker_step (LProbe 0) race_start s'"
    unfolding s'_def by (rule write_reset) (simp add: race_start_def)
  then have st: "breaker_steps race_start [LProbe 0] s'"
    by (auto intro: breaker_steps.intros)
  have "cb_isOpen (bs_cb s')"
    by (rule open_breaker_survives_races[OF st])
       (simp_all add: race_start_def s'_def time_sub_def)
  with st show ?thesis by (auto simp: s'_def)
qed

section \<open>The per-integration manager\<close>

record icb =
  icb_breakers :: "string \<Rightarrow> circuit_breaker option"
  icb_threshold :: int
  icb_cooldownPeriod :: duration

text \<open>\<open>CIRCUIT_BREAKER_COOLDOWN\<close>, as \<open>time.ParseDuration\<close> reads it (None: unset or
  not a duration).\<close>

definition getCircuitBreakerCooldown :: "duration option \<Rightarrow> duration" where
  "getCircuitBreakerCooldown env = (case env of Some d \<Rightarrow> d | None \<Rightarrow> 1 * minute)"

definition DefaultCircuitBreakerConfig :: "duration option \<Rightarrow> int \<times> duration" where
  "DefaultCircuitBreakerConfig env = (5, getCircuitBreakerCooldown env)"

definition NewIntegrationCircuitBreaker :: "duration option \<Rightarrow> int \<Rightarrow> duration \<Rightarrow> icb" where
  "NewIntegrationCircuitBreaker env th cd =
     \<lparr>icb_breakers = (\<lambda>_. None),
      icb_threshold = (if th = 0 then 5 else th),
      icb_cooldownPeriod = (if cd = 0 then getCircuitBreakerCooldown env else cd)\<rparr>"

definition getOrCreateBreaker :: "string \<Rightarrow> icb \<Rightarrow> circuit_breaker \<times> icb" where
  "getOrCreateBreaker k m =
     (case icb_breakers m k of
        Some cb \<Rightarrow> (cb, m)
      | None \<Rightarrow>
          (let cb = NewCircuitBreaker (icb_threshold m) (icb_cooldownPeriod m)
           in (cb, m\<lparr>icb_breakers := (icb_breakers m)(k \<mapsto> cb)\<rparr>)))"

definition icb_IsOpen :: "instant \<Rightarrow> string \<Rightarrow> icb \<Rightarrow> bool \<times> icb" where
  "icb_IsOpen now k m =
     (case icb_breakers m k of
        Some cb \<Rightarrow> (let (b, cb') = IsOpen now cb in (b, m\<lparr>icb_breakers := (icb_breakers m)(k \<mapsto> cb')\<rparr>))
      | None \<Rightarrow> (False, m))"

definition icb_RecordSuccess :: "string \<Rightarrow> icb \<Rightarrow> icb" where
  "icb_RecordSuccess k m =
     (let (cb, m') = getOrCreateBreaker k m
      in m'\<lparr>icb_breakers := (icb_breakers m')(k \<mapsto> RecordSuccess cb)\<rparr>)"

definition icb_RecordFailure ::
  "instant \<Rightarrow> string \<Rightarrow> classified_error option \<Rightarrow> icb \<Rightarrow> bool \<times> icb" where
  "icb_RecordFailure now k err m =
     (if (case err of None \<Rightarrow> True | Some e \<Rightarrow> IsRecipientError e) then (False, m)
      else (let (cb, m') = getOrCreateBreaker k m
            in (True, m'\<lparr>icb_breakers := (icb_breakers m')(k \<mapsto> RecordFailure now err cb)\<rparr>)))"

definition icb_GetLastError :: "string \<Rightarrow> icb \<Rightarrow> classified_error option" where
  "icb_GetLastError k m =
     (case icb_breakers m k of Some cb \<Rightarrow> GetLastError cb | None \<Rightarrow> None)"

definition icb_GetConfig :: "icb \<Rightarrow> int \<times> duration" where
  "icb_GetConfig m = (icb_threshold m, icb_cooldownPeriod m)"

definition icb_Clear :: "icb \<Rightarrow> icb" where
  "icb_Clear m = m\<lparr>icb_breakers := (\<lambda>_. None)\<rparr>"

definition icb_Remove :: "string \<Rightarrow> icb \<Rightarrow> icb" where
  "icb_Remove k m = m\<lparr>icb_breakers := (icb_breakers m)(k := None)\<rparr>"

record breaker_stats =
  st_isOpen :: bool
  st_failures :: int
  st_threshold :: int
  st_lastFailure :: instant
  st_cooldownLeft :: duration

definition breaker_stat :: "instant \<Rightarrow> circuit_breaker \<Rightarrow> breaker_stats" where
  "breaker_stat now cb =
     (let stat = \<lparr>st_isOpen = cb_isOpen cb, st_failures = cb_failures cb,
                  st_threshold = cb_threshold cb, st_lastFailure = zero_time, st_cooldownLeft = 0\<rparr>
      in if cb_lastFailure cb \<noteq> zero_time
         then (let stat1 = stat\<lparr>st_lastFailure := cb_lastFailure cb\<rparr>
               in if cb_isOpen cb
                  then (let left = wrap64 (cb_cooldownPeriod cb - time_sub now (cb_lastFailure cb))
                        in if left > 0 then stat1\<lparr>st_cooldownLeft := left\<rparr> else stat1)
                  else stat1)
         else stat)"

definition icb_GetStats :: "instant \<Rightarrow> icb \<Rightarrow> string \<Rightarrow> breaker_stats option" where
  "icb_GetStats now m k = map_option (breaker_stat now) (icb_breakers m k)"

lemmas icb_defs =
  icb_IsOpen_def icb_RecordSuccess_def icb_RecordFailure_def icb_Clear_def icb_Remove_def
  getOrCreateBreaker_def Let_def

definition icb_open :: "instant \<Rightarrow> string \<Rightarrow> icb \<Rightarrow> bool" where
  "icb_open now k m = fst (icb_IsOpen now k m)"

lemma icb_open_eq:
  "icb_open now k m = (case icb_breakers m k of Some cb \<Rightarrow> fst (IsOpen now cb) | None \<Rightarrow> False)"
  by (auto simp: icb_open_def icb_IsOpen_def split: option.splits prod.splits)

text \<open>What the queue worker does with the manager for one integration, as events.\<close>

datatype icb_event = EvProbe string | EvFail string "classified_error option" | EvOk string

fun icb_event_key :: "icb_event \<Rightarrow> string" where
  "icb_event_key (EvProbe k) = k"
| "icb_event_key (EvFail k _) = k"
| "icb_event_key (EvOk k) = k"

fun icb_apply :: "instant \<times> icb_event \<Rightarrow> icb \<Rightarrow> icb" where
  "icb_apply (t, EvProbe k) m = snd (icb_IsOpen t k m)"
| "icb_apply (t, EvFail k e) m = snd (icb_RecordFailure t k e m)"
| "icb_apply (t, EvOk k) m = icb_RecordSuccess k m"

lemma icb_apply_other:
  "icb_event_key (snd te) \<noteq> k \<Longrightarrow> icb_breakers (icb_apply te m) k = icb_breakers m k"
  by (cases te; cases "snd te")
     (auto simp: icb_defs split: option.splits prod.splits if_splits)

lemma icb_apply_config: "icb_GetConfig (icb_apply te m) = icb_GetConfig m"
  by (cases te; cases "snd te")
     (auto simp: icb_defs icb_GetConfig_def split: option.splits prod.splits if_splits)

text \<open> The manager isolates integrations: whatever happens to the others, the answer for
  an integration is the one it had, and errors classified as the recipient's (or nil) change
  nothing at all, so a stream of bad addresses never opens a circuit.\<close>

theorem integrations_isolated:
  assumes "\<And>te. te \<in> set evs \<Longrightarrow>
      icb_event_key (snd te) \<noteq> k \<or>
      (\<exists>ce. snd te = EvFail k (Some ce) \<and> IsRecipientError ce) \<or> snd te = EvFail k None"
  shows "icb_open now k (fold icb_apply evs m) = icb_open now k m"
proof -
  have "icb_breakers (fold icb_apply evs m) k = icb_breakers m k"
    using assms
  proof (induction evs arbitrary: m)
    case Nil
    then show ?case by simp
  next
    case (Cons te evs)
    obtain t ev where te: "te = (t, ev)" by fastforce
    have "icb_breakers (icb_apply te m) k = icb_breakers m k"
    proof (cases "icb_event_key ev = k")
      case True
      then consider ce where "ev = EvFail k (Some ce)" "IsRecipientError ce" | "ev = EvFail k None"
        using Cons.prems[of te] te by auto
      then show ?thesis by cases (simp_all add: te icb_RecordFailure_def)
    next
      case False
      then show ?thesis using icb_apply_other[of te k m] te by simp
    qed
    moreover have "icb_breakers (fold icb_apply evs (icb_apply te m)) k = icb_breakers (icb_apply te m) k"
      by (rule Cons.IH, rule Cons.prems) simp
    ultimately show ?case by simp
  qed
  then show ?thesis by (simp add: icb_open_eq)
qed

theorem integrations_isolated_witness:
  "icb_open 7 ''a'' (fold icb_apply
      [(1, EvFail ''b'' (Some (mk_classified ''timeout'' ''smtp'' 0 ErrorTypeProvider True))),
       (2, EvFail ''a'' (Some (mk_classified ''no such user'' ''smtp'' 0 ErrorTypeRecipient False)))]
      (NewIntegrationCircuitBreaker None 1 60)) =
   icb_open 7 ''a'' (NewIntegrationCircuitBreaker None 1 60)"
  by (rule integrations_isolated) (auto simp: IsRecipientError_def)

end
