(* ===== verification/Queue_Worker.thy ===== *)
theory Queue_Worker
  imports Ledger_Properties Circuit_Breaker
begin

text \<open>
  The e-mail queue worker, \<open>internal/service/queue/worker.go\<close>: what happens to one claimed
  or fetched queue entry between the claim and the recorded outcome. The worker's state is the
  workspace's database, the circuit breakers, the requests handed to the e-mail service and the
  progress callbacks. What it cannot decide is in \<open>worker_env\<close>: the answers of the e-mail
  service, of the automation and audience repositories and of the rate limiter, which
  repository calls fail for a reason outside the model, and what the other workers, the receipt
  ingestion and the operators do to the database before each repository call. One processing
  reads one clock value. Log lines and metrics are not modelled.
\<close>

section \<open>The workspace\<close>

record email_provider =
  ep_Kind :: email_provider_kind
  ep_RateLimitPerMinute :: int

record integration =
  ig_ID :: string
  ig_Type :: string
  ig_EmailProvider :: email_provider

record workspace =
  wk_ID :: string
  wk_Integrations :: "integration list"

definition GetIntegrationByID :: "workspace \<Rightarrow> string \<Rightarrow> integration option" where
  "GetIntegrationByID wk k = find (\<lambda>ig. ig_ID ig = k) (wk_Integrations wk)"

definition GetIntegrationsByType :: "workspace \<Rightarrow> string \<Rightarrow> integration list" where
  "GetIntegrationsByType wk ty = filter (\<lambda>ig. ig_Type ig = ty) (wk_Integrations wk)"

fun min_rate :: "int \<Rightarrow> integration list \<Rightarrow> int" where
  "min_rate r [] = r"
| "min_rate r (ig # igs) =
     min_rate (if ep_RateLimitPerMinute (ig_EmailProvider ig) < r
               then ep_RateLimitPerMinute (ig_EmailProvider ig) else r) igs"

definition getMinEmailRateLimit :: "workspace \<Rightarrow> int" where
  "getMinEmailRateLimit wk =
     (case GetIntegrationsByType wk ''email'' of
        [] \<Rightarrow> 60
      | ig # igs \<Rightarrow> min_rate (ep_RateLimitPerMinute (ig_EmailProvider ig)) igs)"

section \<open>Configuration\<close>

record worker_config =
  wc_WorkerCount :: int
  wc_PollInterval :: duration
  wc_BatchSize :: int
  wc_MaxRetries :: int
  wc_LeaseDuration :: duration
  wc_CircuitBreakerThreshold :: int
  wc_CircuitBreakerCooldown :: duration

definition DefaultWorkerConfig :: "duration option \<Rightarrow> worker_config" where
  "DefaultWorkerConfig env = \<lparr>wc_WorkerCount = 5, wc_PollInterval = 1 * second, wc_BatchSize = 50,
     wc_MaxRetries = 3, wc_LeaseDuration = 2 * minute, wc_CircuitBreakerThreshold = 5,
     wc_CircuitBreakerCooldown = getCircuitBreakerCooldown env\<rparr>"

text \<open>The breakers a new worker starts with.\<close>

definition worker_breakers :: "duration option \<Rightarrow> worker_config \<Rightarrow> icb" where
  "worker_breakers env config =
     NewIntegrationCircuitBreaker env
       (if wc_CircuitBreakerThreshold config = 0 then 5 else wc_CircuitBreakerThreshold config)
       (if wc_CircuitBreakerCooldown config = 0 then getCircuitBreakerCooldown env
        else wc_CircuitBreakerCooldown config)"

text \<open>75 per cent of what the slowest integration sends in a minute, at least one and at most
  \<open>BatchSize\<close>. Division truncates, which for a result below one makes no difference.\<close>

definition effectiveBatchSize :: "workspace \<Rightarrow> worker_config \<Rightarrow> int" where
  "effectiveBatchSize wk config =
     (let n = wrap64 (getMinEmailRateLimit wk * 45) div 60;
          n = (if n < 1 then 1 else n)
      in if n > wc_BatchSize config then wc_BatchSize config else n)"

section \<open>Requests, answers and errors\<close>

record send_email_request =
  rq_WorkspaceID :: string
  rq_IntegrationID :: string
  rq_MessageID :: string
  rq_FromAddress :: string
  rq_FromName :: string
  rq_To :: string
  rq_Subject :: string
  rq_Content :: string
  rq_Provider :: email_provider
  rq_EmailOptions :: email_options
  rq_IdempotencyKey :: string
  rq_CapturesMessageID :: bool

definition ToSendEmailProviderRequest ::
    "email_queue_payload \<Rightarrow> string \<Rightarrow> string \<Rightarrow> string \<Rightarrow> string \<Rightarrow> email_provider \<Rightarrow> send_email_request" where
  "ToSendEmailProviderRequest p ws integ mid to provider = \<lparr>rq_WorkspaceID = ws,
     rq_IntegrationID = integ, rq_MessageID = mid, rq_FromAddress = p_FromAddress p,
     rq_FromName = p_FromName p, rq_To = to, rq_Subject = p_Subject p, rq_Content = p_HTMLContent p,
     rq_Provider = provider, rq_EmailOptions = p_EmailOptions p, rq_IdempotencyKey = [],
     rq_CapturesMessageID = False\<rparr>"

text \<open>An error as the worker examines it: its text, what \<open>errors.Is\<close> finds in its chain,
  and whether a \<open>net.Error\<close> in the chain reports a timeout.\<close>

record go_error =
  err_text :: string
  err_deadline :: bool
  err_canceled :: bool
  err_net_timeout :: bool

definition plain_error :: "string \<Rightarrow> go_error" where
  "plain_error s = \<lparr>err_text = s, err_deadline = False, err_canceled = False, err_net_timeout = False\<rparr>"

definition uncertain_markers :: "string list" where
  "uncertain_markers = [''connection reset'', ''unexpected eof'', ''broken pipe'',
     ''timeout awaiting response'', ''stream error'']"

definition isUncertainProviderError :: "go_error option \<Rightarrow> bool" where
  "isUncertainProviderError err =
     (case err of
        None \<Rightarrow> False
      | Some e \<Rightarrow>
          if err_deadline e \<or> err_canceled e then True
          else if err_net_timeout e then True
          else containsAny (to_lower (err_text e)) uncertain_markers)"

text \<open>What the e-mail service answers to one request: the plain service returns an error or
  not; the richer one also whether the provider accepted and its message id. Either may write
  the captured Message-ID when the request asks for it.\<close>

datatype send_answer =
    Submitted bool string      \<comment> \<open>\<open>SubmitEmail\<close>: accepted, provider message id\<close>
  | Sent                       \<comment> \<open>\<open>SendEmail\<close> without an error\<close>
  | SendFailed go_error

section \<open>State and environment\<close>

datatype worker_event =
    EmailSent string email_queue_source string string
  | EmailFailed string email_queue_source string string string bool

record worker_state =
  ws_db :: delivery_db
  ws_breakers :: icb
  ws_calls :: "send_email_request list"
  ws_events :: "worker_event list"

datatype repo_call =
    RC_MarkAsProcessing | RC_FailClaim | RC_SetNextRetry | RC_TransitionIntent | RC_CompleteClaim
  | RC_MarkAsSent | RC_MarkAsFailed | RC_Delete | RC_SuppressIntent | RC_StartAttempt
  | RC_RecordAccepted | RC_RecordConfirmed | RC_RecordFailure | RC_HistoryBefore | RC_HistoryAfter
  | RC_Claim | RC_Fetch

record worker_env =
  env_now :: instant
  env_dbnow :: instant
  env_uuid :: string
  env_retry_base :: duration
  env_fault :: "repo_call \<Rightarrow> fault"
  env_others :: "repo_call \<Rightarrow> ledger_op list"
  env_delivery_repo :: bool
  env_rate_wait_ok :: bool
  env_automation :: "(string \<Rightarrow> string + string option) option"
  env_audience :: "(string \<Rightarrow> int \<Rightarrow> string \<Rightarrow> string + bool) option"
  env_answer :: "send_email_request \<Rightarrow> send_answer"
  env_captured :: string
  env_on_sent :: bool
  env_on_failed :: bool

type_synonym 'a worker_op = "worker_state \<Rightarrow> (db_error + 'a) \<times> worker_state"

definition repo_call :: "worker_env \<Rightarrow> repo_call \<Rightarrow> 'a db_op \<Rightarrow> 'a worker_op" where
  "repo_call env c op st =
     (let db = fold run_op (env_others env c) (ws_db st);
          (r, db') = op db
      in case env_fault env c of
           Works \<Rightarrow> (r, st\<lparr>ws_db := db'\<rparr>)
         | Fails \<Rightarrow> (Inl E_Infra, st\<lparr>ws_db := db\<rparr>)
         | Answer_Lost \<Rightarrow> (Inl E_Infra, st\<lparr>ws_db := db'\<rparr>))"

definition emit :: "bool \<Rightarrow> worker_event \<Rightarrow> worker_state \<Rightarrow> worker_state" where
  "emit on ev st = (if on then st\<lparr>ws_events := ws_events st @ [ev]\<rparr> else st)"

section \<open>Message history\<close>

definition at_sign :: char where "at_sign = CHR ''@''"

definition RFCMessageIDValue :: "string \<Rightarrow> string \<Rightarrow> string" where
  "RFCMessageIDValue messageID fromAddress =
     (let after = rev (takeWhile (\<lambda>c. c \<noteq> at_sign) (rev fromAddress));
          host = (if at_sign \<in> set fromAddress \<and> after \<noteq> [] then after else ''notifuse.local'')
      in messageID @ at_sign # host)"

definition ProviderSetsOwnMessageID :: "email_provider_kind \<Rightarrow> bool" where
  "ProviderSetsOwnMessageID k = (k = Mailgun)"

definition ProviderCapturesMessageID :: "email_provider_kind \<Rightarrow> bool" where
  "ProviderCapturesMessageID k = (k = SES)"

definition SESStoredMessageID :: "string \<Rightarrow> string" where
  "SESStoredMessageID s = trim_space s"

definition history_message ::
    "instant \<Rightarrow> queue_entry \<Rightarrow> string \<Rightarrow> go_error option \<Rightarrow> message_row" where
  "history_message now e captured sendErr = \<lparr>m_ID = q_MessageID e, m_ExternalID = None,
     m_SMTPMessageID =
       (if q_SourceType e = Src_Automation \<and> ProviderSetsOwnMessageID (q_ProviderKind e)
        then Some (RFCMessageIDValue (q_MessageID e) (p_FromAddress (q_Payload e)))
        else if q_SourceType e = Src_Automation \<and> ProviderCapturesMessageID (q_ProviderKind e) \<and> captured \<noteq> []
        then Some (SESStoredMessageID captured) else None),
     m_ContactEmail = q_ContactEmail e,
     m_BroadcastID = (if q_SourceType e = Src_Broadcast then Some (q_SourceID e) else None),
     m_AutomationID = (if q_SourceType e = Src_Automation then Some (q_SourceID e) else None),
     m_ListID = (if q_SourceType e = Src_Broadcast \<and> p_ListID (q_Payload e) \<noteq> []
                 then Some (p_ListID (q_Payload e)) else None),
     m_TemplateID = q_TemplateID e, m_TemplateVersion = p_TemplateVersion (q_Payload e),
     m_Channel = ''email'',
     m_StatusInfo = map_option (\<lambda>x. take 255 (err_text x)) sendErr,
     m_MessageData = p_TemplateData (q_Payload e), m_SentAt = q_CreatedAt e, m_DeliveredAt = None,
     m_FailedAt = map_option (\<lambda>_. now) sendErr, m_OpenedAt = None, m_ClickedAt = None,
     m_BouncedAt = None, m_ComplainedAt = None, m_CreatedAt = q_CreatedAt e, m_UpdatedAt = now\<rparr>"

definition upsertMessageHistory ::
    "worker_env \<Rightarrow> repo_call \<Rightarrow> queue_entry \<Rightarrow> string \<Rightarrow> go_error option \<Rightarrow> unit worker_op" where
  "upsertMessageHistory env c e captured sendErr =
     repo_call env c (Upsert (history_message (env_now env) e captured sendErr))"

section \<open>Failures\<close>

definition claim_token :: "queue_entry \<Rightarrow> string" where
  "claim_token e = (case q_ClaimToken e of None \<Rightarrow> [] | Some t \<Rightarrow> t)"

definition claimed_entry :: "queue_entry \<Rightarrow> bool" where
  "claimed_entry e \<longleftrightarrow> claim_token e \<noteq> []"

definition next_retry :: "worker_env \<Rightarrow> queue_entry \<Rightarrow> instant" where
  "next_retry env e = CalculateNextRetryTime (env_retry_base env) (env_now env) (q_Attempts e)"

definition retry_entry :: "worker_env \<Rightarrow> queue_entry \<Rightarrow> string \<Rightarrow> instant option \<Rightarrow> unit worker_op" where
  "retry_entry env e msg nr =
     (if claimed_entry e
      then repo_call env RC_FailClaim (FailClaim (env_dbnow env) (q_ID e) (claim_token e) msg nr)
      else repo_call env RC_MarkAsFailed (MarkAsFailed (env_now env) (q_ID e) msg nr))"

definition handleError ::
    "worker_env \<Rightarrow> workspace \<Rightarrow> queue_entry \<Rightarrow> go_error \<Rightarrow> classified_error option \<Rightarrow> worker_state \<Rightarrow>
     worker_state" where
  "handleError env wk e sendErr classified st =
     (let e = (if claimed_entry e then e else e\<lparr>q_Attempts := q_Attempts e + 1\<rparr>);
          isPermanent = (q_Attempts e \<ge> q_MaxAttempts e \<or>
            (case classified of None \<Rightarrow> False | Some c \<Rightarrow> \<not> ce_retryable c));
          (_, st1) = upsertMessageHistory env RC_HistoryAfter e [] (Some sendErr) st
      in if isPermanent then
           let (_, st2) = (if claimed_entry e
                 then repo_call env RC_FailClaim
                   (FailClaim (env_dbnow env) (q_ID e) (claim_token e) (err_text sendErr) None) st1
                 else repo_call env RC_Delete (Delete (q_ID e)) st1)
           in emit (env_on_failed env)
                (EmailFailed (wk_ID wk) (q_SourceType e) (q_SourceID e) (q_MessageID e) (err_text sendErr) True) st2
         else
           let (_, st2) = retry_entry env e (err_text sendErr) (Some (next_retry env e)) st1
           in emit (env_on_failed env)
                (EmailFailed (wk_ID wk) (q_SourceType e) (q_SourceID e) (q_MessageID e) (err_text sendErr) False) st2)"

fun error_type_text :: "error_type \<Rightarrow> string" where
  "error_type_text ErrorTypeRecipient = ''recipient''"
| "error_type_text ErrorTypeProvider = ''provider''"
| "error_type_text ErrorTypeUnknown = ''unknown''"

fun digits :: "nat \<Rightarrow> string" where
  "digits n = (if n < 10 then [char_of (48 + n)] else digits (n div 10) @ [char_of (48 + n mod 10)])"

definition format_int :: "int \<Rightarrow> string" where
  "format_int x = (if x < 0 then CHR ''-'' # digits (nat (- x)) else digits (nat x))"

definition failure_outcome ::
    "worker_env \<Rightarrow> queue_entry \<Rightarrow> go_error \<Rightarrow> classified_error option \<Rightarrow> bool \<Rightarrow> delivery_attempt_outcome" where
  "failure_outcome env e sendErr classified uncertain =
     (let status = (if uncertain then DS_Unknown
                    else if q_Attempts e \<ge> q_MaxAttempts e \<or>
                         (case classified of None \<Rightarrow> False | Some c \<Rightarrow> \<not> ce_retryable c)
                    then DS_TerminalFailed else DS_TransientFailed)
      in \<lparr>ao_Status = status, ao_ProviderMessageID = [],
          ao_ErrorCategory = (case classified of None \<Rightarrow> ''internal'' | Some c \<Rightarrow> error_type_text (ce_type c)),
          ao_ErrorCode = (case classified of None \<Rightarrow> []
                          | Some c \<Rightarrow> if ce_http_status c \<noteq> 0 then ''http_'' @ format_int (ce_http_status c) else []),
          ao_ErrorDetail = err_text sendErr,
          ao_NextRetryAt = (if status = DS_TransientFailed then Some (next_retry env e) else None),
          ao_OccurredAt = env_now env\<rparr>)"

definition recordDeliveryFailure ::
    "worker_env \<Rightarrow> workspace \<Rightarrow> queue_entry \<Rightarrow> delivery_attempt \<Rightarrow> go_error \<Rightarrow> classified_error option \<Rightarrow>
     bool \<Rightarrow> worker_state \<Rightarrow> worker_state" where
  "recordDeliveryFailure env wk e attempt sendErr classified uncertain st =
     (let out = failure_outcome env e sendErr classified uncertain in
      case repo_call env RC_RecordFailure
          (RecordAttemptOutcome (env_now env) (env_dbnow env) (da_ID attempt) (claim_token e) out) st of
        (Inl _, st1) \<Rightarrow> st1
      | (Inr _, st1) \<Rightarrow>
          let (_, st2) = upsertMessageHistory env RC_HistoryAfter e [] (Some sendErr) st1
          in emit (env_on_failed env)
               (EmailFailed (wk_ID wk) (q_SourceType e) (q_SourceID e) (q_MessageID e) (err_text sendErr)
                  (ao_Status out \<noteq> DS_TransientFailed)) st2)"

section \<open>Before the provider\<close>

definition integration_not_found :: "string \<Rightarrow> go_error" where
  "integration_not_found k = plain_error (''integration not found: '' @ k)"

definition missing_integration ::
    "worker_env \<Rightarrow> workspace \<Rightarrow> queue_entry \<Rightarrow> worker_state \<Rightarrow> worker_state" where
  "missing_integration env wk e st =
     (case (if claimed_entry e then (Inr (), st)
            else repo_call env RC_MarkAsProcessing (MarkAsProcessing (env_dbnow env) (q_ID e)) st) of
        (Inl _, st1) \<Rightarrow> st1
      | (Inr _, st1) \<Rightarrow> handleError env wk e (integration_not_found (q_IntegrationID e)) None st1)"

definition breaker_text :: string where
  "breaker_text = ''provider circuit breaker is open''"

definition defer_open_breaker :: "worker_env \<Rightarrow> queue_entry \<Rightarrow> worker_state \<Rightarrow> worker_state" where
  "defer_open_breaker env e st =
     (let nextRetry = env_now env + snd (icb_GetConfig (ws_breakers st))
      in snd (if claimed_entry e
              then repo_call env RC_FailClaim
                (FailClaim (env_dbnow env) (q_ID e) (claim_token e) breaker_text (Some nextRetry)) st
              else repo_call env RC_SetNextRetry (SetNextRetry (env_dbnow env) (q_ID e) nextRetry) st))"

definition complete_entry :: "worker_env \<Rightarrow> queue_entry \<Rightarrow> unit worker_op" where
  "complete_entry env e =
     (if claimed_entry e
      then repo_call env RC_CompleteClaim (CompleteClaim (q_ID e) (claim_token e) (env_now env))
      else repo_call env RC_MarkAsSent (MarkAsSent (q_ID e)))"

definition delivery_enabled :: "worker_env \<Rightarrow> queue_entry \<Rightarrow> bool" where
  "delivery_enabled env e \<longleftrightarrow> claimed_entry e \<and> env_delivery_repo env \<and> q_DeliveryIntentID e \<noteq> None"

definition intent_id :: "queue_entry \<Rightarrow> string" where
  "intent_id e = (case q_DeliveryIntentID e of None \<Rightarrow> [] | Some i \<Rightarrow> i)"

text \<open>A journey status other than \<open>active\<close> stops the mail; a failed lookup lets it through.\<close>

definition reply_guard_stops :: "worker_env \<Rightarrow> queue_entry \<Rightarrow> bool" where
  "reply_guard_stops env e =
     (case (env_automation env, p_ContactAutomationID (q_Payload e)) of
        (Some lookup, Some ca) \<Rightarrow>
          (case lookup ca of Inr (Some status) \<Rightarrow> status \<noteq> ''active'' | _ \<Rightarrow> False)
      | _ \<Rightarrow> False)"

definition stop_on_reply :: "worker_env \<Rightarrow> queue_entry \<Rightarrow> worker_state \<Rightarrow> worker_state" where
  "stop_on_reply env e st =
     (let st1 = (if delivery_enabled env e
                 then snd (repo_call env RC_TransitionIntent
                   (TransitionIntent (intent_id e) DS_Queued DS_Cancelled (env_now env)) st)
                 else st)
      in snd (complete_entry env e st1))"

definition deferAudienceEligibilityCheck ::
    "worker_env \<Rightarrow> queue_entry \<Rightarrow> string \<Rightarrow> worker_state \<Rightarrow> worker_state" where
  "deferAudienceEligibilityCheck env e cause st =
     snd (retry_entry env e cause (Some (next_retry env e)) st)"

definition audience_reason :: string where
  "audience_reason = ''audience_no_longer_matched''"

definition suppress_for_audience :: "worker_env \<Rightarrow> queue_entry \<Rightarrow> worker_state \<Rightarrow> worker_state" where
  "suppress_for_audience env e st =
     (if delivery_enabled env e then
        (case repo_call env RC_SuppressIntent
            (SuppressIntent (intent_id e) DS_Queued audience_reason (env_now env)) st of
           (Inr True, st1) \<Rightarrow> snd (complete_entry env e st1)
         | (Inr False, st1) \<Rightarrow>
             deferAudienceEligibilityCheck env e ''audience suppression transition was rejected'' st1
         | (Inl _, st1) \<Rightarrow> deferAudienceEligibilityCheck env e ''suppress delivery intent'' st1)
      else snd (complete_entry env e st))"

text \<open>The audience guard: \<open>None\<close> when the entry may go on, otherwise the state it ends in.\<close>

definition audience_guard :: "worker_env \<Rightarrow> queue_entry \<Rightarrow> worker_state \<Rightarrow> worker_state option" where
  "audience_guard env e st =
     (case p_AudienceEligibility (q_Payload e) of
        None \<Rightarrow> None
      | Some el \<Rightarrow>
          (case env_audience env of
             None \<Rightarrow> Some (deferAudienceEligibilityCheck env e ''audience eligibility checker is unavailable'' st)
           | Some check \<Rightarrow>
               (case check (ae_AudienceID el) (ae_AudienceVersion el) (ae_CustomerID el) of
                  Inl err \<Rightarrow> Some (deferAudienceEligibilityCheck env e err st)
                | Inr False \<Rightarrow> Some (suppress_for_audience env e st)
                | Inr True \<Rightarrow> None)))"

section \<open>The provider call\<close>

definition provider_text :: "email_provider_kind \<Rightarrow> string" where
  "provider_text k = (case k of SMTP \<Rightarrow> ''smtp'' | SES \<Rightarrow> ''ses'' | SparkPost \<Rightarrow> ''sparkpost''
     | Postmark \<Rightarrow> ''postmark'' | Mailgun \<Rightarrow> ''mailgun'' | Mailjet \<Rightarrow> ''mailjet''
     | SendGrid \<Rightarrow> ''sendgrid'' | OtherKind s \<Rightarrow> s)"

definition entry_start :: "integration \<Rightarrow> queue_entry \<Rightarrow> delivery_attempt_start" where
  "entry_start ig e =
     \<lparr>as_IntentID = intent_id e, as_Provider = provider_text (ep_Kind (ig_EmailProvider ig)),
      as_ClaimToken = claim_token e,
      as_LeaseExpiresAt = (case q_LeaseExpiresAt e of None \<Rightarrow> zero_time | Some l \<Rightarrow> l)\<rparr>"

definition begin_attempt ::
    "worker_env \<Rightarrow> integration \<Rightarrow> queue_entry \<Rightarrow> (delivery_attempt \<times> string) option worker_op" where
  "begin_attempt env ig e st =
     (if delivery_enabled env e then
        (case repo_call env RC_StartAttempt
            (StartAttempt (env_uuid env) (env_now env) (env_dbnow env) (entry_start ig e)) st of
           (Inl err, st1) \<Rightarrow> (Inl err, st1)
         | (Inr a, st1) \<Rightarrow> (Inr (Some a), st1))
      else (Inr None, st))"

definition build_request ::
    "workspace \<Rightarrow> integration \<Rightarrow> queue_entry \<Rightarrow> (delivery_attempt \<times> string) option \<Rightarrow> send_email_request" where
  "build_request wk ig e attempt =
     (ToSendEmailProviderRequest (q_Payload e) (wk_ID wk) (q_IntegrationID e) (q_MessageID e)
        (q_ContactEmail e) (ig_EmailProvider ig))
     \<lparr>rq_CapturesMessageID := (q_SourceType e = Src_Automation \<and> ProviderCapturesMessageID (q_ProviderKind e)),
      rq_IdempotencyKey := (case attempt of None \<Rightarrow> [] | Some (_, key) \<Rightarrow> key)\<rparr>"

definition history_failed :: go_error where
  "history_failed = plain_error ''failed to upsert message history''"

definition no_acceptance :: go_error where
  "no_acceptance = plain_error ''provider returned without an explicit acceptance''"

text \<open>Recording an acceptance, the message history and the confirmation, each only after the
  one before.\<close>

definition confirm_delivery ::
    "worker_env \<Rightarrow> workspace \<Rightarrow> queue_entry \<Rightarrow> delivery_attempt \<Rightarrow> string \<Rightarrow> worker_state \<Rightarrow> worker_state" where
  "confirm_delivery env wk e attempt pmid st =
     (let outcome = (\<lambda>s. \<lparr>ao_Status = s, ao_ProviderMessageID = pmid, ao_ErrorCategory = [],
            ao_ErrorCode = [], ao_ErrorDetail = [], ao_NextRetryAt = None, ao_OccurredAt = env_now env\<rparr>);
          record = (\<lambda>c s. repo_call env c
            (RecordAttemptOutcome (env_now env) (env_dbnow env) (da_ID attempt) (claim_token e) (outcome s)))
      in case record RC_RecordAccepted DS_ProviderAccepted st of
           (Inl _, st1) \<Rightarrow> st1
         | (Inr _, st1) \<Rightarrow>
             (case upsertMessageHistory env RC_HistoryAfter e pmid None st1 of
                (Inl _, st2) \<Rightarrow> st2
              | (Inr _, st2) \<Rightarrow>
                  (case record RC_RecordConfirmed DS_Confirmed st2 of
                     (Inl _, st3) \<Rightarrow> st3
                   | (Inr _, st3) \<Rightarrow>
                       emit (env_on_sent env)
                         (EmailSent (wk_ID wk) (q_SourceType e) (q_SourceID e) (q_MessageID e)) st3)))"

definition complete_legacy ::
    "worker_env \<Rightarrow> workspace \<Rightarrow> queue_entry \<Rightarrow> string \<Rightarrow> worker_state \<Rightarrow> worker_state" where
  "complete_legacy env wk e captured st =
     (case complete_entry env e st of
        (Inl _, st1) \<Rightarrow> st1
      | (Inr _, st1) \<Rightarrow>
          emit (env_on_sent env) (EmailSent (wk_ID wk) (q_SourceType e) (q_SourceID e) (q_MessageID e))
            (snd (upsertMessageHistory env RC_HistoryAfter e captured None st1)))"

definition send_failed ::
    "worker_env \<Rightarrow> workspace \<Rightarrow> integration \<Rightarrow> queue_entry \<Rightarrow> (delivery_attempt \<times> string) option \<Rightarrow>
     go_error \<Rightarrow> worker_state \<Rightarrow> worker_state" where
  "send_failed env wk ig e attempt err st =
     (let classified = Classify (Some (err_text err)) (ep_Kind (ig_EmailProvider ig));
          st1 = st\<lparr>ws_breakers := snd (icb_RecordFailure (env_now env) (q_IntegrationID e) classified
                                  (ws_breakers st))\<rparr>
      in case attempt of
           Some (a, _) \<Rightarrow>
             recordDeliveryFailure env wk e a err classified (isUncertainProviderError (Some err)) st1
         | None \<Rightarrow> handleError env wk e err classified st1)"

definition send_accepted ::
    "worker_env \<Rightarrow> workspace \<Rightarrow> queue_entry \<Rightarrow> (delivery_attempt \<times> string) option \<Rightarrow> bool \<Rightarrow> string \<Rightarrow>
     string \<Rightarrow> worker_state \<Rightarrow> worker_state" where
  "send_accepted env wk e attempt accepted pmid captured st =
     (case attempt of
        Some (a, _) \<Rightarrow>
          if \<not> accepted then recordDeliveryFailure env wk e a no_acceptance None True st
          else confirm_delivery env wk e a (if pmid = [] then captured else pmid)
                 (st\<lparr>ws_breakers := icb_RecordSuccess (q_IntegrationID e) (ws_breakers st)\<rparr>)
      | None \<Rightarrow>
          complete_legacy env wk e captured
            (st\<lparr>ws_breakers := icb_RecordSuccess (q_IntegrationID e) (ws_breakers st)\<rparr>))"

definition call_provider ::
    "worker_env \<Rightarrow> workspace \<Rightarrow> integration \<Rightarrow> queue_entry \<Rightarrow> (delivery_attempt \<times> string) option \<Rightarrow>
     worker_state \<Rightarrow> worker_state" where
  "call_provider env wk ig e attempt st =
     (let request = build_request wk ig e attempt;
          captured = (if rq_CapturesMessageID request then env_captured env else []);
          st1 = st\<lparr>ws_calls := ws_calls st @ [request]\<rparr>
      in case env_answer env request of
           SendFailed err \<Rightarrow> send_failed env wk ig e attempt err st1
         | Submitted accepted pmid \<Rightarrow> send_accepted env wk e attempt accepted pmid captured st1
         | Sent \<Rightarrow> send_accepted env wk e attempt True captured captured st1)"

definition submit_entry ::
    "worker_env \<Rightarrow> workspace \<Rightarrow> integration \<Rightarrow> queue_entry \<Rightarrow> worker_state \<Rightarrow> worker_state" where
  "submit_entry env wk ig e st =
     (case begin_attempt env ig e st of
        (Inl _, st1) \<Rightarrow> st1
      | (Inr attempt, st1) \<Rightarrow>
          if q_SourceType e = Src_Automation \<and> ProviderSetsOwnMessageID (q_ProviderKind e) then
            (case (upsertMessageHistory env RC_HistoryBefore e [] None st1, attempt) of
               ((Inl _, st2), Some (a, _)) \<Rightarrow> recordDeliveryFailure env wk e a history_failed None False st2
             | ((_, st2), _) \<Rightarrow> call_provider env wk ig e attempt st2)
          else call_provider env wk ig e attempt st1)"

section \<open>One entry, one workspace\<close>

definition processEntry ::
    "worker_env \<Rightarrow> workspace \<Rightarrow> queue_entry \<Rightarrow> worker_state \<Rightarrow> worker_state" where
  "processEntry env wk e st =
     (case GetIntegrationByID wk (q_IntegrationID e) of
        None \<Rightarrow> missing_integration env wk e st
      | Some ig \<Rightarrow>
          let (open, brk) = icb_IsOpen (env_now env) (q_IntegrationID e) (ws_breakers st);
              st0 = st\<lparr>ws_breakers := brk\<rparr>
          in if open then defer_open_breaker env e st0
             else
               (case (if claimed_entry e then (Inr (), st0)
                      else repo_call env RC_MarkAsProcessing (MarkAsProcessing (env_dbnow env) (q_ID e)) st0) of
                  (Inl _, st1) \<Rightarrow> st1
                | (Inr _, st1) \<Rightarrow>
                    if \<not> env_rate_wait_ok env then st1
                    else if reply_guard_stops env e then stop_on_reply env e st1
                    else (case audience_guard env e st1 of
                            Some st2 \<Rightarrow> st2
                          | None \<Rightarrow> submit_entry env wk ig e st1)))"

text \<open>The rate the limiter is asked for.\<close>

definition requested_rate :: "integration \<Rightarrow> int" where
  "requested_rate ig =
     (let r = ep_RateLimitPerMinute (ig_EmailProvider ig) in if r \<le> 0 then 60 else r)"

text \<open>The entries of a batch are processed one after the other, each in its own environment,
  until the worker is stopped.\<close>

fun process_entries ::
    "(worker_env \<times> bool) list \<Rightarrow> workspace \<Rightarrow> queue_entry list \<Rightarrow> worker_state \<Rightarrow> worker_state" where
  "process_entries [] wk es st = st"
| "process_entries (_ # _) wk [] st = st"
| "process_entries ((env, stopped) # envs) wk (e # es) st =
     (if stopped then st else process_entries envs wk es (processEntry env wk e st))"

definition processWorkspace ::
    "worker_env \<Rightarrow> (worker_env \<times> bool) list \<Rightarrow> (string \<Rightarrow> bool) \<Rightarrow> worker_config \<Rightarrow> workspace \<Rightarrow>
     worker_state \<Rightarrow> worker_state" where
  "processWorkspace env envs locked config wk st =
     (let limit = effectiveBatchSize wk config;
          lease = (if wc_LeaseDuration config \<le> 0 then 2 * minute else wc_LeaseDuration config);
          (r, st1) = (if env_delivery_repo env
            then repo_call env RC_Claim
              (ClaimPending (env_uuid env) (env_now env) (env_dbnow env) locked limit lease) st
            else repo_call env RC_Fetch (FetchPending (env_dbnow env) locked limit) st)
      in case r of
           Inl _ \<Rightarrow> st1
         | Inr entries \<Rightarrow> process_entries envs wk entries st1)"

end
