(* ===== verification/Worker_Properties.thy ===== *)
theory Worker_Properties
  imports Queue_Worker
begin

text \<open>
  What the queue worker does to the ledger and to the provider. Processing an entry is a sequence
  of ledger operations called as the ledger requires, so the at-most-once guarantee of
  \<open>Ledger_Runs\<close> holds with the worker in the loop; the provider is called at most once and,
  for an entry with a delivery intent, only under a recorded attempt; and the places where
  the worker's bookkeeping loses an e-mail or a suppression.
\<close>

section \<open>Processing is a sequence of ledger operations\<close>

text \<open>What runs beside the worker during one processing calls the ledger as the program calls
  it, whatever the database is at that point.\<close>

definition others_called :: "string set \<Rightarrow> worker_env \<Rightarrow> bool" where
  "others_called R env \<longleftrightarrow> (\<forall>c. \<forall>op \<in> set (env_others env c). \<forall>db. as_called R db op)"

lemma all_called_any: "(\<forall>op \<in> set ops. \<forall>db. as_called R db op) \<Longrightarrow> all_called R db ops"
  by (induction ops arbitrary: db) auto

lemma others_all_called: "others_called R env \<Longrightarrow> all_called R db (env_others env c)"
  unfolding others_called_def using all_called_any by blast

definition does_ops :: "string set \<Rightarrow> worker_env \<Rightarrow> worker_state \<Rightarrow> worker_state \<Rightarrow> bool" where
  "does_ops R env st st' \<longleftrightarrow> (others_called R env \<longrightarrow>
     (\<exists>ops. all_called R (ws_db st) ops \<and> ws_db st' = fold run_op ops (ws_db st)))"

lemma all_called_append:
  "all_called R db (xs @ ys) \<longleftrightarrow> all_called R db xs \<and> all_called R (fold run_op xs db) ys"
  by (induction xs arbitrary: db) auto

lemma does_opsI:
  "(others_called R env \<Longrightarrow> all_called R (ws_db st) ops) \<Longrightarrow> ws_db st' = fold run_op ops (ws_db st) \<Longrightarrow>
   does_ops R env st st'"
  unfolding does_ops_def by blast

lemma does_ops_refl: "ws_db st' = ws_db st \<Longrightarrow> does_ops R env st st'"
  by (rule does_opsI[of _ _ _ "[]"]) simp_all

lemma does_ops_trans:
  assumes "does_ops R env a b" and "does_ops R env b c"
  shows "does_ops R env a c"
  unfolding does_ops_def
proof
  assume "others_called R env"
  with assms obtain xs ys where "all_called R (ws_db a) xs" "ws_db b = fold run_op xs (ws_db a)"
    "all_called R (ws_db b) ys" "ws_db c = fold run_op ys (ws_db b)"
    unfolding does_ops_def by blast
  then show "\<exists>ops. all_called R (ws_db a) ops \<and> ws_db c = fold run_op ops (ws_db a)"
    by (intro exI[of _ "xs @ ys"]) (simp add: all_called_append)
qed

lemma does_ops_reachable:
  "ledger_reachable R (ws_db st) \<Longrightarrow> does_ops R env st st' \<Longrightarrow> others_called R env \<Longrightarrow>
   ledger_reachable R (ws_db st')"
  unfolding does_ops_def using reachable_fold by auto

lemma repo_call_does:
  assumes "repo_call env c op st = (r, st')" and "\<And>db. run_op o1 db = snd (op db)"
    and "\<And>db. as_called R db o1"
  shows "does_ops R env st st'"
proof -
  let ?db = "fold run_op (env_others env c) (ws_db st)"
  have "ws_db st' = ?db \<or> ws_db st' = run_op o1 ?db"
    using assms(1,2) by (auto simp: repo_call_def Let_def split: prod.splits fault.splits)
  then show ?thesis
  proof
    assume "ws_db st' = ?db"
    then show ?thesis by (intro does_opsI[of _ _ _ "env_others env c"]) (simp_all add: others_all_called)
  next
    assume "ws_db st' = run_op o1 ?db"
    then show ?thesis using assms(3)
      by (intro does_opsI[of _ _ _ "env_others env c @ [o1]"]) (simp_all add: others_all_called all_called_append)
  qed
qed

lemma does_ops_ws [simp]:
  "does_ops R env st (st'\<lparr>ws_breakers := b\<rparr>) = does_ops R env st st'"
  "does_ops R env st (st'\<lparr>ws_calls := cs\<rparr>) = does_ops R env st st'"
  "does_ops R env (st\<lparr>ws_breakers := b\<rparr>) st' = does_ops R env st st'"
  "does_ops R env (st\<lparr>ws_calls := cs\<rparr>) st' = does_ops R env st st'"
  "does_ops R env st (emit on ev st') = does_ops R env st st'"
  by (simp_all add: does_ops_def emit_def)

lemma upsert_does: "upsertMessageHistory env c e cap err st = (r, st') \<Longrightarrow> does_ops R env st st'"
  unfolding upsertMessageHistory_def
  by (rule repo_call_does[where ?o1.0 = "Op_UpsertHistory (history_message (env_now env) e cap err)"]) auto

lemma retry_entry_does: "retry_entry env e msg nr st = (r, st') \<Longrightarrow> does_ops R env st st'"
  unfolding retry_entry_def
  by (auto split: if_splits
      elim: repo_call_does[where ?o1.0 = "Op_FailClaim (env_dbnow env) (q_ID e) (claim_token e) msg nr"]
            repo_call_does[where ?o1.0 = "Op_MarkAsFailed (env_now env) (q_ID e) msg nr"])

lemma complete_entry_does: "complete_entry env e st = (r, st') \<Longrightarrow> does_ops R env st st'"
  unfolding complete_entry_def
  by (auto split: if_splits
      elim: repo_call_does[where ?o1.0 = "Op_CompleteClaim (q_ID e) (claim_token e) (env_now env)"]
            repo_call_does[where ?o1.0 = "Op_MarkAsSent (q_ID e)"])

lemma mark_processing_does:
  "repo_call env RC_MarkAsProcessing (MarkAsProcessing t k) st = (r, st') \<Longrightarrow> does_ops R env st st'"
  by (erule repo_call_does[where ?o1.0 = "Op_MarkAsProcessing t k"]) auto

lemma fail_claim_does:
  "repo_call env c (FailClaim t k token msg nr) st = (r, st') \<Longrightarrow> does_ops R env st st'"
  by (erule repo_call_does[where ?o1.0 = "Op_FailClaim t k token msg nr"]) auto

lemma delete_does: "repo_call env c (Delete k) st = (r, st') \<Longrightarrow> does_ops R env st st'"
  by (erule repo_call_does[where ?o1.0 = "Op_Delete k"]) auto

lemma set_next_retry_does: "repo_call env c (SetNextRetry t k nr) st = (r, st') \<Longrightarrow> does_ops R env st st'"
  by (erule repo_call_does[where ?o1.0 = "Op_SetNextRetry t k nr"]) auto

lemma record_outcome_does:
  "repo_call env c (RecordAttemptOutcome now t aid token out) st = (r, st') \<Longrightarrow>
   (ao_Status out = DS_TransientFailed \<Longrightarrow> aid \<notin> R) \<Longrightarrow> does_ops R env st st'"
  by (erule repo_call_does[where ?o1.0 = "Op_RecordOutcome now t aid token out"]) auto

lemma handleError_does: "does_ops R env st (handleError env wk e err cl st)"
  unfolding handleError_def Let_def
  by (auto split: prod.splits
      intro: does_ops_trans[OF upsert_does fail_claim_does] does_ops_trans[OF upsert_does delete_does]
        does_ops_trans[OF upsert_does retry_entry_does])

lemma recordDeliveryFailure_does:
  assumes "ao_Status (failure_outcome env e err cl unc) = DS_TransientFailed \<Longrightarrow> da_ID a \<notin> R"
  shows "does_ops R env st (recordDeliveryFailure env wk e a err cl unc st)"
  unfolding recordDeliveryFailure_def Let_def using assms
  by (auto split: prod.splits sum.splits intro: record_outcome_does
      does_ops_trans[OF record_outcome_does upsert_does])

lemma missing_integration_does: "does_ops R env st (missing_integration env wk e st)"
  unfolding missing_integration_def
  by (auto split: prod.splits sum.splits if_splits intro: mark_processing_does handleError_does
      does_ops_trans[OF mark_processing_does handleError_does])

lemma defer_open_breaker_does: "does_ops R env st (defer_open_breaker env e st)"
  unfolding defer_open_breaker_def Let_def
  by (auto split: if_splits intro: fail_claim_does[OF prod.collapse[symmetric]]
      set_next_retry_does[OF prod.collapse[symmetric]])

lemma stop_on_reply_does: "does_ops R env st (stop_on_reply env e st)"
proof -
  have "does_ops R env st (snd (repo_call env RC_TransitionIntent
      (TransitionIntent (intent_id e) DS_Queued DS_Cancelled (env_now env)) st))"
    by (rule repo_call_does[OF prod.collapse[symmetric],
          where ?o1.0 = "Op_Transition (intent_id e) DS_Queued DS_Cancelled (env_now env)"])
      (auto simp: status_sets)
  then show ?thesis
    unfolding stop_on_reply_def Let_def
    using does_ops_trans complete_entry_does[OF prod.collapse[symmetric]] by auto
qed

lemma defer_audience_does: "does_ops R env st (deferAudienceEligibilityCheck env e cause st)"
  unfolding deferAudienceEligibilityCheck_def by (rule retry_entry_does[OF prod.collapse[symmetric]])

lemma suppress_for_audience_does: "does_ops R env st (suppress_for_audience env e st)"
proof -
  have s: "does_ops R env st st1" if "repo_call env RC_SuppressIntent
      (SuppressIntent (intent_id e) DS_Queued audience_reason (env_now env)) st = (r, st1)" for r st1
    using that by (rule repo_call_does[where
          ?o1.0 = "Op_Suppress (intent_id e) DS_Queued audience_reason (env_now env)"])
      (auto simp: status_sets)
  have c: "does_ops R env st1 (snd (complete_entry env e st1))" for st1
    by (rule complete_entry_does[OF prod.collapse[symmetric]])
  show ?thesis
    unfolding suppress_for_audience_def
    by (auto split: prod.splits sum.splits bool.splits intro: c defer_audience_does
        does_ops_trans[OF s c] does_ops_trans[OF s defer_audience_does])
qed

lemma audience_guard_does: "audience_guard env e st = Some st' \<Longrightarrow> does_ops R env st st'"
  unfolding audience_guard_def
  by (auto split: option.splits sum.splits bool.splits intro: defer_audience_does suppress_for_audience_does)

lemma begin_attempt_cases:
  assumes "begin_attempt env ig e st = (r, st')"
  obtains "\<not> delivery_enabled env e" and "r = Inr None" and "st' = st"
  | err where "delivery_enabled env e" and "r = Inl err"
      and "repo_call env RC_StartAttempt (StartAttempt (env_uuid env) (env_now env) (env_dbnow env)
             (entry_start ig e)) st = (Inl err, st')"
  | a where "delivery_enabled env e" and "r = Inr (Some a)"
      and "repo_call env RC_StartAttempt (StartAttempt (env_uuid env) (env_now env) (env_dbnow env)
             (entry_start ig e)) st = (Inr a, st')"
  using assms unfolding begin_attempt_def by (auto split: if_splits prod.splits sum.splits)

lemma start_call_does:
  "repo_call env c (StartAttempt u now t start) st = (r, st') \<Longrightarrow> does_ops R env st st'"
  by (erule repo_call_does[where ?o1.0 = "Op_StartAttempt u now t start"]) auto

lemma begin_attempt_does: "begin_attempt env ig e st = (r, st') \<Longrightarrow> does_ops R env st st'"
  by (erule begin_attempt_cases) (auto intro: start_call_does does_ops_refl)

lemma StartAttempt_InrD:
  assumes "StartAttempt uid now t start db = (Inr (a, key), db')"
  shows "start_attempt_tx uid now t start db = (Inr (a, key), db') \<and> da_ID a = uid"
proof -
  have run: "start_attempt_tx uid now t start db = (Inr (a, key), db')"
    using assms by (auto simp: StartAttempt_def split: if_splits dest: in_tx_InrD)
  then show ?thesis by (auto elim!: start_attempt_txD simp: new_attempt_def)
qed

lemma begin_attempt_started:
  assumes "begin_attempt env ig e st = (Inr (Some (a, key)), st')"
  shows "delivery_enabled env e \<and> da_ID a = env_uuid env \<and>
    start_attempt_tx (env_uuid env) (env_now env) (env_dbnow env) (entry_start ig e)
      (fold run_op (env_others env RC_StartAttempt) (ws_db st)) =
      (Inr (a, key), ws_db st') \<and> ws_calls st' = ws_calls st \<and> ws_breakers st' = ws_breakers st"
  using assms
proof (cases rule: begin_attempt_cases)
  case (3 x)
  then have "StartAttempt (env_uuid env) (env_now env) (env_dbnow env) (entry_start ig e)
      (fold run_op (env_others env RC_StartAttempt) (ws_db st)) =
      (Inr (a, key), ws_db st') \<and> ws_calls st' = ws_calls st \<and> ws_breakers st' = ws_breakers st"
    by (auto simp: repo_call_def Let_def split: fault.splits prod.splits)
  with 3(1) StartAttempt_InrD show ?thesis by blast
qed simp_all

lemma confirm_delivery_does: "does_ops R env st (confirm_delivery env wk e a pmid st)"
proof -
  have r: "repo_call env c (RecordAttemptOutcome now t aid token \<lparr>ao_Status = s, ao_ProviderMessageID = pmid,
      ao_ErrorCategory = [], ao_ErrorCode = [], ao_ErrorDetail = [], ao_NextRetryAt = None,
      ao_OccurredAt = now\<rparr>) st = (x, st') \<Longrightarrow> s \<noteq> DS_TransientFailed \<Longrightarrow> does_ops R env st st'"
    for c now t aid token s x st st' by (erule record_outcome_does) simp
  show ?thesis
    unfolding confirm_delivery_def Let_def
    by (auto split: prod.splits sum.splits intro: r does_ops_trans[OF r upsert_does]
        does_ops_trans[OF does_ops_trans[OF r upsert_does] r])
qed

lemma complete_legacy_does: "does_ops R env st (complete_legacy env wk e captured st)"
  unfolding complete_legacy_def
  by (auto split: prod.splits sum.splits intro: complete_entry_does
      does_ops_trans[OF complete_entry_does upsert_does[OF prod.collapse[symmetric]]])

text \<open>What it means for the world to be truthful about an attempt: if its message reached the
  recipient (it is in \<open>R\<close>), then the provider was called - the history row it must write
  first did not fail - and did not answer with an error the worker takes as definite.\<close>

definition answers_truthfully :: "string set \<Rightarrow> worker_env \<Rightarrow> bool" where
  "answers_truthfully R env \<longleftrightarrow>
     (env_uuid env \<in> R \<longrightarrow>
        env_fault env RC_HistoryBefore = Works \<and>
        (\<forall>rq. case env_answer env rq of SendFailed err \<Rightarrow> isUncertainProviderError (Some err) | _ \<Rightarrow> True))"

lemma uncertain_not_transient: "ao_Status (failure_outcome env e err cl True) \<noteq> DS_TransientFailed"
  by (simp add: failure_outcome_def Let_def)

lemma call_provider_does:
  assumes t: "answers_truthfully R env" and a: "\<And>a key. attempt = Some (a, key) \<Longrightarrow> da_ID a = env_uuid env"
  shows "does_ops R env st (call_provider env wk ig e attempt st)"
proof -
  have failed: "does_ops R env st' (send_failed env wk ig e attempt err st')"
    if "env_answer env rq = SendFailed err" for err rq st'
  proof (cases attempt)
    case None
    have "does_ops R env (st'\<lparr>ws_breakers := b\<rparr>) (handleError env wk e err cl (st'\<lparr>ws_breakers := b\<rparr>))" for b cl
      by (rule handleError_does)
    with None show ?thesis by (simp add: send_failed_def Let_def)
  next
    case (Some p)
    obtain a' key where p: "p = (a', key)" by (cases p)
    have "da_ID a' \<notin> R" if "ao_Status (failure_outcome env e err cl (isUncertainProviderError (Some err))) =
        DS_TransientFailed" for cl
    proof -
      have unc: "\<not> isUncertainProviderError (Some err)"
      proof
        assume "isUncertainProviderError (Some err)"
        then have "isUncertainProviderError (Some err) = True" by simp
        with that uncertain_not_transient[of env e err cl] show False by simp
      qed
      have "isUncertainProviderError (Some err)" if "env_uuid env \<in> R"
      proof -
        have "case env_answer env rq of SendFailed err \<Rightarrow> isUncertainProviderError (Some err) | _ \<Rightarrow> True"
          using t that unfolding answers_truthfully_def by blast
        then show ?thesis using \<open>env_answer env rq = SendFailed err\<close> by simp
      qed
      moreover have "da_ID a' = env_uuid env" by (rule a[of a' key]) (simp add: Some p)
      ultimately show ?thesis using unc by auto
    qed
    then have "does_ops R env (st'\<lparr>ws_breakers := b\<rparr>) (recordDeliveryFailure env wk e a' err cl
        (isUncertainProviderError (Some err)) (st'\<lparr>ws_breakers := b\<rparr>))" for b cl
      by (rule recordDeliveryFailure_does)
    with Some p show ?thesis by (simp add: send_failed_def Let_def)
  qed
  have accepted: "does_ops R env st' (send_accepted env wk e attempt ok pmid captured st')" for ok pmid captured st'
  proof (cases attempt)
    case None
    have "does_ops R env (st'\<lparr>ws_breakers := b\<rparr>) (complete_legacy env wk e captured (st'\<lparr>ws_breakers := b\<rparr>))" for b
      by (rule complete_legacy_does)
    with None show ?thesis by (simp add: send_accepted_def)
  next
    case (Some p)
    obtain a' key where p: "p = (a', key)" by (cases p)
    show ?thesis
    proof (cases ok)
      case True
      have "does_ops R env (st'\<lparr>ws_breakers := b\<rparr>) (confirm_delivery env wk e a' x (st'\<lparr>ws_breakers := b\<rparr>))" for b x
        by (rule confirm_delivery_does)
      with True Some p show ?thesis by (simp add: send_accepted_def)
    next
      case False
      have "does_ops R env st' (recordDeliveryFailure env wk e a' no_acceptance None True st')"
        by (rule recordDeliveryFailure_does) (simp add: uncertain_not_transient)
      with False show ?thesis using Some p by (simp add: send_accepted_def)
    qed
  qed
  let ?st1 = "st\<lparr>ws_calls := ws_calls st @ [build_request wk ig e attempt]\<rparr>"
  have "does_ops R env ?st1 (call_provider env wk ig e attempt st)"
    unfolding call_provider_def Let_def
    by (cases "env_answer env (build_request wk ig e attempt)") (auto intro: failed accepted simp del: does_ops_ws)
  then show ?thesis by simp
qed

lemma submit_after_begin:
  assumes t: "answers_truthfully R env" and b: "begin_attempt env ig e st = (Inr attempt, st1)"
  shows "does_ops R env st1 (submit_entry env wk ig e st)"
proof -
  have a: "da_ID a = env_uuid env" if "attempt = Some (a, key)" for a key
    using begin_attempt_started[of env ig e st a key st1] b that by simp
  note call = call_provider_does[OF t a]
  obtain h st2 where u: "upsertMessageHistory env RC_HistoryBefore e [] None st1 = (h, st2)" by fastforce
  note s2 = upsert_does[OF u]
  have fault: "env_fault env RC_HistoryBefore \<noteq> Works" if "h = Inl x" for x
    using u that
    by (auto simp: upsertMessageHistory_def repo_call_def Let_def split: fault.splits prod.splits
        dest: Upsert_frame)
  show ?thesis
  proof (cases "q_SourceType e = Src_Automation \<and> ProviderSetsOwnMessageID (q_ProviderKind e)")
    case False
    have "submit_entry env wk ig e st = call_provider env wk ig e attempt st1"
      using False b by (auto simp: submit_entry_def)
    then show ?thesis using call by simp
  next
    case pre: True
    show ?thesis
    proof (cases "isl h \<and> attempt \<noteq> None")
      case True
      then obtain x a key where h: "h = Inl x" and at: "attempt = Some (a, key)" by (auto simp: isl_def)
      have "da_ID a \<notin> R" using t fault[OF h] a[OF at] by (auto simp: answers_truthfully_def)
      then have "does_ops R env st2 (recordDeliveryFailure env wk e a history_failed None False st2)"
        by (rule recordDeliveryFailure_does)
      moreover have "submit_entry env wk ig e st = recordDeliveryFailure env wk e a history_failed None False st2"
        using pre b u h at by (simp add: submit_entry_def)
      ultimately show ?thesis using does_ops_trans[OF s2] by simp
    next
      case False
      have "submit_entry env wk ig e st = call_provider env wk ig e attempt st2"
        using pre b u False by (cases h; cases attempt) (auto simp: submit_entry_def)
      then show ?thesis using does_ops_trans[OF s2 call] by simp
    qed
  qed
qed

lemma submit_entry_does:
  assumes t: "answers_truthfully R env"
  shows "does_ops R env st (submit_entry env wk ig e st)"
proof -
  obtain r st1 where b: "begin_attempt env ig e st = (r, st1)" by fastforce
  note s1 = begin_attempt_does[OF b, of R]
  show ?thesis
  proof (cases r)
    case (Inl err)
    with b s1 show ?thesis by (simp add: submit_entry_def)
  next
    case (Inr attempt)
    show ?thesis using does_ops_trans[OF s1 submit_after_begin[OF t b[unfolded Inr]]] .
  qed
qed

lemma processEntry_does:
  assumes "answers_truthfully R env"
  shows "does_ops R env st (processEntry env wk e st)"
proof (cases "GetIntegrationByID wk (q_IntegrationID e)")
  case None
  then show ?thesis by (simp add: processEntry_def missing_integration_does)
next
  case (Some ig)
  obtain open' brk where o: "icb_IsOpen (env_now env) (q_IntegrationID e) (ws_breakers st) = (open', brk)"
    by fastforce
  let ?st0 = "st\<lparr>ws_breakers := brk\<rparr>"
  obtain r st1 where m: "(if claimed_entry e then (Inr (), ?st0)
      else repo_call env RC_MarkAsProcessing (MarkAsProcessing (env_dbnow env) (q_ID e)) ?st0) = (r, st1)"
    by fastforce
  have s1: "does_ops R env ?st0 st1"
    using m by (auto split: if_splits intro: does_ops_refl mark_processing_does simp del: does_ops_ws)
  have rest: "does_ops R env st1 (if \<not> env_rate_wait_ok env then st1
        else if reply_guard_stops env e then stop_on_reply env e st1
        else (case audience_guard env e st1 of Some st2 \<Rightarrow> st2 | None \<Rightarrow> submit_entry env wk ig e st1))"
    by (auto split: option.split intro: does_ops_refl stop_on_reply_does audience_guard_does
        submit_entry_does[OF assms])
  have "does_ops R env ?st0 (processEntry env wk e st)"
  proof (cases open')
    case True
    have "does_ops R env ?st0 (defer_open_breaker env e ?st0)" by (rule defer_open_breaker_does)
    with True Some o show ?thesis by (simp add: processEntry_def)
  next
    case False
    show ?thesis
    proof (cases r)
      case (Inl x)
      then have "processEntry env wk e st = st1"
        using Some o m False by (auto simp: processEntry_def split: if_splits)
      with s1 show ?thesis by simp
    next
      case (Inr x)
      have "processEntry env wk e st = (if \<not> env_rate_wait_ok env then st1
        else if reply_guard_stops env e then stop_on_reply env e st1
        else (case audience_guard env e st1 of Some st2 \<Rightarrow> st2 | None \<Rightarrow> submit_entry env wk ig e st1))"
        unfolding processEntry_def Some o Let_def option.case prod.case if_False m Inr
        using False m Inr by simp
      with does_ops_trans[OF s1 rest] show ?thesis by simp
    qed
  qed
  then show ?thesis by simp
qed

section \<open>At most one delivery, with the workers in the loop\<close>

text \<open>A history of the system: workers processing entries, and everything else that calls the
  repositories.\<close>

datatype system_step =
    Work worker_env workspace queue_entry
  | Call ledger_op

fun run_step :: "system_step \<Rightarrow> worker_state \<Rightarrow> worker_state" where
  "run_step (Work env wk e) st = processEntry env wk e st"
| "run_step (Call op) st = st\<lparr>ws_db := run_op op (ws_db st)\<rparr>"

fun step_truthful :: "string set \<Rightarrow> worker_state \<Rightarrow> system_step \<Rightarrow> bool" where
  "step_truthful R st (Work env wk e) = (answers_truthfully R env \<and> others_called R env)"
| "step_truthful R st (Call op) = as_called R (ws_db st) op"

fun all_truthful :: "string set \<Rightarrow> worker_state \<Rightarrow> system_step list \<Rightarrow> bool" where
  "all_truthful R st [] = True"
| "all_truthful R st (s # ss) = (step_truthful R st s \<and> all_truthful R (run_step s st) ss)"

lemma run_step_reachable:
  "ledger_reachable R (ws_db st) \<Longrightarrow> step_truthful R st s \<Longrightarrow> ledger_reachable R (ws_db (run_step s st))"
  by (cases s) (auto intro: does_ops_reachable[OF _ processEntry_does] ledger_reachable.operation)

lemma run_system_reachable:
  "ledger_reachable R (ws_db st) \<Longrightarrow> all_truthful R st ss \<Longrightarrow> ledger_reachable R (ws_db (fold run_step ss st))"
  by (induction ss arbitrary: st) (auto intro: run_step_reachable)

section \<open>The provider is called under a recorded attempt\<close>

lemma repo_call_calls: "ws_calls (snd (repo_call env c op st)) = ws_calls st"
  by (simp add: repo_call_def Let_def split: fault.split prod.split)

lemma repo_callD: "repo_call env c op st = (r, st') \<Longrightarrow> ws_calls st' = ws_calls st"
  using repo_call_calls[of env c op st] by simp

lemma emit_calls [simp]: "ws_calls (emit on ev st) = ws_calls st"
  by (simp add: emit_def)

lemma upsert_calls: "upsertMessageHistory env c e cap err st = (r, st') \<Longrightarrow> ws_calls st' = ws_calls st"
  unfolding upsertMessageHistory_def by (rule repo_callD)

lemma retry_entry_calls: "retry_entry env e msg nr st = (r, st') \<Longrightarrow> ws_calls st' = ws_calls st"
  by (auto simp: retry_entry_def split: if_splits dest: repo_callD)

lemma complete_entry_calls: "complete_entry env e st = (r, st') \<Longrightarrow> ws_calls st' = ws_calls st"
  by (auto simp: complete_entry_def split: if_splits dest: repo_callD)

lemmas call_frames = repo_callD upsert_calls retry_entry_calls complete_entry_calls

lemma handleError_calls [simp]: "ws_calls (handleError env wk e err cl st) = ws_calls st"
  unfolding handleError_def Let_def by (auto split: prod.splits dest!: call_frames)

lemma recordDeliveryFailure_calls [simp]:
  "ws_calls (recordDeliveryFailure env wk e a err cl unc st) = ws_calls st"
  unfolding recordDeliveryFailure_def Let_def by (auto split: prod.splits sum.splits dest!: call_frames)

lemma confirm_delivery_calls [simp]: "ws_calls (confirm_delivery env wk e a pmid st) = ws_calls st"
  unfolding confirm_delivery_def Let_def by (auto split: prod.splits sum.splits dest!: call_frames)

lemma complete_legacy_calls [simp]: "ws_calls (complete_legacy env wk e captured st) = ws_calls st"
  unfolding complete_legacy_def
  by (auto split: prod.splits sum.splits dest!: call_frames
      simp: upsertMessageHistory_def repo_call_calls)

lemma call_provider_calls:
  "ws_calls (call_provider env wk ig e attempt st) = ws_calls st @ [build_request wk ig e attempt]"
  unfolding call_provider_def Let_def send_failed_def send_accepted_def
  by (auto split: send_answer.split option.split)

lemma missing_integration_calls [simp]: "ws_calls (missing_integration env wk e st) = ws_calls st"
  unfolding missing_integration_def
  by (auto split: prod.splits sum.splits if_splits dest!: call_frames)

lemma defer_open_breaker_calls [simp]: "ws_calls (defer_open_breaker env e st) = ws_calls st"
  by (simp add: defer_open_breaker_def Let_def repo_call_calls)

lemma stop_on_reply_calls [simp]: "ws_calls (stop_on_reply env e st) = ws_calls st"
  by (simp add: stop_on_reply_def Let_def complete_entry_def repo_call_calls)

lemma defer_audience_calls [simp]: "ws_calls (deferAudienceEligibilityCheck env e cause st) = ws_calls st"
  by (simp add: deferAudienceEligibilityCheck_def retry_entry_def repo_call_calls)

lemma suppress_for_audience_calls [simp]: "ws_calls (suppress_for_audience env e st) = ws_calls st"
  unfolding suppress_for_audience_def
  by (auto split: prod.splits sum.splits bool.splits dest!: repo_callD
      simp: complete_entry_def repo_call_calls)

lemma audience_guard_calls: "audience_guard env e st = Some st' \<Longrightarrow> ws_calls st' = ws_calls st"
  by (auto simp: audience_guard_def split: option.splits sum.splits bool.splits)

lemma audience_guard_passes:
  "audience_guard env e st = None \<longleftrightarrow>
     (case p_AudienceEligibility (q_Payload e) of None \<Rightarrow> True
      | Some el \<Rightarrow> (\<exists>check. env_audience env = Some check \<and>
          check (ae_AudienceID el) (ae_AudienceVersion el) (ae_CustomerID el) = Inr True))"
  by (auto simp: audience_guard_def split: option.splits sum.splits bool.splits)

text \<open>What a call of the provider for an entry with a delivery intent stands on.\<close>

definition attempt_recorded ::
    "worker_env \<Rightarrow> integration \<Rightarrow> queue_entry \<Rightarrow> (delivery_attempt \<times> string) option \<Rightarrow> bool" where
  "attempt_recorded env ig e attempt \<longleftrightarrow>
     (if delivery_enabled env e
      then \<exists>a x db db'. attempt = Some (a, di_EffectKey x) \<and> da_ID a = env_uuid env \<and>
             intent_of db (intent_id e) = Some x \<and> di_Status x \<in> {DS_Queued, DS_TransientFailed} \<and>
             \<not> has_unresolved_attempt db (intent_id e) \<and>
             start_attempt_tx (env_uuid env) (env_now env) (env_dbnow env) (entry_start ig e) db =
               (Inr (a, di_EffectKey x), db') \<and> a \<in> set (db_attempts db')
      else attempt = None)"

lemma start_attempt_tx_recorded:
  assumes "start_attempt_tx uid now t start db = (Inr (a, key), db')"
  shows "\<exists>x. key = di_EffectKey x \<and> intent_of db (as_IntentID start) = Some x \<and>
    di_Status x \<in> {DS_Queued, DS_TransientFailed} \<and> \<not> has_unresolved_attempt db (as_IntentID start) \<and>
    a \<in> set (db_attempts db')"
  using assms
  by (auto simp: start_attempt_tx_def Let_def has_unresolved_attempt_def split: option.splits if_splits)

lemma begin_attempt_recorded:
  assumes "begin_attempt env ig e st = (Inr attempt, st')"
  shows "attempt_recorded env ig e attempt"
proof (cases attempt)
  case None
  with assms show ?thesis
    by (auto simp: begin_attempt_def attempt_recorded_def split: if_splits prod.splits sum.splits)
next
  case (Some p)
  obtain a key where p: "p = (a, key)" by (cases p)
  note s = begin_attempt_started[OF assms[unfolded Some p]]
  have "as_IntentID (entry_start ig e) = intent_id e" by (simp add: entry_start_def)
  with s start_attempt_tx_recorded[of "env_uuid env" "env_now env" "env_dbnow env" "entry_start ig e"
      "fold run_op (env_others env RC_StartAttempt) (ws_db st)" a key "ws_db st'"]
  show ?thesis unfolding attempt_recorded_def Some p by fastforce
qed

lemma begin_attempt_calls: "begin_attempt env ig e st = (r, st') \<Longrightarrow> ws_calls st' = ws_calls st"
  by (auto simp: begin_attempt_def split: if_splits prod.splits sum.splits dest: repo_callD)

lemma submit_entry_calls:
  "ws_calls (submit_entry env wk ig e st) = ws_calls st \<or>
   (\<exists>attempt. ws_calls (submit_entry env wk ig e st) = ws_calls st @ [build_request wk ig e attempt] \<and>
      attempt_recorded env ig e attempt)"
proof -
  obtain r st1 where b: "begin_attempt env ig e st = (r, st1)" by fastforce
  note c1 = begin_attempt_calls[OF b]
  show ?thesis
  proof (cases r)
    case (Inl err)
    with b c1 show ?thesis by (simp add: submit_entry_def)
  next
    case (Inr attempt)
    note rec = begin_attempt_recorded[OF b[unfolded Inr]]
    obtain h st2 where u: "upsertMessageHistory env RC_HistoryBefore e [] None st1 = (h, st2)" by fastforce
    note c2 = upsert_calls[OF u]
    show ?thesis
      using rec b Inr u c1 c2
      by (auto simp: submit_entry_def call_provider_calls split: sum.split option.split)
  qed
qed


section \<open>A delivered message is never submitted again\<close>

lemma attempt_stays:
  "ledger_step R v v' \<Longrightarrow> lv_attempt v a = Some (i, s) \<Longrightarrow> \<exists>s'. lv_attempt v' a = Some (i, s')"
  by (induction rule: ledger_step.induct) auto

lemma attempt_stays_steps:
  "(ledger_step R)\<^sup>*\<^sup>* v v' \<Longrightarrow> lv_attempt v a = Some (i, s) \<Longrightarrow> \<exists>s'. lv_attempt v' a = Some (i, s')"
  by (induction rule: rtranclp_induct) (auto dest: attempt_stays)

lemma attempt_stays_op:
  assumes "db_wf db" and "as_called R db op" and "attempt_view db a = Some (i, s)"
  shows "\<exists>s'. attempt_view (run_op op db) a = Some (i, s')"
proof -
  have "(ledger_step R)\<^sup>*\<^sup>* (ledger_view_of db) (ledger_view_of (run_op op db))"
    using run_op_sound[OF assms(1,2)] by (simp add: sound_write_def)
  from attempt_stays_steps[OF this] assms(3) show ?thesis by simp
qed

lemma attempt_stays_ops:
  "ledger_reachable R db \<Longrightarrow> all_called R db ops \<Longrightarrow> attempt_view db a = Some (i, s) \<Longrightarrow>
   \<exists>s'. attempt_view (fold run_op ops db) a = Some (i, s')"
proof (induction ops arbitrary: db s)
  case (Cons op ops)
  have wf: "db_wf db" using ledger_reachable_ok[OF Cons.prems(1)] by blast
  obtain s1 where "attempt_view (run_op op db) a = Some (i, s1)"
    using attempt_stays_op[OF wf _ Cons.prems(3), of R op] Cons.prems(2) by auto
  moreover have "ledger_reachable R (run_op op db)"
    using Cons.prems(1,2) by (auto intro: ledger_reachable.operation)
  ultimately show ?case using Cons.IH Cons.prems(2) by auto
qed auto

lemma attempt_stays_does:
  "does_ops R env st st' \<Longrightarrow> others_called R env \<Longrightarrow> ledger_reachable R (ws_db st) \<Longrightarrow>
   attempt_view (ws_db st) a = Some (i, s) \<Longrightarrow> \<exists>s'. attempt_view (ws_db st') a = Some (i, s')"
  unfolding does_ops_def using attempt_stays_ops by auto

lemma attempt_stays_system:
  "ledger_reachable R (ws_db st) \<Longrightarrow> all_truthful R st ss \<Longrightarrow> attempt_view (ws_db st) a = Some (i, s) \<Longrightarrow>
   \<exists>s'. attempt_view (ws_db (fold run_step ss st)) a = Some (i, s')"
proof (induction ss arbitrary: st s)
  case (Cons x ss)
  have "\<exists>s1. attempt_view (ws_db (run_step x st)) a = Some (i, s1)"
  proof (cases x)
    case (Work env wk e)
    then show ?thesis
      using Cons.prems attempt_stays_does[OF processEntry_does[of R env st wk e]] by simp
  next
    case (Call op)
    then show ?thesis
      using Cons.prems attempt_stays_op[of "ws_db st" R op] ledger_reachable_ok[OF Cons.prems(1)] by simp
  qed
  then show ?case
    using Cons.IH[of "run_step x st"] run_step_reachable[OF Cons.prems(1)] Cons.prems(2) by auto
qed auto

text \<open>A processing that calls the provider for an entry with an intent has started an attempt on
  the way.\<close>

lemma call_needs_start:
  assumes call: "ws_calls (processEntry env wk e st) \<noteq> ws_calls st" and en: "delivery_enabled env e"
  shows "\<exists>ig st0 a key st1. ws_db st0 = ws_db st \<and> begin_attempt env ig e st0 = (Inr (Some (a, key)), st1) \<and>
    (answers_truthfully R env \<longrightarrow> does_ops R env st1 (processEntry env wk e st))"
proof (cases "GetIntegrationByID wk (q_IntegrationID e)")
  case None
  with call show ?thesis by (simp add: processEntry_def)
next
  case (Some ig)
  obtain open' brk where o: "icb_IsOpen (env_now env) (q_IntegrationID e) (ws_breakers st) = (open', brk)"
    by fastforce
  let ?st0 = "st\<lparr>ws_breakers := brk\<rparr>"
  have cl: "claimed_entry e" using en by (simp add: delivery_enabled_def)
  have p: "processEntry env wk e st = (if open' then defer_open_breaker env e ?st0
      else if \<not> env_rate_wait_ok env then ?st0
      else if reply_guard_stops env e then stop_on_reply env e ?st0
      else (case audience_guard env e ?st0 of Some st2 \<Rightarrow> st2 | None \<Rightarrow> submit_entry env wk ig e ?st0))"
    unfolding processEntry_def Some o Let_def option.case prod.case by (simp add: cl)
  have s: "processEntry env wk e st = submit_entry env wk ig e ?st0"
    using call audience_guard_calls[of env e ?st0] by (auto simp: p split: if_splits option.splits)
  obtain r st1 where b: "begin_attempt env ig e ?st0 = (r, st1)" by fastforce
  have c1: "ws_calls st1 = ws_calls st" using begin_attempt_calls[OF b] by simp
  obtain a key where r: "r = Inr (Some (a, key))"
  proof (cases r)
    case (Inl x)
    with b c1 call s show ?thesis by (simp add: submit_entry_def)
  next
    case (Inr at)
    with b en show ?thesis
      using that by (auto simp: begin_attempt_def split: prod.splits sum.splits)
  qed
  have "does_ops R env st1 (processEntry env wk e st)" if "answers_truthfully R env"
    using submit_after_begin[OF that b[unfolded r]] s by simp
  then show ?thesis using b r by (intro exI[of _ ig] exI[of _ ?st0]) auto
qed

lemma begun_attempt_view:
  assumes b: "begin_attempt env ig e st = (Inr (Some (a, key)), st1)"
    and reach: "ledger_reachable R (ws_db st)" and o: "others_called R env"
  shows "attempt_view (ws_db st1) (env_uuid env) = Some (intent_id e, DS_Submitting) \<and>
    ledger_reachable R (ws_db st1)"
proof -
  note s = begin_attempt_started[OF b]
  let ?db = "fold run_op (env_others env RC_StartAttempt) (ws_db st)"
  have r0: "ledger_reachable R ?db" by (rule reachable_fold[OF reach others_all_called[OF o]])
  have r1: "ledger_reachable R (ws_db st1)"
    by (rule does_ops_reachable[OF reach begin_attempt_does[OF b] o])
  have i: "as_IntentID (entry_start ig e) = intent_id e" by (simp add: entry_start_def)
  have "db_wf ?db" using ledger_reachable_ok[OF r0] by blast
  from start_attempt_effect[OF this] s
  have att: "a \<in> set (db_attempts (ws_db st1))" "da_Status a = DS_Submitting" "da_IntentID a = intent_id e"
    using i by (metis in_set_conv_decomp)+
  have "db_wf (ws_db st1)" using ledger_reachable_ok[OF r1] by blast
  from attempt_view_row(1)[OF this att(1)] att s r1 show ?thesis by simp
qed

lemma begin_needs_pre_submission:
  assumes b: "begin_attempt env ig e st = (Inr (Some (a, key)), st1)"
  shows "\<exists>s. intent_status (fold run_op (env_others env RC_StartAttempt) (ws_db st)) (intent_id e) = Some s \<and>
    s \<in> pre_submission"
proof -
  have "as_IntentID (entry_start ig e) = intent_id e" by (simp add: entry_start_def)
  with start_attempt_tx_recorded begin_attempt_started[OF b] show ?thesis
    by (fastforce simp: intent_status_def pre_submission_def)
qed


section \<open>A worked example\<close>

text \<open>One SMTP integration; the entry of \<open>sample_ops\<close>, claimed under token \<open>t1\<close>; a world
  in which every call works and the provider gives the answer \<open>ans\<close>.\<close>

definition sample_workspace :: workspace where
  "sample_workspace = \<lparr>wk_ID = ''w'', wk_Integrations = [\<lparr>ig_ID = ''int'', ig_Type = ''email'',
     ig_EmailProvider = \<lparr>ep_Kind = SMTP, ep_RateLimitPerMinute = 60\<rparr>\<rparr>]\<rparr>"

definition sample_env :: "string \<Rightarrow> instant \<Rightarrow> send_answer \<Rightarrow> worker_env" where
  "sample_env uuid now ans = \<lparr>env_now = now, env_dbnow = now, env_uuid = uuid, env_retry_base = minute,
     env_fault = (\<lambda>_. Works), env_others = (\<lambda>_. []), env_delivery_repo = True,
     env_rate_wait_ok = True, env_automation = None, env_audience = None, env_answer = (\<lambda>_. ans),
     env_captured = [], env_on_sent = True, env_on_failed = True\<rparr>"

definition sample_entry :: queue_entry where
  "sample_entry = hd (db_queue (fold run_op (take 2 sample_ops) empty_db))\<lparr>q_IntegrationID := ''int''\<rparr>"

definition sample_worker :: worker_state where
  "sample_worker = \<lparr>ws_db = fold run_op (take 2 sample_ops) empty_db,
     ws_breakers = worker_breakers None (DefaultWorkerConfig None), ws_calls = [], ws_events = []\<rparr>"

lemma sample_worker_reachable: "ledger_reachable R (ws_db sample_worker)"
proof -
  have "all_called R empty_db (take 2 sample_ops)" by (simp add: sample_ops_def)
  with reachable_fold[OF ledger_reachable.initial] show ?thesis by (simp add: sample_worker_def)
qed

lemma sample_env_others: "others_called R (sample_env u t ans)"
  by (simp add: others_called_def sample_env_def)

lemma sample_env_truthful: "answers_truthfully R (sample_env u t (Submitted True pm))"
  by (simp add: answers_truthfully_def sample_env_def)

lemma sample_env_facts:
  "delivery_enabled (sample_env u t ans) sample_entry" "intent_id sample_entry = ''i1''"
  "env_uuid (sample_env u t ans) = u"
proof -
  have "claim_token sample_entry = ''t1'' \<and> q_DeliveryIntentID sample_entry = Some ''i1''" by code_simp
  then show "delivery_enabled (sample_env u t ans) sample_entry" "intent_id sample_entry = ''i1''"
    "env_uuid (sample_env u t ans) = u"
    by (simp_all add: delivery_enabled_def claimed_entry_def intent_id_def sample_env_def)
qed


end
