(* ===== verification/Worker_Outcomes.thy ===== *)
theory Worker_Outcomes
  imports Worker_Properties
begin

text \<open>
  What one processing leaves behind when nothing interferes: the provider's answer decides the
  final status of the attempt, the intent and the queue row together. And the places where the
  worker's bookkeeping loses an e-mail, a suppression or a message history: an open breaker
  uses up attempts, a retry cannot be suppressed or cancelled, an early receipt stops the
  worker's records, and an answer cut short counts as not sent.
\<close>

section \<open>A processing that nothing interferes with\<close>

definition calm :: "worker_env \<Rightarrow> bool" where
  "calm env \<longleftrightarrow> (\<forall>c. env_fault env c = Works \<and> env_others env c = [])"

lemma calm_call: "calm env \<Longrightarrow> repo_call env c op st = (fst (op (ws_db st)), st\<lparr>ws_db := snd (op (ws_db st))\<rparr>)"
  by (simp add: calm_def repo_call_def Let_def split: prod.split)

text \<open>An attempt under way: its row, its intent and the one queue row held under its token.\<close>

definition under_way :: "delivery_db \<Rightarrow> string \<Rightarrow> string \<Rightarrow> string \<Rightarrow> delivery_status \<Rightarrow> bool" where
  "under_way db aid token i s \<longleftrightarrow> db_wf db \<and>
     (\<exists>a \<in> set (db_attempts db). da_ID a = aid \<and> da_ClaimToken a = token \<and> da_IntentID a = i \<and>
        da_Status a = s) \<and>
     intent_status db i = Some s \<and> sql_count (held_for i token) (db_queue db) = 1"

text \<open>What an outcome leaves: attempt and intent in the status \<open>s\<close>, and every queue row of the
  intent that was held under the token given back in the status that belongs to it.\<close>

definition left_as :: "delivery_db \<Rightarrow> delivery_db \<Rightarrow> string \<Rightarrow> string \<Rightarrow> string \<Rightarrow> delivery_status \<Rightarrow> bool" where
  "left_as db0 db aid token i s \<longleftrightarrow>
     attempt_view db aid = Some (i, s) \<and> intent_status db i = Some s \<and>
     map q_ID (db_queue db) = map q_ID (db_queue db0) \<and>
     (\<forall>q \<in> set (db_queue db). \<forall>q0 \<in> set (db_queue db0). q_ID q = q_ID q0 \<longrightarrow>
        (if held_for i token q0
         then Some (q_Status q) = queue_status_after s \<and> q_ClaimToken q = None \<and> q_LeaseExpiresAt q = None \<and>
              q_Attempts q = q_Attempts q0 \<and> (q_NextRetryAt q \<noteq> None \<and> s \<noteq> DS_Confirmed \<longrightarrow> s = DS_TransientFailed)
         else q = q0))"

lemma outcome_row_frame:
  "outcome_queue out at = Some f \<Longrightarrow> q_Attempts (f q) = q_Attempts q \<and> q_MaxAttempts (f q) = q_MaxAttempts q"
  by (auto simp: outcome_queue_def complete_row_def fail_row_def split: delivery_status.splits)

lemma record_outcome_ok:
  assumes u: "under_way db aid token i s" and ne: "aid \<noteq> []" "token \<noteq> []"
    and c: "CanTransitionTo s (ao_Status out)" and o: "ao_Status out \<in> set outcome_statuses"
  obtains db' at where "RecordAttemptOutcome now dbnow aid token out db = (Inr (), db')"
    and "record_outcome_tx at dbnow aid token out db = (Inr (), db')"
proof -
  obtain a where a: "a \<in> set (db_attempts db)" "da_ID a = aid" "da_ClaimToken a = token"
      "da_IntentID a = i" "da_Status a = s"
    and wf: "db_wf db" and st: "intent_status db i = Some s" and q: "sql_count (held_for i token) (db_queue db) = 1"
    using u by (auto simp: under_way_def)
  obtain b where b: "sql_find (\<lambda>a. da_ID a = aid \<and> da_ClaimToken a = token) (db_attempts db) = Some b"
    using a by (cases "sql_find (\<lambda>a. da_ID a = aid \<and> da_ClaimToken a = token) (db_attempts db)")
      (auto simp: sql_find_None_iff)
  have "b = a" using sql_find_SomeD[OF b] a wf unique_rowD[of da_ID "db_attempts db" b a] by (simp add: db_wf_def)
  with b have f: "sql_find (\<lambda>a. da_ID a = aid \<and> da_ClaimToken a = token) (db_attempts db) = Some a" by simp
  have "\<exists>db'. record_outcome_tx at dbnow aid token out db = (Inr (), db')" for at
    using c st q
    by (simp add: record_outcome_tx_def f a(4,5) Let_def set_intent_status_def split: option.split)
  then obtain db' where run: "record_outcome_tx (if ao_OccurredAt out = zero_time then now else ao_OccurredAt out)
      dbnow aid token out db = (Inr (), db')" by blast
  then have "RecordAttemptOutcome now dbnow aid token out db = (Inr (), db')"
    using ne o by (simp add: RecordAttemptOutcome_def Let_def)
  with run that show thesis by blast
qed

lemma record_outcome_left:
  assumes wf: "db_wf db" and run: "record_outcome_tx at dbnow aid token out db = (Inr (), db')"
    and u: "under_way db aid token i s" and o: "ao_Status out \<in> set outcome_statuses"
  shows "if ao_Status out = DS_ProviderAccepted
     then under_way db' aid token i DS_ProviderAccepted \<and> db_queue db' = db_queue db
     else left_as db db' aid token i (ao_Status out)"
proof -
  from run obtain a s' where a: "sql_find (\<lambda>a. da_ID a = aid \<and> da_ClaimToken a = token) (db_attempts db) = Some a"
    and s': "intent_status db (da_IntentID a) = Some s'"
    and as: "db_attempts db' = sql_update (\<lambda>a. da_ID a = aid \<and> da_ClaimToken a = token)
                             (outcome_attempt out at) (db_attempts db)"
    and ints: "db_intents db' = db_intents (set_intent_status (da_IntentID a) (ao_Status out) at db)"
    and q: "db_queue db' = (case outcome_queue out at of None \<Rightarrow> db_queue db
           | Some f \<Rightarrow> sql_update (held_for (da_IntentID a) token) f (db_queue db))"
    by (rule record_outcome_txD)
  have a': "a \<in> set (db_attempts db)" "da_ID a = aid" "da_ClaimToken a = token" using sql_find_SomeD[OF a] by auto
  obtain b where b: "b \<in> set (db_attempts db)" "da_ID b = aid" "da_IntentID b = i"
    using u by (auto simp: under_way_def)
  have "a = b" using wf unique_rowD[of da_ID "db_attempts db" a b] a' b by (simp add: db_wf_def)
  with b have i: "da_IntentID a = i" by simp
  have ist: "intent_status db' = (intent_status db)(i := Some (ao_Status out))"
    using intent_status_set_intent_status[OF s', of "ao_Status out" at]
    by (simp add: intent_status_def intent_of_def ints fun_eq_iff i)
  have av: "attempt_view db' aid = Some (i, ao_Status out)"
    using attempt_view_update[of "outcome_attempt out at" aid db a "\<lambda>a. da_ID a = aid \<and> da_ClaimToken a = token"]
      attempt_view_row(2)[OF wf a'(1)] a' i
    by (simp add: attempt_view_def as fun_eq_iff)
  have wf': "db_wf db'"
    using record_outcome_sound[OF wf run o, of "{}"]
    by (simp add: sound_write_def)
  show ?thesis
  proof (cases "ao_Status out = DS_ProviderAccepted")
    case True
    then have q': "db_queue db' = db_queue db" by (simp add: q outcome_queue_def)
    have "outcome_attempt out at a \<in> set (db_attempts db')" using a' by (force simp: as set_sql_update)
    then have "\<exists>x \<in> set (db_attempts db'). da_ID x = aid \<and> da_ClaimToken x = token \<and> da_IntentID x = i \<and>
        da_Status x = DS_ProviderAccepted"
      by (rule bexI[rotated]) (simp add: a' i True)
    then show ?thesis using True wf' u ist q' by (simp add: under_way_def)
  next
    case False
    then obtain f where f: "outcome_queue out at = Some f" using outcome_queue_None_iff[OF o] by auto
    have keys: "map q_ID (db_queue db') = map q_ID (db_queue db)"
      using outcome_queue_keys[OF f] by (simp add: q f)
    have rows: "if held_for i token q0
         then Some (q_Status x) = queue_status_after (ao_Status out) \<and> q_ClaimToken x = None \<and> q_LeaseExpiresAt x = None \<and>
              q_Attempts x = q_Attempts q0 \<and> (q_NextRetryAt x \<noteq> None \<and> ao_Status out \<noteq> DS_Confirmed \<longrightarrow> ao_Status out = DS_TransientFailed)
         else x = q0"
      if x: "x \<in> set (db_queue db')" and q0: "q0 \<in> set (db_queue db)" "q_ID x = q_ID q0" for x q0
    proof -
      obtain y where y: "y \<in> set (db_queue db)" "x = (if held_for i token y then f y else y)"
        using x unfolding q f option.case set_sql_update i by blast
      then have "q_ID y = q_ID q0" using q0(2) outcome_queue_keys[OF f] by (auto split: if_splits)
      then have "y = q0" using y(1) q0(1) wf unique_rowD[of q_ID "db_queue db" y q0] by (simp add: db_wf_def)
      then show ?thesis using y(2) outcome_queue_row[OF f, of q0] outcome_row_frame[OF f, of q0] by auto
    qed
    show ?thesis using False av ist keys rows by (simp add: left_as_def)
  qed
qed

text \<open>An entry that is about to be submitted in a quiet system: every guard lets it pass, its
  intent may be submitted, its row is held under its token and the attempt id is new.\<close>

definition ready :: "worker_env \<Rightarrow> workspace \<Rightarrow> integration \<Rightarrow> queue_entry \<Rightarrow> worker_state \<Rightarrow> bool" where
  "ready env wk ig e st \<longleftrightarrow>
     calm env \<and> GetIntegrationByID wk (q_IntegrationID e) = Some ig \<and>
     \<not> fst (icb_IsOpen (env_now env) (q_IntegrationID e) (ws_breakers st)) \<and>
     delivery_enabled env e \<and> env_rate_wait_ok env \<and> \<not> reply_guard_stops env e \<and>
     (case p_AudienceEligibility (q_Payload e) of
        None \<Rightarrow> True
      | Some el \<Rightarrow> (case env_audience env of
          None \<Rightarrow> False
        | Some check \<Rightarrow> check (ae_AudienceID el) (ae_AudienceVersion el) (ae_CustomerID el) = Inr True)) \<and>
     db_wf (ws_db st) \<and>
     intent_status (ws_db st) (intent_id e) \<in> {Some DS_Queued, Some DS_TransientFailed} \<and>
     \<not> has_unresolved_attempt (ws_db st) (intent_id e) \<and>
     \<not> sql_exists (\<lambda>a. da_ID a = env_uuid env) (db_attempts (ws_db st)) \<and>
     env_uuid env \<noteq> [] \<and> intent_id e \<noteq> [] \<and> provider_text (ep_Kind (ig_EmailProvider ig)) \<noteq> [] \<and>
     sql_count (held_for (intent_id e) (claim_token e)) (db_queue (ws_db st)) = 1"

lemma start_under_way:
  assumes wf: "db_wf db" and x: "intent_of db (as_IntentID start) = Some x"
    and st: "di_Status x \<in> {DS_Queued, DS_TransientFailed}"
    and un: "\<not> has_unresolved_attempt db (as_IntentID start)"
    and fresh: "\<not> sql_exists (\<lambda>a. da_ID a = uid) (db_attempts db)"
    and ne: "as_IntentID start \<noteq> []" "as_Provider start \<noteq> []" "as_ClaimToken start \<noteq> []"
    and q: "sql_count (held_for (as_IntentID start) (as_ClaimToken start)) (db_queue db) = 1"
  shows "\<exists>a db'. StartAttempt uid now dbnow start db = (Inr (a, di_EffectKey x), db') \<and> da_ID a = uid \<and>
    under_way db' uid (as_ClaimToken start) (as_IntentID start) DS_Submitting \<and> db_queue db' = db_queue db"
proof -
  obtain a db' where run: "start_attempt_tx uid now dbnow start db = (Inr (a, di_EffectKey x), db')"
    using start_attempt_tx_good[OF wf x st un fresh] by blast
  have full: "StartAttempt uid now dbnow start db = (Inr (a, di_EffectKey x), db')"
    using run ne by (simp add: StartAttempt_def)
  note eff = start_attempt_effect[OF wf run]
  from run obtain no hash where a: "a = new_attempt uid now start no hash" and qq: "db_queue db' = db_queue db"
    by (elim start_attempt_txD) (auto simp: mark_submitting_def requeue_transient_def)
  have wf': "db_wf db'" using start_attempt_sound[OF wf run, of "{}"] by (simp add: sound_write_def)
  have "under_way db' uid (as_ClaimToken start) (as_IntentID start) DS_Submitting"
    using wf' eff q qq a by (auto simp: under_way_def new_attempt_def)
  then show ?thesis using full qq a by (auto simp: new_attempt_def)
qed

lemma ready_begin:
  assumes "ready env wk ig e st" and "ws_db st0 = ws_db st"
  shows "\<exists>a x db1. intent_of (ws_db st) (intent_id e) = Some x \<and>
    begin_attempt env ig e st0 = (Inr (Some (a, di_EffectKey x)), st0\<lparr>ws_db := db1\<rparr>) \<and> da_ID a = env_uuid env \<and>
    under_way db1 (env_uuid env) (claim_token e) (intent_id e) DS_Submitting \<and>
    db_queue db1 = db_queue (ws_db st)"
proof -
  let ?s = "entry_start ig e"
  have sel: "as_IntentID ?s = intent_id e" "as_ClaimToken ?s = claim_token e"
    "as_Provider ?s = provider_text (ep_Kind (ig_EmailProvider ig))" by (simp_all add: entry_start_def)
  have en: "delivery_enabled env e" and "claim_token e \<noteq> []" and c: "calm env"
    using assms(1) by (auto simp: ready_def delivery_enabled_def claimed_entry_def)
  obtain x where x: "intent_of (ws_db st) (intent_id e) = Some x" "di_Status x \<in> {DS_Queued, DS_TransientFailed}"
    using assms(1) by (auto simp: ready_def intent_status_def)
  have "\<exists>a db'. StartAttempt (env_uuid env) (env_now env) (env_dbnow env) ?s (ws_db st) =
      (Inr (a, di_EffectKey x), db') \<and> da_ID a = env_uuid env \<and>
      under_way db' (env_uuid env) (claim_token e) (intent_id e) DS_Submitting \<and> db_queue db' = db_queue (ws_db st)"
    using start_under_way[of "ws_db st" ?s x "env_uuid env" "env_now env" "env_dbnow env"] assms(1) x
      \<open>claim_token e \<noteq> []\<close> by (simp add: sel ready_def)
  then obtain a db1 where s: "StartAttempt (env_uuid env) (env_now env) (env_dbnow env) ?s (ws_db st) =
      (Inr (a, di_EffectKey x), db1)" "da_ID a = env_uuid env"
      "under_way db1 (env_uuid env) (claim_token e) (intent_id e) DS_Submitting" "db_queue db1 = db_queue (ws_db st)"
    by blast
  have "begin_attempt env ig e st0 = (Inr (Some (a, di_EffectKey x)), st0\<lparr>ws_db := db1\<rparr>)"
    by (simp add: begin_attempt_def en calm_call[OF c] assms(2) s(1))
  with s x show ?thesis by blast
qed

lemma upsert_keeps:
  "db_wf (snd (Upsert m db)) = db_wf db" "intent_status (snd (Upsert m db)) = intent_status db"
  "attempt_view (snd (Upsert m db)) = attempt_view db" "db_queue (snd (Upsert m db)) = db_queue db"
  "db_attempts (snd (Upsert m db)) = db_attempts db" "fst (Upsert m db) = Inr ()"
  by (simp_all add: Upsert_def Let_def db_wf_def)

lemma under_way_upsert: "under_way (snd (Upsert m db)) aid token i s = under_way db aid token i s"
  by (simp add: under_way_def upsert_keeps)

lemma left_as_upsert: "left_as db0 (snd (Upsert m db)) aid token i s = left_as db0 db aid token i s"
  by (simp add: left_as_def upsert_keeps)

lemma left_as_queue: "db_queue db0 = db_queue db1 \<Longrightarrow> left_as db0 db aid token i s = left_as db1 db aid token i s"
  by (simp add: left_as_def)

lemma upsert_calm:
  "calm env \<Longrightarrow> upsertMessageHistory env c e cap err st =
     (Inr (), st\<lparr>ws_db := snd (Upsert (history_message (env_now env) e cap err) (ws_db st))\<rparr>)"
  by (simp add: upsertMessageHistory_def calm_call upsert_keeps)

text \<open>One recorded outcome, as the worker calls it.\<close>

lemma record_calm:
  assumes c: "calm env" and u: "under_way (ws_db st) aid token i s" and ne: "aid \<noteq> []" "token \<noteq> []"
    and t: "CanTransitionTo s (ao_Status out)" and o: "ao_Status out \<in> set outcome_statuses"
  shows "\<exists>db'. repo_call env k (RecordAttemptOutcome now dbnow aid token out) st = (Inr (), st\<lparr>ws_db := db'\<rparr>) \<and>
    (if ao_Status out = DS_ProviderAccepted
     then under_way db' aid token i DS_ProviderAccepted \<and> db_queue db' = db_queue (ws_db st)
     else left_as (ws_db st) db' aid token i (ao_Status out))"
proof -
  obtain db' at where r: "RecordAttemptOutcome now dbnow aid token out (ws_db st) = (Inr (), db')"
    "record_outcome_tx at dbnow aid token out (ws_db st) = (Inr (), db')"
    by (rule record_outcome_ok[OF u ne t o])
  have "db_wf (ws_db st)" using u by (simp add: under_way_def)
  from record_outcome_left[OF this r(2) u o]
  show ?thesis by (intro exI[of _ db']) (simp only: calm_call[OF c] r(1) fst_conv snd_conv)
qed

lemma failure_left:
  assumes c: "calm env" and u: "under_way (ws_db st) (da_ID a) (claim_token e) i DS_Submitting"
    and ne: "da_ID a \<noteq> []" "claim_token e \<noteq> []"
  shows "left_as (ws_db st) (ws_db (recordDeliveryFailure env wk e a err cl unc st)) (da_ID a) (claim_token e) i
    (ao_Status (failure_outcome env e err cl unc))"
proof -
  let ?out = "failure_outcome env e err cl unc"
  have s: "ao_Status ?out \<in> {DS_Unknown, DS_TerminalFailed, DS_TransientFailed}"
    by (simp add: failure_outcome_def Let_def)
  then have "CanTransitionTo DS_Submitting (ao_Status ?out)" "ao_Status ?out \<in> set outcome_statuses"
    "ao_Status ?out \<noteq> DS_ProviderAccepted" by (auto simp: CanTransitionTo_iff outcome_statuses_def)
  with record_calm[OF c u ne, of ?out RC_RecordFailure "env_now env" "env_dbnow env"] obtain db' where
    r: "repo_call env RC_RecordFailure (RecordAttemptOutcome (env_now env) (env_dbnow env) (da_ID a)
          (claim_token e) ?out) st = (Inr (), st\<lparr>ws_db := db'\<rparr>)"
      "left_as (ws_db st) db' (da_ID a) (claim_token e) i (ao_Status ?out)" by auto
  then show ?thesis
    by (simp add: recordDeliveryFailure_def Let_def upsert_calm[OF c] emit_def left_as_upsert)
qed

lemma confirm_left:
  assumes c: "calm env" and u: "under_way (ws_db st) (da_ID a) (claim_token e) i DS_Submitting"
    and ne: "da_ID a \<noteq> []" "claim_token e \<noteq> []"
  shows "left_as (ws_db st) (ws_db (confirm_delivery env wk e a pmid st)) (da_ID a) (claim_token e) i DS_Confirmed"
proof -
  let ?out = "\<lambda>s. \<lparr>ao_Status = s, ao_ProviderMessageID = pmid, ao_ErrorCategory = [],
            ao_ErrorCode = [], ao_ErrorDetail = [], ao_NextRetryAt = None, ao_OccurredAt = env_now env\<rparr>"
  have t: "CanTransitionTo DS_Submitting DS_ProviderAccepted" "CanTransitionTo DS_ProviderAccepted DS_Confirmed"
    "DS_ProviderAccepted \<in> set outcome_statuses" "DS_Confirmed \<in> set outcome_statuses"
    by (simp_all add: CanTransitionTo_iff outcome_statuses_def)
  have "\<exists>db1. repo_call env RC_RecordAccepted (RecordAttemptOutcome (env_now env) (env_dbnow env) (da_ID a)
      (claim_token e) (?out DS_ProviderAccepted)) st = (Inr (), st\<lparr>ws_db := db1\<rparr>) \<and>
      under_way db1 (da_ID a) (claim_token e) i DS_ProviderAccepted \<and> db_queue db1 = db_queue (ws_db st)"
    using record_calm[OF c u ne, of "?out DS_ProviderAccepted" RC_RecordAccepted "env_now env" "env_dbnow env"] t
    by simp
  then obtain db1 where r1: "repo_call env RC_RecordAccepted (RecordAttemptOutcome (env_now env) (env_dbnow env)
      (da_ID a) (claim_token e) (?out DS_ProviderAccepted)) st = (Inr (), st\<lparr>ws_db := db1\<rparr>)"
    "under_way db1 (da_ID a) (claim_token e) i DS_ProviderAccepted" "db_queue db1 = db_queue (ws_db st)" by blast
  let ?db2 = "snd (Upsert (history_message (env_now env) e pmid None) db1)"
  have u2: "under_way (ws_db (st\<lparr>ws_db := ?db2\<rparr>)) (da_ID a) (claim_token e) i DS_ProviderAccepted"
    using r1(2) by (simp add: under_way_upsert)
  have "\<exists>db3. repo_call env RC_RecordConfirmed (RecordAttemptOutcome (env_now env) (env_dbnow env) (da_ID a)
      (claim_token e) (?out DS_Confirmed)) (st\<lparr>ws_db := ?db2\<rparr>) = (Inr (), st\<lparr>ws_db := db3\<rparr>) \<and>
      left_as ?db2 db3 (da_ID a) (claim_token e) i DS_Confirmed"
    using record_calm[OF c u2 ne, of "?out DS_Confirmed" RC_RecordConfirmed "env_now env" "env_dbnow env"] t
    by simp
  then obtain db3 where r3: "repo_call env RC_RecordConfirmed (RecordAttemptOutcome (env_now env) (env_dbnow env)
      (da_ID a) (claim_token e) (?out DS_Confirmed)) (st\<lparr>ws_db := ?db2\<rparr>) = (Inr (), st\<lparr>ws_db := db3\<rparr>)"
    "left_as ?db2 db3 (da_ID a) (claim_token e) i DS_Confirmed" by blast
  have "left_as (ws_db st) db3 (da_ID a) (claim_token e) i DS_Confirmed"
    using r3(2) left_as_queue[of ?db2 "ws_db st"] r1(3) by (simp add: upsert_keeps)
  then show ?thesis
    by (simp add: confirm_delivery_def Let_def r1(1) upsert_calm[OF c] r3(1) emit_def)
qed

definition answered_status :: "integration \<Rightarrow> queue_entry \<Rightarrow> send_answer \<Rightarrow> delivery_status" where
  "answered_status ig e ans =
     (case ans of
        Submitted accepted _ \<Rightarrow> if accepted then DS_Confirmed else DS_Unknown
      | Sent \<Rightarrow> DS_Confirmed
      | SendFailed err \<Rightarrow>
          if isUncertainProviderError (Some err) then DS_Unknown
          else if q_Attempts e \<ge> q_MaxAttempts e \<or>
                  (case Classify (Some (err_text err)) (ep_Kind (ig_EmailProvider ig)) of
                     None \<Rightarrow> False | Some c \<Rightarrow> \<not> ce_retryable c)
          then DS_TerminalFailed else DS_TransientFailed)"

lemma call_left:
  assumes c: "calm env" and u: "under_way (ws_db st) (da_ID a) (claim_token e) i DS_Submitting"
    and ne: "da_ID a \<noteq> []" "claim_token e \<noteq> []"
  shows "left_as (ws_db st) (ws_db (call_provider env wk ig e (Some (a, key)) st)) (da_ID a) (claim_token e) i
    (answered_status ig e (env_answer env (build_request wk ig e (Some (a, key)))))"
proof -
  have f: "left_as (ws_db st) (ws_db (recordDeliveryFailure env wk e a err cl unc st')) (da_ID a) (claim_token e) i
      (ao_Status (failure_outcome env e err cl unc))" if "ws_db st' = ws_db st" for err cl unc st'
    using failure_left[OF c _ ne, of st' i wk err cl unc] u that by simp
  have g: "left_as (ws_db st) (ws_db (confirm_delivery env wk e a p st')) (da_ID a) (claim_token e) i DS_Confirmed"
    if "ws_db st' = ws_db st" for p st'
    using confirm_left[OF c _ ne, of st' i wk p] u that by simp
  show ?thesis
  proof (cases "env_answer env (build_request wk ig e (Some (a, key)))")
    case (Submitted ok pmid)
    then show ?thesis
      using f[of "st\<lparr>ws_calls := ws_calls st @ [build_request wk ig e (Some (a, key))]\<rparr>" no_acceptance None True]
      by (simp add: call_provider_def Let_def send_accepted_def answered_status_def g failure_outcome_def)
  next
    case Sent
    then show ?thesis
      by (simp add: call_provider_def Let_def send_accepted_def answered_status_def g)
  next
    case (SendFailed err)
    let ?cl = "Classify (Some (err_text err)) (ep_Kind (ig_EmailProvider ig))"
    have "answered_status ig e (SendFailed err) =
        ao_Status (failure_outcome env e err ?cl (isUncertainProviderError (Some err)))"
      by (simp add: answered_status_def failure_outcome_def Let_def)
    with SendFailed show ?thesis
      by (simp add: call_provider_def Let_def send_failed_def f)
  qed
qed

lemma ready_process:
  assumes "ready env wk ig e st"
  shows "processEntry env wk e st =
    submit_entry env wk ig e (st\<lparr>ws_breakers := snd (icb_IsOpen (env_now env) (q_IntegrationID e) (ws_breakers st))\<rparr>)"
proof -
  have cl: "claimed_entry e" using assms by (simp add: ready_def delivery_enabled_def)
  have g: "audience_guard env e st' = None" for st'
    using assms by (auto simp: ready_def audience_guard_passes split: option.splits)
  have "GetIntegrationByID wk (q_IntegrationID e) = Some ig"
    "\<not> fst (icb_IsOpen (env_now env) (q_IntegrationID e) (ws_breakers st))"
    "env_rate_wait_ok env" "\<not> reply_guard_stops env e"
    using assms by (simp_all add: ready_def)
  then show ?thesis by (auto simp: processEntry_def Let_def cl g split: prod.splits)
qed

text \<open>C7. In a quiet system the provider's answer decides the fate of a submission: the request is
  made once with the intent's effect key, and afterwards the attempt, the intent and the queue
  row agree. An acceptance confirms; an answer without acceptance and an uncertain error leave
  the outcome unknown and the row without a retry; a definite error is final when it is the last
  attempt or not retryable, and otherwise the row is given back for a retry.\<close>

theorem answer_decides_outcome:
  assumes "ready env wk ig e st"
  shows "\<exists>rq x. intent_of (ws_db st) (intent_id e) = Some x \<and>
    ws_calls (processEntry env wk e st) = ws_calls st @ [rq] \<and> rq_IdempotencyKey rq = di_EffectKey x \<and>
    left_as (ws_db st) (ws_db (processEntry env wk e st)) (env_uuid env) (claim_token e) (intent_id e)
      (answered_status ig e (env_answer env rq))"
proof -
  let ?st0 = "st\<lparr>ws_breakers := snd (icb_IsOpen (env_now env) (q_IntegrationID e) (ws_breakers st))\<rparr>"
  have c: "calm env" and ne: "env_uuid env \<noteq> []" "claim_token e \<noteq> []"
    using assms by (auto simp: ready_def delivery_enabled_def claimed_entry_def)
  obtain a x db1 where b: "intent_of (ws_db st) (intent_id e) = Some x"
    "begin_attempt env ig e ?st0 = (Inr (Some (a, di_EffectKey x)), ?st0\<lparr>ws_db := db1\<rparr>)" "da_ID a = env_uuid env"
    "under_way db1 (env_uuid env) (claim_token e) (intent_id e) DS_Submitting" "db_queue db1 = db_queue (ws_db st)"
    using ready_begin[OF assms, of ?st0] by auto
  let ?rq = "build_request wk ig e (Some (a, di_EffectKey x))"
  define db2 where "db2 = (if q_SourceType e = Src_Automation \<and> ProviderSetsOwnMessageID (q_ProviderKind e)
      then snd (Upsert (history_message (env_now env) e [] None) db1) else db1)"
  have u2: "under_way db2 (env_uuid env) (claim_token e) (intent_id e) DS_Submitting"
    and q2: "db_queue db2 = db_queue (ws_db st)"
    using b(4,5) by (simp_all add: db2_def under_way_upsert upsert_keeps)
  have s: "processEntry env wk e st = call_provider env wk ig e (Some (a, di_EffectKey x)) (?st0\<lparr>ws_db := db2\<rparr>)"
    unfolding ready_process[OF assms] submit_entry_def b(2) by (simp add: upsert_calm[OF c] db2_def)
  have "left_as db2 (ws_db (processEntry env wk e st)) (env_uuid env) (claim_token e) (intent_id e)
      (answered_status ig e (env_answer env ?rq))"
    unfolding s using call_left[OF c, of "?st0\<lparr>ws_db := db2\<rparr>" a e "intent_id e"] u2 ne b(3) by simp
  then have "left_as (ws_db st) (ws_db (processEntry env wk e st)) (env_uuid env) (claim_token e) (intent_id e)
      (answered_status ig e (env_answer env ?rq))"
    using left_as_queue[OF q2] by simp
  moreover have "ws_calls (processEntry env wk e st) = ws_calls st @ [?rq]"
    by (simp add: s call_provider_calls)
  moreover have "rq_IdempotencyKey ?rq = di_EffectKey x" by (simp add: build_request_def)
  ultimately show ?thesis using b(1) by blast
qed

lemma sample_env_calm: "calm (sample_env u t ans)"
  by (simp add: calm_def sample_env_def)

definition sample_integration :: integration where
  "sample_integration = hd (wk_Integrations sample_workspace)"

text \<open>A connection that the provider closes without an answer reads as \<open>EOF\<close>: nothing is known
  about the message, but the worker takes the error as definite.\<close>

definition eof_error :: go_error where
  "eof_error = plain_error ''EOF''"

lemma sample_ready: "ready (sample_env ''a1'' 3 ans) sample_workspace sample_integration sample_entry sample_worker"
proof -
  have i: "GetIntegrationByID sample_workspace (q_IntegrationID sample_entry) = Some sample_integration"
    and b: "\<not> fst (icb_IsOpen 3 (q_IntegrationID sample_entry) (ws_breakers sample_worker))"
    and p: "p_AudienceEligibility (q_Payload sample_entry) = None"
    and wf: "db_wf (ws_db sample_worker)"
    and s: "intent_status (ws_db sample_worker) ''i1'' = Some DS_Queued"
    and u: "\<not> has_unresolved_attempt (ws_db sample_worker) ''i1''"
    and f: "\<not> sql_exists (\<lambda>a. da_ID a = ''a1'') (db_attempts (ws_db sample_worker))"
    and k: "provider_text (ep_Kind (ig_EmailProvider sample_integration)) \<noteq> []"
    and q: "sql_count (held_for ''i1'' (claim_token sample_entry)) (db_queue (ws_db sample_worker)) = 1"
    by code_simp+
  have "\<not> reply_guard_stops (sample_env ''a1'' 3 ans) sample_entry"
    by (simp add: reply_guard_stops_def sample_env_def)
  then show ?thesis
    unfolding ready_def sample_env_facts(2,3)
    using sample_env_calm[of "''a1''" 3 ans] sample_env_facts(1)[of "''a1''" 3 ans] i b p wf s u f k q
    by (simp add: sample_env_def)
qed

theorem answer_decides_outcome_witness:
  "intent_status (ws_db (processEntry (sample_env ''a1'' 3 (SendFailed eof_error)) sample_workspace sample_entry
     sample_worker)) ''i1'' = Some DS_TransientFailed"
proof -
  have "answered_status sample_integration sample_entry (SendFailed eof_error) = DS_TransientFailed" by code_simp
  then show ?thesis
    using answer_decides_outcome[OF sample_ready, of "SendFailed eof_error"]
    by (simp add: left_as_def sample_env_facts(2,3)) (auto simp: sample_env_def)
qed

section \<open>An open breaker uses up attempts\<close>

lemma fail_claim_row:
  assumes "q \<in> set (db_queue db)" and "owned_by k t q"
  shows "fail_row now msg nr q \<in> set (db_queue (snd (FailClaim now k t msg nr db)))"
  using assms by (force simp: FailClaim_def Let_def set_sql_update)

text \<open> While the breaker of its integration is open a claimed entry is put back through
  \<open>FailClaim\<close> and the provider is not called. The claim had counted an attempt, and unlike the
  unclaimed path nothing takes it back: a row whose last attempt was claimed while the breaker
  was open is put back as failed with a retry time at which no claim will ever take it, so
  the e-mail is lost without a single submission, and its intent stays where it was.\<close>

theorem open_breaker_burns_attempts:
  assumes "GetIntegrationByID wk (q_IntegrationID e) \<noteq> None"
    and "fst (icb_IsOpen (env_now env) (q_IntegrationID e) (ws_breakers st))"
    and "claimed_entry e" and "calm env"
    and "q \<in> set (db_queue (ws_db st))" and "owned_by (q_ID e) (claim_token e) q"
    and "q_Attempts q \<ge> q_MaxAttempts q"
  shows "let st' = processEntry env wk e st in
    ws_calls st' = ws_calls st \<and> intent_status (ws_db st') = intent_status (ws_db st) \<and>
    (\<exists>q' \<in> set (db_queue (ws_db st')). q_ID q' = q_ID q \<and> q_Status q' = QS_Failed \<and>
       q_NextRetryAt q' \<noteq> None \<and> q_Attempts q' = q_Attempts q \<and> (\<forall>t. \<not> claim_due t q'))"
proof -
  obtain brk where o: "icb_IsOpen (env_now env) (q_IntegrationID e) (ws_breakers st) = (True, brk)"
    using assms(2) by (metis prod.collapse)
  obtain ig where ig: "GetIntegrationByID wk (q_IntegrationID e) = Some ig" using assms(1) by blast
  have p: "processEntry env wk e st = defer_open_breaker env e (st\<lparr>ws_breakers := brk\<rparr>)"
    by (simp add: processEntry_def ig o)
  obtain nr where d: "defer_open_breaker env e (st\<lparr>ws_breakers := brk\<rparr>) = snd (repo_call env RC_FailClaim
      (FailClaim (env_dbnow env) (q_ID e) (claim_token e) breaker_text (Some nr)) (st\<lparr>ws_breakers := brk\<rparr>))"
    using assms(3) by (simp add: defer_open_breaker_def Let_def)
  let ?q' = "fail_row (env_dbnow env) breaker_text (Some nr) q"
  have db: "ws_db (processEntry env wk e st) = snd (FailClaim (env_dbnow env) (q_ID e) (claim_token e)
      breaker_text (Some nr) (ws_db st))"
    by (simp add: p d calm_call[OF assms(4)])
  have "?q' \<in> set (db_queue (ws_db (processEntry env wk e st)))"
    unfolding db by (rule fail_claim_row[OF assms(5,6)])
  moreover have "q_ID ?q' = q_ID q" "q_Status ?q' = QS_Failed" "q_NextRetryAt ?q' \<noteq> None"
    "q_Attempts ?q' = q_Attempts q" "\<forall>t. \<not> claim_due t ?q'"
    using assms(7) by (simp_all add: fail_row_def claim_due_def)
  moreover have "intent_status (ws_db (processEntry env wk e st)) = intent_status (ws_db st)"
    by (simp add: db FailClaim_def Let_def)
  moreover have "ws_calls (processEntry env wk e st) = ws_calls st" by (simp add: p)
  ultimately show ?thesis unfolding Let_def by blast
qed

definition sample_provider_down :: classified_error where
  "sample_provider_down = the (Classify (Some ''503'') SMTP)\<lparr>ce_type := ErrorTypeProvider\<rparr>"

definition sample_breaker_open :: worker_state where
  "sample_breaker_open = sample_worker\<lparr>
     ws_breakers := fold (\<lambda>t b. snd (icb_RecordFailure t ''int'' (Some sample_provider_down) b)) [1, 1, 1, 2, 2]
       (ws_breakers sample_worker),
     ws_db := (ws_db sample_worker)\<lparr>db_queue :=
       map (\<lambda>q. q\<lparr>q_Attempts := 3\<rparr>) (db_queue (ws_db sample_worker))\<rparr>\<rparr>"

theorem open_breaker_burns_attempts_witness:
  "let st' = processEntry (sample_env ''a1'' 3 Sent) sample_workspace sample_entry sample_breaker_open in
   ws_calls st' = ws_calls sample_breaker_open \<and>
   (\<exists>q' \<in> set (db_queue (ws_db st')). q_Status q' = QS_Failed \<and> q_NextRetryAt q' \<noteq> None \<and> (\<forall>t. \<not> claim_due t q'))"
proof -
  let ?q = "hd (db_queue (ws_db sample_breaker_open))"
  have h: "GetIntegrationByID sample_workspace (q_IntegrationID sample_entry) \<noteq> None"
    "claimed_entry sample_entry"
    "?q \<in> set (db_queue (ws_db sample_breaker_open))" "owned_by (q_ID sample_entry) (claim_token sample_entry) ?q"
    "q_Attempts ?q \<ge> q_MaxAttempts ?q"
    by code_simp+
  have "fst (icb_IsOpen 3 (q_IntegrationID sample_entry) (ws_breakers sample_breaker_open))" by code_simp
  then have o: "fst (icb_IsOpen (env_now (sample_env ''a1'' 3 Sent)) (q_IntegrationID sample_entry)
      (ws_breakers sample_breaker_open))" by (simp add: sample_env_def)
  show ?thesis
    using open_breaker_burns_attempts[OF h(1) o h(2) sample_env_calm h(3,4,5)] unfolding Let_def by blast
qed

section \<open>A retry cannot be suppressed or cancelled\<close>

lemma complete_claim_frame:
  "intent_status (snd (CompleteClaim k t at db)) = intent_status db"
  "intent_status (snd (FailClaim now k t msg nr db)) = intent_status db"
  by (simp_all add: CompleteClaim_def FailClaim_def Let_def)

lemma in_status_count_0: "intent_status db i = Some s \<Longrightarrow> db_wf db \<Longrightarrow> s \<noteq> t \<Longrightarrow> sql_count (in_status i t) (db_intents db) = 0"
proof -
  assume s: "intent_status db i = Some s" and wf: "db_wf db" and ne: "s \<noteq> t"
  obtain x where x: "intent_of db i = Some x" "di_Status x = s" using s by (auto simp: intent_status_def)
  have "\<not> in_status i t y" if "y \<in> set (db_intents db)" for y
  proof
    assume y: "in_status i t y"
    then have "di_ID y = di_ID x" using intent_of_SomeD[OF x(1)] by (simp add: in_status_def)
    then have "y = x" using wf that intent_of_SomeD[OF x(1)] unique_rowD[of di_ID "db_intents db" y x]
      by (simp add: db_wf_def)
    with y x ne show False by (simp add: in_status_def)
  qed
  then show ?thesis by (simp add: sql_count_0_iff)
qed

text \<open> The worker suppresses an intent whose contact no longer matches the audience, and
  cancels one whose journey was answered, only from the status \<open>queued\<close>. A claimed retry is
  \<open>transient_failed\<close>: the suppression is refused and the row goes back to the queue to be
  checked again, and on a reply the row is completed as confirmed while the intent stays
  \<open>transient_failed\<close>, neither cancelled nor ever submitted. On the first attempt both take
  effect.\<close>

theorem retries_escape_suppression:
  assumes "calm env" and "delivery_enabled env e" and "db_wf (ws_db st)"
    and "intent_status (ws_db st) (intent_id e) = Some s" and "s \<in> {DS_Queued, DS_TransientFailed}"
    and "q \<in> set (db_queue (ws_db st))" and "owned_by (q_ID e) (claim_token e) q"
  shows "intent_status (ws_db (suppress_for_audience env e st)) (intent_id e) =
      Some (if s = DS_Queued then DS_Suppressed else DS_TransientFailed) \<and>
    (\<exists>q' \<in> set (db_queue (ws_db (suppress_for_audience env e st))). q_ID q' = q_ID q \<and>
       (if s = DS_Queued then q_Status q' = QS_Confirmed
        else q_Status q' = QS_Failed \<and> q_NextRetryAt q' = Some (next_retry env e))) \<and>
    intent_status (ws_db (stop_on_reply env e st)) (intent_id e) =
      Some (if s = DS_Queued then DS_Cancelled else DS_TransientFailed) \<and>
    (\<exists>q' \<in> set (db_queue (ws_db (stop_on_reply env e st))). q_ID q' = q_ID q \<and> q_Status q' = QS_Confirmed)"
proof -
  let ?i = "intent_id e" and ?db = "ws_db st" and ?t = "claim_token e"
  note calm = calm_call[OF assms(1)]
  have cl: "claimed_entry e" using assms(2) by (simp add: delivery_enabled_def)
  have row: "complete_row at q \<in> set (db_queue (snd (CompleteClaim (q_ID e) ?t at db)))"
    if "db_queue db = db_queue ?db" for at db
    using assms(6,7) that by (force simp: CompleteClaim_def Let_def set_sql_update)
  have frow: "fail_row at msg nr q \<in> set (db_queue (snd (FailClaim at (q_ID e) ?t msg nr db)))"
    if "db_queue db = db_queue ?db" for at msg nr db
    using fail_claim_row[of q db "q_ID e" ?t] assms(6,7) that by simp
  have cr: "q_ID (complete_row at q) = q_ID q" "q_Status (complete_row at q) = QS_Confirmed" for at
    by (simp_all add: complete_row_def)
  have n: "sql_count (in_status ?i DS_Queued) (db_intents ?db) = (if s = DS_Queued then 1 else 0)"
    using count_in_status[OF assms(3,4)] in_status_count_0[OF assms(4,3), of DS_Queued] by auto
  define sup where "sup = snd (SuppressIntent ?i DS_Queued audience_reason (env_now env) ?db)"
  define tr where "tr = snd (TransitionIntent ?i DS_Queued DS_Cancelled (env_now env) ?db)"
  obtain x where x: "intent_of ?db ?i = Some x" "di_Status x = s" "di_ID x = ?i"
    using assms(4) intent_of_SomeD by (fastforce simp: intent_status_def)
  have st: "intent_status sup ?i = Some (if s = DS_Queued then DS_Suppressed else s)"
    "intent_status tr ?i = Some (if s = DS_Queued then DS_Cancelled else s)"
    "db_queue sup = db_queue ?db" "db_queue tr = db_queue ?db"
    using x by (auto simp: sup_def tr_def SuppressIntent_def TransitionIntent_def CanTransitionTo_iff
        intent_status_update in_status_def)
  have r: "fst (SuppressIntent ?i DS_Queued audience_reason (env_now env) ?db) = Inr (s = DS_Queued)"
    using n by (simp add: SuppressIntent_def)
  have a: "ws_db (suppress_for_audience env e st) =
      (if s = DS_Queued then snd (CompleteClaim (q_ID e) ?t (env_now env) sup)
       else snd (FailClaim (env_dbnow env) (q_ID e) ?t ''audience suppression transition was rejected''
              (Some (next_retry env e)) sup))"
    using r cl assms(2)
    by (auto simp: suppress_for_audience_def calm complete_entry_def deferAudienceEligibilityCheck_def
        retry_entry_def sup_def)
  have b: "ws_db (stop_on_reply env e st) = snd (CompleteClaim (q_ID e) ?t (env_now env) tr)"
    using cl assms(2) by (simp add: stop_on_reply_def Let_def calm complete_entry_def tr_def)
  have "\<exists>q' \<in> set (db_queue (ws_db (suppress_for_audience env e st))). q_ID q' = q_ID q \<and>
      (if s = DS_Queued then q_Status q' = QS_Confirmed
       else q_Status q' = QS_Failed \<and> q_NextRetryAt q' = Some (next_retry env e))"
  proof (cases "s = DS_Queued")
    case True
    then show ?thesis unfolding a by (simp, intro bexI[OF _ row[OF st(3)]]) (simp add: cr)
  next
    case False
    then show ?thesis unfolding a
      by (simp, intro bexI[OF _ frow[OF st(3)]]) (simp add: fail_row_def)
  qed
  moreover have "\<exists>q' \<in> set (db_queue (ws_db (stop_on_reply env e st))). q_ID q' = q_ID q \<and> q_Status q' = QS_Confirmed"
    unfolding b using row[OF st(4), of "env_now env"] cr by blast
  ultimately show ?thesis using st(1,2) assms(5) by (auto simp: a b complete_claim_frame)
qed

definition sample_retry :: worker_state where
  "sample_retry = sample_worker\<lparr>ws_db := fold run_op (take 5 sample_ops) empty_db\<rparr>"

definition sample_retry_entry :: queue_entry where
  "sample_retry_entry = (hd (db_queue (ws_db sample_retry)))\<lparr>q_IntegrationID := ''int''\<rparr>"

theorem retries_escape_suppression_witness:
  "intent_status (ws_db (suppress_for_audience (sample_env ''a2'' 7 Sent) sample_retry_entry sample_retry)) ''i1'' =
     Some DS_TransientFailed"
proof -
  let ?q = "hd (db_queue (ws_db sample_retry))"
  have f: "claim_token sample_retry_entry = ''t2'' \<and> q_DeliveryIntentID sample_retry_entry = Some ''i1''"
    and wf: "db_wf (ws_db sample_retry)"
    and s: "intent_status (ws_db sample_retry) ''i1'' = Some DS_TransientFailed"
    and q: "?q \<in> set (db_queue (ws_db sample_retry))" "owned_by (q_ID sample_retry_entry) ''t2'' ?q"
    by code_simp+
  have en: "delivery_enabled (sample_env ''a2'' 7 Sent) sample_retry_entry"
    using f by (simp add: delivery_enabled_def claimed_entry_def sample_env_def)
  have i: "intent_id sample_retry_entry = ''i1''" using f by (simp add: intent_id_def)
  show ?thesis
    using retries_escape_suppression[OF sample_env_calm en wf, of DS_TransientFailed ?q] s q f i by simp
qed

section \<open>An early receipt stops the worker's records\<close>

text \<open>C22. The provider's receipt may be ingested between its answer and the worker's record of it.
  If the receipt has moved the attempt on, the worker's first record is refused and it stops
  there: the provider's message id is not stored, the message history is not written and the
  callback is not called; the claim is not given back. After a receipt that says no more
  than \<open>accepted\<close> or \<open>sent\<close> the intent then stays \<open>provider_accepted\<close>, and the attempt
  without a provider message id by which a later receipt could find it.\<close>

theorem early_receipt_stops_records:
  assumes "env_fault env RC_RecordAccepted = Works"
    and "db = fold run_op (env_others env RC_RecordAccepted) (ws_db st)" and "db_wf db"
    and "attempt_view db (da_ID a) = Some (i, s)"
    and "s \<in> {DS_ProviderAccepted, DS_Confirmed, DS_TerminalFailed}"
  shows "confirm_delivery env wk e a pmid st = st\<lparr>ws_db := db\<rparr>"
proof -
  have no: "\<not> CanTransitionTo s DS_ProviderAccepted" using assms(5) by (auto simp: CanTransitionTo_iff)
  have refused: "\<exists>err. record_outcome_tx at dbnow (da_ID a) tok out db = (Inl err, db)"
    if "ao_Status out = DS_ProviderAccepted" for at dbnow tok out
  proof (cases "sql_find (\<lambda>x. da_ID x = da_ID a \<and> da_ClaimToken x = tok) (db_attempts db)")
    case None
    then show ?thesis by (simp add: record_outcome_tx_def)
  next
    case (Some x)
    then have x: "x \<in> set (db_attempts db)" "da_ID x = da_ID a" using sql_find_SomeD by fastforce+
    have "da_Status x = s" using attempt_view_row(1)[OF assms(3) x(1)] x(2) assms(4) by simp
    with Some no that show ?thesis by (simp add: record_outcome_tx_def)
  qed
  have "\<exists>err. RecordAttemptOutcome now dbnow (da_ID a) tok out db = (Inl err, db)"
    if "ao_Status out = DS_ProviderAccepted" for now dbnow tok out
    using refused[OF that] by (simp add: RecordAttemptOutcome_def Let_def) (metis in_tx_Inl)
  then obtain err where "RecordAttemptOutcome (env_now env) (env_dbnow env) (da_ID a) (claim_token e)
      \<lparr>ao_Status = DS_ProviderAccepted, ao_ProviderMessageID = pmid, ao_ErrorCategory = [],
       ao_ErrorCode = [], ao_ErrorDetail = [], ao_NextRetryAt = None, ao_OccurredAt = env_now env\<rparr> db = (Inl err, db)"
    by (metis delivery_attempt_outcome.select_convs(1))
  then show ?thesis
    using assms(1) by (simp add: confirm_delivery_def repo_call_def Let_def flip: assms(2))
qed

definition sample_receipt :: delivery_receipt where
  "sample_receipt = \<lparr>r_Provider = ''smtp'', r_ReceiptID = ''r1'', r_ProviderMessageID = [], r_MessageID = [],
     r_EffectKey = ''k1'', r_Event = RE_Sent, r_OccurredAt = 4, r_ReceivedAt = 4, r_ErrorCode = [],
     r_Metadata = [], r_PayloadHash = ''h''\<rparr>"

definition sample_early :: delivery_db where
  "sample_early = run_op (Op_RecordReceipts (\<lambda>_. ''h'') 4 4 [sample_receipt]) sample_submitting"

theorem early_receipt_stops_records_witness:
  "let env = (sample_env ''a1'' 4 (Submitted True ''pm''))\<lparr>env_others :=
       (\<lambda>c. if c = RC_RecordAccepted then [Op_RecordReceipts (\<lambda>_. ''h'') 4 4 [sample_receipt]] else [])\<rparr>;
     st = sample_worker\<lparr>ws_db := sample_submitting\<rparr>
   in confirm_delivery env sample_workspace sample_entry (hd (db_attempts sample_submitting)) ''pm'' st =
        st\<lparr>ws_db := sample_early\<rparr> \<and>
      intent_status sample_early ''i1'' = Some DS_ProviderAccepted \<and>
      map da_ProviderMessageID (db_attempts sample_early) = [[]] \<and> db_messages sample_early = []"
proof -
  let ?env = "(sample_env ''a1'' 4 (Submitted True ''pm''))\<lparr>env_others :=
       (\<lambda>c. if c = RC_RecordAccepted then [Op_RecordReceipts (\<lambda>_. ''h'') 4 4 [sample_receipt]] else [])\<rparr>"
  let ?st = "sample_worker\<lparr>ws_db := sample_submitting\<rparr>"
  have e: "env_fault ?env RC_RecordAccepted = Works"
    and d: "sample_early = fold run_op (env_others ?env RC_RecordAccepted) (ws_db ?st)"
    by (simp_all add: sample_env_def sample_early_def)
  have wf: "db_wf sample_early"
    and v: "attempt_view sample_early (da_ID (hd (db_attempts sample_submitting))) = Some (''i1'', DS_ProviderAccepted)"
    and f: "intent_status sample_early ''i1'' = Some DS_ProviderAccepted"
      "map da_ProviderMessageID (db_attempts sample_early) = [[]]" "db_messages sample_early = []"
    by code_simp+
  show ?thesis
    unfolding Let_def using early_receipt_stops_records[OF e d wf v] f by simp
qed

end
