(* ===== verification/Rate_Limiter.thy ===== *)
theory Rate_Limiter
  imports Go_Prelude
begin

text \<open>
  \<open>pkg/ratelimiter\<close>: the in-memory sliding-window limiter that guards the sign-in, SMTP
  and public endpoints. Attempts are kept per "namespace:key"; a policy is kept per
  namespace. The clock is an argument. One tick of the background goroutine is
  \<open>rl_cleanup\<close>. Every operation holds the limiter's mutex, so a run is a sequence of them.
\<close>

record rate_policy =
  rp_MaxAttempts :: int
  rp_Window :: duration

record rate_limiter =
  rl_attempts :: "string \<Rightarrow> instant list option"
  rl_policies :: "string \<Rightarrow> rate_policy option"
  rl_stopped :: bool

definition NewRateLimiter :: rate_limiter where
  "NewRateLimiter = \<lparr>rl_attempts = (\<lambda>_. None), rl_policies = (\<lambda>_. None), rl_stopped = False\<rparr>"

definition SetPolicy :: "string \<Rightarrow> int \<Rightarrow> duration \<Rightarrow> rate_limiter \<Rightarrow> rate_limiter" where
  "SetPolicy namespace maxAttempts window rl =
     rl\<lparr>rl_policies := (rl_policies rl)(namespace \<mapsto>
          \<lparr>rp_MaxAttempts = maxAttempts, rp_Window = window\<rparr>)\<rparr>"

definition composite_key :: "string \<Rightarrow> string \<Rightarrow> string" where
  "composite_key namespace key = namespace @ '':'' @ key"

text \<open>Indexing a Go map with a missing key gives the nil slice.\<close>

definition attempts_of :: "rate_limiter \<Rightarrow> string \<Rightarrow> instant list" where
  "attempts_of rl ck = (case rl_attempts rl ck of Some l \<Rightarrow> l | None \<Rightarrow> [])"

definition cutoff_of :: "instant \<Rightarrow> rate_policy \<Rightarrow> instant" where
  "cutoff_of now policy = now + wrap64 (- rp_Window policy)"

definition valid_attempts :: "instant \<Rightarrow> rate_policy \<Rightarrow> instant list \<Rightarrow> instant list" where
  "valid_attempts now policy l = filter (\<lambda>t. t > cutoff_of now policy) l"

definition rl_Allow :: "instant \<Rightarrow> string \<Rightarrow> string \<Rightarrow> rate_limiter \<Rightarrow> bool \<times> rate_limiter" where
  "rl_Allow now namespace key rl =
     (case rl_policies rl namespace of
        None \<Rightarrow> (False, rl)
      | Some policy \<Rightarrow>
          (let ck = composite_key namespace key;
               valid = valid_attempts now policy (attempts_of rl ck)
           in if int (length valid) \<ge> rp_MaxAttempts policy
              then (False, rl\<lparr>rl_attempts := (rl_attempts rl)(ck \<mapsto> valid)\<rparr>)
              else (True, rl\<lparr>rl_attempts := (rl_attempts rl)(ck \<mapsto> valid @ [now])\<rparr>)))"

definition rl_Reset :: "string \<Rightarrow> string \<Rightarrow> rate_limiter \<Rightarrow> rate_limiter" where
  "rl_Reset namespace key rl =
     rl\<lparr>rl_attempts := (rl_attempts rl)(composite_key namespace key := None)\<rparr>"

text \<open>The loop that looks for the oldest valid attempt, with the zero time as "none yet".\<close>

fun oldest_valid :: "instant \<Rightarrow> instant \<Rightarrow> instant list \<Rightarrow> instant" where
  "oldest_valid cutoff oldest [] = oldest"
| "oldest_valid cutoff oldest (t # ts) =
     oldest_valid cutoff
       (if t > cutoff \<and> (oldest = zero_time \<or> t < oldest) then t else oldest) ts"

text \<open>\<open>now'\<close> is the second reading of the clock, in \<open>time.Until\<close>. \<open>int(d.Seconds())\<close>
  is truncated division, exact in float64 for windows below \<open>2 ^ 22\<close> seconds.\<close>

definition rl_GetRemainingWindow ::
  "instant \<Rightarrow> instant \<Rightarrow> string \<Rightarrow> string \<Rightarrow> rate_limiter \<Rightarrow> int" where
  "rl_GetRemainingWindow now now' namespace key rl =
     (case rl_policies rl namespace of
        None \<Rightarrow> 0
      | Some policy \<Rightarrow>
          (let l = attempts_of rl (composite_key namespace key)
           in if l = [] then 0
              else (let oldest = oldest_valid (cutoff_of now policy) zero_time l
                    in if oldest = zero_time then 0
                       else (let remaining = time_sub (oldest + rp_Window policy) now'
                             in if remaining \<le> 0 then 0 else remaining div second + 1))))"

text \<open>The namespace the cleanup derives from a composite key: what precedes its first colon.\<close>

definition cleanup_namespace :: "string \<Rightarrow> string" where
  "cleanup_namespace ck = takeWhile (\<lambda>c. c \<noteq> CHR '':'') ck"

definition cleanup_entry ::
  "instant \<Rightarrow> (string \<Rightarrow> rate_policy option) \<Rightarrow> string \<Rightarrow> instant list \<Rightarrow> instant list option" where
  "cleanup_entry now policies ck l =
     (case policies (cleanup_namespace ck) of
        None \<Rightarrow> None
      | Some policy \<Rightarrow> if list_ex (\<lambda>t. t > cutoff_of now policy) l then Some l else None)"

definition rl_cleanup :: "instant \<Rightarrow> rate_limiter \<Rightarrow> rate_limiter" where
  "rl_cleanup now rl =
     rl\<lparr>rl_attempts := (\<lambda>ck. case rl_attempts rl ck of
          None \<Rightarrow> None | Some l \<Rightarrow> cleanup_entry now (rl_policies rl) ck l)\<rparr>"

definition rl_Stop :: "rate_limiter \<Rightarrow> rate_limiter" where
  "rl_Stop rl = (if \<not> rl_stopped rl then rl\<lparr>rl_stopped := True\<rparr> else rl)"

section \<open>Runs\<close>

datatype rl_op =
    Op_Allow string string
  | Op_Reset string string
  | Op_Cleanup
  | Op_Stop

text \<open>A run answers every \<open>Allow\<close>; the log records the time, the composite key and the answer.\<close>

fun rl_run ::
  "(instant \<times> rl_op) list \<Rightarrow> rate_limiter \<Rightarrow> (instant \<times> string \<times> bool) list \<times> rate_limiter" where
  "rl_run [] rl = ([], rl)"
| "rl_run ((t, Op_Allow ns k) # ops) rl =
     (let (b, rl') = rl_Allow t ns k rl; (l, rl'') = rl_run ops rl'
      in ((t, composite_key ns k, b) # l, rl''))"
| "rl_run ((t, Op_Reset ns k) # ops) rl = rl_run ops (rl_Reset ns k rl)"
| "rl_run ((t, Op_Cleanup) # ops) rl = rl_run ops (rl_cleanup t rl)"
| "rl_run ((t, Op_Stop) # ops) rl = rl_run ops (rl_Stop rl)"

definition granted :: "string \<Rightarrow> (instant \<times> string \<times> bool) list \<Rightarrow> instant list" where
  "granted ck log = map fst (filter (\<lambda>(t, c, b). c = ck \<and> b) log)"

definition in_window :: "duration \<Rightarrow> instant \<Rightarrow> instant list \<Rightarrow> nat" where
  "in_window W t l = length (filter (\<lambda>u. t - W < u \<and> u \<le> t) l)"

text \<open>
  The operations on one key: the calls for the namespace and key themselves, calls and
  resets for other composite keys, cleanups and stops. A reset of the key is excluded: it
  is meant to forget.
\<close>

fun rl_op_ok :: "string \<Rightarrow> string \<Rightarrow> rl_op \<Rightarrow> bool" where
  "rl_op_ok ns k (Op_Allow ns' k') = (ns' = ns \<and> k' = k \<or> composite_key ns' k' \<noteq> composite_key ns k)"
| "rl_op_ok ns k (Op_Reset ns' k') = (composite_key ns' k' \<noteq> composite_key ns k)"
| "rl_op_ok ns k Op_Cleanup = True"
| "rl_op_ok ns k Op_Stop = True"

lemma cleanup_namespace_composite [simp]:
  "CHR '':'' \<notin> set ns \<Longrightarrow> cleanup_namespace (composite_key ns k) = ns"
  by (auto simp: cleanup_namespace_def composite_key_def takeWhile_append2 takeWhile_tail)

lemma rl_Allow_policies [simp]: "rl_policies (snd (rl_Allow t ns k rl)) = rl_policies rl"
  by (auto simp: rl_Allow_def Let_def split: option.splits)

lemma rl_policies_simps [simp]:
  "rl_policies (rl_Reset ns k rl) = rl_policies rl"
  "rl_policies (rl_cleanup t rl) = rl_policies rl"
  "rl_policies (rl_Stop rl) = rl_policies rl"
  by (simp_all add: rl_Reset_def rl_cleanup_def rl_Stop_def)

lemma attempts_of_other:
  "composite_key ns k \<noteq> ck \<Longrightarrow> attempts_of (snd (rl_Allow t ns k rl)) ck = attempts_of rl ck"
  "composite_key ns k \<noteq> ck \<Longrightarrow> attempts_of (rl_Reset ns k rl) ck = attempts_of rl ck"
  "attempts_of (rl_Stop rl) ck = attempts_of rl ck"
  by (auto simp: rl_Allow_def rl_Reset_def rl_Stop_def attempts_of_def Let_def split: option.splits)

text \<open>A cleanup keeps what is still inside the window of a colon-free namespace.\<close>

lemma attempts_of_cleanup:
  assumes "rl_policies rl ns = Some p" and "CHR '':'' \<notin> set ns"
  shows "valid_attempts t p (attempts_of (rl_cleanup t rl) (composite_key ns k)) =
         valid_attempts t p (attempts_of rl (composite_key ns k))"
  using assms
  by (auto simp: rl_cleanup_def attempts_of_def cleanup_entry_def valid_attempts_def
      filter_empty_conv list_ex_iff split: option.splits)

lemma valid_attempts_mono:
  assumes "t \<le> t'" and "valid_attempts t p l = valid_attempts t p l'"
  shows "valid_attempts t' p l = valid_attempts t' p l'"
proof -
  have "valid_attempts t' p x = valid_attempts t' p (valid_attempts t p x)" for x
    using assms(1) by (auto simp: valid_attempts_def cutoff_of_def intro: filter_cong)
  then show ?thesis using assms(2) by metis
qed

definition limiter_inv ::
  "string \<Rightarrow> string \<Rightarrow> rate_policy \<Rightarrow> instant \<Rightarrow> instant list \<Rightarrow> rate_limiter \<Rightarrow> bool" where
  "limiter_inv ns k p now A rl \<longleftrightarrow>
     rl_policies rl ns = Some p \<and> (\<forall>u \<in> set A. u \<le> now) \<and>
     valid_attempts now p (attempts_of rl (composite_key ns k)) = valid_attempts now p A \<and>
     (\<forall>t. int (in_window (rp_Window p) t A) \<le> max 0 (rp_MaxAttempts p))"

lemma in_window_snoc:
  assumes "\<forall>u \<in> set A. u \<le> now" and "now \<le> t"
  shows "in_window W t A \<le> length (filter (\<lambda>u. now - W < u) A)"
proof -
  have "filter (\<lambda>u. t - W < u \<and> u \<le> t) A = filter (\<lambda>u. t - W < u \<and> u \<le> t) (filter (\<lambda>u. now - W < u) A)"
    using assms by (auto intro: filter_cong)
  then show ?thesis unfolding in_window_def by (metis length_filter_le)
qed

lemma limiter_inv_Allow:
  assumes "limiter_inv ns k p now A rl" and "now \<le> t" and "0 \<le> rp_Window p" and "in_int64 (rp_Window p)"
    and "rl_Allow t ns k rl = (b, rl')"
  shows "limiter_inv ns k p t (if b then A @ [t] else A) rl'"
proof -
  let ?ck = "composite_key ns k" and ?W = "rp_Window p"
  have pol: "rl_policies rl ns = Some p" and A: "\<forall>u \<in> set A. u \<le> now"
    and eq: "valid_attempts t p (attempts_of rl ?ck) = valid_attempts t p A"
    and win: "\<And>t. int (in_window ?W t A) \<le> max 0 (rp_MaxAttempts p)"
    using assms(1,2) valid_attempts_mono unfolding limiter_inv_def by blast+
  have cut: "cutoff_of t p = t - ?W"
    using assms(3,4) by (simp add: cutoff_of_def in_int64_def)
  have A': "\<forall>u \<in> set A. u \<le> t" using A assms(2) by force
  have idem: "valid_attempts t p (valid_attempts t p l) = valid_attempts t p l" for l
    by (simp add: valid_attempts_def)
  show ?thesis
  proof (cases b)
    case True
    then have len: "int (length (valid_attempts t p A)) < rp_MaxAttempts p"
      and rl': "attempts_of rl' ?ck = valid_attempts t p A @ [t]"
      using assms(5) pol eq
      by (auto simp: rl_Allow_def Let_def attempts_of_def split: if_splits option.splits)
    have "int (in_window ?W u (A @ [t])) \<le> max 0 (rp_MaxAttempts p)" for u
    proof (cases "t \<le> u")
      case True
      have "in_window ?W u (A @ [t]) \<le> in_window ?W u A + 1" by (simp add: in_window_def)
      also have "\<dots> \<le> length (valid_attempts t p A) + 1"
        using in_window_snoc[OF A' True, of ?W] by (simp add: valid_attempts_def cut)
      finally show ?thesis using len by linarith
    next
      case False
      then show ?thesis using win[of u] by (simp add: in_window_def)
    qed
    moreover have "valid_attempts t p (attempts_of rl' ?ck) = valid_attempts t p (A @ [t])"
      unfolding rl' by (simp add: valid_attempts_def)
    ultimately show ?thesis
      using True A' pol assms(5) rl_Allow_policies[of t ns k rl] by (auto simp: limiter_inv_def)
  next
    case False
    then have "attempts_of rl' ?ck = valid_attempts t p A"
      using assms(5) pol eq
      by (auto simp: rl_Allow_def Let_def attempts_of_def split: if_splits option.splits)
    then show ?thesis
      using False A' pol win assms(5) rl_Allow_policies[of t ns k rl] idem by (auto simp: limiter_inv_def)
  qed
qed

lemma limiter_inv_run:
  assumes "limiter_inv ns k p now A rl" and "0 \<le> rp_Window p" and "in_int64 (rp_Window p)"
    and "CHR '':'' \<notin> set ns" and "sorted (now # map fst ops)"
    and "list_all (\<lambda>(t, op). rl_op_ok ns k op) ops"
  shows "\<exists>now'. limiter_inv ns k p now' (A @ granted (composite_key ns k) (fst (rl_run ops rl)))
           (snd (rl_run ops rl))"
  using assms(1,5,6)
proof (induction ops arbitrary: now A rl)
  case Nil
  then show ?case by (auto simp: granted_def)
next
  case (Cons top ops)
  obtain t op where top: "top = (t, op)" by fastforce
  have le: "now \<le> t" and sorted: "sorted (t # map fst ops)"
    using Cons.prems(2) by (auto simp: top)
  have ok: "rl_op_ok ns k op" and oks: "list_all (\<lambda>(t, op). rl_op_ok ns k op) ops"
    using Cons.prems(3) by (auto simp: top)
  have advance: "limiter_inv ns k p t A rl1"
    if "rl_policies rl1 = rl_policies rl"
      "valid_attempts t p (attempts_of rl1 (composite_key ns k)) =
       valid_attempts t p (attempts_of rl (composite_key ns k))" for rl1
  proof -
    have A: "\<forall>u \<in> set A. u \<le> t"
      using Cons.prems(1) le unfolding limiter_inv_def by (meson order_trans)
    have "valid_attempts t p (attempts_of rl (composite_key ns k)) = valid_attempts t p A"
      using Cons.prems(1) valid_attempts_mono[OF le] unfolding limiter_inv_def by blast
    with that A Cons.prems(1) show ?thesis by (simp add: limiter_inv_def)
  qed
  have skip: ?case
    if "limiter_inv ns k p t A rl1" "rl_run (top # ops) rl = rl_run ops rl1" for rl1
    using Cons.IH[OF that(1) sorted oks] that(2) by simp
  show ?case
  proof (cases op)
    case (Op_Allow ns' k')
    obtain b rl1 where a: "rl_Allow t ns' k' rl = (b, rl1)" by fastforce
    show ?thesis
    proof (cases "composite_key ns' k' = composite_key ns k")
      case True
      then have same: "ns' = ns" "k' = k" using ok Op_Allow by auto
      from limiter_inv_Allow[OF Cons.prems(1) le assms(2,3) a[unfolded same]] Cons.IH sorted oks
      obtain now' where "limiter_inv ns k p now'
          ((if b then A @ [t] else A) @ granted (composite_key ns k) (fst (rl_run ops rl1)))
          (snd (rl_run ops rl1))" by blast
      moreover have "rl_run (top # ops) rl =
          ((t, composite_key ns k, b) # fst (rl_run ops rl1), snd (rl_run ops rl1))"
        using a same by (cases "rl_run ops rl1") (simp add: top Op_Allow)
      ultimately show ?thesis by (cases b) (auto simp: granted_def)
    next
      case False
      have "limiter_inv ns k p t A rl1"
        using rl_Allow_policies[of t ns' k' rl] attempts_of_other(1)[OF False, of t rl] a
        by (intro advance) auto
      from Cons.IH[OF this sorted oks] show ?thesis
        using False by (auto simp: top Op_Allow a granted_def Let_def split: prod.splits)
    qed
  next
    case (Op_Reset ns' k')
    with ok have "composite_key ns' k' \<noteq> composite_key ns k" by simp
    from attempts_of_other(2)[OF this, of rl] show ?thesis
      by (intro skip[OF advance]) (auto simp: top Op_Reset)
  next
    case Op_Cleanup
    show ?thesis
      using Cons.prems(1) assms(4)
      by (intro skip[OF advance]) (auto simp: top Op_Cleanup limiter_inv_def attempts_of_cleanup)
  next
    case Op_Stop
    show ?thesis by (intro skip[OF advance]) (auto simp: top Op_Stop attempts_of_other)
  qed
qed



text \<open> For a namespace that contains a colon (as \<open>subscribe:email\<close> and most namespaces
  \<open>internal/app/app.go\<close> registers), the cleanup looks its policy up under the part before
  the first colon, finds none, and deletes the attempts of the current window: the next call
  is granted although \<open>MaxAttempts\<close> were granted just before.\<close>

theorem cleanup_resets_colon_namespaces:
  assumes "rl_policies rl ns = Some p" and "CHR '':'' \<in> set ns"
    and "rl_policies rl (takeWhile (\<lambda>c. c \<noteq> CHR '':'') ns) = None" and "0 < rp_MaxAttempts p"
  shows "rl_attempts (rl_cleanup t rl) (composite_key ns k) = None \<and>
         fst (rl_Allow t' ns k (rl_cleanup t rl))"
proof -
  have "cleanup_namespace (composite_key ns k) = takeWhile (\<lambda>c. c \<noteq> CHR '':'') ns"
    using assms(2) by (auto simp: cleanup_namespace_def composite_key_def takeWhile_append1)
  then have gone: "rl_attempts (rl_cleanup t rl) (composite_key ns k) = None"
    using assms(3) by (auto simp: rl_cleanup_def cleanup_entry_def split: option.splits)
  moreover have "fst (rl_Allow t' ns k (rl_cleanup t rl))"
    using assms(1,4) gone by (simp add: rl_Allow_def attempts_of_def valid_attempts_def Let_def)
  ultimately show ?thesis ..
qed

theorem cleanup_resets_colon_namespaces_witness:
  "granted ''subscribe:email:x'' (fst (rl_run
      [(10, Op_Allow ''subscribe:email'' ''x''), (11, Op_Allow ''subscribe:email'' ''x''),
       (12, Op_Cleanup), (13, Op_Allow ''subscribe:email'' ''x'')]
      (SetPolicy ''subscribe:email'' 1 60 NewRateLimiter))) = [10, 13] \<and>
   fst (rl_Allow 13 ''subscribe:email'' ''x''
      (rl_cleanup 12 (SetPolicy ''subscribe:email'' 1 60 NewRateLimiter)))"
proof -
  have "fst (rl_Allow 13 ''subscribe:email'' ''x''
      (rl_cleanup 12 (SetPolicy ''subscribe:email'' 1 60 NewRateLimiter)))"
    using cleanup_resets_colon_namespaces[of "SetPolicy ''subscribe:email'' 1 60 NewRateLimiter"
        "''subscribe:email''" "\<lparr>rp_MaxAttempts = 1, rp_Window = 60\<rparr>" 12 "''x''" 13]
    by (simp add: SetPolicy_def NewRateLimiter_def)
  moreover have "granted ''subscribe:email:x'' (fst (rl_run
      [(10, Op_Allow ''subscribe:email'' ''x''), (11, Op_Allow ''subscribe:email'' ''x''),
       (12, Op_Cleanup), (13, Op_Allow ''subscribe:email'' ''x'')]
      (SetPolicy ''subscribe:email'' 1 60 NewRateLimiter))) = [10, 13]"
    by (simp add: granted_def rl_Allow_def SetPolicy_def NewRateLimiter_def rl_cleanup_def
        cleanup_entry_def cleanup_namespace_def composite_key_def attempts_of_def
        valid_attempts_def cutoff_of_def in_int64_def Let_def)
  ultimately show ?thesis by blast
qed

end
