(* ===== verification/Task_Store.thy ===== *)
theory Task_Store
  imports Complex_Main Go_Prelude "HOL-Library.Product_Lexorder"
begin

text \<open>
  The task table: the rows of \<open>internal/domain/task.go\<close> and the operations of
  \<open>internal/repository/task_postgres.go\<close>. Each operation is one transaction. \<open>now\<close> is the
  caller's clock in UTC. The timestamp columns have no time zone: a time that is not converted
  to UTC is stored as its wall clock. The texts that the repository puts around an error of
  another of its own operations are dropped: the error stands for itself.
\<close>

section \<open>Rows\<close>

datatype task_status =
  TS_Pending | TS_Running | TS_Completed | TS_Failed | TS_Paused | TS_Other string

text \<open>A \<open>float64\<close> that is stored, copied and never computed with.\<close>

type_synonym float64 = rat

record web_analytics_backfill_state =
  wb_FiltersVersion :: string
  wb_Partitions :: "string list"
  wb_PartitionIndex :: int
  wb_RowsUpdated :: int

record send_broadcast_state =
  sb_BroadcastID :: string
  sb_TotalRecipients :: int
  sb_EnqueuedCount :: int
  sb_FailedCount :: int
  sb_ChannelType :: string
  sb_RecipientOffset :: int
  sb_LastProcessedEmail :: string
  sb_Phase :: string
  sb_TestPhaseCompleted :: bool
  sb_TestPhaseRecipientCount :: int
  sb_WinnerPhaseRecipientCount :: int

record build_segment_state =
  bs_SegmentID :: string
  bs_Version :: int
  bs_TotalContacts :: int
  bs_ProcessedCount :: int
  bs_MatchedCount :: int
  bs_ContactOffset :: int
  bs_BatchSize :: int
  bs_StartedAt :: string

record integration_sync_state =
  is_IntegrationID :: string
  is_IntegrationType :: string
  is_Cursor :: string
  is_LastSyncAt :: "instant option"
  is_LastSuccessAt :: "instant option"
  is_EventsImported :: int
  is_LastEventCount :: int
  is_ConsecErrors :: int
  is_LastError :: "string option"
  is_LastErrorType :: string

record import_customers_state =
  ic_JobID :: string
  ic_ProcessedRows :: int
  ic_TotalRows :: int

record build_audience_state =
  ba_BuildID :: string
  ba_MemberCount :: int

record snapshot_campaign_state =
  sc_RunID :: string
  sc_BroadcastID :: string
  sc_SnapshotCount :: int

record task_state =
  tst_Progress :: float64
  tst_Message :: string
  tst_SendBroadcast :: "send_broadcast_state option"
  tst_BuildSegment :: "build_segment_state option"
  tst_IntegrationSync :: "integration_sync_state option"
  tst_WebAnalyticsBackfill :: "web_analytics_backfill_state option"
  tst_ImportCustomers :: "import_customers_state option"
  tst_BuildAudience :: "build_audience_state option"
  tst_SnapshotCampaign :: "snapshot_campaign_state option"

record task =
  t_ID :: string
  t_WorkspaceID :: string
  t_Type :: string
  t_Status :: task_status
  t_Progress :: float64
  t_State :: "task_state option"
  t_ErrorMessage :: "string option"
  t_CreatedAt :: instant
  t_UpdatedAt :: instant
  t_LastRunAt :: "instant option"
  t_CompletedAt :: "instant option"
  t_NextRunAfter :: "instant option"
  t_TimeoutAfter :: "instant option"
  t_MaxRuntime :: int
  t_MaxRetries :: int
  t_RetryCount :: int
  t_RetryInterval :: int
  t_BroadcastID :: "string option"
  t_RecurringInterval :: "int option"
  t_IntegrationID :: "string option"

definition IsRecurring :: "task \<Rightarrow> bool" where
  "IsRecurring t = (case t_RecurringInterval t of None \<Rightarrow> False | Some i \<Rightarrow> i > 0)"

text \<open>The errors of the repository: \<open>TE_NotFound\<close> is the text \<open>task not found\<close> that it makes
  afresh, \<open>TE_ErrTaskNotFound\<close> the sentinel \<open>domain.ErrTaskNotFound\<close>.\<close>

datatype task_error =
    TE_NotFound
  | TE_NotFoundForBroadcast string
  | TE_ErrTaskNotFound
  | TE_NotRunning
  | TE_AlreadyRunning string
  | TE_UniqueViolation
  | TE_BadLimit

type_synonym 'a task_op = "task list \<Rightarrow> (task_error + 'a) \<times> task list"

section \<open>Keys and indexes\<close>

text \<open>The primary key and the two partial unique indexes of the table.\<close>

definition active_task :: "task \<Rightarrow> bool" where
  "active_task t \<longleftrightarrow> t_Status t \<notin> {TS_Completed, TS_Failed}"

definition broadcast_keys :: "task list \<Rightarrow> (string \<times> string option) list" where
  "broadcast_keys db = map (\<lambda>t. (t_WorkspaceID t, t_BroadcastID t)) (filter (\<lambda>t. t_BroadcastID t \<noteq> None) db)"

definition integration_keys :: "task list \<Rightarrow> (string \<times> string option) list" where
  "integration_keys db = map (\<lambda>t. (t_WorkspaceID t, t_IntegrationID t))
     (filter (\<lambda>t. t_IntegrationID t \<noteq> None \<and> active_task t) db)"

definition task_indexes :: "task list \<Rightarrow> bool" where
  "task_indexes db \<longleftrightarrow> distinct (map t_ID db) \<and> distinct (broadcast_keys db) \<and> distinct (integration_keys db)"

definition hit_task :: "string \<Rightarrow> string \<Rightarrow> task \<Rightarrow> bool" where
  "hit_task ws k t \<longleftrightarrow> t_ID t = k \<and> t_WorkspaceID t = ws"

text \<open>\<open>UPDATE tasks SET f WHERE p\<close>: refused when it breaks an index; no row affected is the error
  \<open>e\<close>.\<close>

definition update_tasks :: "(task \<Rightarrow> bool) \<Rightarrow> (task \<Rightarrow> task) \<Rightarrow> task_error \<Rightarrow> unit task_op" where
  "update_tasks p f e db =
     (let db' = sql_update p f db
      in if \<not> task_indexes db' then (Inl TE_UniqueViolation, db)
         else if sql_count p db = 0 then (Inl e, db)
         else (Inr (), db'))"

section \<open>Operations\<close>

definition create_defaults :: "string \<Rightarrow> instant \<Rightarrow> task \<Rightarrow> task" where
  "create_defaults uid now t =
     (let t = (if t_ID t = [] then t\<lparr>t_ID := uid\<rparr> else t);
          t = t\<lparr>t_CreatedAt := now, t_UpdatedAt := now\<rparr>
      in if t_Status t = TS_Other [] then t\<lparr>t_Status := TS_Pending\<rparr> else t)"

definition TaskCreate :: "string \<Rightarrow> instant \<Rightarrow> string \<Rightarrow> task \<Rightarrow> unit task_op" where
  "TaskCreate uid now ws t db =
     (let db' = db @ [(create_defaults uid now t)\<lparr>t_WorkspaceID := ws\<rparr>]
      in if task_indexes db' then (Inr (), db') else (Inl TE_UniqueViolation, db))"

definition TaskGet :: "string \<Rightarrow> string \<Rightarrow> task task_op" where
  "TaskGet ws k db =
     (case sql_find (hit_task ws k) db of None \<Rightarrow> (Inl TE_NotFound, db) | Some t \<Rightarrow> (Inr t, db))"

definition GetTaskByBroadcastID :: "string \<Rightarrow> string \<Rightarrow> task task_op" where
  "GetTaskByBroadcastID ws b db =
     (case sql_find (\<lambda>t. t_WorkspaceID t = ws \<and> t_BroadcastID t = Some b \<and> t_Type t = ''send_broadcast'') db of
        None \<Rightarrow> (Inl (TE_NotFoundForBroadcast b), db) | Some t \<Rightarrow> (Inr t, db))"

definition GetTaskByIntegrationID :: "string \<Rightarrow> string \<Rightarrow> task task_op" where
  "GetTaskByIntegrationID ws i db =
     (case sql_find (\<lambda>t. t_WorkspaceID t = ws \<and> t_IntegrationID t = Some i \<and> active_task t) db of
        None \<Rightarrow> (Inl TE_ErrTaskNotFound, db) | Some t \<Rightarrow> (Inr t, db))"

text \<open>An update writes every column of the row but its key and \<open>created_at\<close>.\<close>

definition TaskUpdate :: "instant \<Rightarrow> string \<Rightarrow> task \<Rightarrow> unit task_op" where
  "TaskUpdate now ws t db =
     update_tasks (hit_task ws (t_ID t))
       (\<lambda>r. t\<lparr>t_WorkspaceID := t_WorkspaceID r, t_CreatedAt := t_CreatedAt r, t_UpdatedAt := now\<rparr>) TE_NotFound db"

definition TaskDelete :: "string \<Rightarrow> string \<Rightarrow> unit task_op" where
  "TaskDelete ws k db =
     (if sql_count (hit_task ws k) db = 0 then (Inl TE_NotFound, db)
      else (Inr (), sql_delete (hit_task ws k) db))"

definition TaskDeleteAll :: "string \<Rightarrow> unit task_op" where
  "TaskDeleteAll ws db = (Inr (), sql_delete (\<lambda>t. t_WorkspaceID t = ws) db)"

record task_filter =
  tf_Status :: "task_status list"
  tf_Type :: "string list"
  tf_CreatedAfter :: "instant option"
  tf_CreatedBefore :: "instant option"
  tf_Limit :: int
  tf_Offset :: int

definition filter_task :: "string \<Rightarrow> task_filter \<Rightarrow> task \<Rightarrow> bool" where
  "filter_task ws fl t \<longleftrightarrow> t_WorkspaceID t = ws \<and>
     (tf_Status fl = [] \<or> t_Status t \<in> set (tf_Status fl)) \<and>
     (tf_Type fl = [] \<or> t_Type t \<in> set (tf_Type fl)) \<and>
     (case tf_CreatedAfter fl of None \<Rightarrow> True | Some a \<Rightarrow> t_CreatedAt t \<ge> a) \<and>
     (case tf_CreatedBefore fl of None \<Rightarrow> True | Some b \<Rightarrow> t_CreatedAt t \<le> b)"

text \<open>A negative limit becomes a number that the database refuses.\<close>

definition TaskList :: "string \<Rightarrow> task_filter \<Rightarrow> (task list \<times> nat) task_op" where
  "TaskList ws fl db =
     (let rows = filter (filter_task ws fl) db
      in if tf_Limit fl < 0 then (Inl TE_BadLimit, db)
         else (Inr (take (nat (tf_Limit fl)) (drop (nat (tf_Offset fl)) (sort_key (\<lambda>t. - t_CreatedAt t) rows)),
                    length rows), db))"

definition elapsed :: "instant \<Rightarrow> instant option \<Rightarrow> bool" where
  "elapsed now t = (case t of None \<Rightarrow> False | Some u \<Rightarrow> u \<le> now)"

definition dispatchable :: "instant \<Rightarrow> task \<Rightarrow> bool" where
  "dispatchable now t \<longleftrightarrow>
     (t_Status t = TS_Pending \<and> (t_NextRunAfter t = None \<or> elapsed now (t_NextRunAfter t))) \<or>
     (t_Status t = TS_Paused \<and> elapsed now (t_NextRunAfter t)) \<or>
     (t_Status t = TS_Running \<and> elapsed now (t_TimeoutAfter t))"

text \<open>\<open>ORDER BY next_run_after NULLS FIRST, created_at\<close>.\<close>

definition batch_rank :: "task \<Rightarrow> (int \<times> int) \<times> int" where
  "batch_rank t = ((case t_NextRunAfter t of None \<Rightarrow> (0, 0) | Some u \<Rightarrow> (1, u)), t_CreatedAt t)"

definition GetNextBatch :: "instant \<Rightarrow> (string \<Rightarrow> bool) \<Rightarrow> int \<Rightarrow> task list task_op" where
  "GetNextBatch now locked limit db =
     (if limit < 0 then (Inl TE_BadLimit, db)
      else (Inr (take (nat limit) (filter (\<lambda>t. \<not> locked (t_ID t))
             (sort_key batch_rank (filter (dispatchable now) db)))), db))"

text \<open>A state saved for a task that no longer runs is dropped without an error.\<close>

definition SaveState :: "instant \<Rightarrow> string \<Rightarrow> string \<Rightarrow> float64 \<Rightarrow> task_state option \<Rightarrow> unit task_op" where
  "SaveState now ws k progress state db =
     (Inr (), sql_update (\<lambda>t. hit_task ws k t \<and> t_Status t = TS_Running)
        (\<lambda>t. t\<lparr>t_Progress := progress, t_State := state, t_UpdatedAt := now\<rparr>) db)"

definition startable :: "instant \<Rightarrow> task \<Rightarrow> bool" where
  "startable now t \<longleftrightarrow> t_Status t = TS_Pending \<or> t_Status t = TS_Paused \<or>
     (t_Status t = TS_Running \<and> elapsed now (t_TimeoutAfter t))"

definition MarkAsRunning :: "instant \<Rightarrow> string \<Rightarrow> string \<Rightarrow> instant \<Rightarrow> unit task_op" where
  "MarkAsRunning now ws k timeoutAfter =
     update_tasks (\<lambda>t. hit_task ws k t \<and> startable now t)
       (\<lambda>t. t\<lparr>t_Status := TS_Running, t_UpdatedAt := now, t_LastRunAt := Some now,
              t_TimeoutAfter := Some timeoutAfter, t_ErrorMessage := None\<rparr>)
       (TE_AlreadyRunning k)"

definition MarkAsCompleted :: "instant \<Rightarrow> string \<Rightarrow> string \<Rightarrow> task_state option \<Rightarrow> unit task_op" where
  "MarkAsCompleted now ws k state =
     update_tasks (hit_task ws k)
       (\<lambda>t. t\<lparr>t_Status := TS_Completed, t_Progress := 100, t_State := state, t_ErrorMessage := None,
              t_UpdatedAt := now, t_CompletedAt := Some now, t_TimeoutAfter := None\<rparr>)
       TE_NotFound"

definition retry_delay :: "task \<Rightarrow> duration" where
  "retry_delay t = wrap64 (t_RetryInterval t * second)"

definition failed_row :: "instant \<Rightarrow> string \<Rightarrow> bool \<Rightarrow> duration \<Rightarrow> task \<Rightarrow> task" where
  "failed_row now msg retry delay t = t\<lparr>
     t_Status := (if retry then TS_Pending else TS_Failed), t_ErrorMessage := Some msg, t_UpdatedAt := now,
     t_RetryCount := t_RetryCount t + 1, t_NextRunAfter := (if retry then Some (now + delay) else None),
     t_TimeoutAfter := None\<rparr>"

definition TaskMarkAsFailed :: "instant \<Rightarrow> string \<Rightarrow> string \<Rightarrow> string \<Rightarrow> unit task_op" where
  "TaskMarkAsFailed now ws k msg db =
     (case TaskGet ws k db of
        (Inl e, db1) \<Rightarrow> (Inl e, db)
      | (Inr t, db1) \<Rightarrow>
          update_tasks (hit_task ws k)
            (failed_row now msg (t_RetryCount t < t_MaxRetries t) (retry_delay t)) TE_NotFound db)"

definition MarkAsPaused ::
    "instant \<Rightarrow> string \<Rightarrow> string \<Rightarrow> instant \<Rightarrow> float64 \<Rightarrow> task_state option \<Rightarrow> unit task_op" where
  "MarkAsPaused now ws k nextRunAfter progress state =
     update_tasks (hit_task ws k)
       (\<lambda>t. t\<lparr>t_Status := TS_Paused, t_Progress := progress, t_State := state, t_UpdatedAt := now,
              t_NextRunAfter := Some nextRunAfter, t_TimeoutAfter := None\<rparr>)
       TE_NotFound"

definition MarkAsPending ::
    "instant \<Rightarrow> string \<Rightarrow> string \<Rightarrow> instant \<Rightarrow> float64 \<Rightarrow> task_state option \<Rightarrow> unit task_op" where
  "MarkAsPending now ws k nextRunAfter progress state =
     update_tasks (hit_task ws k)
       (\<lambda>t. t\<lparr>t_Status := TS_Pending, t_Progress := progress, t_State := state, t_UpdatedAt := now,
              t_NextRunAfter := Some nextRunAfter, t_TimeoutAfter := None, t_RetryCount := 0\<rparr>)
       TE_NotFound"

definition ReleaseTask :: "instant \<Rightarrow> string \<Rightarrow> string \<Rightarrow> string \<Rightarrow> instant \<Rightarrow> unit task_op" where
  "ReleaseTask now ws k reason nextRunAfter =
     update_tasks (\<lambda>t. hit_task ws k t \<and> t_Status t = TS_Running)
       (\<lambda>t. t\<lparr>t_Status := TS_Pending, t_ErrorMessage := Some reason, t_UpdatedAt := now,
              t_NextRunAfter := Some nextRunAfter, t_TimeoutAfter := None\<rparr>)
       TE_NotRunning"

end
