(* ===== verification/Task_Engine.thy ===== *)
theory Task_Engine
  imports Task_Store
begin

text \<open>
  The task engine, \<open>internal/service/task_service.go\<close>: creation, one execution of a task from
  claim to recorded end, the handlers of the broadcast events, and the reset and trigger of
  recurring tasks. An execution is two transactions with the processor's run between them:
  \<open>exec_begin\<close> claims the row, \<open>exec_finish\<close> records how the run ended. The processors are
  parameters: which types are registered, and for each run its end and the task as the
  processor left it in memory. Tracing, logging and HTTP transport are not modelled.
\<close>

section \<open>Errors\<close>

datatype exec_error =
    XE_ContextDone
  | XE_Canceled
  | XE_DeadlineExceeded
  | XE_TaskNotFound string
  | XE_NoProcessor string
  | XE_Repo task_error
  | XE_Processor string bool   \<comment> \<open>the text; whether the chain holds \<open>context.Canceled\<close>\<close>
  | XE_Execution string string exec_error
  | XE_Wrapped string exec_error
  | XE_NotFailed task_status
  | XE_NotRecurring
  | XE_CannotTrigger task_status
  | XE_Panicked

fun task_error_text :: "task_error \<Rightarrow> string" where
  "task_error_text TE_NotFound = ''task not found''"
| "task_error_text (TE_NotFoundForBroadcast b) = ''task not found for broadcast ID '' @ b"
| "task_error_text TE_ErrTaskNotFound = ''task not found''"
| "task_error_text TE_NotRunning = ''task is no longer running''"
| "task_error_text (TE_AlreadyRunning k) = ''task already running ['' @ k @ '']''"
| "task_error_text TE_UniqueViolation = ''duplicate key value violates unique constraint''"
| "task_error_text TE_BadLimit = ''value out of range for type bigint''"

fun task_status_text :: "task_status \<Rightarrow> string" where
  "task_status_text TS_Pending = ''pending''"
| "task_status_text TS_Running = ''running''"
| "task_status_text TS_Completed = ''completed''"
| "task_status_text TS_Failed = ''failed''"
| "task_status_text TS_Paused = ''paused''"
| "task_status_text (TS_Other s) = s"

fun exec_error_text :: "exec_error \<Rightarrow> string" where
  "exec_error_text XE_ContextDone = ''context canceled''"
| "exec_error_text XE_Canceled = ''context canceled''"
| "exec_error_text XE_DeadlineExceeded = ''context deadline exceeded''"
| "exec_error_text (XE_TaskNotFound k) = ''task not found with ID: '' @ k"
| "exec_error_text (XE_NoProcessor ty) = ''no processor registered for task type: '' @ ty"
| "exec_error_text (XE_Repo e) = task_error_text e"
| "exec_error_text (XE_Processor s _) = s"
| "exec_error_text (XE_Execution k reason e) =
     ''task execution failed ['' @ k @ '']: '' @ reason @ '' - '' @ exec_error_text e"
| "exec_error_text (XE_Wrapped s e) = s @ '': '' @ exec_error_text e"
| "exec_error_text (XE_NotFailed s) = ''task is not in failed state, current status: '' @ task_status_text s"
| "exec_error_text XE_NotRecurring = ''task is not a recurring task''"
| "exec_error_text (XE_CannotTrigger s) = ''task cannot be triggered in current status: '' @ task_status_text s"
| "exec_error_text XE_Panicked = ''invalid argument to Int63n''"

text \<open>\<open>errors.Is(err, context.Canceled)\<close>, following the chain.\<close>

fun is_canceled :: "exec_error \<Rightarrow> bool" where
  "is_canceled XE_ContextDone = True"
| "is_canceled XE_Canceled = True"
| "is_canceled (XE_Processor _ c) = c"
| "is_canceled (XE_Execution _ _ e) = is_canceled e"
| "is_canceled (XE_Wrapped _ e) = is_canceled e"
| "is_canceled _ = False"

section \<open>Processors and creation\<close>

definition getTaskTypes :: "string list" where
  "getTaskTypes = [''import_contacts'', ''import_customers'', ''build_audience'', ''snapshot_campaign'',
     ''export_contacts'', ''send_broadcast'', ''generate_report'', ''build_segment'',
     ''process_contact_segment_queue'', ''check_segment_recompute'', ''sync_integration'',
     ''web_analytics_backfill'']"

text \<open>The processors registered by type; registering one overrides earlier ones of its types.\<close>

definition RegisterProcessor :: "'p \<Rightarrow> (string \<Rightarrow> bool) \<Rightarrow> (string \<rightharpoonup> 'p) \<Rightarrow> (string \<rightharpoonup> 'p)" where
  "RegisterProcessor p canProcess procs =
     fold (\<lambda>ty m. if canProcess ty then m(ty \<mapsto> p) else m) getTaskTypes procs"

definition defaultMaxTaskRuntime :: int where "defaultMaxTaskRuntime = 50"
definition taskExecutionGrace :: duration where "taskExecutionGrace = 30 * second"
definition dispatchResponseMargin :: duration where "dispatchResponseMargin = 10 * second"

definition dispatchTimeout :: "task \<Rightarrow> duration" where
  "dispatchTimeout t =
     (let maxRuntime = (if t_MaxRuntime t \<le> 0 then defaultMaxTaskRuntime else t_MaxRuntime t)
      in wrap64 (wrap64 (maxRuntime * second) + taskExecutionGrace + dispatchResponseMargin))"

definition task_defaults :: "task \<Rightarrow> task" where
  "task_defaults t =
     (let t = (if t_MaxRuntime t \<le> 0 then t\<lparr>t_MaxRuntime := defaultMaxTaskRuntime\<rparr> else t);
          t = (if t_MaxRetries t \<le> 0 then t\<lparr>t_MaxRetries := 3\<rparr> else t)
      in if t_RetryInterval t \<le> 0 then t\<lparr>t_RetryInterval := 60\<rparr> else t)"

definition CreateTask :: "string \<Rightarrow> instant \<Rightarrow> string \<Rightarrow> task \<Rightarrow> unit task_op" where
  "CreateTask uid now ws t = TaskCreate uid now ws (task_defaults t)"

text \<open>The request of the API.\<close>

record create_task_request =
  cr_WorkspaceID :: string
  cr_Type :: string
  cr_State :: "task_state option"
  cr_MaxRuntime :: int
  cr_MaxRetries :: int
  cr_RetryInterval :: int
  cr_NextRunAfter :: "instant option"
  cr_RecurringInterval :: "int option"
  cr_IntegrationID :: "string option"

definition new_task :: "string \<Rightarrow> string \<Rightarrow> instant \<Rightarrow> task" where
  "new_task ws ty now = \<lparr>t_ID = [], t_WorkspaceID = ws, t_Type = ty, t_Status = TS_Pending, t_Progress = 0,
     t_State = None, t_ErrorMessage = None, t_CreatedAt = now, t_UpdatedAt = now, t_LastRunAt = None,
     t_CompletedAt = None, t_NextRunAfter = None, t_TimeoutAfter = None, t_MaxRuntime = 0, t_MaxRetries = 0,
     t_RetryCount = 0, t_RetryInterval = 0, t_BroadcastID = None, t_RecurringInterval = None,
     t_IntegrationID = None\<rparr>"

definition CreateTaskRequest_Validate :: "instant \<Rightarrow> create_task_request \<Rightarrow> string + task" where
  "CreateTaskRequest_Validate now r =
     (if cr_WorkspaceID r = [] then Inl ''workspace_id is required''
      else if cr_Type r = [] then Inl ''task type is required''
      else Inr ((new_task (cr_WorkspaceID r) (cr_Type r) now)\<lparr>t_State := cr_State r,
        t_MaxRuntime := (if cr_MaxRuntime r \<le> 0 then 50 else cr_MaxRuntime r),
        t_MaxRetries := (if cr_MaxRetries r \<le> 0 then 3 else cr_MaxRetries r),
        t_RetryInterval := (if cr_RetryInterval r \<le> 0 then 300 else cr_RetryInterval r),
        t_NextRunAfter := cr_NextRunAfter r, t_RecurringInterval := cr_RecurringInterval r,
        t_IntegrationID := cr_IntegrationID r\<rparr>))"

section \<open>One execution\<close>

text \<open>The claim. The lease written is the task's timeout plus the grace; the task handed to the
  processor is the row as it was read, with its own timeout.\<close>

definition exec_begin ::
    "(string \<rightharpoonup> 'p) \<Rightarrow> instant \<Rightarrow> string \<Rightarrow> string \<Rightarrow> instant \<Rightarrow> task list \<Rightarrow>
     (exec_error + task) \<times> task list" where
  "exec_begin procs now ws k timeoutAt = in_tx (\<lambda>db.
     case TaskGet ws k db of
       (Inl _, db1) \<Rightarrow> (Inl (XE_TaskNotFound k), db1)
     | (Inr t, db1) \<Rightarrow>
         if procs (t_Type t) = None
         then (Inl (XE_Execution k ''no processor registered for task type'' (XE_NoProcessor (t_Type t))), db1)
         else
           (case MarkAsRunning now ws k (timeoutAt + taskExecutionGrace) db1 of
              (Inl e, db2) \<Rightarrow> (Inl (XE_Execution k ''failed to mark task as running'' (XE_Repo e)), db2)
            | (Inr _, db2) \<Rightarrow> (Inr (t\<lparr>t_TimeoutAfter := Some timeoutAt\<rparr>), db2)))"

text \<open>How the wait for a run ends: the context is cancelled or its deadline fires while the
  processor still runs; the processor returns; or it returns an error (or panics, or finds the
  context done), with the context then cancelled or not.\<close>

datatype run_end =
    Ctx_Canceled
  | Ctx_Deadline
  | Finished bool
  | Errored exec_error bool

definition go_div :: "int \<Rightarrow> int \<Rightarrow> int" where
  "go_div a b = (if a < 0 then - ((- a) div b) else a div b)"

text \<open>The interval of the next run, with the backoff of the consecutive errors. A jitter is drawn
  below a tenth of it; the draw panics when that is not positive.\<close>

definition backoff_seconds :: "int \<Rightarrow> int" where
  "backoff_seconds errors = (let b = wrap64 (errors * errors * 10) in if b > 3600 then 3600 else b)"

definition recurring_seconds :: "task \<Rightarrow> int" where
  "recurring_seconds t =
     (let interval = (case t_RecurringInterval t of None \<Rightarrow> 0 | Some i \<Rightarrow> i)
      in case t_State t of
           None \<Rightarrow> interval
         | Some st \<Rightarrow>
             (case tst_IntegrationSync st of
                None \<Rightarrow> interval
              | Some sy \<Rightarrow> if is_ConsecErrors sy > 0
                          then wrap64 (interval + backoff_seconds (is_ConsecErrors sy)) else interval))"

definition jitter_bound :: "task \<Rightarrow> int" where
  "jitter_bound t = go_div (recurring_seconds t) 10 + 1"

definition next_recurring_run :: "instant \<Rightarrow> int \<Rightarrow> task \<Rightarrow> instant option" where
  "next_recurring_run now draw t =
     (if jitter_bound t \<le> 0 then None
      else Some (now + wrap64 (wrap64 (recurring_seconds t * second) + wrap64 (draw * second))))"

definition exec_finish ::
    "instant \<Rightarrow> int \<Rightarrow> string \<Rightarrow> string \<Rightarrow> task \<Rightarrow> run_end \<Rightarrow> task list \<Rightarrow> (exec_error + unit) \<times> task list" where
  "exec_finish now draw ws k t fin db =
     (case fin of
        Ctx_Canceled \<Rightarrow>
          let interrupted = XE_Execution k ''execution interrupted'' XE_Canceled in
          (case ReleaseTask now ws k (exec_error_text interrupted) (now + taskExecutionGrace) db of
             (Inl e, db1) \<Rightarrow>
               if e = TE_NotRunning then (Inl interrupted, db1)
               else (Inl (XE_Wrapped ''failed to release interrupted task'' (XE_Repo e)), db1)
           | (Inr _, db1) \<Rightarrow> (Inl interrupted, db1))
      | Ctx_Deadline \<Rightarrow>
          let timedOut = XE_Execution k ''execution exceeded timeout and grace'' XE_DeadlineExceeded in
          (case TaskMarkAsFailed now ws k (exec_error_text timedOut) db of
             (Inl e, db1) \<Rightarrow> (Inl (XE_Wrapped ''failed to mark timed-out task as failed'' (XE_Repo e)), db1)
           | (Inr _, db1) \<Rightarrow> (Inl timedOut, db1))
      | Finished True \<Rightarrow>
          if IsRecurring t then
            (case next_recurring_run now draw t of
               None \<Rightarrow> (Inl XE_Panicked, db)
             | Some nextRun \<Rightarrow>
                 (case MarkAsPending now ws k nextRun 0 (t_State t) db of
                    (Inl e, db1) \<Rightarrow>
                      if e = TE_ErrTaskNotFound then (Inr (), db1)
                      else (Inl (XE_Execution k ''failed to reschedule recurring task'' (XE_Repo e)), db1)
                  | (Inr _, db1) \<Rightarrow> (Inr (), db1)))
          else
            (case MarkAsCompleted now ws k (t_State t) db of
               (Inl e, db1) \<Rightarrow> (Inl (XE_Execution k ''failed to mark task as completed'' (XE_Repo e)), db1)
             | (Inr _, db1) \<Rightarrow> (Inr (), db1))
      | Finished False \<Rightarrow>
          (case MarkAsPending now (t_WorkspaceID t) (t_ID t) now (t_Progress t) (t_State t) db of
             (Inl e, db1) \<Rightarrow> (Inl (XE_Execution k ''failed to mark task as pending'' (XE_Repo e)), db1)
           | (Inr _, db1) \<Rightarrow> (Inr (), db1))
      | Errored err ctxCanceled \<Rightarrow>
          if is_canceled err \<or> ctxCanceled then
            (case ReleaseTask now ws k (exec_error_text err) now db of
               (Inl e, db1) \<Rightarrow>
                 if e = TE_NotRunning then (Inl err, db1)
                 else (Inl (XE_Wrapped ''failed to release interrupted task'' (XE_Repo e)), db1)
             | (Inr _, db1) \<Rightarrow> (Inl err, db1))
          else
            (case TaskMarkAsFailed now ws k (exec_error_text err) db of
               (Inl e, db1) \<Rightarrow> (Inl (XE_Wrapped ''failed to mark task as failed'' (XE_Repo e)), db1)
             | (Inr _, db1) \<Rightarrow> (Inl err, db1)))"

text \<open>The executions a scheduler tick starts in this process: the batch, each task with its own
  timeout from the same clock value.\<close>

definition ExecutePendingTasks ::
    "instant \<Rightarrow> (string \<Rightarrow> bool) \<Rightarrow> int \<Rightarrow> task list \<Rightarrow> task_error + (string \<times> string \<times> instant) list" where
  "ExecutePendingTasks now locked maxTasks db =
     (case fst (GetNextBatch now locked (if maxTasks \<le> 0 then 100 else maxTasks) db) of
        Inl e \<Rightarrow> Inl e
      | Inr ts \<Rightarrow> Inr (map (\<lambda>t. (t_WorkspaceID t, t_ID t, now + wrap64 (t_MaxRuntime t * second))) ts))"

section \<open>Broadcast events\<close>

definition new_broadcast_task :: "string \<Rightarrow> string \<Rightarrow> instant \<Rightarrow> task" where
  "new_broadcast_task ws b now = (new_task ws ''send_broadcast'' now)\<lparr>
     t_BroadcastID := Some b,
     t_State := Some \<lparr>tst_Progress = 0, tst_Message = ''Starting broadcast'',
       tst_SendBroadcast = Some \<lparr>sb_BroadcastID = b, sb_TotalRecipients = 0, sb_EnqueuedCount = 0,
         sb_FailedCount = 0, sb_ChannelType = ''email'', sb_RecipientOffset = 0, sb_LastProcessedEmail = [],
         sb_Phase = [], sb_TestPhaseCompleted = False, sb_TestPhaseRecipientCount = 0,
         sb_WinnerPhaseRecipientCount = 0\<rparr>,
       tst_BuildSegment = None, tst_IntegrationSync = None, tst_WebAnalyticsBackfill = None,
       tst_ImportCustomers = None, tst_BuildAudience = None, tst_SnapshotCampaign = None\<rparr>,
     t_MaxRuntime := 50, t_MaxRetries := 3, t_RetryInterval := 300\<rparr>"

text \<open>The scheduling event. The existing task of a broadcast that is sent at once gets the local
  time: \<open>zone\<close> is what the local wall clock is ahead of UTC, and it is what the column then
  holds. A new task's time is converted. The result says whether the tasks are executed at
  once.\<close>

definition handleBroadcastScheduled ::
    "string \<Rightarrow> instant \<Rightarrow> duration \<Rightarrow> string \<Rightarrow> string \<Rightarrow> bool \<Rightarrow> string \<Rightarrow> instant option \<Rightarrow> task list \<Rightarrow>
     bool \<times> task list" where
  "handleBroadcastScheduled uid now zone ws b sendNow status scheduledTime db =
     (let atOnce = sendNow \<and> status = ''processing''
      in case fst (GetTaskByBroadcastID ws b db) of
           Inr t \<Rightarrow>
             if atOnce then
               (case TaskUpdate now ws (t\<lparr>t_NextRunAfter := Some (now + zone), t_Status := TS_Pending,
                    t_BroadcastID := (if t_BroadcastID t = None then Some b else t_BroadcastID t)\<rparr>) db of
                  (Inl _, db1) \<Rightarrow> (False, db1)
                | (Inr _, db1) \<Rightarrow> (True, db1))
             else (False, db)
         | Inl _ \<Rightarrow>
             let t = (new_broadcast_task ws b now)\<lparr>t_NextRunAfter :=
                   (if \<not> sendNow \<and> status = ''scheduled'' then scheduledTime else None)\<rparr>
             in (case CreateTask uid now ws t db of
                   (Inl _, db1) \<Rightarrow> (False, db1)
                 | (Inr _, db1) \<Rightarrow> (atOnce, db1)))"

definition day :: duration where "day = 24 * 60 * minute"

definition handleBroadcastPaused :: "instant \<Rightarrow> string \<Rightarrow> string \<Rightarrow> task list \<Rightarrow> task list" where
  "handleBroadcastPaused now ws b db =
     (if b = [] then db
      else case fst (GetTaskByBroadcastID ws b db) of
        Inl _ \<Rightarrow> db
      | Inr t \<Rightarrow> if t_Status t = TS_Completed then db
                else snd (MarkAsPaused now ws (t_ID t) (now + day) (t_Progress t) (t_State t) db))"

text \<open>Also says whether the pending tasks are executed at once.\<close>

definition handleBroadcastResumed :: "instant \<Rightarrow> string \<Rightarrow> string \<Rightarrow> bool \<Rightarrow> task list \<Rightarrow> bool \<times> task list" where
  "handleBroadcastResumed now ws b startNow db =
     (if b = [] then (False, db)
      else case fst (GetTaskByBroadcastID ws b db) of
        Inl _ \<Rightarrow> (False, db)
      | Inr t \<Rightarrow>
          if t_Status t = TS_Completed then (False, db)
          else
            (case TaskUpdate now ws (t\<lparr>t_NextRunAfter := Some now, t_Status := TS_Pending,
                 t_RetryCount := 0, t_ErrorMessage := None\<rparr>) db of
               (Inl _, db1) \<Rightarrow> (False, db1)
             | (Inr _, db1) \<Rightarrow> (startNow, db1)))"

definition handleBroadcastSent :: "instant \<Rightarrow> string \<Rightarrow> string \<Rightarrow> task list \<Rightarrow> task list" where
  "handleBroadcastSent now ws b db =
     (if b = [] then db
      else case fst (GetTaskByBroadcastID ws b db) of
        Inl _ \<Rightarrow> db
      | Inr t \<Rightarrow> snd (MarkAsCompleted now ws (t_ID t) (t_State t) db))"

definition handleBroadcastFailed :: "instant \<Rightarrow> string \<Rightarrow> string \<Rightarrow> string \<Rightarrow> task list \<Rightarrow> task list" where
  "handleBroadcastFailed now ws b reason db =
     (if b = [] then db
      else case fst (GetTaskByBroadcastID ws b db) of
        Inl _ \<Rightarrow> db
      | Inr t \<Rightarrow> snd (TaskMarkAsFailed now ws (t_ID t)
                  (if reason = [] then ''Broadcast failed'' else reason) db))"

definition handleBroadcastCancelled :: "instant \<Rightarrow> string \<Rightarrow> string \<Rightarrow> task list \<Rightarrow> task list" where
  "handleBroadcastCancelled now ws b db =
     (if b = [] then db
      else case fst (GetTaskByBroadcastID ws b db) of
        Inl _ \<Rightarrow> db
      | Inr t \<Rightarrow> if t_Status t = TS_Completed then db
                else snd (TaskMarkAsFailed now ws (t_ID t) ''Broadcast was cancelled'' db))"

section \<open>Recurring tasks\<close>

definition reset_sync :: "task_state option \<Rightarrow> task_state option" where
  "reset_sync = map_option (\<lambda>st. st\<lparr>tst_IntegrationSync :=
     map_option (\<lambda>sy. sy\<lparr>is_ConsecErrors := 0, is_LastError := None, is_LastErrorType := []\<rparr>)
       (tst_IntegrationSync st)\<rparr>)"

definition ResetTask :: "instant \<Rightarrow> string \<Rightarrow> string \<Rightarrow> task list \<Rightarrow> (exec_error + unit) \<times> task list" where
  "ResetTask now ws k db =
     (case fst (TaskGet ws k db) of
        Inl _ \<Rightarrow> (Inl (XE_Repo TE_ErrTaskNotFound), db)
      | Inr t \<Rightarrow>
          if t_Status t \<noteq> TS_Failed then (Inl (XE_NotFailed (t_Status t)), db)
          else if \<not> IsRecurring t then (Inl XE_NotRecurring, db)
          else
            (case MarkAsPending now ws k now 0 (reset_sync (t_State t)) db of
               (Inl e, db1) \<Rightarrow> (Inl (XE_Wrapped ''failed to reset task'' (XE_Repo e)), db1)
             | (Inr _, db1) \<Rightarrow> (Inr (), db1)))"

definition TriggerTask :: "instant \<Rightarrow> string \<Rightarrow> string \<Rightarrow> task list \<Rightarrow> (exec_error + unit) \<times> task list" where
  "TriggerTask now ws k db =
     (case fst (TaskGet ws k db) of
        Inl _ \<Rightarrow> (Inl (XE_Repo TE_ErrTaskNotFound), db)
      | Inr t \<Rightarrow>
          if \<not> IsRecurring t then (Inl XE_NotRecurring, db)
          else if t_Status t = TS_Running then (Inl (XE_Repo (TE_AlreadyRunning k)), db)
          else if t_Status t \<noteq> TS_Pending \<and> t_Status t \<noteq> TS_Paused
          then (Inl (XE_CannotTrigger (t_Status t)), db)
          else
            (case MarkAsPending now ws k now (t_Progress t) (t_State t) db of
               (Inl e, db1) \<Rightarrow> (Inl (XE_Wrapped ''failed to trigger task'' (XE_Repo e)), db1)
             | (Inr _, db1) \<Rightarrow> (Inr (), db1)))"

end
