(* ===== verification/Task_Runs.thy ===== *)
theory Task_Runs
  imports Task_Engine
begin

text \<open>
  What the task engine guarantees over runs: the indexes of the table are kept, no task that
  is not finished is ever stranded, and executions of one task exclude each other as long as
  only executions, creations, saved states, resets, triggers and deletions write.
\<close>

section \<open>Updates of the table\<close>

text \<open>A handler that only looks at the result of an operation keeps its table.\<close>

lemma snd_result [simp]:
  "snd (case x of (Inl e, d) \<Rightarrow> (f e, d) | (Inr r, d) \<Rightarrow> (g r, d)) = snd x"
  "snd (case x of (Inl e, d) \<Rightarrow> if p e then (f e, d) else (h e, d) | (Inr r, d) \<Rightarrow> (g r, d)) = snd x"
  by (simp_all split: prod.split sum.split)

lemma integration_keys_update:
  assumes "\<And>t. t_WorkspaceID (f t) = t_WorkspaceID t \<and> t_IntegrationID (f t) = t_IntegrationID t"
  shows "integration_keys (sql_update p f db) =
    map (\<lambda>t. (t_WorkspaceID t, t_IntegrationID t))
      (filter (\<lambda>t. t_IntegrationID t \<noteq> None \<and> active_task (if p t then f t else t)) db)"
  using assms by (induction db) (auto simp: integration_keys_def)

lemma broadcast_keys_update:
  assumes "\<And>t. t_WorkspaceID (f t) = t_WorkspaceID t \<and> t_BroadcastID (f t) = t_BroadcastID t"
  shows "broadcast_keys (sql_update p f db) = broadcast_keys db"
  using assms by (induction db) (auto simp: broadcast_keys_def)

lemma distinct_map_filter_mono:
  "distinct (map k (filter q xs)) \<Longrightarrow> (\<And>x. x \<in> set xs \<Longrightarrow> p x \<Longrightarrow> q x) \<Longrightarrow> distinct (map k (filter p xs))"
  by (induction xs) (auto split: if_splits simp: image_iff)

definition keeps_keys :: "(task \<Rightarrow> task) \<Rightarrow> bool" where
  "keeps_keys f \<longleftrightarrow> (\<forall>t. t_ID (f t) = t_ID t \<and> t_WorkspaceID (f t) = t_WorkspaceID t \<and>
     t_BroadcastID (f t) = t_BroadcastID t \<and> t_IntegrationID (f t) = t_IntegrationID t)"

text \<open>An update that keeps the keys and revives no finished task keeps the indexes.\<close>

lemma update_keeps_indexes:
  assumes "task_indexes db" and "keeps_keys f"
    and "\<And>t. t \<in> set db \<Longrightarrow> p t \<Longrightarrow> active_task (f t) \<Longrightarrow> active_task t"
  shows "task_indexes (sql_update p f db)"
proof -
  have k: "t_ID (f t) = t_ID t" "t_WorkspaceID (f t) = t_WorkspaceID t"
    "t_BroadcastID (f t) = t_BroadcastID t" "t_IntegrationID (f t) = t_IntegrationID t" for t
    using assms(2) by (simp_all add: keeps_keys_def)
  have "distinct (integration_keys (sql_update p f db))"
    unfolding integration_keys_update[of f, OF conjI[OF k(2,4)]]
    by (rule distinct_map_filter_mono[where q = "\<lambda>t. t_IntegrationID t \<noteq> None \<and> active_task t"])
      (use assms(1,3) in \<open>auto simp: task_indexes_def integration_keys_def split: if_splits\<close>)
  then show ?thesis
    using assms(1) k broadcast_keys_update[of f, OF conjI[OF k(2,3)]]
    by (simp add: task_indexes_def)
qed

lemma update_tasks_indexes: "task_indexes db \<Longrightarrow> task_indexes (snd (update_tasks p f e db))"
  by (simp add: update_tasks_def Let_def)

lemma update_tasks_row:
  "t' \<in> set (snd (update_tasks p f e db)) \<Longrightarrow> t' \<in> set db \<or> (\<exists>t \<in> set db. p t \<and> t' = f t)"
  by (auto simp: update_tasks_def Let_def set_sql_update split: if_splits)

lemma update_tasks_ok:
  assumes "task_indexes db" and "keeps_keys f"
    and "\<And>t. t \<in> set db \<Longrightarrow> p t \<Longrightarrow> active_task (f t) \<Longrightarrow> active_task t"
  shows "update_tasks p f e db =
    (if sql_count p db = 0 then (Inl e, db) else (Inr (), sql_update p f db))"
  using update_keeps_indexes[OF assms] by (simp add: update_tasks_def Let_def)

text \<open>The row of a task.\<close>

lemma hit_task_unique:
  "task_indexes db \<Longrightarrow> s \<in> set db \<Longrightarrow> t \<in> set db \<Longrightarrow> hit_task ws k s \<Longrightarrow> hit_task ws k t \<Longrightarrow> s = t"
  using unique_rowD[of t_ID db s t] by (simp add: task_indexes_def hit_task_def)

lemma TaskGet_cases:
  obtains "TaskGet ws k db = (Inl TE_NotFound, db)" and "\<And>t. t \<in> set db \<Longrightarrow> \<not> hit_task ws k t"
  | t where "TaskGet ws k db = (Inr t, db)" and "t \<in> set db" and "hit_task ws k t"
proof (cases "sql_find (hit_task ws k) db")
  case None
  then have "\<not> hit_task ws k t" if "t \<in> set db" for t using that by (simp add: sql_find_None_iff)
  with None show ?thesis using that(1) by (simp add: TaskGet_def)
next
  case (Some t)
  then show ?thesis using that(2)[of t] sql_find_SomeD[OF Some] by (simp add: TaskGet_def)
qed

lemma GetTaskByBroadcastID_cases:
  obtains "GetTaskByBroadcastID ws b db = (Inl (TE_NotFoundForBroadcast b), db)"
  | t where "GetTaskByBroadcastID ws b db = (Inr t, db)" and "t \<in> set db" and "t_WorkspaceID t = ws"
      and "t_BroadcastID t = Some b"
proof (cases "sql_find (\<lambda>t. t_WorkspaceID t = ws \<and> t_BroadcastID t = Some b \<and> t_Type t = ''send_broadcast'') db")
  case None
  then show ?thesis using that(1) by (simp add: GetTaskByBroadcastID_def)
next
  case (Some t)
  then show ?thesis using that(2)[of t] sql_find_SomeD[OF Some] by (simp add: GetTaskByBroadcastID_def)
qed

section \<open>No task is stranded\<close>

text \<open>A row that is finished, or that the scheduler will pick up from some time on.\<close>

definition not_stranded :: "task \<Rightarrow> bool" where
  "not_stranded t \<longleftrightarrow>
     (case t_Status t of
        TS_Pending \<Rightarrow> True
      | TS_Running \<Rightarrow> t_TimeoutAfter t \<noteq> None
      | TS_Paused \<Rightarrow> t_NextRunAfter t \<noteq> None
      | TS_Completed \<Rightarrow> True | TS_Failed \<Rightarrow> True | TS_Other _ \<Rightarrow> False)"

definition table_ok :: "task list \<Rightarrow> bool" where
  "table_ok db \<longleftrightarrow> task_indexes db \<and> (\<forall>t \<in> set db. not_stranded t)"

lemma update_tasks_ok_table:
  assumes "table_ok db" and "\<And>t. t \<in> set db \<Longrightarrow> p t \<Longrightarrow> not_stranded (f t)"
  shows "table_ok (snd (update_tasks p f e db))"
  using assms update_tasks_indexes[of db p f e] update_tasks_row[of _ p f e db]
  by (auto simp: table_ok_def)

lemma table_ok_Completed: "table_ok db \<Longrightarrow> table_ok (snd (MarkAsCompleted now ws k st db))"
  unfolding MarkAsCompleted_def by (rule update_tasks_ok_table) (simp_all add: not_stranded_def)

lemma table_ok_Pending: "table_ok db \<Longrightarrow> table_ok (snd (MarkAsPending now ws k nr pr st db))"
  unfolding MarkAsPending_def by (rule update_tasks_ok_table) (simp_all add: not_stranded_def)

lemma table_ok_Paused: "table_ok db \<Longrightarrow> table_ok (snd (MarkAsPaused now ws k nr pr st db))"
  unfolding MarkAsPaused_def by (rule update_tasks_ok_table) (simp_all add: not_stranded_def)

lemma table_ok_Running: "table_ok db \<Longrightarrow> table_ok (snd (MarkAsRunning now ws k tmo db))"
  unfolding MarkAsRunning_def by (rule update_tasks_ok_table) (simp_all add: not_stranded_def)

lemma table_ok_Release: "table_ok db \<Longrightarrow> table_ok (snd (ReleaseTask now ws k why nr db))"
  unfolding ReleaseTask_def by (rule update_tasks_ok_table) (simp_all add: not_stranded_def)

lemma table_ok_Failed: "table_ok db \<Longrightarrow> table_ok (snd (TaskMarkAsFailed now ws k msg db))"
  by (cases rule: TaskGet_cases[of ws k db])
    (auto simp: TaskMarkAsFailed_def failed_row_def not_stranded_def intro!: update_tasks_ok_table)

lemma table_ok_Update:
  "table_ok db \<Longrightarrow> t_Status t = TS_Pending \<Longrightarrow> table_ok (snd (TaskUpdate now ws t db))"
  unfolding TaskUpdate_def by (rule update_tasks_ok_table) (simp_all add: not_stranded_def)

lemma table_ok_Save: "table_ok db \<Longrightarrow> table_ok (snd (SaveState now ws k pr st db))"
proof -
  assume ok: "table_ok db"
  have "task_indexes (snd (SaveState now ws k pr st db))"
    unfolding SaveState_def snd_conv
    by (rule update_keeps_indexes) (use ok in \<open>auto simp: table_ok_def keeps_keys_def active_task_def\<close>)
  with ok show ?thesis
    by (auto simp: table_ok_def SaveState_def set_sql_update not_stranded_def split: task_status.splits)
qed

lemma table_ok_Create:
  "table_ok db \<Longrightarrow> t_Status t \<in> {TS_Pending, TS_Other []} \<Longrightarrow> table_ok (snd (CreateTask uid now ws t db))"
  by (auto simp: CreateTask_def TaskCreate_def table_ok_def Let_def not_stranded_def create_defaults_def
      task_defaults_def)

lemma task_indexes_delete: "task_indexes db \<Longrightarrow> task_indexes (sql_delete p db)"
proof -
  assume ok: "task_indexes db"
  have 1: "broadcast_keys (sql_delete p db) = map (\<lambda>t. (t_WorkspaceID t, t_BroadcastID t))
      (filter (\<lambda>t. \<not> p t \<and> t_BroadcastID t \<noteq> None) db)"
    and 2: "integration_keys (sql_delete p db) = map (\<lambda>t. (t_WorkspaceID t, t_IntegrationID t))
      (filter (\<lambda>t. \<not> p t \<and> t_IntegrationID t \<noteq> None \<and> active_task t) db)"
    by (simp_all add: broadcast_keys_def integration_keys_def sql_delete_def conj_ac)
  have "distinct (broadcast_keys (sql_delete p db))" "distinct (integration_keys (sql_delete p db))"
    unfolding 1 2
    by (rule distinct_map_filter_mono[where q = "\<lambda>t. t_BroadcastID t \<noteq> None"],
        use ok in \<open>auto simp: task_indexes_def broadcast_keys_def\<close>)
      (rule distinct_map_filter_mono[where q = "\<lambda>t. t_IntegrationID t \<noteq> None \<and> active_task t"],
        use ok in \<open>auto simp: task_indexes_def integration_keys_def\<close>)
  moreover have "distinct (map t_ID (sql_delete p db))"
    using ok by (simp add: task_indexes_def distinct_map_filter sql_delete_def)
  ultimately show ?thesis by (simp add: task_indexes_def)
qed

lemma table_ok_delete: "table_ok db \<Longrightarrow> table_ok (sql_delete p db)"
  by (simp add: table_ok_def task_indexes_delete)

text \<open>Everything the service does to the table.\<close>

datatype task_call =
    C_Create string instant string task
  | C_Begin instant string string instant
  | C_Finish instant int string string task run_end
  | C_Save instant string string float64 "task_state option"
  | C_Scheduled string instant duration string string bool string "instant option"
  | C_Paused instant string string
  | C_Resumed instant string string bool
  | C_Sent instant string string
  | C_Failed instant string string string
  | C_Cancelled instant string string
  | C_Reset instant string string
  | C_Trigger instant string string
  | C_Delete string string
  | C_DeleteAll string

fun run_call :: "(string \<rightharpoonup> 'p) \<Rightarrow> task_call \<Rightarrow> task list \<Rightarrow> task list" where
  "run_call procs (C_Create uid now ws t) db = snd (CreateTask uid now ws t db)"
| "run_call procs (C_Begin now ws k tmo) db = snd (exec_begin procs now ws k tmo db)"
| "run_call procs (C_Finish now draw ws k t fin) db = snd (exec_finish now draw ws k t fin db)"
| "run_call procs (C_Save now ws k pr st) db = snd (SaveState now ws k pr st db)"
| "run_call procs (C_Scheduled uid now zone ws b sendNow status sched) db =
     snd (handleBroadcastScheduled uid now zone ws b sendNow status sched db)"
| "run_call procs (C_Paused now ws b) db = handleBroadcastPaused now ws b db"
| "run_call procs (C_Resumed now ws b startNow) db = snd (handleBroadcastResumed now ws b startNow db)"
| "run_call procs (C_Sent now ws b) db = handleBroadcastSent now ws b db"
| "run_call procs (C_Failed now ws b reason) db = handleBroadcastFailed now ws b reason db"
| "run_call procs (C_Cancelled now ws b) db = handleBroadcastCancelled now ws b db"
| "run_call procs (C_Reset now ws k) db = snd (ResetTask now ws k db)"
| "run_call procs (C_Trigger now ws k) db = snd (TriggerTask now ws k db)"
| "run_call procs (C_Delete ws k) db = snd (TaskDelete ws k db)"
| "run_call procs (C_DeleteAll ws) db = snd (TaskDeleteAll ws db)"

text \<open>New tasks are created pending (or with the status left empty).\<close>

fun task_called :: "task_call \<Rightarrow> bool" where
  "task_called (C_Create _ _ _ t) = (t_Status t \<in> {TS_Pending, TS_Other []})"
| "task_called _ = True"

lemma exec_begin_result:
  "snd (exec_begin procs now ws k tmo db) = db \<or>
   snd (exec_begin procs now ws k tmo db) = snd (MarkAsRunning now ws k (tmo + taskExecutionGrace) db)"
  by (auto simp: exec_begin_def in_tx_def TaskGet_def split: sum.splits option.splits prod.splits)

lemma exec_finish_result:
  obtains "snd (exec_finish now draw ws k t fin db) = db"
  | why nr where "snd (exec_finish now draw ws k t fin db) = snd (ReleaseTask now ws k why nr db)"
  | msg where "snd (exec_finish now draw ws k t fin db) = snd (TaskMarkAsFailed now ws k msg db)"
  | nr pr where "snd (exec_finish now draw ws k t fin db) = snd (MarkAsPending now ws k nr pr (t_State t) db)"
  | "snd (exec_finish now draw ws k t fin db) = snd (MarkAsCompleted now ws k (t_State t) db)"
  | nr pr where "snd (exec_finish now draw ws k t fin db) =
      snd (MarkAsPending now (t_WorkspaceID t) (t_ID t) nr pr (t_State t) db)"
proof (cases fin)
  case Ctx_Canceled
  then have "\<exists>why nr. snd (exec_finish now draw ws k t fin db) = snd (ReleaseTask now ws k why nr db)"
    by (auto simp: exec_finish_def Let_def)
  then show ?thesis using that(2) by blast
next
  case Ctx_Deadline
  then have "\<exists>msg. snd (exec_finish now draw ws k t fin db) = snd (TaskMarkAsFailed now ws k msg db)"
    by (auto simp: exec_finish_def Let_def)
  then show ?thesis using that(3) by blast
next
  case (Finished c)
  show ?thesis
  proof (cases c)
    case False
    then have "snd (exec_finish now draw ws k t fin db) =
        snd (MarkAsPending now (t_WorkspaceID t) (t_ID t) now (t_Progress t) (t_State t) db)"
      using Finished by (simp add: exec_finish_def)
    then show ?thesis using that(6) by blast
  next
    case True
    show ?thesis
    proof (cases "IsRecurring t")
      case False
      then have "snd (exec_finish now draw ws k t fin db) = snd (MarkAsCompleted now ws k (t_State t) db)"
        using Finished True by (simp add: exec_finish_def)
      then show ?thesis using that(5) by blast
    next
      case rec: True
      show ?thesis
      proof (cases "next_recurring_run now draw t")
        case None
        then have "snd (exec_finish now draw ws k t fin db) = db"
          using Finished True rec by (simp add: exec_finish_def)
        then show ?thesis using that(1) by blast
      next
        case (Some nr)
        then have "snd (exec_finish now draw ws k t fin db) = snd (MarkAsPending now ws k nr 0 (t_State t) db)"
          using Finished True rec by (simp add: exec_finish_def)
        then show ?thesis using that(4) by blast
      qed
    qed
  qed
next
  case (Errored err c)
  show ?thesis
  proof (cases "is_canceled err \<or> c")
    case True
    then have "snd (exec_finish now draw ws k t fin db) = snd (ReleaseTask now ws k (exec_error_text err) now db)"
      using Errored by (simp add: exec_finish_def)
    then show ?thesis using that(2) by blast
  next
    case False
    then have "snd (exec_finish now draw ws k t fin db) = snd (TaskMarkAsFailed now ws k (exec_error_text err) db)"
      using Errored by (simp add: exec_finish_def)
    then show ?thesis using that(3) by blast
  qed
qed

lemma table_ok_begin: "table_ok db \<Longrightarrow> table_ok (snd (exec_begin procs now ws k tmo db))"
  using exec_begin_result[of procs now ws k tmo db] table_ok_Running by metis

lemma table_ok_finish: "table_ok db \<Longrightarrow> table_ok (snd (exec_finish now draw ws k t fin db))"
  by (cases rule: exec_finish_result[of now draw ws k t fin db])
    (simp_all add: table_ok_Release table_ok_Failed table_ok_Pending table_ok_Completed)

lemma table_ok_scheduled: "table_ok db \<Longrightarrow> table_ok (snd (handleBroadcastScheduled uid now zone ws b sn st sched db))"
proof (cases rule: GetTaskByBroadcastID_cases[of ws b db])
  case 1
  assume ok: "table_ok db"
  have "table_ok (snd (CreateTask uid now ws ((new_broadcast_task ws b now)\<lparr>t_NextRunAfter := nr\<rparr>) db))" for nr
    by (rule table_ok_Create[OF ok]) (simp add: new_broadcast_task_def new_task_def)
  with 1 show ?thesis by (simp add: handleBroadcastScheduled_def Let_def)
next
  case (2 t)
  assume ok: "table_ok db"
  have "table_ok (snd (TaskUpdate now ws (t\<lparr>t_NextRunAfter := nr, t_Status := TS_Pending, t_BroadcastID := br\<rparr>) db))"
    for nr br by (rule table_ok_Update[OF ok]) simp
  with 2 ok show ?thesis by (simp add: handleBroadcastScheduled_def Let_def)
qed

lemma table_ok_resumed: "table_ok db \<Longrightarrow> table_ok (snd (handleBroadcastResumed now ws b sn db))"
proof (cases rule: GetTaskByBroadcastID_cases[of ws b db])
  case 1
  then show "table_ok db \<Longrightarrow> ?thesis" by (simp add: handleBroadcastResumed_def)
next
  case (2 t)
  assume ok: "table_ok db"
  have "table_ok (snd (TaskUpdate now ws (t\<lparr>t_NextRunAfter := Some now, t_Status := TS_Pending,
      t_RetryCount := 0, t_ErrorMessage := None\<rparr>) db))" by (rule table_ok_Update[OF ok]) simp
  with 2 ok show ?thesis by (simp add: handleBroadcastResumed_def)
qed

lemma table_ok_handlers:
  assumes "table_ok db"
  shows "table_ok (handleBroadcastPaused now ws b db)" "table_ok (handleBroadcastSent now ws b db)"
    "table_ok (handleBroadcastFailed now ws b reason db)" "table_ok (handleBroadcastCancelled now ws b db)"
  using assms
  by (auto simp: handleBroadcastPaused_def handleBroadcastSent_def handleBroadcastFailed_def
      handleBroadcastCancelled_def table_ok_Paused table_ok_Completed table_ok_Failed split: sum.split)

lemma table_ok_recurring:
  assumes "table_ok db"
  shows "table_ok (snd (ResetTask now ws k db))" "table_ok (snd (TriggerTask now ws k db))"
  using assms table_ok_Pending[OF assms]
  by (simp_all add: ResetTask_def TriggerTask_def split: sum.split)

lemma table_ok_call: "table_ok db \<Longrightarrow> task_called c \<Longrightarrow> table_ok (run_call procs c db)"
proof (cases c)
  case (C_Delete ws k)
  then show "table_ok db \<Longrightarrow> ?thesis" by (simp add: TaskDelete_def table_ok_delete)
next
  case (C_DeleteAll ws)
  then show "table_ok db \<Longrightarrow> ?thesis" by (simp add: TaskDeleteAll_def table_ok_delete)
qed (simp_all add: table_ok_Create table_ok_begin table_ok_finish table_ok_Save table_ok_scheduled
    table_ok_handlers table_ok_resumed table_ok_recurring)

inductive task_reachable :: "(string \<rightharpoonup> 'p) \<Rightarrow> task list \<Rightarrow> bool" for procs where
  empty: "task_reachable procs []"
| call: "task_reachable procs db \<Longrightarrow> task_called c \<Longrightarrow> task_reachable procs (run_call procs c db)"

lemma table_ok_reachable: "task_reachable procs db \<Longrightarrow> table_ok db"
  by (induction rule: task_reachable.induct)
    (simp_all add: table_ok_call table_ok_def[of "[]"] task_indexes_def broadcast_keys_def integration_keys_def)

lemma not_stranded_dispatchable:
  assumes "not_stranded t" and "active_task t"
  shows "\<exists>T. \<forall>now \<ge> T. dispatchable now t"
proof (cases "t_Status t")
  case TS_Pending
  show ?thesis
  proof (cases "t_NextRunAfter t")
    case None
    with TS_Pending show ?thesis by (simp add: dispatchable_def)
  next
    case (Some u)
    with TS_Pending show ?thesis by (intro exI[of _ u]) (simp add: dispatchable_def elapsed_def)
  qed
next
  case TS_Running
  then obtain u where "t_TimeoutAfter t = Some u" using assms(1) by (auto simp: not_stranded_def)
  with TS_Running show ?thesis by (intro exI[of _ u]) (simp add: dispatchable_def elapsed_def)
next
  case TS_Paused
  then obtain u where "t_NextRunAfter t = Some u" using assms(1) by (auto simp: not_stranded_def)
  with TS_Paused show ?thesis by (intro exI[of _ u]) (simp add: dispatchable_def elapsed_def)
qed (use assms in \<open>simp_all add: not_stranded_def active_task_def\<close>)

text \<open>C14. No task is stranded: in every database that the task service can produce - by creations,
  claims, every end of a run, event handlers, resets, triggers and deletions, in any order,
  with whatever the processors leave in the task - the indexes hold, and a task that is neither
  completed nor failed is picked up by every batch from some time on, if the batch is large
  enough and nobody holds its row.\<close>

theorem no_task_is_stranded:
  assumes "task_reachable procs db" and "t \<in> set db" and "t_Status t \<notin> {TS_Completed, TS_Failed}"
  shows "task_indexes db \<and>
    (\<exists>T. \<forall>now \<ge> T. \<forall>limit \<ge> int (length db). \<exists>ts. fst (GetNextBatch now (\<lambda>_. False) limit db) = Inr ts \<and> t \<in> set ts)"
proof -
  have ok: "table_ok db" by (rule table_ok_reachable[OF assms(1)])
  then have "not_stranded t" "active_task t" using assms(2,3) by (auto simp: table_ok_def active_task_def)
  then obtain T where T: "\<forall>now \<ge> T. dispatchable now t" using not_stranded_dispatchable by blast
  have "\<exists>ts. fst (GetNextBatch now (\<lambda>_. False) limit db) = Inr ts \<and> t \<in> set ts"
    if "now \<ge> T" "limit \<ge> int (length db)" for now limit
  proof -
    let ?rows = "sort_key batch_rank (filter (dispatchable now) db)"
    have "length ?rows \<le> nat limit" using that(2) length_filter_le[of "dispatchable now" db]
      unfolding length_sort by linarith
    moreover have "t \<in> set ?rows" using assms(2) T that(1) by simp
    ultimately show ?thesis using that(2) by (simp add: GetNextBatch_def)
  qed
  with ok show ?thesis by (auto simp: table_ok_def)
qed

definition sample_task :: task where
  "sample_task = (new_broadcast_task ''w'' ''b1'' 0)\<lparr>t_ID := ''t1''\<rparr>"

definition sample_procs :: "string \<rightharpoonup> unit" where
  "sample_procs = RegisterProcessor () (\<lambda>ty. ty = ''send_broadcast'') Map.empty"

definition sample_calls :: "task_call list" where
  "sample_calls = [C_Create ''u'' 0 ''w'' sample_task, C_Begin (5 * second) ''w'' ''t1'' (55 * second)]"

definition sample_tasks :: "task list" where
  "sample_tasks = fold (run_call sample_procs) sample_calls []"

lemma sample_tasks_reachable: "task_reachable sample_procs sample_tasks"
proof -
  have "task_called (C_Create ''u'' 0 ''w'' sample_task)" by (simp add: sample_task_def new_broadcast_task_def new_task_def)
  then show ?thesis
    unfolding sample_tasks_def sample_calls_def
    by (simp del: run_call.simps) (intro task_reachable.intros; simp del: run_call.simps)
qed

theorem no_task_is_stranded_witness:
  "\<exists>T. \<forall>now \<ge> T. \<exists>ts. fst (GetNextBatch now (\<lambda>_. False) 100 sample_tasks) = Inr ts \<and> hd sample_tasks \<in> set ts"
proof -
  have f: "hd sample_tasks \<in> set sample_tasks" "t_Status (hd sample_tasks) = TS_Running"
    "int (length sample_tasks) \<le> 100" by code_simp+
  then have "t_Status (hd sample_tasks) \<notin> {TS_Completed, TS_Failed}" by simp
  from no_task_is_stranded[OF sample_tasks_reachable f(1) this] f(3) show ?thesis by blast
qed

section \<open>Executions exclude each other\<close>

text \<open>The live executions, with the ends of their leases, beside the table. An execution is over
  when its end is recorded, and it is over before its lease ends. Handlers of broadcast events
  are not among these steps.\<close>

record execution =
  ex_ws :: string
  ex_id :: string
  ex_deadline :: instant

record task_system =
  sy_now :: instant
  sy_db :: "task list"
  sy_live :: "execution list"

definition ex_key :: "execution \<Rightarrow> string \<times> string" where
  "ex_key e = (ex_ws e, ex_id e)"

inductive sched_step :: "(string \<rightharpoonup> 'p) \<Rightarrow> task_system \<Rightarrow> task_system \<Rightarrow> bool" for procs where
  tick: "sy_now s \<le> now \<Longrightarrow> \<forall>e \<in> set (sy_live s). now < ex_deadline e \<Longrightarrow> sched_step procs s (s\<lparr>sy_now := now\<rparr>)"
| claim: "exec_begin procs (sy_now s) ws k tmo (sy_db s) = (Inr t, db) \<Longrightarrow> sy_now s < tmo + taskExecutionGrace \<Longrightarrow>
    sched_step procs s (s\<lparr>sy_db := db,
      sy_live := sy_live s @ [\<lparr>ex_ws = ws, ex_id = k, ex_deadline = tmo + taskExecutionGrace\<rparr>]\<rparr>)"
| over: "sy_live s = xs @ e # ys \<Longrightarrow> t_WorkspaceID t = ex_ws e \<Longrightarrow> t_ID t = ex_id e \<Longrightarrow>
    sched_step procs s (s\<lparr>sy_db := snd (exec_finish (sy_now s) draw (ex_ws e) (ex_id e) t fin (sy_db s)),
      sy_live := xs @ ys\<rparr>)"
| create: "CreateTask uid (sy_now s) ws t (sy_db s) = (Inr (), db) \<Longrightarrow>
    \<forall>e \<in> set (sy_live s). ex_id e \<noteq> t_ID (create_defaults uid (sy_now s) t) \<Longrightarrow>
    sched_step procs s (s\<lparr>sy_db := db\<rparr>)"
| save: "sched_step procs s (s\<lparr>sy_db := snd (SaveState (sy_now s) ws k pr st (sy_db s))\<rparr>)"
| reset: "sched_step procs s (s\<lparr>sy_db := snd (ResetTask (sy_now s) ws k (sy_db s))\<rparr>)"
| trigger: "sched_step procs s (s\<lparr>sy_db := snd (TriggerTask (sy_now s) ws k (sy_db s))\<rparr>)"
| delete: "sched_step procs s (s\<lparr>sy_db := snd (TaskDelete ws k (sy_db s))\<rparr>)"

definition rows_ok :: "execution list \<Rightarrow> task list \<Rightarrow> bool" where
  "rows_ok live db \<longleftrightarrow> (\<forall>e \<in> set live. \<forall>t \<in> set db. hit_task (ex_ws e) (ex_id e) t \<longrightarrow>
     t_Status t = TS_Running \<and> t_TimeoutAfter t = Some (ex_deadline e))"

lemma rows_okD:
  "rows_ok live db \<Longrightarrow> e \<in> set live \<Longrightarrow> t \<in> set db \<Longrightarrow> hit_task (ex_ws e) (ex_id e) t \<Longrightarrow>
   t_Status t = TS_Running \<and> t_TimeoutAfter t = Some (ex_deadline e)"
  by (simp add: rows_ok_def)

lemma hit_task_keeps: "keeps_keys f \<Longrightarrow> hit_task ws k (f t) = hit_task ws k t"
  by (simp add: keeps_keys_def hit_task_def)

lemma rows_ok_update:
  assumes "rows_ok live db" and "keeps_keys f" and "\<And>t. p t \<Longrightarrow> hit_task ws k t"
    and "\<And>e. e \<in> set live \<Longrightarrow> ex_key e \<noteq> (ws, k)"
  shows "rows_ok live (snd (update_tasks p f err db))"
  unfolding rows_ok_def
proof (intro ballI impI)
  fix e t' assume e: "e \<in> set live" and t': "t' \<in> set (snd (update_tasks p f err db))"
    and h: "hit_task (ex_ws e) (ex_id e) t'"
  from update_tasks_row[OF t'] show "t_Status t' = TS_Running \<and> t_TimeoutAfter t' = Some (ex_deadline e)"
  proof
    assume "t' \<in> set db"
    with rows_okD[OF assms(1) e] h show ?thesis by blast
  next
    assume "\<exists>t \<in> set db. p t \<and> t' = f t"
    then obtain t where "p t" "t' = f t" by blast
    then have "hit_task ws k t" "hit_task (ex_ws e) (ex_id e) t"
      using assms(3) h hit_task_keeps[OF assms(2)] by simp_all
    with assms(4)[OF e] show ?thesis by (simp add: hit_task_def ex_key_def)
  qed
qed

lemma rows_ok_subset: "rows_ok live db \<Longrightarrow> set live' \<subseteq> set live \<Longrightarrow> rows_ok live' db"
  by (auto simp: rows_ok_def)

lemma rows_ok_Pending:
  "rows_ok live db \<Longrightarrow> (\<And>e. e \<in> set live \<Longrightarrow> ex_key e \<noteq> (ws, k)) \<Longrightarrow>
   rows_ok live (snd (MarkAsPending now ws k nr pr st db))"
  unfolding MarkAsPending_def by (rule rows_ok_update) (auto simp: keeps_keys_def)

lemma rows_ok_Completed:
  "rows_ok live db \<Longrightarrow> (\<And>e. e \<in> set live \<Longrightarrow> ex_key e \<noteq> (ws, k)) \<Longrightarrow>
   rows_ok live (snd (MarkAsCompleted now ws k st db))"
  unfolding MarkAsCompleted_def by (rule rows_ok_update) (auto simp: keeps_keys_def)

lemma rows_ok_Release:
  "rows_ok live db \<Longrightarrow> (\<And>e. e \<in> set live \<Longrightarrow> ex_key e \<noteq> (ws, k)) \<Longrightarrow>
   rows_ok live (snd (ReleaseTask now ws k why nr db))"
  unfolding ReleaseTask_def by (rule rows_ok_update) (auto simp: keeps_keys_def)

lemma rows_ok_Failed:
  assumes "rows_ok live db" and "\<And>e. e \<in> set live \<Longrightarrow> ex_key e \<noteq> (ws, k)"
  shows "rows_ok live (snd (TaskMarkAsFailed now ws k msg db))"
proof -
  have "rows_ok live (snd (update_tasks (hit_task ws k) (failed_row now msg r d) TE_NotFound db))" for r d
    by (rule rows_ok_update[OF assms(1) _ _ assms(2)]) (auto simp: keeps_keys_def failed_row_def)
  then show ?thesis using assms(1)
    by (cases rule: TaskGet_cases[of ws k db]) (simp_all add: TaskMarkAsFailed_def)
qed

lemma rows_ok_finish:
  assumes "rows_ok live db" and "\<And>e. e \<in> set live \<Longrightarrow> ex_key e \<noteq> (ws, k)"
    and "t_WorkspaceID t = ws" and "t_ID t = k"
  shows "rows_ok live (snd (exec_finish now draw ws k t fin db))"
  using assms(1,3,4)
  by (cases rule: exec_finish_result[of now draw ws k t fin db])
    (simp_all add: rows_ok_Release[OF _ assms(2)] rows_ok_Failed[OF _ assms(2)]
      rows_ok_Pending[OF _ assms(2)] rows_ok_Completed[OF _ assms(2)])

text \<open>A row that is not running belongs to no live execution.\<close>

lemma not_running_not_live:
  "rows_ok live db \<Longrightarrow> t \<in> set db \<Longrightarrow> hit_task ws k t \<Longrightarrow> t_Status t \<noteq> TS_Running \<Longrightarrow> e \<in> set live \<Longrightarrow>
   ex_key e \<noteq> (ws, k)"
  using rows_okD[of live db e t] by (auto simp: ex_key_def)

lemma rows_ok_recurring:
  assumes "rows_ok live db"
  shows "rows_ok live (snd (ResetTask now ws k db))" "rows_ok live (snd (TriggerTask now ws k db))"
proof -
  show "rows_ok live (snd (ResetTask now ws k db))"
  proof (cases rule: TaskGet_cases[of ws k db])
    case 1
    with assms show ?thesis by (simp add: ResetTask_def)
  next
    case (2 t)
    show ?thesis
    proof (cases "t_Status t = TS_Failed")
      case True
      then have "ex_key e \<noteq> (ws, k)" if "e \<in> set live" for e
        using not_running_not_live[OF assms 2(2,3) _ that] by simp
      with 2 assms show ?thesis by (auto simp: ResetTask_def rows_ok_Pending)
    qed (use 2 assms in \<open>simp add: ResetTask_def\<close>)
  qed
  show "rows_ok live (snd (TriggerTask now ws k db))"
  proof (cases rule: TaskGet_cases[of ws k db])
    case 1
    with assms show ?thesis by (simp add: TriggerTask_def)
  next
    case (2 t)
    show ?thesis
    proof (cases "t_Status t = TS_Pending \<or> t_Status t = TS_Paused")
      case True
      then have "ex_key e \<noteq> (ws, k)" if "e \<in> set live" for e
        using not_running_not_live[OF assms 2(2,3) _ that] by auto
      with 2 assms show ?thesis by (auto simp: TriggerTask_def rows_ok_Pending)
    qed (use 2 assms in \<open>simp add: TriggerTask_def\<close>)
  qed
qed

lemma exec_begin_InrD:
  assumes "exec_begin procs now ws k tmo db = (Inr t, db')"
  shows "MarkAsRunning now ws k (tmo + taskExecutionGrace) db = (Inr (), db') \<and> procs (t_Type t) \<noteq> None \<and>
    t_ID t = k \<and> t_WorkspaceID t = ws"
proof -
  have run: "(case TaskGet ws k db of
       (Inl _, db1) \<Rightarrow> (Inl (XE_TaskNotFound k), db1)
     | (Inr t, db1) \<Rightarrow>
         if procs (t_Type t) = None
         then (Inl (XE_Execution k ''no processor registered for task type'' (XE_NoProcessor (t_Type t))), db1)
         else
           (case MarkAsRunning now ws k (tmo + taskExecutionGrace) db1 of
              (Inl e, db2) \<Rightarrow> (Inl (XE_Execution k ''failed to mark task as running'' (XE_Repo e)), db2)
            | (Inr _, db2) \<Rightarrow> (Inr (t\<lparr>t_TimeoutAfter := Some tmo\<rparr>), db2))) = (Inr t, db')"
    using in_tx_InrD[OF assms[unfolded exec_begin_def]] .
  then show ?thesis
    by (cases rule: TaskGet_cases[of ws k db]) (auto simp: hit_task_def split: prod.splits sum.splits if_splits)
qed

lemma MarkAsRunning_InrD:
  "MarkAsRunning now ws k tmo db = (Inr (), db') \<Longrightarrow>
   db' = sql_update (\<lambda>t. hit_task ws k t \<and> startable now t)
     (\<lambda>t. t\<lparr>t_Status := TS_Running, t_UpdatedAt := now, t_LastRunAt := Some now,
            t_TimeoutAfter := Some tmo, t_ErrorMessage := None\<rparr>) db \<and> task_indexes db' \<and>
   (\<exists>t \<in> set db. hit_task ws k t \<and> startable now t)"
  by (auto simp: MarkAsRunning_def update_tasks_def Let_def sql_count_0_iff split: if_splits)

definition exclusive :: "task_system \<Rightarrow> bool" where
  "exclusive s \<longleftrightarrow> task_indexes (sy_db s) \<and> distinct (map ex_key (sy_live s)) \<and>
     (\<forall>e \<in> set (sy_live s). sy_now s < ex_deadline e) \<and> rows_ok (sy_live s) (sy_db s)"

lemma claim_not_live:
  assumes "exclusive s" and "MarkAsRunning (sy_now s) ws k tmo (sy_db s) = (Inr (), db')" and "e \<in> set (sy_live s)"
  shows "ex_key e \<noteq> (ws, k)"
proof
  assume key: "ex_key e = (ws, k)"
  obtain t where t: "t \<in> set (sy_db s)" "hit_task ws k t" "startable (sy_now s) t"
    using MarkAsRunning_InrD[OF assms(2)] by blast
  have "t_Status t = TS_Running \<and> t_TimeoutAfter t = Some (ex_deadline e)"
    using assms(1,3) t key rows_okD[of "sy_live s" "sy_db s" e t] by (simp add: exclusive_def ex_key_def)
  then have "ex_deadline e \<le> sy_now s" using t(3) by (simp add: startable_def elapsed_def)
  with assms(1,3) show False by (force simp: exclusive_def)
qed

lemma claim_exclusive:
  assumes ex: "exclusive s" and run: "MarkAsRunning (sy_now s) ws k dl (sy_db s) = (Inr (), db)"
    and later: "sy_now s < dl"
  shows "exclusive (s\<lparr>sy_db := db, sy_live := sy_live s @ [\<lparr>ex_ws = ws, ex_id = k, ex_deadline = dl\<rparr>]\<rparr>)"
proof -
  let ?e = "\<lparr>ex_ws = ws, ex_id = k, ex_deadline = dl\<rparr>"
  note db = MarkAsRunning_InrD[OF run]
  note nl = claim_not_live[OF ex run]
  have ix: "task_indexes (sy_db s)" using ex by (simp add: exclusive_def)
  have old: "rows_ok (sy_live s) db"
  proof -
    have "rows_ok (sy_live s) (snd (MarkAsRunning (sy_now s) ws k dl (sy_db s)))"
      unfolding MarkAsRunning_def
      by (rule rows_ok_update[OF _ _ _ nl]) (use ex in \<open>auto simp: exclusive_def keeps_keys_def\<close>)
    then show ?thesis by (simp add: run)
  qed
  have new: "t_Status t = TS_Running \<and> t_TimeoutAfter t = Some dl" if t: "t \<in> set db" "hit_task ws k t" for t
  proof -
    obtain t0 where t0: "t0 \<in> set (sy_db s)" "hit_task ws k t0" "startable (sy_now s) t0" using db by blast
    have "t \<in> set (sql_update (\<lambda>t. hit_task ws k t \<and> startable (sy_now s) t)
     (\<lambda>t. t\<lparr>t_Status := TS_Running, t_UpdatedAt := sy_now s, t_LastRunAt := Some (sy_now s),
            t_TimeoutAfter := Some dl, t_ErrorMessage := None\<rparr>) (sy_db s))" using t(1) db by simp
    then obtain u where u: "u \<in> set (sy_db s)" "t = (if hit_task ws k u \<and> startable (sy_now s) u
        then u\<lparr>t_Status := TS_Running, t_UpdatedAt := sy_now s, t_LastRunAt := Some (sy_now s),
            t_TimeoutAfter := Some dl, t_ErrorMessage := None\<rparr> else u)"
      unfolding set_sql_update by blast
    then have "hit_task ws k u" using t(2) by (auto simp: hit_task_def split: if_splits)
    then have "u = t0" using hit_task_unique[OF ix u(1) t0(1)] t0(2) by blast
    with u(2) t0 show ?thesis by simp
  qed
  have "rows_ok (sy_live s @ [?e]) db" using old new by (auto simp: rows_ok_def)
  moreover have "ex_key ?e \<notin> set (map ex_key (sy_live s))" using nl by (auto simp: ex_key_def)
  ultimately show ?thesis using ex db later by (auto simp: exclusive_def)
qed

lemma CreateTask_InrD:
  "CreateTask uid now ws t db = (Inr (), db') \<Longrightarrow>
   task_indexes db' \<and> (\<exists>t'. db' = db @ [t'] \<and> t_ID t' = t_ID (create_defaults uid now t))"
  by (auto simp: CreateTask_def TaskCreate_def Let_def create_defaults_def task_defaults_def split: if_splits)

lemma task_indexes_finish: "task_indexes db \<Longrightarrow> task_indexes (snd (exec_finish now draw ws k t fin db))"
  by (cases rule: exec_finish_result[of now draw ws k t fin db])
    (auto simp: ReleaseTask_def MarkAsPending_def MarkAsCompleted_def TaskMarkAsFailed_def TaskGet_def
      update_tasks_indexes split: option.split)

lemma task_indexes_recurring:
  "task_indexes db \<Longrightarrow> task_indexes (snd (ResetTask now ws k db))"
  "task_indexes db \<Longrightarrow> task_indexes (snd (TriggerTask now ws k db))"
  by (auto simp: ResetTask_def TriggerTask_def MarkAsPending_def update_tasks_indexes split: sum.split)

lemma exclusive_step: "sched_step procs s s' \<Longrightarrow> exclusive s \<Longrightarrow> exclusive s'"
proof (induction rule: sched_step.induct)
  case (tick s now)
  then show ?case by (auto simp: exclusive_def)
next
  case (claim s ws k tmo t db)
  then show ?case using claim_exclusive[of s ws k "tmo + taskExecutionGrace" db] exec_begin_InrD by blast
next
  case (over s xs e ys t draw fin)
  have d: "distinct (map ex_key (xs @ ys))" and off: "ex_key e \<notin> ex_key ` set (xs @ ys)"
    using over by (auto simp: exclusive_def)
  have ne: "ex_key x \<noteq> ex_key e" if "x \<in> set (xs @ ys)" for x
    using off imageI[OF that, of ex_key] by metis
  have "rows_ok (xs @ ys) (sy_db s)"
    by (rule rows_ok_subset[of "sy_live s"]) (use over in \<open>auto simp: exclusive_def\<close>)
  then have "rows_ok (xs @ ys) (snd (exec_finish (sy_now s) draw (ex_ws e) (ex_id e) t fin (sy_db s)))"
    by (rule rows_ok_finish) (use ne over in \<open>auto simp: ex_key_def\<close>)
  with over d show ?case by (auto simp: exclusive_def task_indexes_finish)
next
  case (create uid s ws t db)
  then obtain t' where t': "db = sy_db s @ [t']" "t_ID t' = t_ID (create_defaults uid (sy_now s) t)"
    and ix: "task_indexes db" using CreateTask_InrD by blast
  have "rows_ok (sy_live s) db"
    using create t' by (auto simp: rows_ok_def exclusive_def hit_task_def)
  with create ix show ?case by (simp add: exclusive_def)
next
  case (save s ws k pr st)
  have "task_indexes (snd (SaveState (sy_now s) ws k pr st (sy_db s)))"
    unfolding SaveState_def snd_conv
    by (rule update_keeps_indexes) (use save in \<open>auto simp: exclusive_def keeps_keys_def active_task_def\<close>)
  moreover have "rows_ok (sy_live s) (snd (SaveState (sy_now s) ws k pr st (sy_db s)))"
    using save by (auto simp: rows_ok_def exclusive_def SaveState_def set_sql_update hit_task_def)
  ultimately show ?case using save by (simp add: exclusive_def)
next
  case (delete s ws k)
  then show ?case by (auto simp: exclusive_def TaskDelete_def rows_ok_def task_indexes_delete)
qed (auto simp: exclusive_def rows_ok_recurring task_indexes_recurring)


lemma exclusive_steps: "(sched_step procs)\<^sup>*\<^sup>* s s' \<Longrightarrow> exclusive s \<Longrightarrow> exclusive s'"
  by (induction rule: rtranclp_induct) (auto intro: exclusive_step)

lemma exclusive_start: "task_indexes db \<Longrightarrow> exclusive \<lparr>sy_now = now, sy_db = db, sy_live = []\<rparr>"
  by (simp add: exclusive_def rows_ok_def)


definition sample_claimed :: "task list" where
  "sample_claimed = snd (exec_begin sample_procs (5 * second) ''w'' ''t1'' (55 * second) [sample_task])"


end
