(* ===== verification/Task_Outcomes.thy ===== *)
theory Task_Outcomes
  imports Task_Runs
begin

text \<open>
  How runs end, as the row of the task shows it: the retry budget, the schedule of recurring
  tasks, and what the handlers of broadcast events do to a task that runs or fails.
\<close>

section \<open>The retry budget\<close>

definition has_row :: "string \<Rightarrow> string \<Rightarrow> task \<Rightarrow> task list \<Rightarrow> bool" where
  "has_row ws k r db \<longleftrightarrow> task_indexes db \<and> r \<in> set db \<and> hit_task ws k r"

lemma has_row_find: "has_row ws k r db \<Longrightarrow> sql_find (hit_task ws k) db = Some r"
proof -
  assume h: "has_row ws k r db"
  then obtain u where u: "sql_find (hit_task ws k) db = Some u"
    by (cases "sql_find (hit_task ws k) db") (auto simp: has_row_def sql_find_None_iff)
  from sql_find_SomeD[OF u] h have "u = r"
    by (auto simp: has_row_def intro: hit_task_unique)
  with u show ?thesis by simp
qed

text \<open>An update of the row of an active task takes effect.\<close>

lemma update_row:
  assumes "has_row ws k r db" and "p r" and "active_task r" and "keeps_keys f" and "\<And>t. p t \<Longrightarrow> hit_task ws k t"
  shows "\<exists>db'. update_tasks p f e db = (Inr (), db') \<and> has_row ws k (f r) db'"
proof -
  have ix: "task_indexes db" and r: "r \<in> set db" "hit_task ws k r" using assms(1) by (simp_all add: has_row_def)
  have "active_task t" if "t \<in> set db" "p t" for t
    using hit_task_unique[OF ix that(1) r(1) assms(5)[OF that(2)] r(2)] assms(3) by simp
  then have i': "task_indexes (sql_update p f db)"
    by (intro update_keeps_indexes[OF ix assms(4)])
  have "f r \<in> set (sql_update p f db)" unfolding set_sql_update using r(1) assms(2) by (intro image_eqI[of _ _ r]) simp_all
  moreover have "hit_task ws k (f r)" using r(2) hit_task_keeps[OF assms(4)] by simp
  moreover have "sql_count p db \<noteq> 0" using r(1) assms(2) by (auto simp: sql_count_0_iff)
  ultimately show ?thesis using i' by (simp add: update_tasks_def Let_def has_row_def)
qed

text \<open>What one run of an execution does to the retry budget.\<close>

datatype budget = Waiting int | GaveUp int | Done

definition budget_fail :: "int \<Rightarrow> int \<Rightarrow> budget" where
  "budget_fail most n = (if n < most then Waiting (n + 1) else GaveUp (n + 1))"

fun budget_step :: "int \<Rightarrow> bool \<Rightarrow> run_end \<Rightarrow> budget \<Rightarrow> budget" where
  "budget_step most recurring fin (GaveUp n) = GaveUp n"
| "budget_step most recurring fin Done = Done"
| "budget_step most recurring Ctx_Canceled (Waiting n) = Waiting n"
| "budget_step most recurring Ctx_Deadline (Waiting n) = budget_fail most n"
| "budget_step most recurring (Finished c) (Waiting n) = (if c \<and> \<not> recurring then Done else Waiting 0)"
| "budget_step most recurring (Errored err canceled) (Waiting n) =
     (if is_canceled err \<or> canceled then Waiting n else budget_fail most n)"

definition budget_of :: "task \<Rightarrow> budget option" where
  "budget_of t =
     (case t_Status t of
        TS_Pending \<Rightarrow> Some (Waiting (t_RetryCount t))
      | TS_Failed \<Rightarrow> Some (GaveUp (t_RetryCount t))
      | TS_Completed \<Rightarrow> Some Done
      | _ \<Rightarrow> None)"

text \<open>One execution: its claim, the processor's run, which leaves a progress and a state in the
  task and ends somehow, and the record of that end.\<close>

record task_run =
  tr_begin :: instant
  tr_timeout :: instant
  tr_over :: instant
  tr_draw :: int
  tr_progress :: float64
  tr_state :: "task_state option"
  tr_end :: run_end

definition run_once :: "(string \<rightharpoonup> 'p) \<Rightarrow> string \<Rightarrow> string \<Rightarrow> task_run \<Rightarrow> task list \<Rightarrow> task list" where
  "run_once procs ws k r db =
     (case exec_begin procs (tr_begin r) ws k (tr_timeout r) db of
        (Inl _, db1) \<Rightarrow> db1
      | (Inr t, db1) \<Rightarrow> snd (exec_finish (tr_over r) (tr_draw r) ws k
          (t\<lparr>t_Progress := tr_progress r, t_State := tr_state r\<rparr>) (tr_end r) db1))"

text \<open>The claim and the end of a run, on the row.\<close>

lemma row_begin:
  assumes "has_row ws k r db" and "t_Status r = TS_Pending" and "procs (t_Type r) \<noteq> None"
  shows "\<exists>db1. exec_begin procs now ws k tmo db = (Inr (r\<lparr>t_TimeoutAfter := Some tmo\<rparr>), db1) \<and>
    has_row ws k (r\<lparr>t_Status := TS_Running, t_UpdatedAt := now, t_LastRunAt := Some now,
            t_TimeoutAfter := Some (tmo + taskExecutionGrace), t_ErrorMessage := None\<rparr>) db1"
proof -
  obtain db1 where db1: "MarkAsRunning now ws k (tmo + taskExecutionGrace) db = (Inr (), db1)"
    "has_row ws k (r\<lparr>t_Status := TS_Running, t_UpdatedAt := now, t_LastRunAt := Some now,
            t_TimeoutAfter := Some (tmo + taskExecutionGrace), t_ErrorMessage := None\<rparr>) db1"
    using update_row[of ws k r db "\<lambda>t. hit_task ws k t \<and> startable now t"
        "\<lambda>t. t\<lparr>t_Status := TS_Running, t_UpdatedAt := now, t_LastRunAt := Some now,
            t_TimeoutAfter := Some (tmo + taskExecutionGrace), t_ErrorMessage := None\<rparr>" "TE_AlreadyRunning k"]
      assms(1,2)
    by (auto simp: MarkAsRunning_def has_row_def startable_def active_task_def keeps_keys_def)
  then show ?thesis using assms(3) has_row_find[OF assms(1)]
    by (simp add: exec_begin_def in_tx_def TaskGet_def)
qed

lemma row_begin_stopped:
  assumes "has_row ws k r db" and "t_Status r = TS_Completed \<or> t_Status r = TS_Failed"
  shows "\<exists>e. exec_begin procs now ws k tmo db = (Inl e, db)"
proof -
  have "\<not> (hit_task ws k t \<and> startable now t)" if "t \<in> set db" for t
    using hit_task_unique[of db t r ws k] that assms by (auto simp: has_row_def startable_def)
  then have "sql_count (\<lambda>t. hit_task ws k t \<and> startable now t) db = 0" by (simp add: sql_count_0_iff)
  then have "MarkAsRunning now ws k (tmo + taskExecutionGrace) db = (Inl (TE_AlreadyRunning k), db)"
    using assms(1) by (simp add: MarkAsRunning_def update_tasks_def sql_update_count_0 has_row_def)
  then show ?thesis using has_row_find[OF assms(1)]
    by (simp add: exec_begin_def in_tx_def TaskGet_def)
qed

definition same_plan :: "task \<Rightarrow> task \<Rightarrow> bool" where
  "same_plan r r' \<longleftrightarrow> t_Type r' = t_Type r \<and> t_MaxRetries r' = t_MaxRetries r \<and>
     t_RecurringInterval r' = t_RecurringInterval r"

lemma row_Release:
  assumes "has_row ws k r db" and "t_Status r = TS_Running"
  shows "\<exists>r'. has_row ws k r' (snd (ReleaseTask now ws k why nr db)) \<and> same_plan r r' \<and>
    budget_of r' = Some (Waiting (t_RetryCount r)) \<and> t_NextRunAfter r' = Some nr"
  using update_row[of ws k r db "\<lambda>t. hit_task ws k t \<and> t_Status t = TS_Running"
       "\<lambda>t. t\<lparr>t_Status := TS_Pending, t_ErrorMessage := Some why, t_UpdatedAt := now,
              t_NextRunAfter := Some nr, t_TimeoutAfter := None\<rparr>" TE_NotRunning] assms
  by (fastforce simp: ReleaseTask_def has_row_def active_task_def keeps_keys_def budget_of_def same_plan_def)

lemma row_Pending:
  assumes "has_row ws k r db" and "active_task r"
  shows "\<exists>r'. has_row ws k r' (snd (MarkAsPending now ws k nr pr st db)) \<and> same_plan r r' \<and>
    budget_of r' = Some (Waiting 0) \<and> t_NextRunAfter r' = Some nr"
  using update_row[of ws k r db "hit_task ws k"
       "\<lambda>t. t\<lparr>t_Status := TS_Pending, t_Progress := pr, t_State := st, t_UpdatedAt := now,
              t_NextRunAfter := Some nr, t_TimeoutAfter := None, t_RetryCount := 0\<rparr>" TE_NotFound] assms
  by (fastforce simp: MarkAsPending_def has_row_def keeps_keys_def budget_of_def same_plan_def)

lemma row_Completed:
  assumes "has_row ws k r db" and "active_task r"
  shows "\<exists>r'. has_row ws k r' (snd (MarkAsCompleted now ws k st db)) \<and> same_plan r r' \<and> budget_of r' = Some Done"
  using update_row[of ws k r db "hit_task ws k"
       "\<lambda>t. t\<lparr>t_Status := TS_Completed, t_Progress := 100, t_State := st, t_ErrorMessage := None,
              t_UpdatedAt := now, t_CompletedAt := Some now, t_TimeoutAfter := None\<rparr>" TE_NotFound] assms
  by (fastforce simp: MarkAsCompleted_def has_row_def keeps_keys_def budget_of_def same_plan_def)

lemma row_Failed:
  assumes "has_row ws k r db" and "active_task r"
  shows "has_row ws k (failed_row now msg (t_RetryCount r < t_MaxRetries r) (retry_delay r) r)
    (snd (TaskMarkAsFailed now ws k msg db))"
  using update_row[of ws k r db "hit_task ws k"
       "failed_row now msg (t_RetryCount r < t_MaxRetries r) (retry_delay r)" TE_NotFound]
    assms has_row_find[OF assms(1)]
  by (fastforce simp: TaskMarkAsFailed_def TaskGet_def has_row_def keeps_keys_def failed_row_def)

lemma row_Failed_budget:
  assumes "has_row ws k r db" and "active_task r"
  shows "\<exists>r'. has_row ws k r' (snd (TaskMarkAsFailed now ws k msg db)) \<and> same_plan r r' \<and>
    budget_of r' = Some (budget_fail (t_MaxRetries r) (t_RetryCount r))"
  using row_Failed[OF assms, of now msg]
  by (intro exI[of _ "failed_row now msg (t_RetryCount r < t_MaxRetries r) (retry_delay r) r"])
    (simp add: budget_of_def budget_fail_def failed_row_def same_plan_def)

lemma row_finish:
  assumes row: "has_row ws k r db" and run: "t_Status r = TS_Running"
    and t: "t_RecurringInterval t = t_RecurringInterval r" "t_WorkspaceID t = ws" "t_ID t = k"
    and draw: "0 < jitter_bound t"
  shows "\<exists>r'. has_row ws k r' (snd (exec_finish now draw ws k t fin db)) \<and> same_plan r r' \<and>
    budget_of r' = Some (budget_step (t_MaxRetries r) (IsRecurring r) fin (Waiting (t_RetryCount r)))"
proof -
  have a: "active_task r" using run by (simp add: active_task_def)
  have rec: "IsRecurring t = IsRecurring r" using t(1) by (simp add: IsRecurring_def)
  obtain nr where nr: "next_recurring_run now draw t = Some nr" using draw by (simp add: next_recurring_run_def)
  show ?thesis
  proof (cases fin)
    case Ctx_Canceled
    then show ?thesis using row_Release[OF row run] by (fastforce simp: exec_finish_def Let_def)
  next
    case Ctx_Deadline
    then show ?thesis using row_Failed_budget[OF row a] by (fastforce simp: exec_finish_def Let_def)
  next
    case (Finished c)
    then show ?thesis using row_Pending[OF row a] row_Completed[OF row a] nr rec t(2,3)
      by (cases c; cases "IsRecurring r") (fastforce simp: exec_finish_def)+
  next
    case (Errored err canceled)
    then show ?thesis using row_Failed_budget[OF row a] row_Release[OF row run]
      by (cases "is_canceled err \<or> canceled") (fastforce simp: exec_finish_def)+
  qed
qed

lemma jitter_bound_cong:
  "t_RecurringInterval t = t_RecurringInterval r \<Longrightarrow> t_State t = t_State r \<Longrightarrow> jitter_bound t = jitter_bound r"
  by (simp add: jitter_bound_def recurring_seconds_def)

lemma IsRecurring_plan: "same_plan r r' \<Longrightarrow> IsRecurring r' = IsRecurring r"
  by (simp add: same_plan_def IsRecurring_def)

lemma run_once_step:
  assumes row: "has_row ws k r db" and b: "budget_of r = Some b" and procs: "procs (t_Type r) \<noteq> None"
    and draw: "0 < jitter_bound (r\<lparr>t_State := tr_state x\<rparr>)"
  shows "\<exists>r'. has_row ws k r' (run_once procs ws k x db) \<and> same_plan r r' \<and>
    budget_of r' = Some (budget_step (t_MaxRetries r) (IsRecurring r) (tr_end x) b)"
proof (cases "t_Status r")
  case TS_Pending
  let ?r = "r\<lparr>t_Status := TS_Running, t_UpdatedAt := tr_begin x, t_LastRunAt := Some (tr_begin x),
    t_TimeoutAfter := Some (tr_timeout x + taskExecutionGrace), t_ErrorMessage := None\<rparr>"
  let ?t = "r\<lparr>t_TimeoutAfter := Some (tr_timeout x), t_Progress := tr_progress x, t_State := tr_state x\<rparr>"
  obtain db1 where db1: "exec_begin procs (tr_begin x) ws k (tr_timeout x) db =
      (Inr (r\<lparr>t_TimeoutAfter := Some (tr_timeout x)\<rparr>), db1)" and h: "has_row ws k ?r db1"
    using row_begin[of ws k r db procs, OF row TS_Pending procs] by blast
  have e: "run_once procs ws k x db = snd (exec_finish (tr_over x) (tr_draw x) ws k ?t (tr_end x) db1)"
    using db1 by (simp add: run_once_def)
  have "0 < jitter_bound ?t" using draw jitter_bound_cong[of ?t "r\<lparr>t_State := tr_state x\<rparr>"] by simp
  moreover have "t_WorkspaceID ?t = ws" "t_ID ?t = k" using row by (simp_all add: has_row_def hit_task_def)
  ultimately obtain r' where "has_row ws k r' (run_once procs ws k x db)" "same_plan ?r r'"
    "budget_of r' = Some (budget_step (t_MaxRetries ?r) (IsRecurring ?r) (tr_end x) (Waiting (t_RetryCount ?r)))"
    unfolding e using row_finish[OF h, of ?t "tr_over x" "tr_draw x" "tr_end x"] by auto
  moreover have "b = Waiting (t_RetryCount r)" using b TS_Pending by (simp add: budget_of_def)
  ultimately show ?thesis by (intro exI[of _ r']) (simp add: same_plan_def IsRecurring_def)
next
  case TS_Completed
  then obtain e where e: "exec_begin procs (tr_begin x) ws k (tr_timeout x) db = (Inl e, db)"
    using row_begin_stopped[OF row] by blast
  have "b = Done" using b TS_Completed by (simp add: budget_of_def)
  then show ?thesis using row b e by (intro exI[of _ r]) (simp add: run_once_def same_plan_def)
next
  case TS_Failed
  then obtain e where e: "exec_begin procs (tr_begin x) ws k (tr_timeout x) db = (Inl e, db)"
    using row_begin_stopped[OF row] by blast
  have "b = GaveUp (t_RetryCount r)" using b TS_Failed by (simp add: budget_of_def)
  then show ?thesis using row b e by (intro exI[of _ r]) (simp add: run_once_def same_plan_def)
qed (use b in \<open>simp_all add: budget_of_def\<close>)

lemma run_once_steps:
  assumes "has_row ws k r db" and "budget_of r = Some b" and "procs (t_Type r) \<noteq> None"
    and "\<And>x. x \<in> set runs \<Longrightarrow> 0 < jitter_bound (r\<lparr>t_State := tr_state x\<rparr>)"
  shows "\<exists>r'. has_row ws k r' (fold (run_once procs ws k) runs db) \<and> same_plan r r' \<and>
    budget_of r' = Some (fold (budget_step (t_MaxRetries r) (IsRecurring r)) (map tr_end runs) b)"
  using assms
proof (induction runs arbitrary: db r b)
  case Nil
  then show ?case by (intro exI[of _ r]) (simp add: same_plan_def)
next
  case (Cons x xs)
  obtain r' where r': "has_row ws k r' (run_once procs ws k x db)" "same_plan r r'"
    "budget_of r' = Some (budget_step (t_MaxRetries r) (IsRecurring r) (tr_end x) b)"
    using run_once_step[of ws k r db b procs x] Cons.prems by auto
  have p: "procs (t_Type r') \<noteq> None" using r'(2) Cons.prems(3) by (simp add: same_plan_def)
  have j: "0 < jitter_bound (r'\<lparr>t_State := tr_state y\<rparr>)" if "y \<in> set xs" for y
    using Cons.prems(4)[of y] that r'(2)
      jitter_bound_cong[of "r'\<lparr>t_State := tr_state y\<rparr>" "r\<lparr>t_State := tr_state y\<rparr>"]
    by (simp add: same_plan_def)
  from Cons.IH[OF r'(1,3) p j] obtain r'' where r'': "has_row ws k r'' (fold (run_once procs ws k) xs (run_once procs ws k x db))"
    "same_plan r' r''" "budget_of r'' = Some (fold (budget_step (t_MaxRetries r') (IsRecurring r')) (map tr_end xs)
      (budget_step (t_MaxRetries r) (IsRecurring r) (tr_end x) b))" by blast
  have "same_plan r r''" "t_MaxRetries r' = t_MaxRetries r" "IsRecurring r' = IsRecurring r"
    using r'(2) r''(2) by (simp_all add: same_plan_def IsRecurring_def)
  with r'' show ?case by (intro exI[of _ r'']) simp
qed

text \<open>C9. The retry budget refines its specification: whatever runs a pending task has - cancelled
  by a shutdown, over their deadline, finished, unfinished, or in error, with whatever progress
  and state the processor leaves - its row afterwards is what the budget says: a failure costs
  one retry, a return of the processor gives them all back, an interruption costs nothing, and
  the task is given up at the first failure with no retry left, after which no run of it
  starts.\<close>

theorem retry_budget_refines:
  assumes "task_indexes db" and "sql_find (hit_task ws k) db = Some t" and "t_Status t = TS_Pending"
    and "procs (t_Type t) \<noteq> None" and "\<forall>r \<in> set runs. 0 < jitter_bound (t\<lparr>t_State := tr_state r\<rparr>)"
  shows "Option.bind (sql_find (hit_task ws k) (fold (run_once procs ws k) runs db)) budget_of =
    Some (fold (budget_step (t_MaxRetries t) (IsRecurring t)) (map tr_end runs) (Waiting (t_RetryCount t)))"
proof -
  have "has_row ws k t db" using assms(1) sql_find_SomeD[OF assms(2)] by (simp add: has_row_def)
  moreover have "budget_of t = Some (Waiting (t_RetryCount t))" using assms(3) by (simp add: budget_of_def)
  ultimately show ?thesis using run_once_steps[of ws k t db _ procs runs] assms(4,5) has_row_find
    by fastforce
qed

definition sample_run :: "run_end \<Rightarrow> task_run" where
  "sample_run fin = \<lparr>tr_begin = 5 * second, tr_timeout = 55 * second, tr_over = 20 * second, tr_draw = 0,
     tr_progress = 10, tr_state = None, tr_end = fin\<rparr>"

definition sample_runs :: "task_run list" where
  "sample_runs = map sample_run [Errored (XE_Processor ''smtp'' False) False, Ctx_Canceled, Ctx_Deadline,
     Errored XE_ContextDone True, Errored (XE_Processor ''smtp'' False) False, Ctx_Deadline, Finished True]"

theorem retry_budget_refines_witness:
  "Option.bind (sql_find (hit_task ''w'' ''t1'')
     (fold (run_once sample_procs ''w'' ''t1'') sample_runs [sample_task])) budget_of = Some (GaveUp 4)"
proof -
  have f: "task_indexes [sample_task]" "sql_find (hit_task ''w'' ''t1'') [sample_task] = Some sample_task"
    "t_Status sample_task = TS_Pending" "sample_procs (t_Type sample_task) = Some ()"
    "t_MaxRetries sample_task = 3" "t_RetryCount sample_task = 0" "\<not> IsRecurring sample_task"
    "\<forall>r \<in> set sample_runs. 0 < jitter_bound (sample_task\<lparr>t_State := tr_state r\<rparr>)"
    by code_simp+
  have p: "sample_procs (t_Type sample_task) \<noteq> None" using f(4) by simp
  show ?thesis
    unfolding retry_budget_refines[where procs = sample_procs and runs = sample_runs, OF f(1,2,3) p f(8)]
    using f(5-7) by (simp add: sample_runs_def sample_run_def budget_fail_def)
qed

section \<open>The schedule of recurring tasks\<close>

lemma backoff_bounds:
  assumes "0 \<le> errors" and "errors \<le> 2 ^ 20"
  shows "0 \<le> backoff_seconds errors \<and> backoff_seconds errors \<le> 3600"
proof -
  have "errors * errors \<le> 2 ^ 20 * 2 ^ 20" by (rule mult_mono) (use assms in simp_all)
  moreover have "0 \<le> errors * errors" by simp
  moreover have "in_int64 (q * 10)" if "0 \<le> q" "q \<le> 2 ^ 20 * 2 ^ 20" for q
    using that by (simp add: in_int64_def)
  ultimately have "in_int64 (errors * errors * 10)" by blast
  moreover have "0 \<le> errors * errors * 10" by simp
  ultimately show ?thesis by (simp add: backoff_seconds_def Let_def)
qed

definition sync_errors :: "task \<Rightarrow> int" where
  "sync_errors t = (case Option.bind (t_State t) tst_IntegrationSync of None \<Rightarrow> 0 | Some sy \<Rightarrow> is_ConsecErrors sy)"

lemma recurring_seconds_bounds:
  assumes i: "t_RecurringInterval t = Some i" "0 < i" "i < 2 ^ 31" and e: "sync_errors t \<le> 2 ^ 20"
  shows "i \<le> recurring_seconds t \<and> recurring_seconds t \<le> i + 3600"
proof (cases "sync_errors t > 0")
  case False
  then show ?thesis using i(1) by (auto simp: recurring_seconds_def sync_errors_def split: option.splits)
next
  case True
  then obtain st sy where st: "t_State t = Some st" "tst_IntegrationSync st = Some sy"
    "is_ConsecErrors sy = sync_errors t"
    by (cases "t_State t") (auto simp: sync_errors_def split: option.splits)
  have b: "0 \<le> backoff_seconds (sync_errors t) \<and> backoff_seconds (sync_errors t) \<le> 3600"
    by (rule backoff_bounds) (use True e in simp_all)
  then have "in_int64 (i + backoff_seconds (sync_errors t))" using i by (simp add: in_int64_def)
  then show ?thesis using True st i(1) b by (simp add: recurring_seconds_def)
qed

text \<open> The next run of a recurring task comes no sooner than its interval and no later than a
  tenth over the interval and the largest backoff of an hour: for any interval an \<open>INTEGER\<close>
  column holds and any count of consecutive errors up to \<open>2^20\<close>, no computation of the schedule
  overflows and the draw of the jitter does not panic.\<close>

theorem recurring_run_bounds:
  assumes "t_RecurringInterval t = Some i" and "0 < i" and "i < 2 ^ 31" and "sync_errors t \<le> 2 ^ 20"
    and "0 \<le> draw" and "draw < jitter_bound t"
  shows "\<exists>r. next_recurring_run now draw t = Some r \<and> now + i * second \<le> r \<and>
    10 * (r - now) \<le> 11 * (i + 3600) * second"
proof -
  let ?s = "recurring_seconds t"
  have s: "i \<le> ?s" "?s \<le> i + 3600" using recurring_seconds_bounds[OF assms(1-4)] by simp_all
  have j: "jitter_bound t = ?s div 10 + 1" using s(1) assms(2) by (simp add: jitter_bound_def go_div_def)
  have d: "10 * draw \<le> ?s" using assms(6) unfolding j by linarith
  have w: "in_int64 (?s * second)" "in_int64 (draw * second)" "in_int64 (?s * second + draw * second)"
    using s d assms(2,3,5) by (simp_all add: in_int64_def second_def)
  have "next_recurring_run now draw t = Some (now + (?s * second + draw * second))"
    using w s(1) assms(2) by (simp add: next_recurring_run_def j)
  moreover have "now + i * second \<le> now + (?s * second + draw * second)"
    using s(1) assms(5) by (simp add: second_def)
  moreover have "10 * (?s * second + draw * second) \<le> 11 * (i + 3600) * second"
    using s(2) d by (simp add: second_def)
  ultimately show ?thesis by simp
qed

definition sample_sync :: task where
  "sample_sync = (new_task ''w'' ''sync_integration'' 0)\<lparr>t_RecurringInterval := Some 300, t_State := Some
    \<lparr>tst_Progress = 0, tst_Message = [], tst_SendBroadcast = None, tst_BuildSegment = None,
     tst_IntegrationSync = Some \<lparr>is_IntegrationID = ''i'', is_IntegrationType = ''x'', is_Cursor = [],
       is_LastSyncAt = None, is_LastSuccessAt = None, is_EventsImported = 0, is_LastEventCount = 0,
       is_ConsecErrors = 3, is_LastError = None, is_LastErrorType = []\<rparr>,
     tst_WebAnalyticsBackfill = None, tst_ImportCustomers = None, tst_BuildAudience = None,
     tst_SnapshotCampaign = None\<rparr>\<rparr>"

theorem recurring_run_bounds_witness:
  "\<exists>r. next_recurring_run 0 39 sample_sync = Some r \<and> 300 * second \<le> r \<and> 10 * r \<le> 42900 * second"
proof -
  have f: "t_RecurringInterval sample_sync = Some 300" "sync_errors sample_sync \<le> 2 ^ 20"
    "39 < jitter_bound sample_sync" by code_simp+
  from recurring_run_bounds[OF f(1) _ _ f(2) _ f(3), of 0] show ?thesis by simp
qed

section \<open>Events of broadcasts\<close>

lemma update_tasks_cong:
  "(\<And>t. t \<in> set db \<Longrightarrow> p t \<Longrightarrow> f t = g t) \<Longrightarrow> update_tasks p f e db = update_tasks p g e db"
proof -
  assume "\<And>t. t \<in> set db \<Longrightarrow> p t \<Longrightarrow> f t = g t"
  then have "sql_update p f db = sql_update p g db" by (simp add: sql_update_def)
  then show ?thesis by (simp add: update_tasks_def)
qed

lemma row_Update:
  assumes row: "has_row ws k r db" and a: "active_task r" and g: "keeps_keys g" "t_CreatedAt (g r) = t_CreatedAt r"
  shows "\<exists>db'. TaskUpdate now ws (g r) db = (Inr (), db') \<and> has_row ws k ((g r)\<lparr>t_UpdatedAt := now\<rparr>) db'"
proof -
  have k: "t_ID (g r) = k" "t_WorkspaceID r = ws" "t_WorkspaceID (g r) = ws"
    using row g(1) by (auto simp: has_row_def hit_task_def keeps_keys_def)
  have "TaskUpdate now ws (g r) db =
      update_tasks (hit_task ws k) (\<lambda>t. (g t)\<lparr>t_UpdatedAt := now\<rparr>) TE_NotFound db"
    unfolding TaskUpdate_def k(1)
  proof (rule update_tasks_cong)
    fix t assume "t \<in> set db" "hit_task ws k t"
    then have "t = r" using hit_task_unique[of db t r ws k] row by (simp add: has_row_def)
    then show "(g r)\<lparr>t_WorkspaceID := t_WorkspaceID t, t_CreatedAt := t_CreatedAt t, t_UpdatedAt := now\<rparr> =
        (g t)\<lparr>t_UpdatedAt := now\<rparr>" using k(2,3) g(2) by (simp add: task.equality)
  qed
  then show ?thesis
    using update_row[of ws k r db "hit_task ws k" "\<lambda>t. (g t)\<lparr>t_UpdatedAt := now\<rparr>" TE_NotFound] row a g(1)
    by (auto simp: keeps_keys_def has_row_def)
qed

definition sends :: "string \<Rightarrow> string \<Rightarrow> task \<Rightarrow> bool" where
  "sends ws b t \<longleftrightarrow> t_WorkspaceID t = ws \<and> t_BroadcastID t = Some b \<and> t_Type t = ''send_broadcast''"

lemma GetTaskByBroadcastID_row:
  assumes row: "has_row ws k t db" and "sends ws b t"
  shows "GetTaskByBroadcastID ws b db = (Inr t, db)"
proof -
  have ix: "task_indexes db" and t: "t \<in> set db" using row by (simp_all add: has_row_def)
  have eq: "u = t" if u: "u \<in> set db" "sends ws b u" for u
  proof -
    let ?k = "\<lambda>t. (t_WorkspaceID t, t_BroadcastID t)" and ?xs = "filter (\<lambda>t. t_BroadcastID t \<noteq> None) db"
    have "distinct (map ?k ?xs)" using ix by (simp add: task_indexes_def broadcast_keys_def)
    moreover have "u \<in> set ?xs" "t \<in> set ?xs" "?k u = ?k t" using u t assms(2) by (simp_all add: sends_def)
    ultimately show ?thesis using unique_rowD[of ?k ?xs u t] by simp
  qed
  have "sql_find (sends ws b) db \<noteq> None" using t assms(2) by (auto simp: sql_find_None_iff)
  then obtain u where u: "sql_find (sends ws b) db = Some u" by blast
  with sql_find_SomeD[OF u] eq have "sql_find (sends ws b) db = Some t" by simp
  moreover have "sends ws b = (\<lambda>t. t_WorkspaceID t = ws \<and> t_BroadcastID t = Some b \<and> t_Type t = ''send_broadcast'')"
    by (simp add: sends_def fun_eq_iff)
  ultimately show ?thesis by (simp add: GetTaskByBroadcastID_def)
qed

lemma row_Paused:
  assumes "has_row ws k r db" and "active_task r"
  shows "has_row ws k (r\<lparr>t_Status := TS_Paused, t_Progress := pr, t_State := st, t_UpdatedAt := now,
      t_NextRunAfter := Some nr, t_TimeoutAfter := None\<rparr>) (snd (MarkAsPaused now ws k nr pr st db))"
  using update_row[of ws k r db "hit_task ws k"
       "\<lambda>t. t\<lparr>t_Status := TS_Paused, t_Progress := pr, t_State := st, t_UpdatedAt := now,
              t_NextRunAfter := Some nr, t_TimeoutAfter := None\<rparr>" TE_NotFound] assms
  by (fastforce simp: MarkAsPaused_def has_row_def keeps_keys_def)

lemma row_handlers:
  assumes row: "has_row ws k t db" and a: "active_task t" and s: "sends ws b t" and b: "b \<noteq> []"
  shows "has_row ws k (t\<lparr>t_Status := TS_Paused, t_UpdatedAt := now, t_NextRunAfter := Some (now + day),
      t_TimeoutAfter := None\<rparr>) (handleBroadcastPaused now ws b db)" (is ?paused)
    and "has_row ws k (t\<lparr>t_NextRunAfter := Some now, t_Status := TS_Pending, t_RetryCount := 0,
      t_ErrorMessage := None, t_UpdatedAt := now\<rparr>) (snd (handleBroadcastResumed now ws b sn db))" (is ?resumed)
    and "has_row ws k (failed_row now ''Broadcast was cancelled'' (t_RetryCount t < t_MaxRetries t) (retry_delay t) t)
      (handleBroadcastCancelled now ws b db)" (is ?cancelled)
proof -
  have k: "t_ID t = k" using row by (simp add: has_row_def hit_task_def)
  have nc: "t_Status t \<noteq> TS_Completed" using a by (auto simp: active_task_def)
  note get = GetTaskByBroadcastID_row[OF row s]
  show ?paused using row_Paused[OF row a, where pr = "t_Progress t" and st = "t_State t" and now = now and nr = "now + day"] get nc k b
    by (simp add: handleBroadcastPaused_def)
  show ?resumed
    using row_Update[OF row a, of "\<lambda>t. t\<lparr>t_NextRunAfter := Some now, t_Status := TS_Pending,
        t_RetryCount := 0, t_ErrorMessage := None\<rparr>" now] get nc b
    by (auto simp: handleBroadcastResumed_def keeps_keys_def)
  show ?cancelled using row_Failed[OF row a, of now "''Broadcast was cancelled''"] get nc k b
    by (simp add: handleBroadcastCancelled_def)
qed

lemma has_rowI: "task_indexes db \<Longrightarrow> t \<in> set db \<Longrightarrow> has_row (t_WorkspaceID t) (t_ID t) t db"
  by (simp add: has_row_def hit_task_def)

lemma row_begin_leased:
  assumes "has_row ws k r db" and "t_Status r = TS_Running" and "\<not> elapsed now (t_TimeoutAfter r)"
  shows "\<exists>e. exec_begin procs now ws k tmo db = (Inl e, db)"
proof -
  have "\<not> (hit_task ws k t \<and> startable now t)" if "t \<in> set db" for t
    using hit_task_unique[of db t r ws k] that assms by (auto simp: has_row_def startable_def)
  then have "sql_count (\<lambda>t. hit_task ws k t \<and> startable now t) db = 0" by (simp add: sql_count_0_iff)
  then have "MarkAsRunning now ws k (tmo + taskExecutionGrace) db = (Inl (TE_AlreadyRunning k), db)"
    using assms(1) by (simp add: MarkAsRunning_def update_tasks_def sql_update_count_0 has_row_def)
  then show ?thesis using has_row_find[OF assms(1)]
    by (simp add: exec_begin_def in_tx_def TaskGet_def)
qed

text \<open>C23. Pausing and resuming a broadcast takes the lease from the execution that runs: while the
  lease of a running task lasts, a claim of it is refused, and after the two events the same
  claim succeeds at the same moment, although the first execution was never told to stop.\<close>

theorem pause_resume_starts_second_run:
  assumes "task_indexes db" and "t \<in> set db" and "t_Status t = TS_Running" and "\<not> elapsed now (t_TimeoutAfter t)"
    and "sends (t_WorkspaceID t) b t" and "b \<noteq> []" and "procs (t_Type t) \<noteq> None"
  shows "(\<exists>e. exec_begin procs now (t_WorkspaceID t) (t_ID t) tmo db = (Inl e, db)) \<and>
    (\<exists>t' db'. exec_begin procs now (t_WorkspaceID t) (t_ID t) tmo
       (snd (handleBroadcastResumed now (t_WorkspaceID t) b sn (handleBroadcastPaused now (t_WorkspaceID t) b db))) =
       (Inr t', db'))"
proof -
  let ?ws = "t_WorkspaceID t" and ?k = "t_ID t"
  let ?p = "t\<lparr>t_Status := TS_Paused, t_UpdatedAt := now, t_NextRunAfter := Some (now + day), t_TimeoutAfter := None\<rparr>"
  let ?r = "?p\<lparr>t_NextRunAfter := Some now, t_Status := TS_Pending, t_RetryCount := 0, t_ErrorMessage := None,
    t_UpdatedAt := now\<rparr>"
  have row: "has_row ?ws ?k t db" by (rule has_rowI[OF assms(1,2)])
  have a: "active_task t" "active_task ?p" using assms(3) by (simp_all add: active_task_def)
  have s: "sends ?ws b ?p" using assms(5) by (simp add: sends_def)
  note p = row_handlers(1)[OF row a(1) assms(5,6), of now]
  have "has_row ?ws ?k ?r (snd (handleBroadcastResumed now ?ws b sn (handleBroadcastPaused now ?ws b db)))"
    by (rule row_handlers(2)[OF p a(2) s assms(6)])
  then have "\<exists>db'. exec_begin procs now ?ws ?k tmo
      (snd (handleBroadcastResumed now ?ws b sn (handleBroadcastPaused now ?ws b db))) =
      (Inr (?r\<lparr>t_TimeoutAfter := Some tmo\<rparr>), db')"
    using row_begin[of ?ws ?k ?r _ procs now tmo] assms(7) by auto
  with row_begin_leased[OF row assms(3,4)] show ?thesis by blast
qed

theorem pause_resume_starts_second_run_witness:
  "sample_claimed = [hd sample_claimed] \<and> (\<exists>t' db'. exec_begin sample_procs (6 * second) ''w'' ''t1'' (56 * second)
     (snd (handleBroadcastResumed (6 * second) ''w'' ''b1'' True
       (handleBroadcastPaused (6 * second) ''w'' ''b1'' sample_claimed))) = (Inr t', db'))"
proof -
  let ?t = "hd sample_claimed"
  have f: "task_indexes sample_claimed" "?t \<in> set sample_claimed" "t_Status ?t = TS_Running"
    "\<not> elapsed (6 * second) (t_TimeoutAfter ?t)" "sends (t_WorkspaceID ?t) ''b1'' ?t"
    "sample_procs (t_Type ?t) = Some ()" "t_WorkspaceID ?t = ''w''" "t_ID ?t = ''t1''"
    "sample_claimed = [hd sample_claimed]"
    by code_simp+
  have p: "sample_procs (t_Type ?t) \<noteq> None" using f(6) by simp
  from pause_resume_starts_second_run[where procs = sample_procs, OF f(1-5) _ p, of "56 * second" True] f(7-9)
  show ?thesis by simp
qed

text \<open> The task of a cancelled broadcast is put back for a retry: unless its retries are used up,
  the row becomes pending again, with one failure more, and from its retry interval on the
  scheduler dispatches it. Only a task that has no retry left is failed.\<close>

theorem cancelled_broadcast_is_retried:
  assumes "task_indexes db" and "t \<in> set db" and "t_Status t \<notin> {TS_Completed, TS_Failed}"
    and "sends (t_WorkspaceID t) b t" and "b \<noteq> []"
  shows "\<exists>r. sql_find (hit_task (t_WorkspaceID t) (t_ID t))
       (handleBroadcastCancelled now (t_WorkspaceID t) b db) = Some r \<and>
     t_RetryCount r = t_RetryCount t + 1 \<and>
     (if t_RetryCount t < t_MaxRetries t
      then t_Status r = TS_Pending \<and> (\<forall>u. dispatchable u r \<longleftrightarrow> now + retry_delay t \<le> u)
      else t_Status r = TS_Failed \<and> (\<forall>u. \<not> dispatchable u r))"
proof -
  have row: "has_row (t_WorkspaceID t) (t_ID t) t db" by (rule has_rowI[OF assms(1,2)])
  have a: "active_task t" using assms(3) by (simp add: active_task_def)
  show ?thesis
    using has_row_find[OF row_handlers(3)[OF row a assms(4,5), of now]]
    by (simp add: failed_row_def dispatchable_def elapsed_def)
qed

theorem cancelled_broadcast_is_retried_witness:
  "\<exists>r. sql_find (hit_task ''w'' ''t1'') (handleBroadcastCancelled (6 * second) ''w'' ''b1'' sample_claimed) = Some r \<and>
     t_Status r = TS_Pending \<and> dispatchable (306 * second) r"
proof -
  let ?t = "hd sample_claimed"
  have f: "task_indexes sample_claimed" "?t \<in> set sample_claimed" "t_Status ?t = TS_Running"
    "sends (t_WorkspaceID ?t) ''b1'' ?t" "t_WorkspaceID ?t = ''w''" "t_ID ?t = ''t1''"
    "t_RetryCount ?t < t_MaxRetries ?t" "6 * second + retry_delay ?t = 306 * second"
    by code_simp+
  then have "t_Status ?t \<notin> {TS_Completed, TS_Failed}" by simp
  from cancelled_broadcast_is_retried[OF f(1,2) this f(4), of "6 * second"] f(5-8) show ?thesis by auto
qed

text \<open> A broadcast sent at once that has a task already waits for the server's offset from UTC:
  the event says that tasks are to be executed now, but the scheduler dispatches the row only
  when the clock, in UTC, has reached the local wall clock of the event.\<close>

theorem send_now_waits_for_zone:
  assumes "task_indexes db" and "t \<in> set db" and "t_Status t \<notin> {TS_Completed, TS_Failed}"
    and "sends (t_WorkspaceID t) b t"
  shows "\<exists>db' r. handleBroadcastScheduled uid now zone (t_WorkspaceID t) b True ''processing'' sched db = (True, db') \<and>
    sql_find (hit_task (t_WorkspaceID t) (t_ID t)) db' = Some r \<and>
    (\<forall>u. dispatchable u r \<longleftrightarrow> now + zone \<le> u)"
proof -
  have row: "has_row (t_WorkspaceID t) (t_ID t) t db" by (rule has_rowI[OF assms(1,2)])
  have a: "active_task t" using assms(3) by (simp add: active_task_def)
  have b: "t_BroadcastID t = Some b" using assms(4) by (simp add: sends_def)
  then have same: "t\<lparr>t_NextRunAfter := Some (now + zone), t_Status := TS_Pending, t_BroadcastID := Some b\<rparr> =
      t\<lparr>t_NextRunAfter := Some (now + zone), t_Status := TS_Pending\<rparr>" by (simp add: task.equality)
  obtain db' where "TaskUpdate now (t_WorkspaceID t)
      (t\<lparr>t_NextRunAfter := Some (now + zone), t_Status := TS_Pending\<rparr>) db = (Inr (), db')"
    and r: "has_row (t_WorkspaceID t) (t_ID t)
      (t\<lparr>t_NextRunAfter := Some (now + zone), t_Status := TS_Pending, t_UpdatedAt := now\<rparr>) db'"
    using row_Update[OF row a, of "\<lambda>t. t\<lparr>t_NextRunAfter := Some (now + zone), t_Status := TS_Pending\<rparr>" now]
    by (auto simp: keeps_keys_def)
  then have "handleBroadcastScheduled uid now zone (t_WorkspaceID t) b True ''processing'' sched db = (True, db')"
    using GetTaskByBroadcastID_row[OF row assms(4)] b
    by (simp add: handleBroadcastScheduled_def Let_def same)
  with has_row_find[OF r] show ?thesis by (simp add: dispatchable_def elapsed_def)
qed

theorem send_now_waits_for_zone_witness:
  "\<exists>db' r. handleBroadcastScheduled ''u'' 0 (8 * 60 * minute) ''w'' ''b1'' True ''processing'' None [sample_task] =
     (True, db') \<and> sql_find (hit_task ''w'' ''t1'') db' = Some r \<and> \<not> dispatchable (7 * 60 * minute) r"
proof -
  have f: "task_indexes [sample_task]" "t_Status sample_task = TS_Pending"
    "sends (t_WorkspaceID sample_task) ''b1'' sample_task" "t_WorkspaceID sample_task = ''w''" "t_ID sample_task = ''t1''"
    by code_simp+
  then have "t_Status sample_task \<notin> {TS_Completed, TS_Failed}" by simp
  from send_now_waits_for_zone[OF f(1) _ this f(3), of "''u''" 0 "8 * 60 * minute" None] f(4,5)
  show ?thesis by (fastforce simp: minute_def second_def)
qed

text \<open> The deletion of a recurring task during its run is an error of the run: the branch that
  takes it as fine compares with a sentinel that no update of the repository returns.\<close>

theorem deleted_recurring_is_an_error:
  assumes "task_indexes db" and "IsRecurring t" and "0 < jitter_bound t" and "\<forall>r \<in> set db. \<not> hit_task ws k r"
  shows "exec_finish now draw ws k t (Finished True) db =
    (Inl (XE_Execution k ''failed to reschedule recurring task'' (XE_Repo TE_NotFound)), db)"
proof -
  have "sql_count (hit_task ws k) db = 0" using assms(4) by (simp add: sql_count_0_iff)
  then have "MarkAsPending now ws k nr pr st db = (Inl TE_NotFound, db)" for nr pr st
    using assms(1) by (simp add: MarkAsPending_def update_tasks_def sql_update_count_0)
  with assms(2,3) show ?thesis by (simp add: exec_finish_def next_recurring_run_def)
qed

theorem deleted_recurring_is_an_error_witness:
  "fst (exec_finish 0 0 ''w'' ''s1'' sample_sync (Finished True) [sample_task]) =
    Inl (XE_Execution ''s1'' ''failed to reschedule recurring task'' (XE_Repo TE_NotFound))"
proof -
  have f: "task_indexes [sample_task]" "IsRecurring sample_sync" "0 < jitter_bound sample_sync"
    "\<forall>r \<in> set [sample_task]. \<not> hit_task ''w'' ''s1'' r"
    by code_simp+
  show ?thesis unfolding deleted_recurring_is_an_error[OF f] by simp
qed

end
