(* ===== verification/Journey_Nodes.thy ===== *)
theory Journey_Nodes
  imports Complex_Main Go_Prelude "HOL-Library.Word"
begin

unbundle bit_operations_syntax

text \<open>
  The nodes of an automation: their types and configurations (\<open>internal/domain/automation.go\<close>)
  and their executors (\<open>internal/service/automation_node_executor.go\<close> and
  \<open>channel_node_executor.go\<close>). A configuration is the JSON object of the node; decoding
  it follows \<open>encoding/json\<close> for keys written exactly, unknown keys ignored and null taken as
  absent. What lies outside - the conditions' queries, list memberships, template loading and
  rendering, the queue, HTTP and channel providers, generated ids - answers through the
  environment of an execution. An executor returns its result with the effects it had.
\<close>

section \<open>JSON values and their decoding\<close>

datatype json =
  JNull | JBool bool | JNum rat | JStr string | JArr "json list" | JObj "(string \<times> json) list"

type_synonym json_object = "(string \<times> json) list"

definition and_then :: "'e + 'a \<Rightarrow> ('a \<Rightarrow> 'e + 'b) \<Rightarrow> 'e + 'b" where
  "and_then r k = (case r of Inl e \<Rightarrow> Inl e | Inr x \<Rightarrow> k x)"

lemma and_then_simps [simp]: "and_then (Inl e) k = Inl e" "and_then (Inr x) k = k x"
  by (simp_all add: and_then_def)

lemma and_then_Inr_iff: "and_then r k = Inr y \<longleftrightarrow> (\<exists>x. r = Inr x \<and> k x = Inr y)"
  by (cases r) simp_all

definition field_of :: "json_object \<Rightarrow> string \<Rightarrow> json" where
  "field_of obj key = (case map_of obj key of None \<Rightarrow> JNull | Some v \<Rightarrow> v)"

definition decode_error :: string where
  "decode_error = ''failed to unmarshal config: json: cannot unmarshal''"

definition decode_string :: "json_object \<Rightarrow> string \<Rightarrow> string + string" where
  "decode_string obj key = (case field_of obj key of JNull \<Rightarrow> Inr [] | JStr s \<Rightarrow> Inr s | _ \<Rightarrow> Inl decode_error)"

definition decode_string_ptr :: "json_object \<Rightarrow> string \<Rightarrow> string + string option" where
  "decode_string_ptr obj key =
     (case field_of obj key of JNull \<Rightarrow> Inr None | JStr s \<Rightarrow> Inr (Some s) | _ \<Rightarrow> Inl decode_error)"

definition decode_int :: "json_object \<Rightarrow> string \<Rightarrow> string + int" where
  "decode_int obj key =
     (case field_of obj key of
        JNull \<Rightarrow> Inr 0
      | JNum r \<Rightarrow> if r = of_int \<lfloor>r\<rfloor> \<and> in_int64 \<lfloor>r\<rfloor> then Inr \<lfloor>r\<rfloor> else Inl decode_error
      | _ \<Rightarrow> Inl decode_error)"

definition decode_tree :: "json_object \<Rightarrow> string \<Rightarrow> json option" where
  "decode_tree obj key = (case field_of obj key of JNull \<Rightarrow> None | v \<Rightarrow> Some v)"

fun decode_all :: "(json_object \<Rightarrow> string + 'a) \<Rightarrow> json list \<Rightarrow> string + 'a list" where
  "decode_all dec [] = Inr []"
| "decode_all dec (JObj obj # vs) =
     and_then (dec obj) (\<lambda>x. and_then (decode_all dec vs) (\<lambda>xs. Inr (x # xs)))"
| "decode_all dec (JNull # vs) = and_then (dec []) (\<lambda>x. and_then (decode_all dec vs) (\<lambda>xs. Inr (x # xs)))"
| "decode_all dec (v # vs) = Inl decode_error"

definition decode_list :: "(json_object \<Rightarrow> string + 'a) \<Rightarrow> json_object \<Rightarrow> string \<Rightarrow> string + 'a list" where
  "decode_list dec obj key =
     (case field_of obj key of JNull \<Rightarrow> Inr [] | JArr vs \<Rightarrow> decode_all dec vs | _ \<Rightarrow> Inl decode_error)"

section \<open>Nodes and automations\<close>

datatype node_type =
    NT_Trigger | NT_Delay | NT_Email | NT_SMS | NT_Push | NT_Branch | NT_Filter | NT_AddToList
  | NT_RemoveFromList | NT_ABTest | NT_Webhook | NT_ListStatusBranch | NT_Other string

definition node_type_valid :: "node_type \<Rightarrow> bool" where
  "node_type_valid t = (case t of NT_Other _ \<Rightarrow> False | _ \<Rightarrow> True)"

datatype automation_status = AS_Draft | AS_Live | AS_Paused | AS_Other string

datatype journey_status = JS_Active | JS_Completed | JS_Exited | JS_Failed | JS_Other string

text \<open>The position of a node in the editor is left out, and so is the trigger of an automation,
  which enrols contacts and takes no part in their journeys.\<close>

record automation_node =
  an_ID :: string
  an_AutomationID :: string
  an_Type :: node_type
  an_Config :: "json_object option"
  an_NextNodeID :: "string option"
  an_CreatedAt :: instant

record automation_stats =
  as_Enrolled :: int
  as_Completed :: int
  as_Exited :: int
  as_Failed :: int

record automation =
  a_ID :: string
  a_WorkspaceID :: string
  a_Name :: string
  a_Status :: automation_status
  a_ListID :: string
  a_ExitOnReply :: bool
  a_RootNodeID :: string
  a_Nodes :: "automation_node list"
  a_Stats :: automation_stats
  a_DeletedAt :: "instant option"
  a_Version :: int

definition GetNodeByID :: "automation \<Rightarrow> string \<Rightarrow> automation_node option" where
  "GetNodeByID a k = find (\<lambda>n. an_ID n = k) (a_Nodes a)"

definition HasEmailNodeRestriction :: "automation \<Rightarrow> bool" where
  "HasEmailNodeRestriction a \<longleftrightarrow> a_ListID a = []"

definition AutomationNode_Validate :: "automation_node \<Rightarrow> string option" where
  "AutomationNode_Validate n =
     (if an_ID n = [] then Some ''id is required''
      else if length (an_ID n) > 36 then Some ''id cannot exceed 36 characters''
      else if an_AutomationID n = [] then Some ''automation_id is required''
      else if \<not> node_type_valid (an_Type n) then Some ''invalid node type''
      else case an_Config n of
        None \<Rightarrow> Some ''config is required''
      | Some cfg \<Rightarrow>
          if an_Type n = NT_AddToList then
            (case map_of cfg ''status'' of
               Some (JStr status) \<Rightarrow>
                 if status \<noteq> [] \<and> status \<noteq> ''active'' \<and> status \<noteq> ''pending''
                 then Some ''invalid add_to_list status'' else None
             | _ \<Rightarrow> None)
          else None)"

definition ValidateForAutomation :: "automation \<Rightarrow> automation_node \<Rightarrow> string option" where
  "ValidateForAutomation a n =
     (case AutomationNode_Validate n of
        Some e \<Rightarrow> Some e
      | None \<Rightarrow> if an_Type n = NT_Email \<and> HasEmailNodeRestriction a
                then Some ''email nodes require a list to be configured'' else None)"

definition HasEmailNodes :: "automation_node list \<Rightarrow> bool" where
  "HasEmailNodes ns \<longleftrightarrow> (\<exists>n \<in> set ns. an_Type n = NT_Email)"

section \<open>Configurations\<close>

record delay_config =
  dc_Duration :: int
  dc_Unit :: string

definition DelayNodeConfig_Validate :: "delay_config \<Rightarrow> string option" where
  "DelayNodeConfig_Validate c =
     (if dc_Duration c \<le> 0 then Some ''duration must be positive''
      else if dc_Unit c \<in> {''minutes'', ''hours'', ''days''} then None
      else Some ''invalid unit (must be minutes, hours, or days)'')"

record email_config =
  ec_TemplateID :: string
  ec_TemplateVersion :: int
  ec_IntegrationID :: "string option"
  ec_SubjectOverride :: "string option"
  ec_FromOverride :: "string option"

definition EmailNodeConfig_Validate :: "email_config \<Rightarrow> string option" where
  "EmailNodeConfig_Validate c =
     (if ec_TemplateID c = [] then Some ''template_id is required''
      else if ec_TemplateVersion c < 0 then Some ''template_version cannot be negative'' else None)"

record channel_config =
  cc_TemplateID :: string
  cc_TemplateVersion :: int
  cc_IntegrationID :: string
  cc_EndpointID :: string
  cc_Language :: string

definition SupportedLanguages :: "string list" where
  "SupportedLanguages = [''ar'', ''ca'', ''cs'', ''da'', ''de'', ''el'', ''en'', ''es'', ''fi'', ''fr'',
     ''he'', ''hi'', ''hu'', ''id'', ''it'', ''ja'', ''kk'', ''ko'', ''nl'', ''nb'', ''pl'', ''pt'', ''pt-BR'',
     ''ro'', ''ru'', ''sv'', ''th'', ''tr'', ''uk'', ''ur'', ''uz'', ''vi'', ''fil'', ''zh'', ''zh-CN'', ''zh-TW'']"

definition IsValidLanguage :: "string \<Rightarrow> bool" where
  "IsValidLanguage code \<longleftrightarrow> code \<in> set SupportedLanguages"

definition ChannelNodeConfig_Validate :: "channel_config \<Rightarrow> string option" where
  "ChannelNodeConfig_Validate c =
     (if cc_TemplateID c = [] then Some ''template_id is required''
      else if cc_IntegrationID c = [] then Some ''integration_id is required''
      else if cc_TemplateVersion c < 0 then Some ''template_version cannot be negative''
      else if cc_Language c \<noteq> [] \<and> \<not> IsValidLanguage (cc_Language c) then Some ''unsupported language''
      else None)"

record branch_path =
  bp_ID :: string
  bp_Name :: string
  bp_Conditions :: "json option"
  bp_NextNodeID :: string

record branch_config =
  bc_Paths :: "branch_path list"
  bc_DefaultPathID :: string

record filter_config =
  fc_Conditions :: "json option"
  fc_ContinueNodeID :: string
  fc_ExitNodeID :: string

record add_to_list_config =
  al_ListID :: string
  al_Status :: string

definition AddToListNodeConfig_Validate :: "add_to_list_config \<Rightarrow> string option" where
  "AddToListNodeConfig_Validate c =
     (if al_ListID c = [] then Some ''list_id is required''
      else if al_Status c \<noteq> ''active'' \<and> al_Status c \<noteq> ''pending'' then Some ''invalid status'' else None)"

definition RemoveFromListNodeConfig_Validate :: "string \<Rightarrow> string option" where
  "RemoveFromListNodeConfig_Validate listID = (if listID = [] then Some ''list_id is required'' else None)"

record list_status_config =
  ls_ListID :: string
  ls_NotInListNodeID :: string
  ls_ActiveNodeID :: string
  ls_NonActiveNodeID :: string

definition ListStatusBranchNodeConfig_Validate :: "list_status_config \<Rightarrow> string option" where
  "ListStatusBranchNodeConfig_Validate c =
     (if ls_ListID c = [] then Some ''list_id is required''
      else if ls_NotInListNodeID c = [] \<and> ls_ActiveNodeID c = [] \<and> ls_NonActiveNodeID c = []
      then Some ''at least one branch must have a target node'' else None)"

record ab_variant =
  av_ID :: string
  av_Name :: string
  av_Weight :: int
  av_NextNodeID :: string

definition ABTestVariant_Validate :: "ab_variant \<Rightarrow> string option" where
  "ABTestVariant_Validate v =
     (if av_ID v = [] then Some ''variant id is required''
      else if av_Name v = [] then Some ''variant name is required''
      else if av_Weight v < 1 \<or> av_Weight v > 100 then Some ''variant weight must be between 1 and 100''
      else if av_NextNodeID v = [] then Some ''variant next_node_id is required'' else None)"

text \<open>The loop over the variants, with the ids seen and the weight so far.\<close>

fun check_variants :: "string list \<Rightarrow> int \<Rightarrow> ab_variant list \<Rightarrow> string + int" where
  "check_variants seen weight [] = Inr weight"
| "check_variants seen weight (v # vs) =
     (case ABTestVariant_Validate v of
        Some e \<Rightarrow> Inl e
      | None \<Rightarrow> if av_ID v \<in> set seen then Inl ''duplicate variant id''
                else check_variants (av_ID v # seen) (wrap64 (weight + av_Weight v)) vs)"

definition ABTestNodeConfig_Validate :: "ab_variant list \<Rightarrow> string option" where
  "ABTestNodeConfig_Validate vs =
     (if length vs < 2 then Some ''at least 2 variants are required for A/B test''
      else case check_variants [] 0 vs of
        Inl e \<Rightarrow> Some e
      | Inr weight \<Rightarrow> if weight \<noteq> 100 then Some ''variant weights must sum to 100'' else None)"

record webhook_config =
  wh_URL :: string
  wh_Secret :: "string option"

definition WebhookNodeConfig_Validate :: "webhook_config \<Rightarrow> string option" where
  "WebhookNodeConfig_Validate c =
     (if wh_URL c = [] then Some ''url is required''
      else if \<not> is_prefix ''http://'' (wh_URL c) \<and> \<not> is_prefix ''https://'' (wh_URL c)
      then Some ''url must start with http:// or https://'' else None)"

section \<open>Parsing a configuration\<close>

text \<open>The configuration of a node, decoded and, where the parser does so, validated. A nil map is
  the JSON null, which decodes to the zero configuration.\<close>

definition config_of :: "automation_node \<Rightarrow> json_object" where
  "config_of n = (case an_Config n of None \<Rightarrow> [] | Some cfg \<Rightarrow> cfg)"

definition validated :: "('c \<Rightarrow> string option) \<Rightarrow> 'c \<Rightarrow> string + 'c" where
  "validated check c = (case check c of None \<Rightarrow> Inr c | Some e \<Rightarrow> Inl e)"

lemma validated_Inr_iff: "validated check c = Inr c' \<longleftrightarrow> check c = None \<and> c' = c"
  by (auto simp: validated_def split: option.splits)

text \<open>Every configuration may carry a description, which must be a string.\<close>

definition described :: "json_object \<Rightarrow> string + 'c \<Rightarrow> string + 'c" where
  "described cfg rest = and_then (decode_string cfg ''description'') (\<lambda>_. rest)"

definition decode_map :: "json_object \<Rightarrow> string \<Rightarrow> string + unit" where
  "decode_map obj key = (case field_of obj key of JNull \<Rightarrow> Inr () | JObj _ \<Rightarrow> Inr () | _ \<Rightarrow> Inl decode_error)"

definition parseDelayNodeConfig :: "json_object \<Rightarrow> string + delay_config" where
  "parseDelayNodeConfig cfg = described cfg (
     and_then (decode_int cfg ''duration'') (\<lambda>d.
     and_then (decode_string cfg ''unit'') (\<lambda>u.
     validated DelayNodeConfig_Validate \<lparr>dc_Duration = d, dc_Unit = u\<rparr>)))"

definition parseEmailNodeConfig :: "json_object \<Rightarrow> string + email_config" where
  "parseEmailNodeConfig cfg = described cfg (
     and_then (decode_string cfg ''template_id'') (\<lambda>t.
     and_then (decode_int cfg ''template_version'') (\<lambda>v.
     and_then (decode_string_ptr cfg ''integration_id'') (\<lambda>i.
     and_then (decode_string_ptr cfg ''subject_override'') (\<lambda>s.
     and_then (decode_string_ptr cfg ''from_override'') (\<lambda>f.
     validated EmailNodeConfig_Validate \<lparr>ec_TemplateID = t, ec_TemplateVersion = v, ec_IntegrationID = i,
       ec_SubjectOverride = s, ec_FromOverride = f\<rparr>))))))"

definition parseChannelNodeConfig :: "json_object \<Rightarrow> string + channel_config" where
  "parseChannelNodeConfig cfg = described cfg (
     and_then (decode_map cfg ''data'') (\<lambda>_.
     and_then (decode_string cfg ''template_id'') (\<lambda>t.
     and_then (decode_int cfg ''template_version'') (\<lambda>v.
     and_then (decode_string cfg ''integration_id'') (\<lambda>i.
     and_then (decode_string cfg ''endpoint_id'') (\<lambda>e.
     and_then (decode_string cfg ''language'') (\<lambda>l.
     validated ChannelNodeConfig_Validate \<lparr>cc_TemplateID = t, cc_TemplateVersion = v, cc_IntegrationID = i,
       cc_EndpointID = e, cc_Language = l\<rparr>)))))))"

definition decode_path :: "json_object \<Rightarrow> string + branch_path" where
  "decode_path obj =
     and_then (decode_string obj ''id'') (\<lambda>i.
     and_then (decode_string obj ''name'') (\<lambda>n.
     and_then (decode_string obj ''next_node_id'') (\<lambda>x.
     Inr \<lparr>bp_ID = i, bp_Name = n, bp_Conditions = decode_tree obj ''conditions'', bp_NextNodeID = x\<rparr>)))"

definition parseBranchNodeConfig :: "json_object \<Rightarrow> string + branch_config" where
  "parseBranchNodeConfig cfg = described cfg (
     and_then (decode_list decode_path cfg ''paths'') (\<lambda>ps.
     and_then (decode_string cfg ''default_path_id'') (\<lambda>d.
     Inr \<lparr>bc_Paths = ps, bc_DefaultPathID = d\<rparr>)))"

definition parseFilterNodeConfig :: "json_object \<Rightarrow> string + filter_config" where
  "parseFilterNodeConfig cfg = described cfg (
     and_then (decode_string cfg ''continue_node_id'') (\<lambda>c.
     and_then (decode_string cfg ''exit_node_id'') (\<lambda>x.
     Inr \<lparr>fc_Conditions = decode_tree cfg ''conditions'', fc_ContinueNodeID = c, fc_ExitNodeID = x\<rparr>)))"

definition parseAddToListNodeConfig :: "json_object \<Rightarrow> string + add_to_list_config" where
  "parseAddToListNodeConfig cfg = described cfg (
     and_then (decode_map cfg ''metadata'') (\<lambda>_.
     and_then (decode_string cfg ''list_id'') (\<lambda>l.
     and_then (decode_string cfg ''status'') (\<lambda>s.
     validated AddToListNodeConfig_Validate \<lparr>al_ListID = l, al_Status = s\<rparr>))))"

definition parseRemoveFromListNodeConfig :: "json_object \<Rightarrow> string + string" where
  "parseRemoveFromListNodeConfig cfg = described cfg (
     and_then (decode_string cfg ''list_id'') (validated RemoveFromListNodeConfig_Validate))"

definition parseListStatusBranchNodeConfig :: "json_object \<Rightarrow> string + list_status_config" where
  "parseListStatusBranchNodeConfig cfg = described cfg (
     and_then (decode_string cfg ''list_id'') (\<lambda>l.
     and_then (decode_string cfg ''not_in_list_node_id'') (\<lambda>n.
     and_then (decode_string cfg ''active_node_id'') (\<lambda>a.
     and_then (decode_string cfg ''non_active_node_id'') (\<lambda>x.
     validated ListStatusBranchNodeConfig_Validate
       \<lparr>ls_ListID = l, ls_NotInListNodeID = n, ls_ActiveNodeID = a, ls_NonActiveNodeID = x\<rparr>)))))"

definition decode_variant :: "json_object \<Rightarrow> string + ab_variant" where
  "decode_variant obj =
     and_then (decode_string obj ''id'') (\<lambda>i.
     and_then (decode_string obj ''name'') (\<lambda>n.
     and_then (decode_int obj ''weight'') (\<lambda>w.
     and_then (decode_string obj ''next_node_id'') (\<lambda>x.
     Inr \<lparr>av_ID = i, av_Name = n, av_Weight = w, av_NextNodeID = x\<rparr>))))"

definition parseABTestNodeConfig :: "json_object \<Rightarrow> string + ab_variant list" where
  "parseABTestNodeConfig cfg = described cfg (
     and_then (decode_list decode_variant cfg ''variants'') (validated ABTestNodeConfig_Validate))"

definition parseWebhookNodeConfig :: "json_object \<Rightarrow> string + webhook_config" where
  "parseWebhookNodeConfig cfg = described cfg (
     and_then (decode_string cfg ''url'') (\<lambda>u.
     and_then (decode_string_ptr cfg ''secret'') (\<lambda>s.
     validated WebhookNodeConfig_Validate \<lparr>wh_URL = u, wh_Secret = s\<rparr>)))"

section \<open>The environment of an execution\<close>

text \<open>An error of a node: a text, whose chain may hold a network error or the sentinel of an unknown
  outcome.\<close>

datatype node_error = NE_Text string | NE_Network string | NE_Unknown string

fun node_error_text :: "node_error \<Rightarrow> string" where
  "node_error_text (NE_Text s) = s"
| "node_error_text (NE_Network s) = s"
| "node_error_text (NE_Unknown s) = s"

datatype list_answer = LA_NotFound | LA_Error string | LA_Status string

text \<open>The answer to a webhook: no request could be made of it, the request failed, its response broke
  off while it was read (by a network error or not), or a response.\<close>

datatype http_answer =
  HA_NotSent string | HA_Failed string | HA_Unreadable bool string | HA_Response int string

datatype channel_answer = CA_Error node_error | CA_Missing | CA_Confirmed | CA_Unknown string | CA_State string

text \<open>What a node does outside of its journey.\<close>

datatype node_effect =
    Enqueue_Email string string   \<comment> \<open>id of the queue row, message id\<close>
  | Send_Channel string           \<comment> \<open>effect key\<close>
  | Call_Webhook "string option"  \<comment> \<open>idempotency key\<close>
  | Add_To_List string string     \<comment> \<open>list, status\<close>
  | Remove_From_List string

record node_env =
  ne_now :: instant
  ne_connection :: "string option"
  ne_matches :: "json option \<Rightarrow> string \<Rightarrow> node_error + bool"
  ne_list :: "string \<Rightarrow> string \<Rightarrow> list_answer"
  ne_add_to_list :: "string \<Rightarrow> string \<Rightarrow> string option"
  ne_remove_from_list :: "string \<Rightarrow> string \<Rightarrow> string option"
  ne_template :: "email_config \<Rightarrow> node_error + string \<times> string"  \<comment> \<open>provider and template: category, purpose\<close>
  ne_render :: "email_config \<Rightarrow> node_error option"
  ne_enqueue :: "string \<Rightarrow> node_error option"
  ne_uuid :: string
  ne_uuid2 :: string
  ne_sha1 :: "string \<Rightarrow> string"
  ne_webhook :: "webhook_config \<Rightarrow> http_answer"
  ne_channel :: "channel_config \<Rightarrow> channel_answer"

record node_result =
  nr_NextNodeID :: "string option"
  nr_ScheduledAt :: "instant option"
  nr_Status :: journey_status
  nr_ExitReason :: "string option"

type_synonym node_outcome = "(node_error + node_result) \<times> node_effect list"

text \<open>The parameters of an execution that executors read: the workspace, the contact automation's
  id and e-mail address, the node, the automation, whether the contact was loaded, and the effect
  key of the execution context.\<close>

record node_params =
  np_WorkspaceID :: string
  np_ContactID :: string
  np_ContactEmail :: string
  np_Node :: automation_node
  np_Automation :: automation
  np_ContactData :: "string option"  \<comment> \<open>the e-mail address of the loaded contact\<close>
  np_EffectKey :: string

definition node_text :: "string \<Rightarrow> node_error + 'a" where
  "node_text s = Inl (NE_Text s)"

definition advance :: "string option \<Rightarrow> node_result" where
  "advance next = \<lparr>nr_NextNodeID = next, nr_ScheduledAt = None, nr_Status = JS_Active, nr_ExitReason = None\<rparr>"

text \<open>An empty id of a next node completes the journey.\<close>

definition advance_or_complete :: "string \<Rightarrow> node_result" where
  "advance_or_complete next =
     (if next = [] then (advance None)\<lparr>nr_Status := JS_Completed\<rparr> else advance (Some next))"

section \<open>Executors\<close>

definition exec_trigger :: "node_params \<Rightarrow> node_outcome" where
  "exec_trigger p = (Inr (advance (an_NextNodeID (np_Node p))), [])"

definition hour :: duration where "hour = 60 * minute"

definition delay_duration :: "delay_config \<Rightarrow> node_error + duration" where
  "delay_duration c =
     (if dc_Unit c = ''minutes'' then Inr (wrap64 (dc_Duration c * minute))
      else if dc_Unit c = ''hours'' then Inr (wrap64 (dc_Duration c * hour))
      else if dc_Unit c = ''days'' then Inr (wrap64 (wrap64 (dc_Duration c * 24) * hour))
      else node_text (''invalid delay unit: '' @ dc_Unit c))"

definition exec_delay :: "node_env \<Rightarrow> node_params \<Rightarrow> node_outcome" where
  "exec_delay env p =
     (case parseDelayNodeConfig (config_of (np_Node p)) of
        Inl e \<Rightarrow> (node_text (''invalid delay node config: '' @ e), [])
      | Inr c \<Rightarrow>
          (case delay_duration c of
             Inl e \<Rightarrow> (Inl e, [])
           | Inr d \<Rightarrow> (Inr ((advance (an_NextNodeID (np_Node p)))\<lparr>nr_ScheduledAt := Some (ne_now env + d)\<rparr>), [])))"

text \<open>The e-mail node. Loading the workspace, its provider and the template answers with the
  category and the purpose of the template; identity, template data, rendering and the sender
  come after the check of the subscription.\<close>

definition EffectiveTemplateCategoryPurpose :: "string \<Rightarrow> string \<Rightarrow> string" where
  "EffectiveTemplateCategoryPurpose category resolved =
     (if resolved = ''marketing'' \<or> resolved = ''transactional'' then resolved
      else if category = ''marketing'' \<or> category = ''blog'' then ''marketing''
      else ''transactional'')"

definition isSubscriptionSensitiveCategory :: "string \<Rightarrow> string \<Rightarrow> bool" where
  "isSubscriptionSensitiveCategory category purpose \<longleftrightarrow>
     EffectiveTemplateCategoryPurpose category purpose = ''marketing''"

definition unsubscribed_statuses :: "string list" where
  "unsubscribed_statuses = [''unsubscribed'', ''bounced'', ''complained'']"

text \<open>\<open>Inl\<close> ends the node with an outcome.\<close>

definition subscription_check ::
    "node_env \<Rightarrow> node_params \<Rightarrow> string \<Rightarrow> string \<times> string \<Rightarrow> (node_error + node_result) + unit" where
  "subscription_check env p email tmpl =
     (if isSubscriptionSensitiveCategory (fst tmpl) (snd tmpl) \<and> a_ListID (np_Automation p) \<noteq> [] then
        (case ne_list env email (a_ListID (np_Automation p)) of
           LA_NotFound \<Rightarrow> Inr ()
         | LA_Error e \<Rightarrow> Inl (node_text (''failed to check contact subscription status: '' @ e))
         | LA_Status status \<Rightarrow>
             if status \<in> set unsubscribed_statuses
             then Inl (Inr \<lparr>nr_NextNodeID = None, nr_ScheduledAt = None, nr_Status = JS_Exited,
                    nr_ExitReason = Some status\<rparr>)
             else Inr ())
      else Inr ())"

definition exec_email :: "node_env \<Rightarrow> node_params \<Rightarrow> node_outcome" where
  "exec_email env p =
     (case np_ContactData p of
        None \<Rightarrow> (node_text ''contact data is required for email node'', [])
      | Some email \<Rightarrow>
          (case parseEmailNodeConfig (config_of (np_Node p)) of
             Inl e \<Rightarrow> (node_text (''invalid email node config: '' @ e), [])
           | Inr c \<Rightarrow>
               (case ne_template env c of
                  Inl e \<Rightarrow> (Inl e, [])
                | Inr tmpl \<Rightarrow>
                    (case subscription_check env p email tmpl of
                       Inl out \<Rightarrow> (out, [])
                     | Inr _ \<Rightarrow>
                         let key = np_EffectKey p;
                             msg = (if key = [] then ne_uuid env else ne_sha1 env (key @ '':email-message''));
                             queueID = (if key = [] then ne_uuid2 env else ne_sha1 env (key @ '':email-queue''));
                             messageID = np_WorkspaceID p @ ''_'' @ msg
                         in (case ne_render env c of
                               Some e \<Rightarrow> (Inl e, [])
                             | None \<Rightarrow>
                                 (case ne_enqueue env queueID of
                                    Some e \<Rightarrow> (Inl e, [])
                                  | None \<Rightarrow> (Inr (advance (an_NextNodeID (np_Node p))),
                                             [Enqueue_Email queueID messageID])))))))"

text \<open>A branch takes the first path with conditions that match, else the default path; a path is
  taken to its next node, whatever its id is.\<close>

definition findDefaultPath :: "branch_path list \<Rightarrow> string \<Rightarrow> branch_path option" where
  "findDefaultPath ps d =
     (case find (\<lambda>q. bp_ID q = d) ps of
        Some q \<Rightarrow> Some q
      | None \<Rightarrow> (case ps of [] \<Rightarrow> None | q # _ \<Rightarrow> Some q))"

fun first_match :: "node_env \<Rightarrow> string \<Rightarrow> branch_path list \<Rightarrow> node_error + branch_path option" where
  "first_match env email [] = Inr None"
| "first_match env email (q # ps) =
     (if bp_Conditions q = None then first_match env email ps
      else case ne_matches env (bp_Conditions q) email of
        Inl e \<Rightarrow> node_text (''failed to evaluate path '' @ bp_ID q @ '': '' @ node_error_text e)
      | Inr True \<Rightarrow> Inr (Some q)
      | Inr False \<Rightarrow> first_match env email ps)"

definition exec_branch :: "node_env \<Rightarrow> node_params \<Rightarrow> string \<Rightarrow> node_outcome" where
  "exec_branch env p email =
     (case parseBranchNodeConfig (config_of (np_Node p)) of
        Inl e \<Rightarrow> (node_text (''invalid branch node config: '' @ e), [])
      | Inr c \<Rightarrow>
          (case ne_connection env of
             Some e \<Rightarrow> (node_text (''failed to get db connection: '' @ e), [])
           | None \<Rightarrow>
               (case first_match env email (bc_Paths c) of
                  Inl e \<Rightarrow> (Inl e, [])
                | Inr (Some q) \<Rightarrow> (Inr (advance (Some (bp_NextNodeID q))), [])
                | Inr None \<Rightarrow>
                    (case findDefaultPath (bc_Paths c) (bc_DefaultPathID c) of
                       Some q \<Rightarrow> (Inr (advance (Some (bp_NextNodeID q))), [])
                     | None \<Rightarrow> (Inr ((advance None)\<lparr>nr_Status := JS_Completed\<rparr>), [])))))"

definition exec_filter :: "node_env \<Rightarrow> node_params \<Rightarrow> string \<Rightarrow> node_outcome" where
  "exec_filter env p email =
     (case parseFilterNodeConfig (config_of (np_Node p)) of
        Inl e \<Rightarrow> (node_text (''invalid filter node config: '' @ e), [])
      | Inr c \<Rightarrow>
          (case ne_connection env of
             Some e \<Rightarrow> (node_text (''failed to get db connection: '' @ e), [])
           | None \<Rightarrow>
               (case ne_matches env (fc_Conditions c) email of
                  Inl e \<Rightarrow> (node_text (''failed to evaluate filter: '' @ node_error_text e), [])
                | Inr True \<Rightarrow> (Inr (advance_or_complete (fc_ContinueNodeID c)), [])
                | Inr False \<Rightarrow> (Inr (advance_or_complete (fc_ExitNodeID c)), []))))"

text \<open>An error of the list repository does not stop the journey.\<close>

definition exec_add_to_list :: "node_env \<Rightarrow> node_params \<Rightarrow> node_outcome" where
  "exec_add_to_list env p =
     (case parseAddToListNodeConfig (config_of (np_Node p)) of
        Inl e \<Rightarrow> (node_text (''invalid add-to-list node config: '' @ e), [])
      | Inr c \<Rightarrow> (Inr (advance (an_NextNodeID (np_Node p))),
          if ne_add_to_list env (np_ContactEmail p) (al_ListID c) = None
          then [Add_To_List (al_ListID c) (al_Status c)] else []))"

definition exec_remove_from_list :: "node_env \<Rightarrow> node_params \<Rightarrow> node_outcome" where
  "exec_remove_from_list env p =
     (case parseRemoveFromListNodeConfig (config_of (np_Node p)) of
        Inl e \<Rightarrow> (node_text (''invalid remove-from-list node config: '' @ e), [])
      | Inr listID \<Rightarrow> (Inr (advance (an_NextNodeID (np_Node p))),
          if ne_remove_from_list env (np_ContactEmail p) listID = None then [Remove_From_List listID] else []))"

definition exec_list_status :: "node_env \<Rightarrow> node_params \<Rightarrow> node_outcome" where
  "exec_list_status env p =
     (case parseListStatusBranchNodeConfig (config_of (np_Node p)) of
        Inl e \<Rightarrow> (node_text (''invalid list_status_branch node config: '' @ e), [])
      | Inr c \<Rightarrow>
          (case ne_list env (np_ContactEmail p) (ls_ListID c) of
             LA_Error e \<Rightarrow> (node_text (''failed to check contact list status: '' @ e), [])
           | LA_NotFound \<Rightarrow> (Inr (advance_or_complete (ls_NotInListNodeID c)), [])
           | LA_Status status \<Rightarrow>
               (Inr (advance_or_complete (if status = ''active'' then ls_ActiveNodeID c else ls_NonActiveNodeID c)), [])))"

section \<open>A/B tests\<close>

definition fnv32a :: "string \<Rightarrow> 32 word" where
  "fnv32a s = fold (\<lambda>c h. (h XOR of_nat (of_char c)) * 16777619) s 2166136261"

fun pick_variant :: "int \<Rightarrow> int \<Rightarrow> ab_variant \<Rightarrow> ab_variant list \<Rightarrow> ab_variant" where
  "pick_variant roll cumulative fallback [] = fallback"
| "pick_variant roll cumulative fallback (v # vs) =
     (let cumulative' = wrap64 (cumulative + av_Weight v)
      in if roll < cumulative' then v else pick_variant roll cumulative' fallback vs)"

definition roll_of :: "string \<Rightarrow> string \<Rightarrow> int" where
  "roll_of email nodeID = uint (fnv32a (email @ nodeID) mod 100)"

definition selectVariantDeterministic :: "string \<Rightarrow> string \<Rightarrow> ab_variant list \<Rightarrow> ab_variant" where
  "selectVariantDeterministic email nodeID vs = pick_variant (roll_of email nodeID) 0 (last vs) vs"

definition exec_ab_test :: "node_params \<Rightarrow> node_outcome" where
  "exec_ab_test p =
     (case parseABTestNodeConfig (config_of (np_Node p)) of
        Inl e \<Rightarrow> (node_text (''invalid ab_test node config: '' @ e), [])
      | Inr vs \<Rightarrow>
          (Inr (advance (Some (av_NextNodeID
             (selectVariantDeterministic (np_ContactEmail p) (an_ID (np_Node p)) vs)))), []))"

section \<open>Webhooks and channels\<close>

definition exec_webhook :: "node_env \<Rightarrow> node_params \<Rightarrow> node_outcome" where
  "exec_webhook env p =
     (case parseWebhookNodeConfig (config_of (np_Node p)) of
        Inl e \<Rightarrow> (node_text (''invalid webhook node config: '' @ e), [])
      | Inr c \<Rightarrow>
          (let call = Call_Webhook (if np_EffectKey p = [] then None else Some (np_EffectKey p))
           in case ne_webhook env c of
                HA_NotSent e \<Rightarrow> (node_text (''failed to create webhook request: '' @ e), [])
              | HA_Failed e \<Rightarrow> (Inl (NE_Network (''webhook request failed: '' @ e)), [call])
              | HA_Unreadable True e \<Rightarrow> (Inl (NE_Network (''failed to read webhook response: '' @ e)), [call])
              | HA_Unreadable False e \<Rightarrow> (node_text (''failed to read webhook response: '' @ e), [call])
              | HA_Response code body \<Rightarrow>
                  if 400 \<le> code \<and> code < 500
                  then (node_text (''webhook returned client error: '' @ body), [call])
                  else if code \<ge> 500 then (node_text (''webhook returned server error: '' @ body), [call])
                  else (Inr (advance (an_NextNodeID (np_Node p))), [call])))"

definition channel_of :: "node_type \<Rightarrow> string" where
  "channel_of t = (if t = NT_Push then ''push'' else ''sms'')"

definition exec_channel :: "node_env \<Rightarrow> node_params \<Rightarrow> node_outcome" where
  "exec_channel env p =
     (case parseChannelNodeConfig (config_of (np_Node p)) of
        Inl e \<Rightarrow> (node_text (''invalid '' @ channel_of (an_Type (np_Node p)) @ '' node config: '' @ e), [])
      | Inr c \<Rightarrow>
          (let key = (if np_EffectKey p = []
                      then ''journey:'' @ np_WorkspaceID p @ '':'' @ np_ContactID p @ '':'' @
                        an_ID (np_Node p) @ '':'' @ channel_of (an_Type (np_Node p))
                      else np_EffectKey p)
           in case ne_channel env c of
                CA_Error e \<Rightarrow> (Inl e, [Send_Channel key])
              | CA_Missing \<Rightarrow> (node_text ''channel send effect is in missing state'', [Send_Channel key])
              | CA_Unknown s \<Rightarrow> (Inl (NE_Unknown (''channel send effect is in '' @ s @ '' state'')), [Send_Channel key])
              | CA_State s \<Rightarrow> (node_text (''channel send effect is in '' @ s @ '' state''), [Send_Channel key])
              | CA_Confirmed \<Rightarrow> (Inr (advance (an_NextNodeID (np_Node p))), [Send_Channel key])))"

section \<open>Dispatch\<close>

text \<open>The executors by node type; those of the channels exist when the channel service is configured.\<close>

definition has_executor :: "bool \<Rightarrow> node_type \<Rightarrow> bool" where
  "has_executor channels t =
     (case t of NT_SMS \<Rightarrow> channels | NT_Push \<Rightarrow> channels | NT_Other _ \<Rightarrow> False | _ \<Rightarrow> True)"

definition execute_node :: "node_env \<Rightarrow> node_params \<Rightarrow> string \<Rightarrow> node_outcome" where
  "execute_node env p email =
     (case an_Type (np_Node p) of
        NT_Trigger \<Rightarrow> exec_trigger p
      | NT_Delay \<Rightarrow> exec_delay env p
      | NT_Email \<Rightarrow> exec_email env p
      | NT_SMS \<Rightarrow> exec_channel env p
      | NT_Push \<Rightarrow> exec_channel env p
      | NT_Branch \<Rightarrow> exec_branch env p email
      | NT_Filter \<Rightarrow> exec_filter env p email
      | NT_AddToList \<Rightarrow> exec_add_to_list env p
      | NT_RemoveFromList \<Rightarrow> exec_remove_from_list env p
      | NT_ABTest \<Rightarrow> exec_ab_test p
      | NT_Webhook \<Rightarrow> exec_webhook env p
      | NT_ListStatusBranch \<Rightarrow> exec_list_status env p
      | NT_Other _ \<Rightarrow> (node_text ''unsupported node type'', []))"

section \<open>What results can be\<close>

text \<open>A result that neither completes nor exits is active; a next node and an exit exclude each
  other; only a delay schedules.\<close>

definition result_ok :: "node_type \<Rightarrow> node_result \<Rightarrow> bool" where
  "result_ok t r \<longleftrightarrow> nr_Status r \<in> {JS_Active, JS_Completed, JS_Exited} \<and>
     (nr_Status r \<noteq> JS_Active \<longrightarrow> nr_NextNodeID r = None) \<and>
     (nr_ScheduledAt r \<noteq> None \<longrightarrow> t = NT_Delay \<and> nr_Status r = JS_Active) \<and>
     (nr_Status r = JS_Exited \<longleftrightarrow> nr_ExitReason r \<noteq> None)"

lemma result_ok_advance [simp]: "result_ok t (advance next)"
  by (simp add: result_ok_def advance_def)

lemma result_ok_advance_or_complete [simp]: "result_ok t (advance_or_complete next)"
  by (simp add: result_ok_def advance_or_complete_def advance_def)

lemmas executor_defs = exec_trigger_def exec_delay_def exec_email_def exec_branch_def exec_filter_def
  exec_add_to_list_def exec_remove_from_list_def exec_list_status_def exec_ab_test_def exec_webhook_def
  exec_channel_def

lemma result_ok_completed [simp]: "result_ok t ((advance None)\<lparr>nr_Status := JS_Completed\<rparr>)"
  by (simp add: result_ok_def advance_def)

lemma result_ok_delay [simp]: "result_ok NT_Delay ((advance next)\<lparr>nr_ScheduledAt := Some u\<rparr>)"
  by (simp add: result_ok_def advance_def)

lemma subscription_check_result:
  "subscription_check env p email tmpl = Inl (Inr r) \<Longrightarrow> result_ok t r"
  by (auto simp: subscription_check_def result_ok_def node_text_def split: if_splits list_answer.splits)

lemma execute_node_result_ok:
  assumes "fst (execute_node env p email) = Inr r"
  shows "result_ok (an_Type (np_Node p)) r"
  using assms
  by (cases "an_Type (np_Node p)")
    (auto simp: execute_node_def executor_defs node_text_def Let_def subscription_check_result
      split: sum.splits option.splits if_splits http_answer.splits channel_answer.splits list_answer.splits
        bool.splits)

end
