(* ===== verification/Realtime_Store.thy ===== *)
theory Realtime_Store
  imports Journey_Nodes "HOL-Library.Product_Lexorder"
begin

text \<open>
  The tables of the realtime engine: events and outbox, the consumers' inbox and the side
  effects (\<open>internal/domain/realtime.go\<close>, \<open>internal/database/schema/realtime.go\<close>), with the
  operations of \<open>internal/repository/realtime_postgres.go\<close> that relay and workers use. Identifiers
  and tokens are strings, the nil UUID is the empty one; tokens are drawn by the caller. Each
  operation is one statement or one transaction.
\<close>

section \<open>Events and commands\<close>

text \<open>The command of a side effect of a journey, as its event carries it.\<close>

record side_effect_data =
  sd_ContactAutomationID :: string
  sd_AutomationID :: string
  sd_AutomationName :: string
  sd_AutomationVersion :: int
  sd_AutomationListID :: string
  sd_AutomationExitReply :: bool
  sd_StateVersion :: int
  sd_ContactEmail :: string
  sd_NodeID :: string
  sd_NodeType :: node_type
  sd_NodeConfig :: "json_object option"

text \<open>The data of an event: valid JSON, which decodes as a command or does not, or no JSON.\<close>

datatype event_data = ED_SideEffect side_effect_data | ED_Other json | ED_Invalid

record event_subject =
  es_Type :: string
  es_ID :: string
  es_CustomerID :: string
  es_ContactEmail :: string

record event_envelope =
  ev_ID :: string
  ev_EventID :: string
  ev_Type :: string
  ev_SchemaVersion :: int
  ev_WorkspaceID :: string
  ev_Subject :: event_subject
  ev_Source :: string
  ev_OccurredAt :: instant
  ev_ReceivedAt :: instant
  ev_CorrelationID :: string
  ev_CausationID :: "string option"
  ev_TraceID :: string
  ev_Data :: event_data

definition EventEnvelope_Validate :: "(string \<Rightarrow> bool) \<Rightarrow> event_envelope \<Rightarrow> string option" where
  "EventEnvelope_Validate is_uuid e =
     (if ev_ID e = [] then Some ''id is required''
      else if ev_EventID e = [] then Some ''event_id is required''
      else if ev_Type e = [] then Some ''type is required''
      else if ev_SchemaVersion e \<le> 0 then Some ''schema_version must be positive''
      else if ev_WorkspaceID e = [] then Some ''workspace_id is required''
      else if es_Type (ev_Subject e) = [] \<or> es_ID (ev_Subject e) = [] then Some ''subject type and id are required''
      else if es_CustomerID (ev_Subject e) \<noteq> [] \<and> \<not> is_uuid (es_CustomerID (ev_Subject e))
      then Some ''subject customer_id must be a UUID''
      else if ev_Source e = [] then Some ''source is required''
      else if ev_OccurredAt e = zero_time \<or> ev_ReceivedAt e = zero_time
      then Some ''occurred_at and received_at are required''
      else if ev_CorrelationID e = [] then Some ''correlation_id is required''
      else if ev_Data e = ED_Invalid then Some ''data must contain valid JSON'' else None)"

section \<open>Rows\<close>

datatype outbox_status = OS_Pending | OS_Claimed | OS_Published | OS_Dead

record outbox_message =
  om_ID :: string
  om_EventID :: string
  om_Topic :: string
  om_RoutingKey :: string
  om_Payload :: event_envelope
  om_EffectKey :: "string option"   \<comment> \<open>the header \<open>effect_key\<close>\<close>
  om_Status :: outbox_status
  om_Attempts :: int
  om_AvailableAt :: instant
  om_ClaimedBy :: "string option"
  om_ClaimToken :: "string option"
  om_ClaimExpiresAt :: "instant option"
  om_PublishedAt :: "instant option"
  om_LastError :: "string option"
  om_CreatedAt :: instant

datatype inbox_status = IS_Processing | IS_Completed | IS_Failed

record inbox_row =
  ib_Consumer :: string
  ib_MessageID :: string
  ib_Status :: inbox_status
  ib_Attempts :: int
  ib_ClaimToken :: string
  ib_ClaimExpiresAt :: instant
  ib_ProcessedAt :: "instant option"
  ib_LastError :: "string option"
  ib_CreatedAt :: instant

datatype effect_status = ES_Reserved | ES_Submitted | ES_Confirmed | ES_Failed | ES_Unknown

record side_effect =
  se_EffectKey :: string
  se_ContactAutomationID :: string
  se_AutomationVersion :: int
  se_NodeID :: string
  se_ExecutionVersion :: int
  se_Channel :: string
  se_Status :: effect_status
  se_ProviderMessageID :: "string option"
  se_RequestHash :: string
  se_Attempts :: int
  se_LastError :: "string option"
  se_CreatedAt :: instant
  se_UpdatedAt :: instant

record realtime_db =
  rd_outbox :: "outbox_message list"
  rd_inbox :: "inbox_row list"
  rd_effects :: "side_effect list"

datatype rt_error =
    RE_Required string
  | RE_NoRows
  | RE_HashConflict
  | RE_Transition effect_status effect_status
  | RE_Mismatch string
  | RE_Driver

section \<open>The outbox\<close>

definition claimable_message :: "instant \<Rightarrow> outbox_message \<Rightarrow> bool" where
  "claimable_message now m \<longleftrightarrow> om_AvailableAt m \<le> now \<and>
     (om_Status m = OS_Pending \<or>
      om_Status m = OS_Claimed \<and> (case om_ClaimExpiresAt m of None \<Rightarrow> False | Some u \<Rightarrow> u \<le> now))"

definition claim_message :: "instant \<Rightarrow> string \<Rightarrow> string \<Rightarrow> duration \<Rightarrow> outbox_message \<Rightarrow> outbox_message" where
  "claim_message now worker token lease m = m\<lparr>om_Status := OS_Claimed, om_ClaimedBy := Some worker,
     om_ClaimToken := Some token, om_ClaimExpiresAt := Some (now + lease), om_Attempts := om_Attempts m + 1\<rparr>"

definition outbox_candidates :: "instant \<Rightarrow> (string \<Rightarrow> bool) \<Rightarrow> int \<Rightarrow> outbox_message list \<Rightarrow> outbox_message list" where
  "outbox_candidates now locked limit ms =
     take (nat limit) (filter (\<lambda>m. \<not> locked (om_ID m))
       (sort_key (\<lambda>m. (om_AvailableAt m, om_CreatedAt m)) (filter (claimable_message now) ms)))"

definition ClaimOutbox ::
    "string \<Rightarrow> instant \<Rightarrow> duration \<Rightarrow> int \<Rightarrow> string \<Rightarrow> (string \<Rightarrow> bool) \<Rightarrow> 'a realtime_db_scheme \<Rightarrow>
     (rt_error + outbox_message list) \<times> 'a realtime_db_scheme" where
  "ClaimOutbox worker now lease limit token locked db =
     (if limit \<le> 0 \<or> lease \<le> 0 \<or> worker = []
      then (Inl (RE_Required ''worker id, positive lease, and positive limit are required''), db)
      else let picked = outbox_candidates now locked limit (rd_outbox db);
               ids = map om_ID picked
           in (Inr (map (claim_message now worker token lease) picked),
               db\<lparr>rd_outbox := sql_update (\<lambda>m. om_ID m \<in> set ids) (claim_message now worker token lease)
                    (rd_outbox db)\<rparr>))"

definition owns_message :: "string \<Rightarrow> string \<Rightarrow> outbox_message \<Rightarrow> bool" where
  "owns_message k token m \<longleftrightarrow> om_ID m = k \<and> om_ClaimToken m = Some token \<and> om_Status m = OS_Claimed"

definition MarkOutboxPublished ::
    "string \<Rightarrow> string \<Rightarrow> instant \<Rightarrow> 'a realtime_db_scheme \<Rightarrow> bool \<times> 'a realtime_db_scheme" where
  "MarkOutboxPublished k token publishedAt db =
     (sql_count (owns_message k token) (rd_outbox db) > 0,
      db\<lparr>rd_outbox := sql_update (owns_message k token)
        (\<lambda>m. m\<lparr>om_Status := OS_Published, om_PublishedAt := Some publishedAt, om_ClaimedBy := None,
               om_ClaimToken := None, om_ClaimExpiresAt := None, om_LastError := None\<rparr>) (rd_outbox db)\<rparr>)"

definition ReleaseOutbox ::
    "string \<Rightarrow> string \<Rightarrow> instant \<Rightarrow> string \<Rightarrow> bool \<Rightarrow> 'a realtime_db_scheme \<Rightarrow> bool \<times> 'a realtime_db_scheme" where
  "ReleaseOutbox k token availableAt lastError dead db =
     (sql_count (owns_message k token) (rd_outbox db) > 0,
      db\<lparr>rd_outbox := sql_update (owns_message k token)
        (\<lambda>m. m\<lparr>om_Status := (if dead then OS_Dead else OS_Pending), om_AvailableAt := availableAt,
               om_LastError := (if lastError = [] then None else Some lastError), om_ClaimedBy := None,
               om_ClaimToken := None, om_ClaimExpiresAt := None\<rparr>) (rd_outbox db)\<rparr>)"

text \<open>\<open>INSERT .. ON CONFLICT (event_id, topic, routing_key) DO NOTHING\<close>; a clash of the primary key
  is an error.\<close>

definition enqueue_command :: "outbox_message \<Rightarrow> 'a realtime_db_scheme \<Rightarrow> (rt_error + unit) \<times> 'a realtime_db_scheme" where
  "enqueue_command m db =
     (if \<exists>x \<in> set (rd_outbox db). om_EventID x = om_EventID m \<and> om_Topic x = om_Topic m \<and>
           om_RoutingKey x = om_RoutingKey m
      then (Inr (), db)
      else if \<exists>x \<in> set (rd_outbox db). om_ID x = om_ID m then (Inl RE_Driver, db)
      else (Inr (), db\<lparr>rd_outbox := rd_outbox db @ [m]\<rparr>))"

section \<open>The inbox\<close>

definition of_message :: "string \<Rightarrow> string \<Rightarrow> inbox_row \<Rightarrow> bool" where
  "of_message consumer k r \<longleftrightarrow> ib_Consumer r = consumer \<and> ib_MessageID r = k"

definition reclaimable :: "instant \<Rightarrow> inbox_row \<Rightarrow> bool" where
  "reclaimable now r \<longleftrightarrow> ib_Status r = IS_Failed \<or> ib_Status r = IS_Processing \<and> ib_ClaimExpiresAt r \<le> now"

record inbox_claim =
  ic_Status :: inbox_status
  ic_Token :: string
  ic_Acquired :: bool

definition ClaimInbox ::
    "string \<Rightarrow> string \<Rightarrow> instant \<Rightarrow> duration \<Rightarrow> string \<Rightarrow> 'a realtime_db_scheme \<Rightarrow>
     (rt_error + inbox_claim) \<times> 'a realtime_db_scheme" where
  "ClaimInbox consumer k now lease token db =
     (if consumer = [] \<or> k = [] \<or> lease \<le> 0
      then (Inl (RE_Required ''consumer, message id, and positive lease are required''), db)
      else case sql_find (of_message consumer k) (rd_inbox db) of
        None \<Rightarrow>
          (Inr \<lparr>ic_Status = IS_Processing, ic_Token = token, ic_Acquired = True\<rparr>,
           db\<lparr>rd_inbox := rd_inbox db @ [\<lparr>ib_Consumer = consumer, ib_MessageID = k, ib_Status = IS_Processing,
             ib_Attempts = 1, ib_ClaimToken = token, ib_ClaimExpiresAt = now + lease, ib_ProcessedAt = None,
             ib_LastError = None, ib_CreatedAt = now\<rparr>]\<rparr>)
      | Some r \<Rightarrow>
          if reclaimable now r then
            (Inr \<lparr>ic_Status = IS_Processing, ic_Token = token, ic_Acquired = True\<rparr>,
             db\<lparr>rd_inbox := sql_update (of_message consumer k)
               (\<lambda>r. r\<lparr>ib_Status := IS_Processing, ib_Attempts := ib_Attempts r + 1, ib_ClaimToken := token,
                      ib_ClaimExpiresAt := now + lease, ib_ProcessedAt := None, ib_LastError := None\<rparr>)
               (rd_inbox db)\<rparr>)
          else (Inr \<lparr>ic_Status = ib_Status r, ic_Token = ib_ClaimToken r, ic_Acquired = False\<rparr>, db))"

definition holds_message :: "string \<Rightarrow> string \<Rightarrow> string \<Rightarrow> inbox_row \<Rightarrow> bool" where
  "holds_message consumer k token r \<longleftrightarrow>
     of_message consumer k r \<and> ib_ClaimToken r = token \<and> ib_Status r = IS_Processing"

definition CompleteInbox ::
    "string \<Rightarrow> string \<Rightarrow> string \<Rightarrow> instant \<Rightarrow> 'a realtime_db_scheme \<Rightarrow> bool \<times> 'a realtime_db_scheme" where
  "CompleteInbox consumer k token completedAt db =
     (sql_count (holds_message consumer k token) (rd_inbox db) > 0,
      db\<lparr>rd_inbox := sql_update (holds_message consumer k token)
        (\<lambda>r. r\<lparr>ib_Status := IS_Completed, ib_ProcessedAt := Some completedAt, ib_LastError := None\<rparr>)
        (rd_inbox db)\<rparr>)"

definition FailConsumerMessage ::
    "string \<Rightarrow> string \<Rightarrow> string \<Rightarrow> instant \<Rightarrow> string \<Rightarrow> 'a realtime_db_scheme \<Rightarrow> bool \<times> 'a realtime_db_scheme" where
  "FailConsumerMessage consumer k token failedAt lastError db =
     (sql_count (holds_message consumer k token) (rd_inbox db) > 0,
      db\<lparr>rd_inbox := sql_update (holds_message consumer k token)
        (\<lambda>r. r\<lparr>ib_Status := IS_Failed, ib_ClaimExpiresAt := failedAt, ib_ProcessedAt := None,
               ib_LastError := (if lastError = [] then None else Some lastError)\<rparr>) (rd_inbox db)\<rparr>)"

section \<open>Side effects\<close>

definition effect_incomplete :: "side_effect \<Rightarrow> bool" where
  "effect_incomplete e \<longleftrightarrow> se_EffectKey e = [] \<or> se_ContactAutomationID e = [] \<or> se_AutomationVersion e \<le> 0 \<or>
     se_NodeID e = [] \<or> se_Channel e = [] \<or> se_RequestHash e = []"

definition find_effect :: "string \<Rightarrow> 'a realtime_db_scheme \<Rightarrow> side_effect option" where
  "find_effect k db = sql_find (\<lambda>e. se_EffectKey e = k) (rd_effects db)"

text \<open>Zero times of the caller become the current time.\<close>

definition effect_defaults :: "instant \<Rightarrow> side_effect \<Rightarrow> side_effect" where
  "effect_defaults now e =
     (let e = (if se_CreatedAt e = zero_time then e\<lparr>se_CreatedAt := now\<rparr> else e)
      in if se_UpdatedAt e = zero_time then e\<lparr>se_UpdatedAt := now\<rparr> else e)"

definition ReserveSideEffect ::
    "instant \<Rightarrow> side_effect \<Rightarrow> 'a realtime_db_scheme \<Rightarrow> (rt_error + side_effect \<times> bool) \<times> 'a realtime_db_scheme" where
  "ReserveSideEffect now e db =
     (if effect_incomplete e then (Inl (RE_Required ''side effect identity and request hash are required''), db)
      else case find_effect (se_EffectKey e) db of
        None \<Rightarrow> (Inr (effect_defaults now e, True), db\<lparr>rd_effects := rd_effects db @ [effect_defaults now e]\<rparr>)
      | Some stored \<Rightarrow>
          if se_RequestHash stored \<noteq> se_RequestHash e then (Inl RE_HashConflict, db)
          else (Inr (stored, False), db))"

text \<open>The reservation inside the commit of a journey.\<close>

definition reserveJourneySideEffectTx ::
    "instant \<Rightarrow> side_effect \<Rightarrow> 'a realtime_db_scheme \<Rightarrow> (rt_error + unit) \<times> 'a realtime_db_scheme" where
  "reserveJourneySideEffectTx now e db =
     (if effect_incomplete e then (Inl (RE_Required ''side effect identity and request hash are required''), db)
      else
        let e = (if se_CreatedAt e = zero_time then e\<lparr>se_CreatedAt := now\<rparr> else e);
            e = (if se_UpdatedAt e = zero_time then e\<lparr>se_UpdatedAt := se_CreatedAt e\<rparr> else e)
        in case find_effect (se_EffectKey e) db of
             None \<Rightarrow> (Inr (), db\<lparr>rd_effects := rd_effects db @ [e]\<rparr>)
           | Some stored \<Rightarrow>
               if se_RequestHash stored \<noteq> se_RequestHash e then (Inl RE_HashConflict, db) else (Inr (), db))"

definition GetSideEffect :: "string \<Rightarrow> 'a realtime_db_scheme \<Rightarrow> rt_error + side_effect" where
  "GetSideEffect k db =
     (if k = [] then Inl (RE_Required ''side effect key is required'')
      else case find_effect k db of None \<Rightarrow> Inl RE_NoRows | Some e \<Rightarrow> Inr e)"

fun validSideEffectTransition :: "effect_status \<Rightarrow> effect_status \<Rightarrow> bool" where
  "validSideEffectTransition ES_Reserved to = (to = ES_Submitted)"
| "validSideEffectTransition ES_Failed to = (to = ES_Submitted)"
| "validSideEffectTransition ES_Submitted to = (to \<in> {ES_Confirmed, ES_Failed, ES_Unknown})"
| "validSideEffectTransition _ to = False"

definition TransitionSideEffect ::
    "string \<Rightarrow> effect_status \<Rightarrow> effect_status \<Rightarrow> instant \<Rightarrow> instant \<Rightarrow> string option \<Rightarrow> 'a realtime_db_scheme \<Rightarrow>
     (rt_error + bool) \<times> 'a realtime_db_scheme" where
  "TransitionSideEffect k before to now updatedAt lastError db =
     (if k = [] \<or> \<not> validSideEffectTransition before to then (Inl (RE_Transition before to), db)
      else let p = (\<lambda>e. se_EffectKey e = k \<and> se_Status e = before)
           in (Inr (sql_count p (rd_effects db) = 1),
               db\<lparr>rd_effects := sql_update p
                 (\<lambda>e. e\<lparr>se_Status := to,
                        se_Attempts := se_Attempts e + (if to = ES_Submitted then 1 else 0),
                        se_LastError := lastError,
                        se_UpdatedAt := (if updatedAt = zero_time then now else updatedAt)\<rparr>) (rd_effects db)\<rparr>))"

section \<open>Keys\<close>

text \<open>Primary keys and the unique key of the outbox.\<close>

definition realtime_keys :: "'a realtime_db_scheme \<Rightarrow> bool" where
  "realtime_keys db \<longleftrightarrow> distinct (map se_EffectKey (rd_effects db)) \<and>
     distinct (map om_ID (rd_outbox db)) \<and>
     distinct (map (\<lambda>m. (om_EventID m, om_Topic m, om_RoutingKey m)) (rd_outbox db)) \<and>
     distinct (map (\<lambda>r. (ib_Consumer r, ib_MessageID r)) (rd_inbox db))"

end
