(* ===== verification/Journey_Store.thy ===== *)
theory Journey_Store
  imports Realtime_Store
begin

text \<open>
  Contacts' journeys through automations: the rows of \<open>contact_automations\<close> and what
  \<open>internal/repository/automation_postgres.go\<close> does to them - the writes of the legacy engine,
  the claims and commits of the realtime engine, the exits by a reply and by the deletion of an
  automation, the selection of due journeys and the statistics. A journey row is the journey the
  engines work on, extended by the columns of the realtime engine.
\<close>

section \<open>Journeys\<close>

type_synonym journey_context = "json_object option"

record journey =
  j_ID :: string
  j_AutomationID :: string
  j_ContactEmail :: string
  j_CurrentNodeID :: "string option"
  j_Status :: journey_status
  j_ExitReason :: "string option"
  j_EnteredAt :: instant
  j_ScheduledAt :: "instant option"
  j_Context :: journey_context
  j_RetryCount :: int
  j_LastError :: "string option"
  j_LastRetryAt :: "instant option"
  j_MaxRetries :: int

record journey_row = journey +
  r_OriginEventID :: "string option"
  r_AutomationVersion :: int
  r_StateVersion :: int
  r_ClaimToken :: "string option"
  r_ClaimedBy :: "string option"
  r_ClaimedAt :: "instant option"
  r_ClaimExpiresAt :: "instant option"

record journey_claim =
  cl_Journey :: journey
  cl_OriginEventID :: "string option"
  cl_AutomationVersion :: int
  cl_StateVersion :: int
  cl_Token :: string
  cl_By :: "string option"
  cl_At :: "instant option"
  cl_ExpiresAt :: "instant option"

record journey_commit =
  jc_Journey :: journey
  jc_SideEffect :: "side_effect option"
  jc_Command :: "outbox_message option"

text \<open>The end of a journey on the contact's timeline, and the log of its nodes without their outputs
  and durations.\<close>

record end_event =
  ee_Email :: string
  ee_AutomationID :: string
  ee_ExitReason :: string
  ee_Status :: journey_status

datatype node_action = NA_Entered | NA_Processing | NA_Completed | NA_Failed | NA_Skipped

record node_execution =
  nx_ID :: string
  nx_ContactAutomationID :: string
  nx_AutomationID :: string
  nx_NodeID :: string
  nx_NodeType :: node_type
  nx_Action :: node_action
  nx_EnteredAt :: instant
  nx_CompletedAt :: "instant option"
  nx_Error :: "string option"

record journey_db = realtime_db +
  jd_automations :: "automation list"
  jd_journeys :: "journey_row list"
  jd_executions :: "node_execution list"
  jd_ends :: "end_event list"

definition journey_keys :: "journey_db \<Rightarrow> bool" where
  "journey_keys db \<longleftrightarrow> realtime_keys db \<and> distinct (map j_ID (jd_journeys db)) \<and>
     distinct (map a_ID (jd_automations db))"

definition find_journey :: "string \<Rightarrow> journey_db \<Rightarrow> journey_row option" where
  "find_journey k db = sql_find (\<lambda>r. j_ID r = k) (jd_journeys db)"

definition find_automation :: "string \<Rightarrow> journey_db \<Rightarrow> automation option" where
  "find_automation k db = sql_find (\<lambda>a. a_ID a = k) (jd_automations db)"

text \<open>The columns that the engines write, and the journey that they read.\<close>

definition write_journey :: "journey \<Rightarrow> journey_row \<Rightarrow> journey_row" where
  "write_journey j r = r\<lparr>j_CurrentNodeID := j_CurrentNodeID j, j_Status := j_Status j,
     j_ExitReason := j_ExitReason j, j_ScheduledAt := j_ScheduledAt j, j_Context := j_Context j,
     j_RetryCount := j_RetryCount j, j_LastError := j_LastError j, j_LastRetryAt := j_LastRetryAt j,
     j_MaxRetries := j_MaxRetries j\<rparr>"

definition read_journey :: "journey_row \<Rightarrow> journey" where
  "read_journey r = \<lparr>j_ID = j_ID r, j_AutomationID = j_AutomationID r, j_ContactEmail = j_ContactEmail r,
     j_CurrentNodeID = j_CurrentNodeID r, j_Status = j_Status r, j_ExitReason = j_ExitReason r,
     j_EnteredAt = j_EnteredAt r, j_ScheduledAt = j_ScheduledAt r, j_Context = j_Context r,
     j_RetryCount = j_RetryCount r, j_LastError = j_LastError r, j_LastRetryAt = j_LastRetryAt r,
     j_MaxRetries = j_MaxRetries r\<rparr>"

section \<open>Writes of the legacy engine\<close>

definition UpdateContactAutomationIfActive :: "journey \<Rightarrow> journey_db \<Rightarrow> bool \<times> journey_db" where
  "UpdateContactAutomationIfActive j db =
     (let p = (\<lambda>r. j_ID r = j_ID j \<and> j_Status r = JS_Active)
      in (sql_count p (jd_journeys db) > 0, db\<lparr>jd_journeys := sql_update p (write_journey j) (jd_journeys db)\<rparr>))"

definition UpdateContactAutomation :: "journey \<Rightarrow> journey_db \<Rightarrow> (string + unit) \<times> journey_db" where
  "UpdateContactAutomation j db =
     (let p = (\<lambda>r. j_ID r = j_ID j)
      in if sql_count p (jd_journeys db) = 0 then (Inl (''contact automation not found: '' @ j_ID j), db)
         else (Inr (), db\<lparr>jd_journeys := sql_update p (write_journey j) (jd_journeys db)\<rparr>))"

text \<open>\<open>GetByID\<close>: a deleted automation is not found.\<close>

definition GetAutomation :: "string \<Rightarrow> string \<Rightarrow> journey_db \<Rightarrow> automation option" where
  "GetAutomation ws k db = sql_find (\<lambda>a. a_ID a = k \<and> a_WorkspaceID a = ws \<and> a_DeletedAt a = None) (jd_automations db)"

definition is_live :: "automation \<Rightarrow> bool" where
  "is_live a \<longleftrightarrow> a_Status a = AS_Live \<and> a_DeletedAt a = None"

text \<open>Due journeys: active, scheduled at a time that has come, of a live automation.\<close>

definition due_journey :: "automation list \<Rightarrow> instant \<Rightarrow> journey_row \<Rightarrow> bool" where
  "due_journey as before r \<longleftrightarrow> j_Status r = JS_Active \<and>
     (case j_ScheduledAt r of None \<Rightarrow> False | Some u \<Rightarrow> u \<le> before) \<and>
     (\<exists>a \<in> set as. a_ID a = j_AutomationID r \<and> is_live a)"

definition GetScheduledContactAutomations ::
    "instant \<Rightarrow> int \<Rightarrow> (string \<Rightarrow> bool) \<Rightarrow> journey_db \<Rightarrow> journey list" where
  "GetScheduledContactAutomations before limit locked db =
     map read_journey (take (nat limit) (filter (\<lambda>r. \<not> locked (j_ID r))
       (sort_key (\<lambda>r. case j_ScheduledAt r of None \<Rightarrow> 0 | Some u \<Rightarrow> u)
         (filter (due_journey (jd_automations db) before) (jd_journeys db)))))"

text \<open>All workspaces in turn, each with an equal share and one more; a workspace whose query fails
  is passed over.\<close>

definition per_workspace :: "int \<Rightarrow> nat \<Rightarrow> int" where
  "per_workspace limit n =
     (let q = (if limit < 0 then - ((- limit) div int n) else limit div int n) + 1 in if q < 1 then 1 else q)"

fun gather :: "int \<Rightarrow> ('w \<Rightarrow> 'j list option) \<Rightarrow> 'w list \<Rightarrow> ('w \<times> 'j) list \<Rightarrow> ('w \<times> 'j) list" where
  "gather limit query [] found = found"
| "gather limit query (w # ws) found =
     (case query w of
        None \<Rightarrow> gather limit query ws found
      | Some js \<Rightarrow>
          let found' = found @ map (Pair w) js
          in if int (length found') \<ge> limit then found' else gather limit query ws found')"

definition GetScheduledContactAutomationsGlobal ::
    "int \<Rightarrow> 'w list \<Rightarrow> (int \<Rightarrow> 'w \<Rightarrow> 'j list option) \<Rightarrow> ('w \<times> 'j) list" where
  "GetScheduledContactAutomationsGlobal limit ws query =
     (if ws = [] then []
      else let found = gather limit (query (per_workspace limit (length ws))) ws []
           in if int (length found) > limit then take (nat limit) found else found)"

section \<open>Claims and commits of the realtime engine\<close>

definition claimable_journey :: "automation list \<Rightarrow> instant \<Rightarrow> string \<Rightarrow> journey_row \<Rightarrow> bool" where
  "claimable_journey as now k r \<longleftrightarrow> j_ID r = k \<and> j_Status r = JS_Active \<and>
     (case j_ScheduledAt r of None \<Rightarrow> True | Some u \<Rightarrow> u \<le> now) \<and>
     (case r_ClaimExpiresAt r of None \<Rightarrow> True | Some u \<Rightarrow> u \<le> now) \<and>
     (\<exists>a \<in> set as. a_ID a = j_AutomationID r \<and> is_live a \<and> a_Version a = r_AutomationVersion r)"

definition claim_of :: "journey_row \<Rightarrow> string \<Rightarrow> journey_claim" where
  "claim_of r token = \<lparr>cl_Journey = read_journey r, cl_OriginEventID = r_OriginEventID r,
     cl_AutomationVersion = r_AutomationVersion r, cl_StateVersion = r_StateVersion r, cl_Token = token,
     cl_By = r_ClaimedBy r, cl_At = r_ClaimedAt r, cl_ExpiresAt = r_ClaimExpiresAt r\<rparr>"

definition ClaimContactAutomation ::
    "string \<Rightarrow> string \<Rightarrow> instant \<Rightarrow> duration \<Rightarrow> string \<Rightarrow> journey_db \<Rightarrow>
     (string + journey_claim option) \<times> journey_db" where
  "ClaimContactAutomation k worker now lease token db =
     (if k = [] \<or> worker = [] then (Inl ''contact automation id and worker id are required'', db)
      else if lease \<le> 0 then (Inl ''claim lease must be positive'', db)
      else
        let p = claimable_journey (jd_automations db) now k;
            f = (\<lambda>r. r\<lparr>r_ClaimedAt := Some now, r_ClaimToken := Some token, r_ClaimedBy := Some worker,
                       r_ClaimExpiresAt := Some (now + lease)\<rparr>)
        in case sql_find p (jd_journeys db) of
             None \<Rightarrow> (Inr None, db)
           | Some r \<Rightarrow> (Inr (Some (claim_of (f r) token)),
                        db\<lparr>jd_journeys := sql_update p f (jd_journeys db)\<rparr>))"

definition RenewContactAutomationClaim ::
    "string \<Rightarrow> string \<Rightarrow> instant \<Rightarrow> duration \<Rightarrow> journey_db \<Rightarrow> (string + bool) \<times> journey_db" where
  "RenewContactAutomationClaim k token now lease db =
     (if token = [] \<or> lease \<le> 0 then (Inl ''claim token and positive lease are required'', db)
      else
        let p = (\<lambda>r. j_ID r = k \<and> r_ClaimToken r = Some token \<and> j_Status r = JS_Active)
        in (Inr (sql_count p (jd_journeys db) > 0),
            db\<lparr>jd_journeys := sql_update p
              (\<lambda>r. r\<lparr>r_ClaimedAt := Some now, r_ClaimExpiresAt := Some (now + lease)\<rparr>) (jd_journeys db)\<rparr>))"

definition ReleaseContactAutomationClaim :: "string \<Rightarrow> string \<Rightarrow> journey_db \<Rightarrow> bool \<times> journey_db" where
  "ReleaseContactAutomationClaim k token db =
     (let p = (\<lambda>r. j_ID r = k \<and> r_ClaimToken r = Some token)
      in (sql_count p (jd_journeys db) > 0,
          db\<lparr>jd_journeys := sql_update p
            (\<lambda>r. r\<lparr>r_ClaimToken := None, r_ClaimedBy := None, r_ClaimedAt := None, r_ClaimExpiresAt := None\<rparr>)
            (jd_journeys db)\<rparr>))"

text \<open>The compare-and-swap of the commit, and its effect on the row.\<close>

definition commit_applies :: "automation list \<Rightarrow> journey_claim \<Rightarrow> journey_row \<Rightarrow> bool" where
  "commit_applies as c r \<longleftrightarrow> j_ID r = j_ID (cl_Journey c) \<and> r_ClaimToken r = Some (cl_Token c) \<and>
     r_StateVersion r = cl_StateVersion c \<and> r_AutomationVersion r = cl_AutomationVersion c \<and>
     (\<exists>a \<in> set as. a_ID a = j_AutomationID r \<and> a_Version a = cl_AutomationVersion c \<and> is_live a)"

definition committed_row :: "journey \<Rightarrow> journey_row \<Rightarrow> journey_row" where
  "committed_row j r = (write_journey j r)\<lparr>r_StateVersion := r_StateVersion r + 1, r_ClaimToken := None,
     r_ClaimedBy := None, r_ClaimedAt := None, r_ClaimExpiresAt := None\<rparr>"

datatype commit_error = CE_Invalid string | CE_Realtime rt_error

definition commit_tx ::
    "instant \<Rightarrow> journey_claim \<Rightarrow> journey_commit \<Rightarrow> journey_db \<Rightarrow> (commit_error + bool) \<times> journey_db" where
  "commit_tx now c commit db =
     (let p = commit_applies (jd_automations db) c
      in if sql_count p (jd_journeys db) = 0 then (Inr False, db)
         else
           let db1 = db\<lparr>jd_journeys := sql_update p (committed_row (jc_Journey commit)) (jd_journeys db)\<rparr>
           in case (jc_SideEffect commit, jc_Command commit) of
                (Some e, Some m) \<Rightarrow>
                  (case reserveJourneySideEffectTx now e db1 of
                     (Inl err, db2) \<Rightarrow> (Inl (CE_Realtime err), db2)
                   | (Inr _, db2) \<Rightarrow>
                       let avail = (if om_AvailableAt m = zero_time then se_CreatedAt e else om_AvailableAt m)
                       in (case enqueue_command (m\<lparr>om_AvailableAt := avail\<rparr>) db2 of
                             (Inl err, db3) \<Rightarrow> (Inl (CE_Realtime err), db3)
                           | (Inr _, db3) \<Rightarrow> (Inr True, db3)))
              | _ \<Rightarrow> (Inr True, db1))"

definition CommitContactAutomationState ::
    "instant \<Rightarrow> journey_claim \<Rightarrow> journey_commit \<Rightarrow> journey_db \<Rightarrow> (commit_error + bool) \<times> journey_db" where
  "CommitContactAutomationState now c commit db =
     (if cl_Token c = [] \<or> j_ID (cl_Journey c) = [] then (Inl (CE_Invalid ''valid journey claim is required''), db)
      else if j_ID (jc_Journey commit) \<noteq> j_ID (cl_Journey c)
      then (Inl (CE_Invalid ''commit contact automation does not match claim''), db)
      else if (jc_SideEffect commit = None) \<noteq> (jc_Command commit = None)
      then (Inl (CE_Invalid ''side effect and command must be committed together''), db)
      else in_tx (commit_tx now c commit) db)"

section \<open>Exits from outside\<close>

definition exits_on_reply :: "automation list \<Rightarrow> string \<Rightarrow> string option \<Rightarrow> instant \<Rightarrow> journey_row \<Rightarrow> bool" where
  "exits_on_reply as email autoID before r \<longleftrightarrow> j_ContactEmail r = email \<and> j_Status r = JS_Active \<and>
     j_EnteredAt r < before \<and>
     (\<exists>a \<in> set as. a_ID a = j_AutomationID r \<and> a_ExitOnReply a \<and> a_DeletedAt a = None) \<and>
     (case autoID of None \<Rightarrow> True | Some k \<Rightarrow> k = [] \<or> j_AutomationID r = k)"

definition exited :: "string \<Rightarrow> journey_row \<Rightarrow> journey_row" where
  "exited reason r = r\<lparr>j_Status := JS_Exited, j_ScheduledAt := None, j_ExitReason := Some reason\<rparr>"

definition ExitContactJourneysOnReply ::
    "string \<Rightarrow> string option \<Rightarrow> string \<Rightarrow> instant \<Rightarrow> journey_db \<Rightarrow> nat \<times> journey_db" where
  "ExitContactJourneysOnReply email autoID reason before db =
     (let p = exits_on_reply (jd_automations db) email autoID before
      in (sql_count p (jd_journeys db), db\<lparr>jd_journeys := sql_update p (exited reason) (jd_journeys db)\<rparr>))"

text \<open>Two statements, in no common transaction; the trigger that is dropped first is not modelled.\<close>

definition DeleteAutomation :: "string \<Rightarrow> string \<Rightarrow> instant \<Rightarrow> journey_db \<Rightarrow> (string + unit) \<times> journey_db" where
  "DeleteAutomation ws k now db =
     (let db1 = db\<lparr>jd_journeys := sql_update (\<lambda>r. j_AutomationID r = k \<and> j_Status r = JS_Active)
            (exited ''automation_deleted'') (jd_journeys db)\<rparr>;
          p = (\<lambda>a. a_ID a = k \<and> a_WorkspaceID a = ws \<and> a_DeletedAt a = None)
      in if sql_count p (jd_automations db1) = 0
         then (Inl (''automation not found or already deleted: '' @ k), db1)
         else (Inr (), db1\<lparr>jd_automations := sql_update p (\<lambda>a. a\<lparr>a_DeletedAt := Some now\<rparr>) (jd_automations db1)\<rparr>))"

section \<open>Statistics and logs\<close>

definition bump :: "string \<Rightarrow> automation_stats \<Rightarrow> automation_stats" where
  "bump name s =
     (if name = ''enrolled'' then s\<lparr>as_Enrolled := as_Enrolled s + 1\<rparr>
      else if name = ''completed'' then s\<lparr>as_Completed := as_Completed s + 1\<rparr>
      else if name = ''exited'' then s\<lparr>as_Exited := as_Exited s + 1\<rparr>
      else if name = ''failed'' then s\<lparr>as_Failed := as_Failed s + 1\<rparr> else s)"

definition IncrementAutomationStat :: "string \<Rightarrow> string \<Rightarrow> string \<Rightarrow> journey_db \<Rightarrow> (string + unit) \<times> journey_db" where
  "IncrementAutomationStat ws k name db =
     (let p = (\<lambda>a. a_ID a = k \<and> a_WorkspaceID a = ws)
      in if name \<notin> {''enrolled'', ''completed'', ''exited'', ''failed''} then (Inl (''invalid stat name: '' @ name), db)
         else if sql_count p (jd_automations db) = 0 then (Inl (''automation not found: '' @ k), db)
         else (Inr (), db\<lparr>jd_automations := sql_update p (\<lambda>a. a\<lparr>a_Stats := bump name (a_Stats a)\<rparr>)
                (jd_automations db)\<rparr>))"

definition CreateNodeExecution :: "node_execution \<Rightarrow> journey_db \<Rightarrow> journey_db" where
  "CreateNodeExecution x db = db\<lparr>jd_executions := jd_executions db @ [x]\<rparr>"

definition UpdateNodeExecution :: "node_execution \<Rightarrow> journey_db \<Rightarrow> journey_db" where
  "UpdateNodeExecution x db = db\<lparr>jd_executions := sql_update (\<lambda>y. nx_ID y = nx_ID x)
     (\<lambda>y. y\<lparr>nx_Action := nx_Action x, nx_CompletedAt := nx_CompletedAt x, nx_Error := nx_Error x\<rparr>)
     (jd_executions db)\<rparr>"

section \<open>Operations of other processes\<close>

datatype journey_op =
    JO_Reply string "string option" string instant
  | JO_Delete string string instant
  | JO_Claim string string instant duration string
  | JO_Renew string string instant duration
  | JO_Release string string
  | JO_Commit instant journey_claim journey_commit
  | JO_Update journey
  | JO_Stat string string string

fun run_journey_op :: "journey_op \<Rightarrow> journey_db \<Rightarrow> journey_db" where
  "run_journey_op (JO_Reply email a reason before) db = snd (ExitContactJourneysOnReply email a reason before db)"
| "run_journey_op (JO_Delete ws k now) db = snd (DeleteAutomation ws k now db)"
| "run_journey_op (JO_Claim k worker now lease token) db = snd (ClaimContactAutomation k worker now lease token db)"
| "run_journey_op (JO_Renew k token now lease) db = snd (RenewContactAutomationClaim k token now lease db)"
| "run_journey_op (JO_Release k token) db = snd (ReleaseContactAutomationClaim k token db)"
| "run_journey_op (JO_Commit now c commit) db = snd (CommitContactAutomationState now c commit db)"
| "run_journey_op (JO_Update j) db = snd (UpdateContactAutomationIfActive j db)"
| "run_journey_op (JO_Stat ws k name) db = snd (IncrementAutomationStat ws k name db)"

end
