(* ===== verification/Broker.thy ===== *)
theory Broker
  imports Realtime_Store
begin

text \<open>
  The broker as the program uses it, \<open>pkg/broker\<close>: messages, the confirmed publisher and its
  reconnecting wrapper, the decoding and the settlement of deliveries, and the topology the program
  declares (exchanges, work queues, dead letters and the retry queues). RabbitMQ itself is not part
  of the program: whether a binding key matches a routing key is a parameter, \<open>matches\<close>.
\<close>

section \<open>Messages\<close>

datatype header_value = HV_Str string | HV_Int int | HV_Float rat | HV_Other

text \<open>The body is what it decodes as, \<open>None\<close> when it is no envelope.\<close>

record broker_message =
  bm_ID :: string
  bm_CorrelationID :: string
  bm_Exchange :: string
  bm_RoutingKey :: string
  bm_Type :: string
  bm_SchemaVersion :: int
  bm_Timestamp :: instant
  bm_Headers :: "(string \<times> header_value) list"
  bm_Body :: "event_envelope option"

text \<open>\<open>message.Headers["effect_key"].(string)\<close>\<close>

definition bm_EffectKey :: "broker_message \<Rightarrow> string option" where
  "bm_EffectKey m = (case map_of (bm_Headers m) ''effect_key'' of Some (HV_Str s) \<Rightarrow> Some s | _ \<Rightarrow> None)"

definition set_header :: "string \<Rightarrow> header_value \<Rightarrow> (string \<times> header_value) list \<Rightarrow> (string \<times> header_value) list" where
  "set_header k v hs = (k, v) # filter (\<lambda>h. fst h \<noteq> k) hs"

lemma map_of_set_header [simp]: "map_of (set_header k v hs) k' = (if k' = k then Some v else map_of hs k')"
  by (induction hs) (auto simp: set_header_def)

definition EventsExchange :: string where "EventsExchange = ''notifuse.events''"
definition JobsExchange :: string where "JobsExchange = ''notifuse.jobs''"
definition RetryExchange :: string where "RetryExchange = ''notifuse.retry''"
definition DeadExchange :: string where "DeadExchange = ''notifuse.dlx''"

lemmas exchange_defs = EventsExchange_def JobsExchange_def RetryExchange_def DeadExchange_def

definition Retry5Seconds :: string where "Retry5Seconds = ''5s''"
definition Retry30Seconds :: string where "Retry30Seconds = ''30s''"
definition Retry5Minutes :: string where "Retry5Minutes = ''5m''"
definition Retry30Minutes :: string where "Retry30Minutes = ''30m''"

lemmas tier_defs = Retry5Seconds_def Retry30Seconds_def Retry5Minutes_def Retry30Minutes_def

definition RetryTiers :: "string list" where
  "RetryTiers = [Retry5Seconds, Retry30Seconds, Retry5Minutes, Retry30Minutes]"

definition validRetryTier :: "string \<Rightarrow> bool" where
  "validRetryTier tier = list_ex (\<lambda>candidate. tier = candidate) RetryTiers"

lemma validRetryTier_iff: "validRetryTier t \<longleftrightarrow> t \<in> {''5s'', ''30s'', ''5m'', ''30m''}"
  by (simp add: validRetryTier_def RetryTiers_def tier_defs)

text \<open>What a handler decides for a delivery: \<open>DeliveryDecision\<close> without its error.\<close>

datatype delivery_action = Ack | DeadLetter | Retry string

section \<open>Publishing\<close>

datatype publish_error =
    PE_Invalid string
  | PE_Channel string
  | PE_Cancelled
  | PE_Nack
  | PE_Closed
  | PE_Timeout
  | PE_Reconnect publish_error

text \<open>How a call of the channel ends: refused at once, or given to the broker, and then what the
  wait for the confirmation meets first.\<close>

datatype publish_answer =
    CF_Refused string
  | CF_Cancelled
  | CF_Confirmed bool
  | CF_Closed
  | CF_Timeout

definition published_form :: "instant \<Rightarrow> broker_message \<Rightarrow> broker_message" where
  "published_form now m =
     m\<lparr>bm_Exchange := (if bm_Exchange m = [] then EventsExchange else bm_Exchange m),
       bm_Timestamp := (if bm_Timestamp m = zero_time then now else bm_Timestamp m),
       bm_Headers := set_header ''schema_version'' (HV_Int (bm_SchemaVersion m)) (bm_Headers m)\<rparr>"

text \<open>The error, and the messages the broker was given.\<close>

definition ConfirmedPublisher_Publish ::
    "instant \<Rightarrow> publish_answer \<Rightarrow> broker_message \<Rightarrow> publish_error option \<times> broker_message list" where
  "ConfirmedPublisher_Publish now answer m =
     (if bm_ID m = [] then (Some (PE_Invalid ''message id is required''), [])
      else if bm_RoutingKey m = [] then (Some (PE_Invalid ''routing key is required''), [])
      else
        (case answer of
           CF_Refused e \<Rightarrow> (Some (PE_Channel e), [])
         | CF_Cancelled \<Rightarrow> (Some PE_Cancelled, [published_form now m])
         | CF_Confirmed ack \<Rightarrow> (if ack then None else Some PE_Nack, [published_form now m])
         | CF_Closed \<Rightarrow> (Some PE_Closed, [published_form now m])
         | CF_Timeout \<Rightarrow> (Some PE_Timeout, [published_form now m])))"

text \<open>One attempt of the reconnecting publisher: the error of the connection, the answer of the
  channel, and whether the context is cancelled by then.\<close>

record publish_attempt =
  pa_connect :: "string option"
  pa_answer :: publish_answer
  pa_cancelled :: bool

fun rabbit_attempts ::
    "instant \<Rightarrow> broker_message \<Rightarrow> publish_error \<Rightarrow> publish_attempt list \<Rightarrow>
     publish_error option \<times> broker_message list" where
  "rabbit_attempts now m err [] = (Some (PE_Reconnect err), [])"
| "rabbit_attempts now m err (a # as) =
     (case pa_connect a of
        Some e \<Rightarrow> rabbit_attempts now m (PE_Channel e) as
      | None \<Rightarrow>
          (case ConfirmedPublisher_Publish now (pa_answer a) m of
             (None, out) \<Rightarrow> (None, out)
           | (Some e, out) \<Rightarrow>
               if pa_cancelled a \<or> (\<exists>s. e = PE_Invalid s) then (Some e, out)
               else (case rabbit_attempts now m e as of (r, out') \<Rightarrow> (r, out @ out'))))"

definition RabbitPublisher_Publish ::
    "instant \<Rightarrow> publish_attempt \<Rightarrow> publish_attempt \<Rightarrow> broker_message \<Rightarrow> publish_error option \<times> broker_message list" where
  "RabbitPublisher_Publish now a1 a2 m = rabbit_attempts now m PE_Closed [a1, a2]"

text \<open>Success means a confirmation; at most two copies go out, each with the id of the message.\<close>

lemma ConfirmedPublisher_success:
  "ConfirmedPublisher_Publish now a m = (None, out) \<longleftrightarrow>
     bm_ID m \<noteq> [] \<and> bm_RoutingKey m \<noteq> [] \<and> a = CF_Confirmed True \<and> out = [published_form now m]"
  by (cases a) (auto simp: ConfirmedPublisher_Publish_def)

lemma RabbitPublisher_success:
  assumes "RabbitPublisher_Publish now a b m = (None, out)"
  shows "pa_connect a = None \<and> pa_answer a = CF_Confirmed True \<or>
    pa_connect b = None \<and> pa_answer b = CF_Confirmed True"
    and "published_form now m \<in> set out"
  using assms
  by (auto simp: RabbitPublisher_Publish_def ConfirmedPublisher_success split: option.splits prod.splits if_splits)

lemma ConfirmedPublisher_copies:
  "ConfirmedPublisher_Publish now a m = (r, out) \<Longrightarrow> set out \<subseteq> {published_form now m} \<and> length out \<le> 1"
  by (cases a) (auto simp: ConfirmedPublisher_Publish_def split: if_splits)

lemma rabbit_attempts_copies:
  "rabbit_attempts now m err as = (r, out) \<Longrightarrow> set out \<subseteq> {published_form now m} \<and> length out \<le> length as"
proof (induction as arbitrary: err r out)
  case (Cons a as)
  show ?case
  proof (cases "pa_connect a")
    case (Some e)
    then show ?thesis using Cons.prems Cons.IH[of "PE_Channel e" r out] by simp
  next
    case None
    obtain r1 out1 where 1: "ConfirmedPublisher_Publish now (pa_answer a) m = (r1, out1)" by fastforce
    obtain r2 out2 where 2: "rabbit_attempts now m (the r1) as = (r2, out2)" by fastforce
    have "out = out1 \<or> out = out1 @ out2"
      using Cons.prems None 1 2 by (auto split: option.splits if_splits)
    then show ?thesis using ConfirmedPublisher_copies[OF 1] Cons.IH[OF 2] by auto
  qed
qed simp

lemma RabbitPublisher_copies:
  "RabbitPublisher_Publish now a b m = (r, out) \<Longrightarrow> set out \<subseteq> {published_form now m} \<and> length out \<le> 2"
  unfolding RabbitPublisher_Publish_def by (drule rabbit_attempts_copies) simp

section \<open>Receiving\<close>

record wire_delivery =
  wd_MessageId :: string
  wd_CorrelationId :: string
  wd_Exchange :: string
  wd_RoutingKey :: string
  wd_Type :: string
  wd_Timestamp :: instant
  wd_Headers :: "(string \<times> header_value) list"
  wd_Body :: "event_envelope option"

fun headerInt :: "header_value option \<Rightarrow> int" where
  "headerInt (Some (HV_Int n)) = n"
| "headerInt (Some (HV_Float x)) = (if x < 0 then - \<lfloor>- x\<rfloor> else \<lfloor>x\<rfloor>)"
| "headerInt _ = 0"

text \<open>\<open>parse\<close> is \<open>uuid.Parse\<close>; the consumer rejects what does not decode.\<close>

definition decodeDelivery :: "(string \<Rightarrow> string option) \<Rightarrow> wire_delivery \<Rightarrow> broker_message option" where
  "decodeDelivery parse d =
     (case parse (wd_MessageId d) of
        None \<Rightarrow> None
      | Some k \<Rightarrow>
          (case (if wd_CorrelationId d = [] then Some [] else parse (wd_CorrelationId d)) of
             None \<Rightarrow> None
           | Some c \<Rightarrow>
               Some \<lparr>bm_ID = k, bm_CorrelationID = c, bm_Exchange = wd_Exchange d, bm_RoutingKey = wd_RoutingKey d,
                 bm_Type = wd_Type d, bm_SchemaVersion = headerInt (map_of (wd_Headers d) ''schema_version''),
                 bm_Timestamp = wd_Timestamp d, bm_Headers = wd_Headers d, bm_Body = wd_Body d\<rparr>))"

text \<open>Settling: what the consumer tells the broker, and the message it publishes for a retry.\<close>

datatype settlement = Acked | Nacked bool   \<comment> \<open>requeued or not\<close>

definition settle ::
    "string \<Rightarrow> (broker_message \<Rightarrow> publish_error option) \<Rightarrow> broker_message \<Rightarrow> delivery_action \<Rightarrow>
     settlement \<times> broker_message option" where
  "settle consumerName publish m decision =
     (case decision of
        Ack \<Rightarrow> (Acked, None)
      | DeadLetter \<Rightarrow> (Nacked False, None)
      | Retry tier \<Rightarrow>
          if \<not> validRetryTier tier then (Nacked False, None)
          else let m' = m\<lparr>bm_Exchange := RetryExchange, bm_RoutingKey := consumerName @ ''.'' @ tier\<rparr>
               in (case publish m' of
                     Some _ \<Rightarrow> (Nacked True, Some m')
                   | None \<Rightarrow> (Acked, Some m')))"

text \<open>An acknowledged delivery was handled, or its copy is confirmed.\<close>

lemma settle_acked:
  "settle c publish m d = (Acked, out) \<Longrightarrow>
     d = Ack \<and> out = None \<or> (\<exists>tier m'. d = Retry tier \<and> out = Some m' \<and> publish m' = None \<and> bm_ID m' = bm_ID m)"
  by (auto simp: settle_def Let_def split: delivery_action.splits if_splits option.splits)

section \<open>The topology\<close>

record exchange_definition =
  xd_Name :: string
  xd_Kind :: string
  xd_Durable :: bool

record queue_definition =
  qd_Name :: string
  qd_Durable :: bool
  qd_Arguments :: "(string \<times> header_value) list"
  qd_DeadLetter :: bool

record binding_definition =
  bd_Queue :: string
  bd_Exchange :: string
  bd_RoutingKey :: string

record topology =
  tp_Exchanges :: "exchange_definition list"
  tp_Queues :: "queue_definition list"
  tp_Bindings :: "binding_definition list"

definition retryTierMilliseconds :: "string \<Rightarrow> int" where
  "retryTierMilliseconds tier =
     (if tier = Retry5Seconds then 5000 else if tier = Retry30Seconds then 30000
      else if tier = Retry5Minutes then 300000 else if tier = Retry30Minutes then 1800000 else 0)"

record consumer_definition =
  cd_name :: string
  cd_exchange :: string
  cd_routingKey :: string
  cd_retryRouting :: string

definition broker_consumers :: "consumer_definition list" where
  "broker_consumers =
     [\<lparr>cd_name = ''rule'', cd_exchange = EventsExchange, cd_routingKey = ''#'', cd_retryRouting = ''retry.rule''\<rparr>,
      \<lparr>cd_name = ''journey'', cd_exchange = JobsExchange, cd_routingKey = ''journey.#'', cd_retryRouting = ''retry.journey''\<rparr>,
      \<lparr>cd_name = ''delivery'', cd_exchange = JobsExchange, cd_routingKey = ''delivery.#'', cd_retryRouting = ''retry.delivery''\<rparr>,
      \<lparr>cd_name = ''analytics'', cd_exchange = EventsExchange, cd_routingKey = ''#'', cd_retryRouting = ''retry.analytics''\<rparr>]"

definition queue_of :: "string \<Rightarrow> string" where
  "queue_of name = ''notifuse.'' @ name"

definition retry_queue_of :: "string \<Rightarrow> string \<Rightarrow> string" where
  "retry_queue_of name tier = queue_of name @ ''.retry.'' @ tier"

definition quorum :: "string \<times> header_value" where
  "quorum = (''x-queue-type'', HV_Str ''quorum'')"

definition dead_letters_to :: "string \<Rightarrow> string \<Rightarrow> (string \<times> header_value) list" where
  "dead_letters_to exchange key =
     [(''x-dead-letter-exchange'', HV_Str exchange), (''x-dead-letter-routing-key'', HV_Str key)]"

definition consumer_queues :: "consumer_definition \<Rightarrow> queue_definition list" where
  "consumer_queues c =
     [\<lparr>qd_Name = queue_of (cd_name c), qd_Durable = True,
       qd_Arguments = quorum # dead_letters_to DeadExchange (cd_name c @ ''.dead''), qd_DeadLetter = False\<rparr>,
      \<lparr>qd_Name = queue_of (cd_name c) @ ''.dead'', qd_Durable = True, qd_Arguments = [quorum], qd_DeadLetter = True\<rparr>] @
     map (\<lambda>tier. \<lparr>qd_Name = retry_queue_of (cd_name c) tier, qd_Durable = True,
       qd_Arguments = quorum # (''x-message-ttl'', HV_Int (retryTierMilliseconds tier)) #
         dead_letters_to (cd_exchange c) (cd_retryRouting c), qd_DeadLetter = False\<rparr>) RetryTiers"

definition consumer_bindings :: "consumer_definition \<Rightarrow> binding_definition list" where
  "consumer_bindings c =
     [\<lparr>bd_Queue = queue_of (cd_name c), bd_Exchange = cd_exchange c, bd_RoutingKey = cd_routingKey c\<rparr>,
      \<lparr>bd_Queue = queue_of (cd_name c), bd_Exchange = cd_exchange c, bd_RoutingKey = cd_retryRouting c\<rparr>,
      \<lparr>bd_Queue = queue_of (cd_name c) @ ''.dead'', bd_Exchange = DeadExchange, bd_RoutingKey = cd_name c @ ''.#''\<rparr>] @
     map (\<lambda>tier. \<lparr>bd_Queue = retry_queue_of (cd_name c) tier, bd_Exchange = RetryExchange,
       bd_RoutingKey = cd_name c @ ''.'' @ tier\<rparr>) RetryTiers"

definition DefaultTopology :: topology where
  "DefaultTopology =
     \<lparr>tp_Exchanges = map (\<lambda>x. \<lparr>xd_Name = x, xd_Kind = ''topic'', xd_Durable = True\<rparr>)
        [EventsExchange, JobsExchange, RetryExchange, DeadExchange],
      tp_Queues = concat (map consumer_queues broker_consumers),
      tp_Bindings = concat (map consumer_bindings broker_consumers)\<rparr>"

text \<open>\<open>Declare\<close>: exchanges, queues, bindings, up to the first that fails; what was declared.\<close>

datatype broker_object = DX exchange_definition | DQ queue_definition | DB binding_definition

fun declare_upto :: "(broker_object \<Rightarrow> string option) \<Rightarrow> broker_object list \<Rightarrow> string option \<times> broker_object list" where
  "declare_upto fails [] = (None, [])"
| "declare_upto fails (d # ds) =
     (case fails d of
        Some e \<Rightarrow> (Some e, [])
      | None \<Rightarrow> (case declare_upto fails ds of (r, made) \<Rightarrow> (r, d # made)))"

definition Declare :: "(broker_object \<Rightarrow> string option) \<Rightarrow> topology \<Rightarrow> string option \<times> broker_object list" where
  "Declare fails t =
     declare_upto fails (map DX (tp_Exchanges t) @ map DQ (tp_Queues t) @ map DB (tp_Bindings t))"

section \<open>Routing\<close>

text \<open>
  What RabbitMQ documents of the declared topology: a message goes once to every queue bound to its
  exchange with a key that matches; a queue with a time to live hands what expires to its dead
  letter exchange, and so does a queue whose delivery is rejected.
\<close>

definition routed :: "(string \<Rightarrow> string \<Rightarrow> bool) \<Rightarrow> string \<Rightarrow> string \<Rightarrow> string list" where
  "routed matches exchange key =
     remdups (map bd_Queue (filter (\<lambda>b. bd_Exchange b = exchange \<and> matches (bd_RoutingKey b) key)
       (tp_Bindings DefaultTopology)))"

definition queue_argument :: "string \<Rightarrow> string \<Rightarrow> header_value option" where
  "queue_argument q k =
     (case find (\<lambda>d. qd_Name d = q) (tp_Queues DefaultTopology) of
        None \<Rightarrow> None | Some d \<Rightarrow> map_of (qd_Arguments d) k)"

type_synonym placed = "string \<times> broker_message"

definition send :: "(string \<Rightarrow> string \<Rightarrow> bool) \<Rightarrow> broker_message \<Rightarrow> placed list" where
  "send matches m = map (\<lambda>q. (q, m)) (routed matches (bm_Exchange m) (bm_RoutingKey m))"

definition dead_lettered :: "(string \<Rightarrow> string \<Rightarrow> bool) \<Rightarrow> placed \<Rightarrow> placed list" where
  "dead_lettered matches p =
     (case (queue_argument (fst p) ''x-dead-letter-exchange'', queue_argument (fst p) ''x-dead-letter-routing-key'') of
        (Some (HV_Str x), Some (HV_Str k)) \<Rightarrow> send matches ((snd p)\<lparr>bm_Exchange := x, bm_RoutingKey := k\<rparr>)
      | _ \<Rightarrow> [])"

definition expire :: "(string \<Rightarrow> string \<Rightarrow> bool) \<Rightarrow> placed \<Rightarrow> placed list" where
  "expire matches p = (if queue_argument (fst p) ''x-message-ttl'' = None then [p] else dead_lettered matches p)"

text \<open>A consumer of one of the work queues handles a message there and settles it.\<close>

definition consume ::
    "(string \<Rightarrow> string \<Rightarrow> bool) \<Rightarrow> (broker_message \<Rightarrow> publish_error option) \<Rightarrow>
     (string \<Rightarrow> broker_message \<Rightarrow> delivery_action) \<Rightarrow> placed \<Rightarrow> placed list" where
  "consume matches publish handler p =
     (case find (\<lambda>c. queue_of (cd_name c) = fst p) broker_consumers of
        None \<Rightarrow> [p]
      | Some c \<Rightarrow>
          (case settle (cd_name c) publish (snd p) (handler (cd_name c) (snd p)) of
             (s, out) \<Rightarrow>
               (case out of Some m \<Rightarrow> if publish m = None then send matches m else [] | None \<Rightarrow> []) @
               (case s of Acked \<Rightarrow> [] | Nacked True \<Rightarrow> [p] | Nacked False \<Rightarrow> dead_lettered matches p)))"

text \<open>One round: all that waits in the work queues is handled, then the retry queues expire.\<close>

definition broker_round ::
    "(string \<Rightarrow> string \<Rightarrow> bool) \<Rightarrow> (string \<Rightarrow> broker_message \<Rightarrow> delivery_action) \<Rightarrow> placed list \<Rightarrow> placed list" where
  "broker_round matches handler st =
     concat (map (expire matches) (concat (map (consume matches (\<lambda>_. None) handler) st)))"

definition waiting :: "string \<Rightarrow> placed list \<Rightarrow> nat" where
  "waiting q st = length (filter (\<lambda>p. fst p = q) st)"

end
