(* ===== verification/Journey_Engine.thy ===== *)
theory Journey_Engine
  imports Journey_Store Broker
begin

text \<open>
  The two engines of journeys, \<open>internal/service/automation_executor.go\<close>: \<open>Execute\<close>, which runs
  the nodes of a journey in one tick, and \<open>PlanClaimedJourneyStep\<close>, which plans one step of a
  claimed journey whose external effects become commands; and the worker of the claims,
  \<open>internal/service/realtime_journey_worker.go\<close>. Between any two calls of the repository other
  processes may run; calls fail and answers are lost as the environment says. Writes to the logs,
  whose errors the code ignores, are taken to work.
\<close>

section \<open>The eligibility of touches\<close>

definition isAudienceTouchNode :: "node_type \<Rightarrow> bool" where
  "isAudienceTouchNode t \<longleftrightarrow> t \<in> {NT_Email, NT_SMS, NT_Push}"

definition audienceContextInt :: "json \<Rightarrow> int option" where
  "audienceContextInt v =
     (case v of JNum r \<Rightarrow> if r = of_int \<lfloor>r\<rfloor> then Some \<lfloor>r\<rfloor> else None | _ \<Rightarrow> None)"

definition context_string :: "json_object \<Rightarrow> string \<Rightarrow> string" where
  "context_string ctx key = (case field_of ctx key of JStr s \<Rightarrow> s | _ \<Rightarrow> [])"

type_synonym audience_checker = "(string \<Rightarrow> int \<Rightarrow> string \<Rightarrow> string + bool) option"

definition shouldSkipAudienceTouch ::
    "audience_checker \<Rightarrow> journey \<Rightarrow> automation_node \<Rightarrow> node_error + bool" where
  "shouldSkipAudienceTouch checker j n =
     (case j_Context j of
        None \<Rightarrow> Inr False
      | Some ctx \<Rightarrow>
          if \<not> isAudienceTouchNode (an_Type n) then Inr False
          else if context_string ctx ''audience_id'' = [] then Inr False
          else
            let version = audienceContextInt (field_of ctx ''audience_version'');
                customerID = context_string ctx ''audience_customer_id'';
                buildID = context_string ctx ''audience_build_id''
            in if version = None \<or> the version \<le> 0 \<or> customerID = [] \<or> buildID = []
               then node_text ''automation audience context is incomplete''
               else case checker of
                 None \<Rightarrow> node_text ''automation audience eligibility checker is unavailable''
               | Some check \<Rightarrow>
                   (case check (context_string ctx ''audience_id'') (the version) customerID of
                      Inl e \<Rightarrow> node_text (''evaluate automation audience eligibility: '' @ e)
                    | Inr matches \<Rightarrow> Inr (\<not> matches)))"

section \<open>The legacy engine\<close>

datatype tick_call = TC_Persist nat | TC_Final

record tick_env =
  te_now :: "nat \<Rightarrow> instant"       \<comment> \<open>the clock of the node's executor\<close>
  te_after :: "nat \<Rightarrow> instant"     \<comment> \<open>the clock when its result is looked at\<close>
  te_uuid :: "nat \<Rightarrow> string"
  te_automation_error :: "string option"
  te_contact :: "string + string"  \<comment> \<open>the loaded contact's e-mail address\<close>
  te_node :: "nat \<Rightarrow> node_env"
  te_channels :: bool
  te_audience :: audience_checker
  te_fault :: "tick_call \<Rightarrow> fault"
  te_others :: "tick_call \<Rightarrow> journey_op list"

record tick_state =
  ts_db :: journey_db
  ts_effects :: "node_effect list"

abbreviation on_db :: "(journey_db \<Rightarrow> journey_db) \<Rightarrow> tick_state \<Rightarrow> tick_state" where
  "on_db f st \<equiv> st\<lparr>ts_db := f (ts_db st)\<rparr>"

definition update_if_active :: "tick_env \<Rightarrow> tick_call \<Rightarrow> journey \<Rightarrow> tick_state \<Rightarrow> (string + bool) \<times> tick_state" where
  "update_if_active env c j st =
     (let db = fold run_journey_op (te_others env c) (ts_db st);
          (updated, db') = UpdateContactAutomationIfActive j db
      in case te_fault env c of
           Works \<Rightarrow> (Inr updated, st\<lparr>ts_db := db'\<rparr>)
         | Fails \<Rightarrow> (Inl ''failed to update contact automation'', st\<lparr>ts_db := db\<rparr>)
         | Answer_Lost \<Rightarrow> (Inl ''failed to update contact automation'', st\<lparr>ts_db := db'\<rparr>))"

definition persistIfActive :: "tick_env \<Rightarrow> journey \<Rightarrow> tick_state \<Rightarrow> (string + unit) \<times> tick_state" where
  "persistIfActive env j st =
     (case update_if_active env TC_Final j st of
        (Inl e, st1) \<Rightarrow> (Inl e, st1)
      | (Inr _, st1) \<Rightarrow> (Inr (), st1))"

definition createAutomationEndEvent :: "journey \<Rightarrow> string \<Rightarrow> tick_state \<Rightarrow> tick_state" where
  "createAutomationEndEvent j reason =
     on_db (\<lambda>db. db\<lparr>jd_ends := jd_ends db @ [\<lparr>ee_Email = j_ContactEmail j, ee_AutomationID = j_AutomationID j,
       ee_ExitReason = reason, ee_Status = j_Status j\<rparr>]\<rparr>)"

definition increment :: "string \<Rightarrow> string \<Rightarrow> string \<Rightarrow> tick_state \<Rightarrow> tick_state" where
  "increment ws k name = on_db (\<lambda>db. snd (IncrementAutomationStat ws k name db))"

definition markAs :: "journey_status \<Rightarrow> string \<Rightarrow> tick_env \<Rightarrow> string \<Rightarrow> journey \<Rightarrow> string \<Rightarrow> tick_state \<Rightarrow>
    (string + unit) \<times> tick_state" where
  "markAs status stat env ws j reason st =
     (let j = j\<lparr>j_Status := status, j_ScheduledAt := None, j_ExitReason := Some reason\<rparr>;
          st = increment ws (j_AutomationID j) stat st;
          st = createAutomationEndEvent j reason st
      in persistIfActive env j st)"

definition markAsCompleted :: "tick_env \<Rightarrow> string \<Rightarrow> journey \<Rightarrow> string \<Rightarrow> tick_state \<Rightarrow> (string + unit) \<times> tick_state" where
  "markAsCompleted = markAs JS_Completed ''completed''"

definition markAsExited :: "tick_env \<Rightarrow> string \<Rightarrow> journey \<Rightarrow> string \<Rightarrow> tick_state \<Rightarrow> (string + unit) \<times> tick_state" where
  "markAsExited = markAs JS_Exited ''exited''"

definition retry_backoff :: "int \<Rightarrow> duration" where
  "retry_backoff n = wrap64 ((if n < 0 then 0 else shl64 1 (nat n)) * minute)"

text \<open>\<open>i\<close> is the number of the iteration, for its clocks and ids.\<close>

definition handleError ::
    "tick_env \<Rightarrow> nat \<Rightarrow> string \<Rightarrow> journey \<Rightarrow> string \<Rightarrow> string \<Rightarrow> tick_state \<Rightarrow> (string + unit) \<times> tick_state" where
  "handleError env i ws j err ctx st =
     (let now = te_after env i;
          text = ctx @ '': '' @ err;
          j = j\<lparr>j_RetryCount := wrap64 (j_RetryCount j + 1), j_LastError := Some text, j_LastRetryAt := Some now\<rparr>;
          (j, st) =
            (if j_RetryCount j \<ge> j_MaxRetries j then
               (let j = j\<lparr>j_Status := JS_Failed\<rparr>
                in (j, createAutomationEndEvent j ''failed'' (increment ws (j_AutomationID j) ''failed'' st)))
             else (j\<lparr>j_ScheduledAt := Some (now + retry_backoff (j_RetryCount j))\<rparr>, st));
          st =
            (case j_CurrentNodeID j of
               None \<Rightarrow> st
             | Some k \<Rightarrow> on_db (CreateNodeExecution \<lparr>nx_ID = te_uuid env i, nx_ContactAutomationID = j_ID j,
                 nx_AutomationID = j_AutomationID j, nx_NodeID = k, nx_NodeType = NT_Trigger,
                 nx_Action = NA_Failed, nx_EnteredAt = now, nx_CompletedAt = None, nx_Error = Some text\<rparr>) st)
      in persistIfActive env j st)"

definition createNodeExecution :: "tick_env \<Rightarrow> nat \<Rightarrow> journey \<Rightarrow> automation_node \<Rightarrow> node_execution" where
  "createNodeExecution env i j n = \<lparr>nx_ID = te_uuid env i, nx_ContactAutomationID = j_ID j,
     nx_AutomationID = j_AutomationID j, nx_NodeID = an_ID n, nx_NodeType = an_Type n,
     nx_Action = NA_Processing, nx_EnteredAt = te_now env i, nx_CompletedAt = None, nx_Error = None\<rparr>"

definition params_of :: "string \<Rightarrow> journey \<Rightarrow> automation_node \<Rightarrow> automation \<Rightarrow> string option \<Rightarrow> string \<Rightarrow> node_params" where
  "params_of ws j n a contact key = \<lparr>np_WorkspaceID = ws, np_ContactID = j_ID j, np_ContactEmail = j_ContactEmail j,
     np_Node = n, np_Automation = a, np_ContactData = contact, np_EffectKey = key\<rparr>"

text \<open>One node: the result of its execution, or of the check of the audience before it.\<close>

definition node_step ::
    "tick_env \<Rightarrow> nat \<Rightarrow> string \<Rightarrow> journey \<Rightarrow> automation_node \<Rightarrow> automation \<Rightarrow> string \<Rightarrow> node_outcome" where
  "node_step env i ws j n a email =
     (case shouldSkipAudienceTouch (te_audience env) j n of
        Inl e \<Rightarrow> (Inl e, [])
      | Inr True \<Rightarrow> (Inr (advance (an_NextNodeID n)), [])
      | Inr False \<Rightarrow> execute_node ((te_node env i)\<lparr>ne_now := te_now env i\<rparr>) (params_of ws j n a (Some email) []) email)"

definition is_waiting :: "instant \<Rightarrow> node_result \<Rightarrow> bool" where
  "is_waiting now r = (case nr_ScheduledAt r of None \<Rightarrow> False | Some u \<Rightarrow> u > now)"

definition moved :: "instant \<Rightarrow> node_result \<Rightarrow> journey \<Rightarrow> journey" where
  "moved now r j = j\<lparr>j_CurrentNodeID := nr_NextNodeID r, j_ScheduledAt := nr_ScheduledAt r,
     j_ExitReason := (if nr_ExitReason r = None then j_ExitReason j else nr_ExitReason r),
     j_Status := (if nr_NextNodeID r = None \<and> nr_Status r = JS_Active \<and> \<not> is_waiting now r
                  then JS_Completed else nr_Status r)\<rparr>"

fun run_nodes :: "tick_env \<Rightarrow> string \<Rightarrow> automation \<Rightarrow> string \<Rightarrow> nat \<Rightarrow> nat \<Rightarrow> journey \<Rightarrow> tick_state \<Rightarrow>
    (string + unit) \<times> tick_state" where
  "run_nodes env ws a email 0 i j st = (Inr (), st)"
| "run_nodes env ws a email (Suc left) i j st =
     (case j_CurrentNodeID j of
        None \<Rightarrow> (Inl ''nil pointer dereference'', st)
      | Some k \<Rightarrow>
          (case GetNodeByID a k of
             None \<Rightarrow> markAsExited env ws j ''automation_node_deleted'' st
           | Some n \<Rightarrow>
               if \<not> has_executor (te_channels env) (an_Type n)
               then handleError env i ws j ''unsupported node type'' ''unsupported node type'' st
               else
                 let x = createNodeExecution env i j n;
                     st = on_db (CreateNodeExecution x) st;
                     (res, effects) = node_step env i ws j n a email;
                     st = st\<lparr>ts_effects := ts_effects st @ effects\<rparr>
                 in case res of
                      Inl e \<Rightarrow>
                        handleError env i ws j (node_error_text e) ''node execution failed''
                          (on_db (UpdateNodeExecution (x\<lparr>nx_Action := NA_Failed,
                             nx_Error := Some (node_error_text e), nx_CompletedAt := Some (te_after env i)\<rparr>)) st)
                    | Inr r \<Rightarrow>
                        let j = moved (te_after env i) r j
                        in case update_if_active env (TC_Persist i) j st of
                             (Inl e, st) \<Rightarrow> handleError env i ws j e ''failed to update contact automation'' st
                           | (Inr False, st) \<Rightarrow> (Inr (), st)
                           | (Inr True, st) \<Rightarrow>
                               let st = on_db (UpdateNodeExecution (x\<lparr>nx_Action := NA_Completed,
                                          nx_CompletedAt := Some (te_after env i)\<rparr>)) st
                               in if j_Status j = JS_Completed then
                                    (Inr (), createAutomationEndEvent j ''completed'' (increment ws (a_ID a) ''completed'' st))
                                  else if j_Status j = JS_Exited then
                                    (Inr (), createAutomationEndEvent j
                                       (case j_ExitReason j of None \<Rightarrow> ''exited'' | Some s \<Rightarrow> s)
                                       (increment ws (a_ID a) ''exited'' st))
                                  else if is_waiting (te_after env i) r then (Inr (), st)
                                  else run_nodes env ws a email left (Suc i) j st))"

definition maxNodesPerTick :: nat where "maxNodesPerTick = 10"

definition Execute :: "tick_env \<Rightarrow> string \<Rightarrow> journey \<Rightarrow> tick_state \<Rightarrow> (string + unit) \<times> tick_state" where
  "Execute env ws j st =
     (case te_automation_error env of
        Some e \<Rightarrow> handleError env 0 ws j e ''failed to get automation'' st
      | None \<Rightarrow>
          (case GetAutomation ws (j_AutomationID j) (ts_db st) of
             None \<Rightarrow> handleError env 0 ws j ''automation not found'' ''failed to get automation'' st
           | Some a \<Rightarrow>
               if a_Status a \<noteq> AS_Live then (Inr (), st)
               else if j_CurrentNodeID j = None then markAsCompleted env ws j ''completed'' st
               else case te_contact env of
                 Inl e \<Rightarrow> handleError env 0 ws j e ''failed to get contact'' st
               | Inr email \<Rightarrow> run_nodes env ws a email maxNodesPerTick 0 j st))"

text \<open>A batch: the journeys in turn, each error passed over; the number of those that worked.\<close>

fun process_all :: "(nat \<Rightarrow> tick_env) \<Rightarrow> nat \<Rightarrow> (string \<times> journey) list \<Rightarrow> nat \<Rightarrow> tick_state \<Rightarrow> nat \<times> tick_state" where
  "process_all envs i [] count st = (count, st)"
| "process_all envs i ((ws, j) # js) count st =
     (case Execute (envs i) ws j st of
        (Inl _, st) \<Rightarrow> process_all envs (Suc i) js count st
      | (Inr _, st) \<Rightarrow> process_all envs (Suc i) js (Suc count) st)"

declare run_nodes.simps [simp del]

section \<open>Planning a step\<close>

definition journeyNodeNeedsContactData :: "node_type \<Rightarrow> bool" where
  "journeyNodeNeedsContactData t \<longleftrightarrow> t \<in> {NT_Branch, NT_Filter, NT_ListStatusBranch}"

definition journeySideEffectChannel :: "node_type \<Rightarrow> string option" where
  "journeySideEffectChannel t =
     (case t of
        NT_Email \<Rightarrow> Some ''email''
      | NT_SMS \<Rightarrow> Some ''sms''
      | NT_Push \<Rightarrow> Some ''push''
      | NT_AddToList \<Rightarrow> Some ''contact_list''
      | NT_RemoveFromList \<Rightarrow> Some ''contact_list''
      | NT_Webhook \<Rightarrow> Some ''webhook''
      | _ \<Rightarrow> None)"

record plan_env =
  pe_automation_error :: "string option"
  pe_contact :: "string + string"
  pe_context :: "string option"
  pe_node :: node_env
  pe_channels :: bool
  pe_audience :: audience_checker
  pe_sha1 :: "string \<Rightarrow> string"
  pe_hash :: "event_envelope \<Rightarrow> string"

definition effect_key :: "string \<Rightarrow> journey_claim \<Rightarrow> string \<Rightarrow> string" where
  "effect_key ws c nodeID = ''journey:'' @ ws @ '':'' @ j_ID (cl_Journey c) @ '':'' @
     show_int (cl_AutomationVersion c) @ '':'' @ nodeID @ '':'' @ show_int (cl_StateVersion c)"

definition side_effect_data_of :: "journey_claim \<Rightarrow> automation \<Rightarrow> automation_node \<Rightarrow> side_effect_data" where
  "side_effect_data_of c a n = \<lparr>sd_ContactAutomationID = j_ID (cl_Journey c), sd_AutomationID = a_ID a,
     sd_AutomationName = a_Name a, sd_AutomationVersion = cl_AutomationVersion c, sd_AutomationListID = a_ListID a,
     sd_AutomationExitReply = a_ExitOnReply a, sd_StateVersion = cl_StateVersion c,
     sd_ContactEmail = j_ContactEmail (cl_Journey c), sd_NodeID = an_ID n, sd_NodeType = an_Type n,
     sd_NodeConfig = an_Config n\<rparr>"

definition side_effect_envelope ::
    "plan_env \<Rightarrow> string \<Rightarrow> journey_claim \<Rightarrow> automation \<Rightarrow> automation_node \<Rightarrow> instant \<Rightarrow> event_envelope" where
  "side_effect_envelope env ws c a n now =
     (let key = effect_key ws c (an_ID n); eventID = pe_sha1 env (key @ '':event'')
      in \<lparr>ev_ID = pe_sha1 env (key @ '':message''), ev_EventID = eventID, ev_Type = ''journey.side_effect.requested'',
          ev_SchemaVersion = 1, ev_WorkspaceID = ws,
          ev_Subject = \<lparr>es_Type = ''contact_automation'', es_ID = j_ID (cl_Journey c), es_CustomerID = [],
            es_ContactEmail = j_ContactEmail (cl_Journey c)\<rparr>,
          ev_Source = ''journey-worker'', ev_OccurredAt = now, ev_ReceivedAt = now,
          ev_CorrelationID = (case cl_OriginEventID c of None \<Rightarrow> eventID | Some origin \<Rightarrow> origin),
          ev_CausationID = cl_OriginEventID c, ev_TraceID = [],
          ev_Data = ED_SideEffect (side_effect_data_of c a n)\<rparr>)"

definition planJourneySideEffect ::
    "plan_env \<Rightarrow> string \<Rightarrow> journey_claim \<Rightarrow> automation \<Rightarrow> automation_node \<Rightarrow> string \<Rightarrow> instant \<Rightarrow> journey_commit" where
  "planJourneySideEffect env ws c a n channel now =
     (let next = (cl_Journey c)\<lparr>j_CurrentNodeID := an_NextNodeID n, j_ScheduledAt := Some now\<rparr>;
          next = (if an_NextNodeID n = None then next\<lparr>j_Status := JS_Completed, j_ScheduledAt := None\<rparr> else next);
          key = effect_key ws c (an_ID n);
          ev = side_effect_envelope env ws c a n now
      in \<lparr>jc_Journey = next,
          jc_SideEffect = Some \<lparr>se_EffectKey = key, se_ContactAutomationID = j_ID (cl_Journey c),
            se_AutomationVersion = cl_AutomationVersion c, se_NodeID = an_ID n,
            se_ExecutionVersion = cl_StateVersion c, se_Channel = channel, se_Status = ES_Reserved,
            se_ProviderMessageID = None, se_RequestHash = pe_hash env ev, se_Attempts = 0, se_LastError = None,
            se_CreatedAt = now, se_UpdatedAt = now\<rparr>,
          jc_Command = Some \<lparr>om_ID = ev_ID ev, om_EventID = ev_EventID ev, om_Topic = ''notifuse.jobs'',
            om_RoutingKey = ''delivery.'' @ channel, om_Payload = ev, om_EffectKey = Some key,
            om_Status = OS_Pending, om_Attempts = 0, om_AvailableAt = now, om_ClaimedBy = None,
            om_ClaimToken = None, om_ClaimExpiresAt = None, om_PublishedAt = None, om_LastError = None,
            om_CreatedAt = now\<rparr>\<rparr>)"

definition transition :: "journey \<Rightarrow> journey_commit" where
  "transition j = \<lparr>jc_Journey = j, jc_SideEffect = None, jc_Command = None\<rparr>"

text \<open>The journey after an internal node.\<close>

definition planned :: "instant \<Rightarrow> node_result \<Rightarrow> journey \<Rightarrow> journey" where
  "planned now r j =
     (let status = (if nr_NextNodeID r = None \<and> nr_Status r = JS_Active \<and> nr_ScheduledAt r = None
                    then JS_Completed else nr_Status r)
      in j\<lparr>j_CurrentNodeID := nr_NextNodeID r, j_Status := status, j_ExitReason := nr_ExitReason r,
           j_ScheduledAt := (if status = JS_Active \<and> nr_ScheduledAt r = None then Some now else nr_ScheduledAt r)\<rparr>)"

definition skipped :: "instant \<Rightarrow> automation_node \<Rightarrow> journey \<Rightarrow> journey" where
  "skipped now n j = (if an_NextNodeID n = None
     then j\<lparr>j_CurrentNodeID := None, j_Status := JS_Completed, j_ScheduledAt := None\<rparr>
     else j\<lparr>j_CurrentNodeID := an_NextNodeID n, j_Status := JS_Active, j_ScheduledAt := Some now\<rparr>)"

definition PlanClaimedJourneyStep ::
    "plan_env \<Rightarrow> string \<Rightarrow> journey_claim \<Rightarrow> instant \<Rightarrow> journey_db \<Rightarrow> string + journey_commit" where
  "PlanClaimedJourneyStep env ws c now db =
     (let j = cl_Journey c
      in if j_Status j \<noteq> JS_Active then Inl ''contact automation is not active''
         else case j_CurrentNodeID j of
           None \<Rightarrow> Inr (transition (j\<lparr>j_Status := JS_Completed, j_ScheduledAt := None\<rparr>))
         | Some k \<Rightarrow>
           (case pe_automation_error env of
              Some e \<Rightarrow> Inl (''load claimed automation: '' @ e)
            | None \<Rightarrow>
           (case GetAutomation ws (j_AutomationID j) db of
              None \<Rightarrow> Inl ''load claimed automation: automation not found''
            | Some a \<Rightarrow>
           if a_Status a \<noteq> AS_Live then Inl ''automation is not live''
           else case GetNodeByID a k of
              None \<Rightarrow> Inr (transition (j\<lparr>j_Status := JS_Exited, j_ExitReason := Some ''automation_node_deleted'',
                         j_ScheduledAt := None\<rparr>))
            | Some n \<Rightarrow>
           (case shouldSkipAudienceTouch (pe_audience env) j n of
              Inl e \<Rightarrow> Inl (node_error_text e)
            | Inr True \<Rightarrow> Inr (transition (skipped now n j))
            | Inr False \<Rightarrow>
           (case journeySideEffectChannel (an_Type n) of
              Some channel \<Rightarrow> Inr (planJourneySideEffect env ws c a n channel now)
            | None \<Rightarrow>
           if \<not> has_executor (pe_channels env) (an_Type n) then Inl ''unsupported claimed journey node type''
           else if journeyNodeNeedsContactData (an_Type n) \<and> (\<exists>e. pe_contact env = Inl e)
           then Inl ''load contact for claimed journey''
           else if pe_context env \<noteq> None then Inl ''build claimed journey context''
           else
             let email = (case pe_contact env of Inl _ \<Rightarrow> [] | Inr email \<Rightarrow> email);
                 contact = (if journeyNodeNeedsContactData (an_Type n) then Some email else None)
             in case fst (execute_node (pe_node env) (params_of ws j n a contact []) email) of
                  Inl e \<Rightarrow> Inl (''plan claimed node '' @ an_ID n @ '': '' @ node_error_text e)
                | Inr r \<Rightarrow> Inr (transition (planned now r j)))))))"

section \<open>The worker of claims\<close>

datatype journey_error =
    JE_InvalidMessage string
  | JE_Repo string
  | JE_Commit commit_error
  | JE_Plan string

datatype journey_call = JC_Claim | JC_Plan | JC_Commit | JC_Release

record wake_env =
  jw_now :: instant
  jw_lease :: duration
  jw_worker :: string
  jw_token :: string
  jw_is_uuid :: "string \<Rightarrow> bool"
  jw_plan :: plan_env
  jw_fault :: "journey_call \<Rightarrow> fault"
  jw_others :: "journey_call \<Rightarrow> journey_op list"

text \<open>A call of the repository, with what other processes do before it.\<close>

definition journey_call ::
    "wake_env \<Rightarrow> journey_call \<Rightarrow> 'e \<Rightarrow> (journey_db \<Rightarrow> ('e + 'a) \<times> journey_db) \<Rightarrow> journey_db \<Rightarrow>
     ('e + 'a) \<times> journey_db" where
  "journey_call env c broken op db0 =
     (let db = fold run_journey_op (jw_others env c) db0;
          (r, db') = op db
      in case jw_fault env c of
           Works \<Rightarrow> (r, db') | Fails \<Rightarrow> (Inl broken, db) | Answer_Lost \<Rightarrow> (Inl broken, db'))"

definition blank :: "string \<Rightarrow> bool" where
  "blank s \<longleftrightarrow> (\<forall>c \<in> set s. is_re_space c \<or> of_char c = (11 :: nat))"

definition check_wake :: "(string \<Rightarrow> bool) \<Rightarrow> broker_message \<Rightarrow> string + event_envelope" where
  "check_wake is_uuid m =
     (if bm_ID m = [] then Inl ''message id is required''
      else case bm_Body m of
        None \<Rightarrow> Inl ''decode event envelope''
      | Some e \<Rightarrow>
          if ev_ID e \<noteq> bm_ID m then Inl ''envelope id does not match message id''
          else case EventEnvelope_Validate is_uuid e of
            Some err \<Rightarrow> Inl err
          | None \<Rightarrow>
              if \<not> is_prefix ''journey.'' (ev_Type e) then Inl ''unsupported event type''
              else if es_Type (ev_Subject e) \<noteq> ''contact_automation'' \<or> blank (es_ID (ev_Subject e))
              then Inl ''contact_automation subject is required''
              else Inr e)"

definition Handle_wake :: "wake_env \<Rightarrow> broker_message \<Rightarrow> journey_db \<Rightarrow> (journey_error + unit) \<times> journey_db" where
  "Handle_wake env m db =
     (case check_wake (jw_is_uuid env) m of
        Inl e \<Rightarrow> (Inl (JE_InvalidMessage e), db)
      | Inr e \<Rightarrow>
     (case journey_call env JC_Claim ''driver''
             (ClaimContactAutomation (es_ID (ev_Subject e)) (jw_worker env) (jw_now env) (jw_lease env) (jw_token env)) db of
        (Inl err, db1) \<Rightarrow> (Inl (JE_Repo err), db1)
      | (Inr None, db1) \<Rightarrow> (Inr (), db1)
      | (Inr (Some c), db1) \<Rightarrow>
          let db1 = fold run_journey_op (jw_others env JC_Plan) db1
          in (case PlanClaimedJourneyStep (jw_plan env) (ev_WorkspaceID e) c (jw_now env) db1 of
                Inl err \<Rightarrow>
                  (case journey_call env JC_Release ''driver''
                          (\<lambda>db. let (b, db') = ReleaseContactAutomationClaim (j_ID (cl_Journey c)) (cl_Token c) db
                                in (Inr b, db')) db1 of
                     (Inl rel, db2) \<Rightarrow> (Inl (JE_Plan (err @ rel)), db2)
                   | (Inr _, db2) \<Rightarrow> (Inl (JE_Plan err), db2))
              | Inr commit \<Rightarrow>
                  (case journey_call env JC_Commit (CE_Invalid ''driver'')
                          (CommitContactAutomationState (jw_now env) c commit) db1 of
                     (Inl err, db2) \<Rightarrow> (Inl (JE_Commit err), db2)
                   | (Inr _, db2) \<Rightarrow> (Inr (), db2)))))"

definition HandleDelivery_wake :: "(journey_error + unit) \<Rightarrow> delivery_action" where
  "HandleDelivery_wake r =
     (case r of Inr _ \<Rightarrow> Ack | Inl (JE_InvalidMessage _) \<Rightarrow> DeadLetter | Inl _ \<Rightarrow> Retry Retry30Seconds)"

end
