(* ===== verification/Journey_Ticks.thy ===== *)
theory Journey_Ticks
  imports Journey_Engine
begin

text \<open>
  What nodes and ticks do: the shares of an A/B test, the agreement of the two engines on
  internal nodes, the final exits that a tick respects, and the journeys that the limit of a
  tick strands.
\<close>

section \<open>Shares of an A/B test\<close>

abbreviation total_weight :: "ab_variant list \<Rightarrow> int" where
  "total_weight vs \<equiv> (\<Sum>v\<leftarrow>vs. av_Weight v)"

definition weights_ok :: "ab_variant list \<Rightarrow> bool" where
  "weights_ok vs \<longleftrightarrow> (\<forall>v \<in> set vs. 1 \<le> av_Weight v \<and> av_Weight v \<le> 100)"

lemma weights_ok_simps [simp]:
  "weights_ok []"
  "weights_ok (v # vs) \<longleftrightarrow> 1 \<le> av_Weight v \<and> av_Weight v \<le> 100 \<and> weights_ok vs"
  "weights_ok (vs @ ws) \<longleftrightarrow> weights_ok vs \<and> weights_ok ws"
  by (auto simp: weights_ok_def)

lemma total_weight_nonneg: "weights_ok vs \<Longrightarrow> 0 \<le> total_weight vs"
  by (induction vs) auto

lemma wrap64_weight: "0 \<le> c \<Longrightarrow> 0 \<le> w \<Longrightarrow> c + w < 2 ^ 63 \<Longrightarrow> wrap64 (c + w) = c + w"
  by (rule wrap64_id) (simp add: in_int64_def)

lemma check_variants_sound:
  assumes "check_variants seen w vs = Inr t" and "0 \<le> w" and "w + 100 * int (length vs) < 2 ^ 63"
  shows "t = w + total_weight vs" and "weights_ok vs" and "distinct (map av_ID vs)"
    and "set seen \<inter> av_ID ` set vs = {}"
proof -
  have "t = w + total_weight vs \<and> weights_ok vs \<and> distinct (map av_ID vs) \<and> set seen \<inter> av_ID ` set vs = {}"
    using assms
  proof (induction seen w vs rule: check_variants.induct)
    case (2 seen w v vs)
    have v: "ABTestVariant_Validate v = None" "av_ID v \<notin> set seen"
      and rest: "check_variants (av_ID v # seen) (wrap64 (w + av_Weight v)) vs = Inr t"
      using "2.prems"(1) by (auto split: option.splits if_splits)
    have b: "1 \<le> av_Weight v" "av_Weight v \<le> 100"
      using v(1) by (auto simp: ABTestVariant_Validate_def split: if_splits)
    have w: "wrap64 (w + av_Weight v) = w + av_Weight v"
      by (rule wrap64_weight) (use "2.prems"(2,3) b in auto)
    have "t = (w + av_Weight v) + total_weight vs \<and> weights_ok vs \<and> distinct (map av_ID vs) \<and>
        set (av_ID v # seen) \<inter> av_ID ` set vs = {}"
      using "2.IH"[OF v(1,2), unfolded w, OF rest[unfolded w]] "2.prems"(2,3) b by simp
    then show ?case using b v(2) by auto
  qed simp
  then show "t = w + total_weight vs" "weights_ok vs" "distinct (map av_ID vs)" "set seen \<inter> av_ID ` set vs = {}"
    by simp_all
qed

lemma pick_variant_in_set:
  "weights_ok vs \<Longrightarrow> 0 \<le> c \<Longrightarrow> c + total_weight vs < 2 ^ 63 \<Longrightarrow> roll < c + total_weight vs \<Longrightarrow> c \<le> roll \<Longrightarrow>
   pick_variant roll c fb vs \<in> set vs"
proof (induction vs arbitrary: c)
  case (Cons v vs)
  have "wrap64 (c + av_Weight v) = c + av_Weight v"
    by (rule wrap64_weight) (use Cons.prems total_weight_nonneg[of vs] in auto)
  then show ?case using Cons.prems Cons.IH[of "c + av_Weight v"] by (auto simp: Let_def add.assoc)
qed simp

text \<open>A variant is picked exactly on the rolls between the weights before it and its own.\<close>

lemma pick_variant_iff:
  assumes "weights_ok (xs @ v # ys)" and "0 \<le> c" and "c + total_weight (xs @ v # ys) < 2 ^ 63"
    and "v \<notin> set xs" and "v \<notin> set ys" and "c \<le> roll" and "roll < c + total_weight (xs @ v # ys)"
  shows "pick_variant roll c fb (xs @ v # ys) = v \<longleftrightarrow>
    c + total_weight xs \<le> roll \<and> roll < c + total_weight xs + av_Weight v"
  using assms
proof (induction xs arbitrary: c)
  case Nil
  have w: "wrap64 (c + av_Weight v) = c + av_Weight v"
    by (rule wrap64_weight) (use Nil.prems total_weight_nonneg[of ys] in auto)
  have "pick_variant roll (c + av_Weight v) fb ys \<in> set ys" if "\<not> roll < c + av_Weight v"
    by (rule pick_variant_in_set) (use Nil.prems that in auto)
  then show ?case using Nil.prems w by (auto simp: Let_def)
next
  case (Cons x xs)
  have n: "0 \<le> total_weight xs" "0 \<le> total_weight ys"
    using Cons.prems by (auto intro: total_weight_nonneg)
  have w: "wrap64 (c + av_Weight x) = c + av_Weight x"
    by (rule wrap64_weight) (use Cons.prems n in auto)
  show ?case
  proof (cases "roll < c + av_Weight x")
    case True
    then show ?thesis using Cons.prems w n by (auto simp: Let_def)
  next
    case False
    then have "pick_variant roll c fb ((x # xs) @ v # ys) = pick_variant roll (c + av_Weight x) fb (xs @ v # ys)"
      by (simp add: w Let_def)
    then show ?thesis
      using Cons.IH[of "c + av_Weight x"] Cons.prems False by (simp add: add.assoc)
  qed
qed

lemma roll_of_bounds: "0 \<le> roll_of email k" "roll_of email k < 100"
proof -
  show "0 \<le> roll_of email k" by (simp add: roll_of_def)
  have "uint (fnv32a (email @ k) mod 100) = uint (fnv32a (email @ k)) mod uint (100 :: 32 word)"
    by (simp add: uint_mod)
  then show "roll_of email k < 100" by (simp add: roll_of_def)
qed

text \<open>The rolls that lead to a variant, out of the 100 that the hash can give.\<close>

definition rolls_to :: "ab_variant list \<Rightarrow> ab_variant \<Rightarrow> int list" where
  "rolls_to vs v = filter (\<lambda>roll. pick_variant roll 0 (last vs) vs = v) [0..99]"

lemma length_filter_between:
  "0 \<le> a \<Longrightarrow> a + w \<le> 100 \<Longrightarrow> 0 \<le> w \<Longrightarrow> length (filter (\<lambda>r. a \<le> r \<and> r < a + w) [0..99]) = nat w"
proof -
  assume a: "0 \<le> a" "a + w \<le> 100" "0 \<le> w"
  have "length (filter (\<lambda>r. a \<le> r \<and> r < a + w) [0..99]) = card (set (filter (\<lambda>r. a \<le> r \<and> r < a + w) [0..99]))"
    by (rule distinct_card[symmetric]) simp
  also have "set (filter (\<lambda>r. a \<le> r \<and> r < a + w) [0..99]) = {a ..< a + w}" using a by auto
  finally show ?thesis by simp
qed

text \<open>  An A/B test with a valid configuration gives every variant exactly its weight in percent of the
  rolls: of the 100 values that the hash of a contact can take, as many lead to the variant as its
  weight says; and a contact always gets one of the variants, the one of its roll.\<close>

theorem ab_test_shares:
  assumes "ABTestNodeConfig_Validate vs = None" and "int (length vs) < 2 ^ 50" and "v \<in> set vs"
  shows "int (length (rolls_to vs v)) = av_Weight v \<and>
    selectVariantDeterministic email nodeID vs \<in> set vs \<and>
    (selectVariantDeterministic email nodeID vs = v \<longleftrightarrow> roll_of email nodeID \<in> set (rolls_to vs v))"
proof (intro conjI)
  obtain t where "check_variants [] 0 vs = Inr t" and t: "t = 100"
    using assms(1) by (auto simp: ABTestNodeConfig_Validate_def split: if_splits sum.splits)
  from check_variants_sound[OF this(1)] assms(2)
  have s: "total_weight vs = 100" and ok: "weights_ok vs" and d: "distinct (map av_ID vs)"
    by (simp_all add: t)
  obtain xs ys where vs: "vs = xs @ v # ys" using assms(3) by (auto dest: split_list)
  have nin: "v \<notin> set xs" "v \<notin> set ys" using d by (auto simp: vs)
  have w: "1 \<le> av_Weight v" "0 \<le> total_weight xs" "0 \<le> total_weight ys"
    using ok by (auto simp: vs intro: total_weight_nonneg)
  have "pick_variant roll 0 (last vs) vs = v \<longleftrightarrow> total_weight xs \<le> roll \<and> roll < total_weight xs + av_Weight v"
    if "roll \<in> set [0..99]" for roll
    using pick_variant_iff[of xs v ys 0 roll "last vs"] that ok s nin by (simp add: vs)
  then have rolls: "rolls_to vs v =
      filter (\<lambda>roll. total_weight xs \<le> roll \<and> roll < total_weight xs + av_Weight v) [0..99]"
    unfolding rolls_to_def by (intro filter_cong) auto
  show "int (length (rolls_to vs v)) = av_Weight v"
    unfolding rolls using length_filter_between[of "total_weight xs" "av_Weight v"] w s by (simp add: vs)
  show "selectVariantDeterministic email nodeID vs \<in> set vs"
    using pick_variant_in_set[OF ok, of 0] roll_of_bounds[of email nodeID] s
    by (simp add: selectVariantDeterministic_def)
  show "selectVariantDeterministic email nodeID vs = v \<longleftrightarrow> roll_of email nodeID \<in> set (rolls_to vs v)"
    using roll_of_bounds[of email nodeID] by (simp add: selectVariantDeterministic_def rolls_to_def)
qed

definition ab_halves :: "ab_variant list" where
  "ab_halves = [\<lparr>av_ID = ''a'', av_Name = ''A'', av_Weight = 30, av_NextNodeID = ''x''\<rparr>,
     \<lparr>av_ID = ''b'', av_Name = ''B'', av_Weight = 70, av_NextNodeID = ''y''\<rparr>]"

lemma ab_test_shares_witness:
  "int (length (rolls_to ab_halves (ab_halves ! 1))) = 70 \<and>
   (selectVariantDeterministic ''a@x'' ''n'' ab_halves = ab_halves ! 1 \<longleftrightarrow>
    roll_of ''a@x'' ''n'' \<in> set (rolls_to ab_halves (ab_halves ! 1)))"
proof -
  have v: "ABTestNodeConfig_Validate ab_halves = None"
    by (simp add: ABTestNodeConfig_Validate_def ab_halves_def ABTestVariant_Validate_def wrap64_def)
  have l: "int (length ab_halves) < 2 ^ 50" and m: "ab_halves ! 1 \<in> set ab_halves" and w: "av_Weight (ab_halves ! 1) = 70"
    by (simp_all add: ab_halves_def)
  show ?thesis
    using ab_test_shares[OF v l m, of "''a@x''" "''n''"] unfolding w by blast
qed

section \<open>The two engines on a node\<close>

text \<open>Executors of internal nodes do not read the loaded contact.\<close>

lemma params_of_sel:
  "np_WorkspaceID (params_of ws j n a contact key) = ws"
  "np_ContactID (params_of ws j n a contact key) = j_ID j"
  "np_ContactEmail (params_of ws j n a contact key) = j_ContactEmail j"
  "np_Node (params_of ws j n a contact key) = n"
  "np_Automation (params_of ws j n a contact key) = a"
  "np_ContactData (params_of ws j n a contact key) = contact"
  "np_EffectKey (params_of ws j n a contact key) = key"
  by (simp_all add: params_of_def)

lemma execute_internal_cong:
  assumes "journeySideEffectChannel (an_Type n) = None"
  shows "execute_node env (params_of ws j n a contact []) email =
    execute_node env (params_of ws j n a contact' []) email"
  using assms
  unfolding execute_node_def executor_defs params_of_sel
  by (cases "an_Type n") (simp_all add: journeySideEffectChannel_def)

lemma touch_has_channel: "isAudienceTouchNode t \<Longrightarrow> journeySideEffectChannel t \<noteq> None"
  by (auto simp: isAudienceTouchNode_def journeySideEffectChannel_def)

lemma internal_is_no_touch:
  "journeySideEffectChannel (an_Type n) = None \<Longrightarrow> shouldSkipAudienceTouch checker j n = Inr False"
  using touch_has_channel[of "an_Type n"] by (auto simp: shouldSkipAudienceTouch_def split: option.splits)

text \<open>The times at which the realtime engine looks at a journey again: at once, unless it waits or has
  ended.\<close>

definition requeue :: "instant \<Rightarrow> journey \<Rightarrow> journey" where
  "requeue now j = (if j_Status j = JS_Active \<and> j_ScheduledAt j = None then j\<lparr>j_ScheduledAt := Some now\<rparr> else j)"

lemma planned_is_requeued_move:
  assumes "result_ok t r" and "j_ExitReason j = None"
    and "\<And>u. nr_ScheduledAt r = Some u \<Longrightarrow> later < u"
  shows "planned now r j = requeue now (moved later r j)"
  using assms
  by (cases "nr_ScheduledAt r"; cases "nr_NextNodeID r"; cases "nr_ExitReason r")
    (auto simp: planned_def moved_def requeue_def result_ok_def is_waiting_def Let_def)

lemma skipped_is_requeued_move:
  assumes "j_ExitReason j = None" and "j_Status j = JS_Active"
  shows "skipped now n j = requeue now (moved later (advance (an_NextNodeID n)) j)"
  using assms by (cases "an_NextNodeID n") (simp_all add: skipped_def moved_def requeue_def advance_def is_waiting_def)

lemma node_step_result_ok: "fst (node_step env i ws j n a email) = Inr r \<Longrightarrow> result_ok (an_Type n) r"
  by (auto simp: node_step_def params_of_sel dest: execute_node_result_ok split: sum.splits bool.splits)

text \<open>The claimed journey stands on a node of a live automation that runs inside the engine, or on one
  that the audience skips.\<close>

definition on_internal_node ::
    "plan_env \<Rightarrow> string \<Rightarrow> journey_claim \<Rightarrow> journey_db \<Rightarrow> automation \<Rightarrow> automation_node \<Rightarrow> bool" where
  "on_internal_node env ws c db a n \<longleftrightarrow>
     (let j = cl_Journey c
      in j_Status j = JS_Active \<and> j_ExitReason j = None \<and> pe_automation_error env = None \<and>
         GetAutomation ws (j_AutomationID j) db = Some a \<and> a_Status a = AS_Live \<and>
         j_CurrentNodeID j = Some (an_ID n) \<and> GetNodeByID a (an_ID n) = Some n \<and>
         has_executor (pe_channels env) (an_Type n) \<and> pe_context env = None \<and>
         (journeySideEffectChannel (an_Type n) = None \<or> shouldSkipAudienceTouch (pe_audience env) j n \<noteq> Inr False))"

text \<open>C12.
  On a node that has no effect outside of the engine, and on a touch that the audience of the journey
  makes it skip, the two engines agree: the realtime engine plans a step exactly when the legacy
  engine's node works, and then the planned journey is the journey that the legacy engine would store -
  same node, same status, same reason - except that a journey that goes on is scheduled at once rather
  than run on. The error of one is an error of the other.\<close>

theorem engines_agree:
  assumes "on_internal_node pe ws c db a n" and "pe_contact pe = Inr email"
    and "pe_node pe = (te_node te i)\<lparr>ne_now := te_now te i\<rparr>" and "pe_audience pe = te_audience te"
    and "\<And>r u. fst (node_step te i ws (cl_Journey c) n a email) = Inr r \<Longrightarrow> nr_ScheduledAt r = Some u \<Longrightarrow>
           te_after te i < u"
  shows "case fst (node_step te i ws (cl_Journey c) n a email) of
      Inl e \<Rightarrow> \<exists>text. PlanClaimedJourneyStep pe ws c now db = Inl (text @ node_error_text e)
    | Inr r \<Rightarrow> PlanClaimedJourneyStep pe ws c now db =
        Inr (transition (requeue now (moved (te_after te i) r (cl_Journey c))))"
proof -
  let ?j = "cl_Journey c" and ?skip = "shouldSkipAudienceTouch (te_audience te) (cl_Journey c) n"
  have g: "j_Status ?j = JS_Active" "j_ExitReason ?j = None" "pe_automation_error pe = None"
    "GetAutomation ws (j_AutomationID ?j) db = Some a" "a_Status a = AS_Live" "j_CurrentNodeID ?j = Some (an_ID n)"
    "GetNodeByID a (an_ID n) = Some n" "has_executor (pe_channels pe) (an_Type n)" "pe_context pe = None"
    and touch: "journeySideEffectChannel (an_Type n) = None \<or> ?skip \<noteq> Inr False"
    using assms(1,4) by (simp_all add: on_internal_node_def Let_def)
  show ?thesis
  proof (cases ?skip)
    case (Inl e)
    then have "PlanClaimedJourneyStep pe ws c now db = Inl ([] @ node_error_text e)"
      by (simp add: PlanClaimedJourneyStep_def g assms(4))
    then show ?thesis unfolding node_step_def Inl by auto
  next
    case (Inr b)
    show ?thesis
    proof (cases b)
      case True
      then have "PlanClaimedJourneyStep pe ws c now db = Inr (transition (skipped now n ?j))"
        by (simp add: PlanClaimedJourneyStep_def g assms(4) Inr)
      then show ?thesis
        unfolding skipped_is_requeued_move[OF g(2,1), of now n "te_after te i"]
        by (simp add: node_step_def Inr True)
    next
      case False
      then have skip: "?skip = Inr False" and ch: "journeySideEffectChannel (an_Type n) = None"
        using touch Inr by simp_all
      let ?x = "fst (node_step te i ws ?j n a email)"
      let ?contact = "if journeyNodeNeedsContactData (an_Type n) then Some email else None"
      have step: "?x = fst (execute_node (pe_node pe) (params_of ws ?j n a ?contact []) email)"
        unfolding node_step_def skip sum.case bool.case assms(3)
        by (rule arg_cong[where f = fst]) (rule execute_internal_cong[OF ch])
      have plan: "PlanClaimedJourneyStep pe ws c now db =
          (case ?x of Inl e \<Rightarrow> Inl (''plan claimed node '' @ an_ID n @ '': '' @ node_error_text e)
           | Inr r \<Rightarrow> Inr (transition (planned now r ?j)))"
        unfolding step by (simp add: PlanClaimedJourneyStep_def Let_def g assms(2,4) skip ch)
      show ?thesis
      proof (cases ?x)
        case (Inl e)
        then have "PlanClaimedJourneyStep pe ws c now db =
            Inl ((''plan claimed node '' @ an_ID n @ '': '') @ node_error_text e)"
          unfolding plan by simp
        then show ?thesis unfolding Inl sum.case by blast
      next
        case (Inr r)
        have "planned now r ?j = requeue now (moved (te_after te i) r ?j)"
          by (rule planned_is_requeued_move[OF node_step_result_ok[OF Inr] g(2)]) (rule assms(5)[OF Inr])
        then show ?thesis unfolding plan Inr by simp
      qed
    qed
  qed
qed

text \<open>Concrete automations for the witnesses.\<close>

definition node_at :: "string \<Rightarrow> node_type \<Rightarrow> json_object \<Rightarrow> string option \<Rightarrow> automation_node" where
  "node_at k t cfg next = \<lparr>an_ID = k, an_AutomationID = ''a'', an_Type = t, an_Config = Some cfg,
     an_NextNodeID = next, an_CreatedAt = 1\<rparr>"

definition live_automation :: "automation_node list \<Rightarrow> automation" where
  "live_automation ns = \<lparr>a_ID = ''a'', a_WorkspaceID = ''ws'', a_Name = ''welcome'', a_Status = AS_Live,
     a_ListID = ''list'', a_ExitOnReply = True, a_RootNodeID = ''n0'', a_Nodes = ns,
     a_Stats = \<lparr>as_Enrolled = 1, as_Completed = 0, as_Exited = 0, as_Failed = 0\<rparr>, a_DeletedAt = None, a_Version = 1\<rparr>"

definition journey_on :: "string \<Rightarrow> journey" where
  "journey_on k = \<lparr>j_ID = ''j'', j_AutomationID = ''a'', j_ContactEmail = ''a@x'', j_CurrentNodeID = Some k,
     j_Status = JS_Active, j_ExitReason = None, j_EnteredAt = 1, j_ScheduledAt = Some 5, j_Context = None,
     j_RetryCount = 0, j_LastError = None, j_LastRetryAt = None, j_MaxRetries = 3\<rparr>"

definition row_on :: "string \<Rightarrow> journey_row" where
  "row_on k = \<lparr>j_ID = ''j'', j_AutomationID = ''a'', j_ContactEmail = ''a@x'', j_CurrentNodeID = Some k,
     j_Status = JS_Active, j_ExitReason = None, j_EnteredAt = 1, j_ScheduledAt = Some 5, j_Context = None,
     j_RetryCount = 0, j_LastError = None, j_LastRetryAt = None, j_MaxRetries = 3, r_OriginEventID = None,
     r_AutomationVersion = 1, r_StateVersion = 1, r_ClaimToken = None, r_ClaimedBy = None, r_ClaimedAt = None,
     r_ClaimExpiresAt = None\<rparr>"

definition db_of :: "automation \<Rightarrow> journey_row \<Rightarrow> journey_db" where
  "db_of a r = \<lparr>rd_outbox = [], rd_inbox = [], rd_effects = [], jd_automations = [a], jd_journeys = [r],
     jd_executions = [], jd_ends = []\<rparr>"

definition quiet_node_env :: "instant \<Rightarrow> node_env" where
  "quiet_node_env now = \<lparr>ne_now = now, ne_connection = None, ne_matches = (\<lambda>_ _. Inr True),
     ne_list = (\<lambda>_ _. LA_Status ''active''), ne_add_to_list = (\<lambda>_ _. None), ne_remove_from_list = (\<lambda>_ _. None),
     ne_template = (\<lambda>_. Inr (''marketing'', [])), ne_render = (\<lambda>_. None), ne_enqueue = (\<lambda>_. None),
     ne_uuid = ''u1'', ne_uuid2 = ''u2'', ne_sha1 = (\<lambda>s. s), ne_webhook = (\<lambda>_. HA_Response 200 []),
     ne_channel = (\<lambda>_. CA_Confirmed)\<rparr>"

definition quiet_tick :: tick_env where
  "quiet_tick = \<lparr>te_now = (\<lambda>_. 100), te_after = (\<lambda>_. 101), te_uuid = (\<lambda>_. ''x''), te_automation_error = None,
     te_contact = Inr ''a@x'', te_node = (\<lambda>_. quiet_node_env 100), te_channels = True, te_audience = None,
     te_fault = (\<lambda>_. Works), te_others = (\<lambda>_. [])\<rparr>"

definition quiet_plan :: plan_env where
  "quiet_plan = \<lparr>pe_automation_error = None, pe_contact = Inr ''a@x'', pe_context = None,
     pe_node = quiet_node_env 100, pe_channels = True, pe_audience = None, pe_sha1 = (\<lambda>s. s), pe_hash = (\<lambda>_. ''h'')\<rparr>"

lemmas sample_defs = node_at_def live_automation_def journey_on_def row_on_def db_of_def quiet_node_env_def
  quiet_tick_def quiet_plan_def

definition pause_node :: automation_node where
  "pause_node = node_at ''n0'' NT_Delay [(''duration'', JNum 5), (''unit'', JStr ''minutes'')] (Some ''n1'')"

definition pause_claim :: journey_claim where
  "pause_claim = claim_of (row_on ''n0'') ''t''"

lemma pause_result:
  "fst (node_step quiet_tick 0 ''ws'' (cl_Journey pause_claim) pause_node (live_automation [pause_node]) ''a@x'') =
    Inr ((advance (Some ''n1''))\<lparr>nr_ScheduledAt := Some 300000000100\<rparr>)"
  by (simp add: node_step_def internal_is_no_touch pause_node_def node_at_def journeySideEffectChannel_def
      execute_node_def exec_delay_def params_of_def config_of_def parseDelayNodeConfig_def described_def
      decode_string_def decode_int_def field_of_def validated_def DelayNodeConfig_Validate_def in_int64_def
      delay_duration_def minute_def second_def quiet_tick_def quiet_node_env_def)

lemma engines_agree_witness:
  "PlanClaimedJourneyStep quiet_plan ''ws'' pause_claim 100 (db_of (live_automation [pause_node]) (row_on ''n0'')) =
    Inr (transition ((journey_on ''n1'')\<lparr>j_ScheduledAt := Some 300000000100\<rparr>))"
proof -
  let ?db = "db_of (live_automation [pause_node]) (row_on ''n0'')"
  have on: "on_internal_node quiet_plan ''ws'' pause_claim ?db (live_automation [pause_node]) pause_node"
    by (simp add: on_internal_node_def pause_claim_def claim_of_def read_journey_def GetAutomation_def GetNodeByID_def
        has_executor_def journeySideEffectChannel_def pause_node_def sample_defs)
  have "case fst (node_step quiet_tick 0 ''ws'' (cl_Journey pause_claim) pause_node (live_automation [pause_node]) ''a@x'') of
      Inl e \<Rightarrow> \<exists>text. PlanClaimedJourneyStep quiet_plan ''ws'' pause_claim 100 ?db = Inl (text @ node_error_text e)
    | Inr r \<Rightarrow> PlanClaimedJourneyStep quiet_plan ''ws'' pause_claim 100 ?db =
        Inr (transition (requeue 100 (moved (te_after quiet_tick 0) r (cl_Journey pause_claim))))"
    by (rule engines_agree[OF on])
      (simp_all only: pause_result, auto simp: quiet_plan_def quiet_tick_def quiet_node_env_def)
  then show ?thesis
    unfolding pause_result sum.case
    by (simp add: requeue_def moved_def is_waiting_def advance_def pause_claim_def claim_of_def read_journey_def
        sample_defs)
qed

section \<open>A tick as guarded writes\<close>

text \<open>The database without the logs of nodes and ends.\<close>

definition core :: "journey_db \<Rightarrow> journey_db" where
  "core db = db\<lparr>jd_executions := [], jd_ends := []\<rparr>"

lemma core_sel [simp]:
  "jd_journeys (core db) = jd_journeys db" "jd_automations (core db) = jd_automations db"
  "rd_outbox (core db) = rd_outbox db" "rd_inbox (core db) = rd_inbox db" "rd_effects (core db) = rd_effects db"
  "find_journey k (core db) = find_journey k db"
  by (simp_all add: core_def find_journey_def)

lemma core_updates [simp]:
  "core (db\<lparr>jd_journeys := js\<rparr>) = (core db)\<lparr>jd_journeys := js\<rparr>"
  "core (db\<lparr>jd_automations := as\<rparr>) = (core db)\<lparr>jd_automations := as\<rparr>"
  "core (db\<lparr>rd_effects := es\<rparr>) = (core db)\<lparr>rd_effects := es\<rparr>"
  "core (db\<lparr>rd_outbox := ms\<rparr>) = (core db)\<lparr>rd_outbox := ms\<rparr>"
  "core (db\<lparr>jd_executions := xs\<rparr>) = core db"
  "core (db\<lparr>jd_ends := es'\<rparr>) = core db"
  by (simp_all add: core_def)

lemma reserve_core:
  "reserveJourneySideEffectTx now e (core db) = map_prod id core (reserveJourneySideEffectTx now e db)"
  by (auto simp: reserveJourneySideEffectTx_def find_effect_def Let_def split: option.splits)

lemma enqueue_core: "enqueue_command m (core db) = map_prod id core (enqueue_command m db)"
  by (auto simp: enqueue_command_def)

lemma commit_tx_core: "commit_tx now c commit (core db) = map_prod id core (commit_tx now c commit db)"
proof -
  have set_journeys: "(core db)\<lparr>jd_journeys := js\<rparr> = core (db\<lparr>jd_journeys := js\<rparr>)" for js by simp
  show ?thesis
    unfolding commit_tx_def core_sel Let_def set_journeys reserve_core
    by (auto simp: enqueue_core split: option.splits prod.splits sum.splits)
qed

lemma commit_core:
  "CommitContactAutomationState now c commit (core db) =
    map_prod id core (CommitContactAutomationState now c commit db)"
  by (auto simp: CommitContactAutomationState_def in_tx_def commit_tx_core split: prod.splits sum.splits)

lemma run_journey_op_core: "core (run_journey_op op db) = run_journey_op op (core db)"
  by (cases op)
    (auto simp: ExitContactJourneysOnReply_def DeleteAutomation_def ClaimContactAutomation_def
      RenewContactAutomationClaim_def ReleaseContactAutomationClaim_def UpdateContactAutomationIfActive_def
      IncrementAutomationStat_def commit_core Let_def split: option.splits)

lemma fold_journey_op_core: "core (fold run_journey_op ops db) = fold run_journey_op ops (core db)"
  by (induction ops arbitrary: db) (simp_all add: run_journey_op_core)

text \<open>What a tick of a journey may do to the database: what others do in the meantime, guarded writes of
  this journey's row, and statistics.\<close>

definition of_tick :: "tick_env \<Rightarrow> string \<Rightarrow> string \<Rightarrow> journey_op \<Rightarrow> bool" where
  "of_tick env ws k op \<longleftrightarrow> (\<exists>c. op \<in> set (te_others env c)) \<or> (\<exists>j. j_ID j = k \<and> op = JO_Update j) \<or>
     (\<exists>a name. op = JO_Stat ws a name)"

definition ticks :: "tick_env \<Rightarrow> string \<Rightarrow> string \<Rightarrow> tick_state \<Rightarrow> tick_state \<Rightarrow> bool" where
  "ticks env ws k st st' \<longleftrightarrow> (\<exists>ops. (\<forall>op \<in> set ops. of_tick env ws k op) \<and>
     core (ts_db st') = fold run_journey_op ops (core (ts_db st)))"

lemma ticks_refl: "core (ts_db st') = core (ts_db st) \<Longrightarrow> ticks env ws k st st'"
  unfolding ticks_def by (rule exI[of _ "[]"]) simp

lemma ticks_trans:
  assumes "ticks env ws k st st'" and "ticks env ws k st' st''"
  shows "ticks env ws k st st''"
proof -
  obtain ops ops' where "\<forall>op \<in> set ops. of_tick env ws k op" "\<forall>op \<in> set ops'. of_tick env ws k op"
    and "core (ts_db st') = fold run_journey_op ops (core (ts_db st))"
    and "core (ts_db st'') = fold run_journey_op ops' (core (ts_db st'))"
    using assms unfolding ticks_def by blast
  then show ?thesis unfolding ticks_def by (intro exI[of _ "ops @ ops'"]) auto
qed

lemma ticks_ops:
  "(\<And>op. op \<in> set ops \<Longrightarrow> of_tick env ws k op) \<Longrightarrow> core (ts_db st') = core (fold run_journey_op ops (ts_db st)) \<Longrightarrow>
   ticks env ws k st st'"
  unfolding ticks_def fold_journey_op_core by blast

lemma ticks_update:
  assumes "ticks env ws k st st'" and "j_ID j = k"
  shows "ticks env ws k st (snd (update_if_active env c j st'))"
proof (rule ticks_trans[OF assms(1)], cases "te_fault env c = Fails")
  case True
  then show "ticks env ws k st' (snd (update_if_active env c j st'))"
    by (intro ticks_ops[of "te_others env c"])
      (auto simp: update_if_active_def of_tick_def UpdateContactAutomationIfActive_def Let_def)
next
  case False
  then show "ticks env ws k st' (snd (update_if_active env c j st'))"
    using assms(2)
    by (intro ticks_ops[of "te_others env c @ [JO_Update j]"])
      (auto simp: update_if_active_def of_tick_def UpdateContactAutomationIfActive_def Let_def split: fault.splits)
qed

lemma ticks_persist:
  assumes "ticks env ws k st st'" and "j_ID j = k"
  shows "ticks env ws k st (snd (persistIfActive env j st'))"
  using ticks_update[OF assms, of TC_Final]
  by (auto simp: persistIfActive_def split: prod.splits sum.splits)

lemma ticks_increment:
  assumes "ticks env ws k st st'"
  shows "ticks env ws k st (increment ws a name st')"
  by (rule ticks_trans[OF assms ticks_ops[of "[JO_Stat ws a name]"]]) (auto simp: of_tick_def increment_def)

lemma ticks_log:
  assumes "ticks env ws k st st'"
  shows "ticks env ws k st (createAutomationEndEvent j reason st')"
    and "ticks env ws k st (on_db (CreateNodeExecution x) st')"
    and "ticks env ws k st (on_db (UpdateNodeExecution x) st')"
    and "ticks env ws k st (st'\<lparr>ts_effects := es\<rparr>)"
  using assms unfolding ticks_def
  by (simp_all add: createAutomationEndEvent_def CreateNodeExecution_def UpdateNodeExecution_def)

lemmas tick_intros = ticks_persist ticks_increment ticks_log

lemma ticks_markAs:
  "ticks env ws k st st' \<Longrightarrow> j_ID j = k \<Longrightarrow> ticks env ws k st (snd (markAs status stat env ws j reason st'))"
  by (auto simp: markAs_def Let_def intro!: tick_intros)

lemma ticks_handleError:
  "ticks env ws k st st' \<Longrightarrow> j_ID j = k \<Longrightarrow> ticks env ws k st (snd (handleError env i ws j err ctx st'))"
  by (auto simp: handleError_def Let_def intro!: tick_intros split: option.splits)

lemma ticks_run_nodes:
  "ticks env ws k st st' \<Longrightarrow> j_ID j = k \<Longrightarrow> ticks env ws k st (snd (run_nodes env ws a email left i j st'))"
proof (induction left arbitrary: i j st')
  case 0
  then show ?case by (simp add: run_nodes.simps)
next
  case (Suc left)
  have upd: "ticks env ws (j_ID j) st st2"
    if "update_if_active env c j' st1 = (res, st2)" "ticks env ws (j_ID j) st st1" "j_ID j' = j_ID j"
    for c j' st1 res st2
    using ticks_update[OF that(2,3), of c] that(1) by simp
  have m: "j_ID (moved now r j) = j_ID j" for now r by (simp add: moved_def)
  show ?case
    using Suc.prems(1) unfolding Suc.prems(2)[symmetric] run_nodes.simps
    by (auto simp: Let_def markAsExited_def m split: option.splits prod.splits sum.splits bool.splits
        intro!: tick_intros ticks_markAs ticks_handleError Suc.IH[unfolded Suc.prems(2)[symmetric]])
      (auto simp: m intro!: tick_intros elim!: upd,
       simp add: ticks_def CreateNodeExecution_def UpdateNodeExecution_def)
qed

lemma ticks_Execute: "ticks env ws (j_ID j) st (snd (Execute env ws j st))"
  using ticks_refl[of st st env ws "j_ID j"]
  by (auto simp: Execute_def markAsCompleted_def split: option.splits sum.splits
      intro!: ticks_markAs ticks_handleError ticks_run_nodes)

text \<open>A journey that is no longer active is not touched by any guarded write.\<close>

fun is_commit :: "journey_op \<Rightarrow> bool" where
  "is_commit (JO_Commit now c commit) = True"
| "is_commit _ = False"

lemma op_keeps_finished:
  assumes "find_journey k db = Some r" and "j_Status r \<noteq> JS_Active" and "\<not> is_commit op"
  shows "\<exists>r'. find_journey k (run_journey_op op db) = Some r' \<and> read_journey r' = read_journey r"
  using assms unfolding find_journey_def
  by (cases op)
    (auto simp: ExitContactJourneysOnReply_def exits_on_reply_def exited_def DeleteAutomation_def
      ClaimContactAutomation_def claimable_journey_def RenewContactAutomationClaim_def
      ReleaseContactAutomationClaim_def UpdateContactAutomationIfActive_def write_journey_def
      IncrementAutomationStat_def read_journey_def Let_def sql_find_update_key split: option.splits)

lemma ops_keep_finished:
  assumes "find_journey k db = Some r" and "j_Status r \<noteq> JS_Active" and "\<forall>op \<in> set ops. \<not> is_commit op"
  shows "\<exists>r'. find_journey k (fold run_journey_op ops db) = Some r' \<and> read_journey r' = read_journey r"
  using assms
proof (induction ops arbitrary: db r)
  case (Cons op ops)
  obtain r1 where r1: "find_journey k (run_journey_op op db) = Some r1" "read_journey r1 = read_journey r"
    using op_keeps_finished[OF Cons.prems(1,2), of op] Cons.prems(3) by auto
  have "j_Status r1 = j_Status r" using arg_cong[OF r1(2), of j_Status] by (simp add: read_journey_def)
  with Cons.IH[OF r1(1)] Cons.prems r1(2) show ?case by auto
qed simp



section \<open>The limit of a tick\<close>

lemma node_step_cong:
  assumes "j_ID j = j_ID j'" and "j_ContactEmail j = j_ContactEmail j'" and "j_Context j = j_Context j'"
  shows "node_step env i ws j n a email = node_step env i ws j' n a email"
proof -
  have "params_of ws j n a contact key = params_of ws j' n a contact key" for contact key
    using assms by (simp add: params_of_def)
  moreover have "shouldSkipAudienceTouch checker j n = shouldSkipAudienceTouch checker j' n" for checker
    by (simp add: shouldSkipAudienceTouch_def assms(3))
  ultimately show ?thesis unfolding node_step_def by metis
qed

text \<open>The nodes of a chain that each go on at once.\<close>

definition immediate_chain ::
    "tick_env \<Rightarrow> string \<Rightarrow> journey \<Rightarrow> automation \<Rightarrow> string \<Rightarrow> (nat \<Rightarrow> automation_node) \<Rightarrow> nat \<Rightarrow> bool" where
  "immediate_chain env ws j a email ns m \<longleftrightarrow> (\<forall>i < m. GetNodeByID a (an_ID (ns i)) = Some (ns i) \<and>
     has_executor (te_channels env) (an_Type (ns i)) \<and>
     fst (node_step env i ws j (ns i) a email) = Inr (advance (Some (an_ID (ns (Suc i))))))"

text \<open>Ticks whose calls all work and that run alone.\<close>

definition undisturbed :: "tick_env \<Rightarrow> bool" where
  "undisturbed env \<longleftrightarrow> (\<forall>c. te_fault env c = Works \<and> te_others env c = [])"

definition at_node :: "journey \<Rightarrow> string \<Rightarrow> bool \<Rightarrow> journey \<Rightarrow> journey_db \<Rightarrow> bool" where
  "at_node j k moved_here j' db \<longleftrightarrow> j_ID j' = j_ID j \<and> j_ContactEmail j' = j_ContactEmail j \<and>
     j_Context j' = j_Context j \<and> j_Status j' = JS_Active \<and> j_CurrentNodeID j' = Some k \<and>
     (\<exists>r. find_journey (j_ID j) db = Some r \<and> j_Status r = JS_Active \<and>
        (moved_here \<longrightarrow> j_CurrentNodeID r = Some k \<and> j_ScheduledAt r = None))"

lemma update_moves:
  assumes "at_node j k b j' db" and "db' = snd (UpdateContactAutomationIfActive (moved now (advance (Some k')) j') db)"
  shows "fst (UpdateContactAutomationIfActive (moved now (advance (Some k')) j') db)"
    and "at_node j k' True (moved now (advance (Some k')) j') db'"
proof -
  obtain r where r: "find_journey (j_ID j) db = Some r" "j_Status r = JS_Active" and j: "j_ID j' = j_ID j"
    using assms(1) by (auto simp: at_node_def)
  have "r \<in> set (jd_journeys db)" "j_ID r = j_ID j"
    using sql_find_SomeD[OF r(1)[unfolded find_journey_def]] by auto
  then have "sql_count (\<lambda>r. j_ID r = j_ID j \<and> j_Status r = JS_Active) (jd_journeys db) \<noteq> 0"
    using r(2) by (auto simp: sql_count_0_iff)
  then show "fst (UpdateContactAutomationIfActive (moved now (advance (Some k')) j') db)"
    by (simp add: UpdateContactAutomationIfActive_def moved_def j Let_def)
  show "at_node j k' True (moved now (advance (Some k')) j') db'"
    using assms(1) r \<open>j_ID r = j_ID j\<close> unfolding assms(2)
    by (auto simp: at_node_def UpdateContactAutomationIfActive_def Let_def find_journey_def sql_find_update_key
        write_journey_def moved_def advance_def)
qed

lemma run_chain:
  assumes "undisturbed env" and "immediate_chain env ws j a email ns (i + left)"
    and "at_node j (an_ID (ns i)) (0 < i) j' (ts_db st)"
  shows "\<exists>j'' st'. run_nodes env ws a email left i j' st = (Inr (), st') \<and>
    at_node j (an_ID (ns (i + left))) (0 < i + left) j'' (ts_db st')"
  using assms(2,3)
proof (induction left arbitrary: i j' st)
  case 0
  then show ?case by (auto simp: run_nodes.simps)
next
  case (Suc left)
  let ?n = "ns i" and ?k = "an_ID (ns (Suc i))"
  have n: "GetNodeByID a (an_ID ?n) = Some ?n" "has_executor (te_channels env) (an_Type ?n)"
    and out: "fst (node_step env i ws j ?n a email) = Inr (advance (Some ?k))"
    using Suc.prems(1) by (auto simp: immediate_chain_def)
  obtain effs where step: "node_step env i ws j' ?n a email = (Inr (advance (Some ?k)), effs)"
    using out Suc.prems(2) node_step_cong[of j' j env i ws ?n a email] by (cases "node_step env i ws j ?n a email")
      (auto simp: at_node_def)
  have cur: "j_CurrentNodeID j' = Some (an_ID ?n)" using Suc.prems(2) by (simp add: at_node_def)
  define x where "x = createNodeExecution env i j' ?n"
  define st1 where "st1 = (on_db (CreateNodeExecution x) st)\<lparr>ts_effects := ts_effects st @ effs\<rparr>"
  define j1 where "j1 = moved (te_after env i) (advance (Some ?k)) j'"
  define st2 where "st2 = st1\<lparr>ts_db := snd (UpdateContactAutomationIfActive j1 (ts_db st1))\<rparr>"
  define x' where "x' = x\<lparr>nx_Action := NA_Completed, nx_CompletedAt := Some (te_after env i)\<rparr>"
  have at1: "at_node j (an_ID ?n) (0 < i) j' (ts_db st1)"
    using Suc.prems(2) by (simp add: st1_def at_node_def CreateNodeExecution_def find_journey_def)
  note mv = update_moves[OF at1 refl, where now = "te_after env i" and k' = ?k, folded j1_def]
  have upd: "update_if_active env (TC_Persist i) j1 st1 = (Inr True, st2)"
    using assms(1) mv(1) by (auto simp: update_if_active_def undisturbed_def st2_def split: prod.splits)
  have status: "j_Status j1 = JS_Active" and wait: "\<not> is_waiting (te_after env i) (advance (Some ?k))"
    by (simp_all add: j1_def moved_def advance_def is_waiting_def)
  have run: "run_nodes env ws a email (Suc left) i j' st =
      run_nodes env ws a email left (Suc i) j1 (on_db (UpdateNodeExecution x') st2)"
    by (subst run_nodes.simps)
      (simp add: cur n step status wait upd x'_def
        flip: x_def j1_def del: tick_state.update_convs, simp add: st1_def[symmetric] upd status wait x'_def)
  have at2: "at_node j ?k (0 < Suc i) j1 (ts_db (on_db (UpdateNodeExecution x') st2))"
    using mv(2) by (simp add: st2_def at_node_def UpdateNodeExecution_def find_journey_def)
  show ?case unfolding run using Suc.IH[OF _ at2] Suc.prems(1) by simp
qed

text \<open>C25.
  A tick runs at most ten nodes, and when ten nodes in a row go on at once it strands the journey: the
  tick reports success and leaves the journey active on the eleventh node without a time, and no
  selection of due journeys, however late, returns it again.\<close>

theorem long_chains_strand:
  assumes "undisturbed env" and "te_automation_error env = None" and "te_contact env = Inr email"
    and "GetAutomation ws (j_AutomationID j) (ts_db st) = Some a" and "a_Status a = AS_Live"
    and "at_node j (an_ID (ns 0)) False j (ts_db st)" and "immediate_chain env ws j a email ns 10"
  shows "\<exists>st' r. Execute env ws j st = (Inr (), st') \<and> find_journey (j_ID j) (ts_db st') = Some r \<and>
    j_Status r = JS_Active \<and> j_CurrentNodeID r = Some (an_ID (ns 10)) \<and> j_ScheduledAt r = None \<and>
    (distinct (map j_ID (jd_journeys (ts_db st'))) \<longrightarrow> (\<forall>before limit locked.
       j_ID j \<notin> j_ID ` set (GetScheduledContactAutomations before limit locked (ts_db st'))))"
proof -
  have at0: "at_node j (an_ID (ns 0)) (0 < (0 :: nat)) j (ts_db st)" using assms(6) by simp
  have cur: "j_CurrentNodeID j \<noteq> None" using assms(6) by (auto simp: at_node_def)
  have ch: "immediate_chain env ws j a email ns (0 + 10)" using assms(7) by simp
  obtain j'' st' where run: "run_nodes env ws a email 10 0 j st = (Inr (), st')"
    and at: "at_node j (an_ID (ns (0 + 10))) (0 < (0 :: nat) + 10) j'' (ts_db st')"
    using run_chain[OF assms(1) ch at0] by blast
  obtain r where r: "find_journey (j_ID j) (ts_db st') = Some r" "j_Status r = JS_Active"
      "j_CurrentNodeID r = Some (an_ID (ns 10))" "j_ScheduledAt r = None"
    using at by (auto simp: at_node_def)
  have exec: "Execute env ws j st = (Inr (), st')"
    using run cur by (auto simp: Execute_def assms(2-5) maxNodesPerTick_def)
  have "j_ID j \<notin> j_ID ` set (GetScheduledContactAutomations before limit locked (ts_db st'))"
    if d: "distinct (map j_ID (jd_journeys (ts_db st')))" for before limit locked
  proof
    assume "j_ID j \<in> j_ID ` set (GetScheduledContactAutomations before limit locked (ts_db st'))"
    then obtain x where x: "x \<in> set (jd_journeys (ts_db st'))" "j_ID x = j_ID j"
        "due_journey (jd_automations (ts_db st')) before x"
      by (auto simp: GetScheduledContactAutomations_def read_journey_def dest!: in_set_takeD)
    have "r \<in> set (jd_journeys (ts_db st'))" "j_ID r = j_ID j"
      using sql_find_SomeD[OF r(1)[unfolded find_journey_def]] by auto
    then have "x = r" using unique_rowD[OF d x(1)] x(2) by simp
    then show False using x(3) r(4) by (simp add: due_journey_def)
  qed
  with exec r show ?thesis by blast
qed

definition chain_node :: "nat \<Rightarrow> automation_node" where
  "chain_node i = node_at (replicate i (CHR ''n'')) NT_RemoveFromList [(''list_id'', JStr ''l'')]
     (Some (replicate (Suc i) (CHR ''n'')))"

definition chain_automation :: automation where
  "chain_automation = live_automation (map chain_node [0..<12])"

lemma chain_is_immediate:
  "immediate_chain quiet_tick ''ws'' (journey_on []) chain_automation ''a@x'' chain_node 10"
proof -
  have "GetNodeByID chain_automation (an_ID (chain_node i)) = Some (chain_node i)" if "i < 10" for i
    using that by (auto simp: GetNodeByID_def chain_automation_def live_automation_def find_Some_iff chain_node_def
        node_at_def intro!: exI[of _ i] dest: arg_cong[of _ _ length])
  moreover have "fst (node_step quiet_tick i ''ws'' (journey_on []) (chain_node i) chain_automation ''a@x'') =
      Inr (advance (Some (an_ID (chain_node (Suc i)))))" for i
    by (simp add: node_step_def shouldSkipAudienceTouch_def journey_on_def execute_node_def exec_remove_from_list_def
        params_of_def chain_node_def node_at_def config_of_def parseRemoveFromListNodeConfig_def described_def
        decode_string_def field_of_def validated_def RemoveFromListNodeConfig_Validate_def)
  moreover have "has_executor True (an_Type (chain_node i))" for i
    by (simp add: has_executor_def chain_node_def node_at_def)
  ultimately show ?thesis unfolding immediate_chain_def by (simp add: quiet_tick_def)
qed

lemma long_chains_strand_witness:
  "\<exists>st' r. Execute quiet_tick ''ws'' (journey_on []) \<lparr>ts_db = db_of chain_automation (row_on []), ts_effects = []\<rparr> =
      (Inr (), st') \<and> find_journey ''j'' (ts_db st') = Some r \<and> j_Status r = JS_Active \<and>
      j_CurrentNodeID r = Some ''nnnnnnnnnn'' \<and> j_ScheduledAt r = None"
proof -
  let ?st = "\<lparr>ts_db = db_of chain_automation (row_on []), ts_effects = []\<rparr>"
  have u: "undisturbed quiet_tick" by (simp add: undisturbed_def quiet_tick_def)
  have a: "GetAutomation ''ws'' (j_AutomationID (journey_on [])) (ts_db ?st) = Some chain_automation"
    "a_Status chain_automation = AS_Live"
    by (simp_all add: GetAutomation_def db_of_def chain_automation_def live_automation_def journey_on_def)
  have e: "te_automation_error quiet_tick = None" "te_contact quiet_tick = Inr ''a@x''"
    by (simp_all add: quiet_tick_def)
  have at: "at_node (journey_on []) (an_ID (chain_node 0)) False (journey_on []) (ts_db ?st)"
    by (simp add: at_node_def journey_on_def chain_node_def node_at_def db_of_def find_journey_def row_on_def)
  have k: "an_ID (chain_node 10) = ''nnnnnnnnnn''" by (simp add: chain_node_def node_at_def eval_nat_numeral)
  show ?thesis
    using long_chains_strand[OF u e a at chain_is_immediate] unfolding k by (auto simp: journey_on_def)
qed

end
