(* ===== verification/Journey_Commits.thy ===== *)
theory Journey_Commits
  imports Journey_Ticks
begin

text \<open>
  The claims and commits of the realtime engine: every version of a journey is committed once and in
  order, with at most one side effect; and what a commit does to an exit that came in after the
  claim.
\<close>

section \<open>Planned commits\<close>

text \<open>The side effect of a planned commit is of the claimed journey in its claimed version.\<close>

lemma planned_side_effect:
  assumes "PlanClaimedJourneyStep env ws c now db = Inr commit" and "jc_SideEffect commit = Some e"
  shows "se_ContactAutomationID e = j_ID (cl_Journey c) \<and> se_ExecutionVersion e = cl_StateVersion c \<and>
    se_Status e = ES_Reserved"
  using assms
  by (auto simp: PlanClaimedJourneyStep_def planJourneySideEffect_def transition_def Let_def
      split: option.splits sum.splits if_splits bool.splits)

section \<open>The system\<close>

text \<open>The claims that workers hold, and the commits so far: journey and version.\<close>

record commit_system =
  cs_db :: journey_db
  cs_claims :: "journey_claim list"
  cs_commits :: "(string \<times> int) list"

definition effect_ident :: "side_effect \<Rightarrow> string \<times> int" where
  "effect_ident e = (se_ContactAutomationID e, se_ExecutionVersion e)"

definition same_effects :: "journey_db \<Rightarrow> journey_db \<Rightarrow> bool" where
  "same_effects db db' \<longleftrightarrow> jd_journeys db' = jd_journeys db \<and> jd_automations db' = jd_automations db \<and>
     map effect_ident (rd_effects db') = map effect_ident (rd_effects db)"

inductive commit_move :: "commit_system \<Rightarrow> commit_system \<Rightarrow> bool" where
  claims: "ClaimContactAutomation k worker now lease token (cs_db s) = (Inr (Some c), db) \<Longrightarrow>
    commit_move s (s\<lparr>cs_db := db, cs_claims := cs_claims s @ [c]\<rparr>)"
| commits: "c \<in> set (cs_claims s) \<Longrightarrow> PlanClaimedJourneyStep env ws c now dbp = Inr commit \<Longrightarrow>
    CommitContactAutomationState now' c commit (cs_db s) = (Inr True, db) \<Longrightarrow>
    commit_move s (s\<lparr>cs_db := db, cs_commits := cs_commits s @ [(j_ID (cl_Journey c), cl_StateVersion c)]\<rparr>)"
| others: "\<not> is_commit op \<Longrightarrow> commit_move s (s\<lparr>cs_db := run_journey_op op (cs_db s)\<rparr>)"
| realtime: "same_effects (cs_db s) db \<Longrightarrow> commit_move s (s\<lparr>cs_db := db\<rparr>)"

inductive commit_run :: "journey_db \<Rightarrow> commit_system \<Rightarrow> bool" for db0 where
  run_starts: "journey_keys db0 \<Longrightarrow> rd_effects db0 = [] \<Longrightarrow>
    commit_run db0 \<lparr>cs_db = db0, cs_claims = [], cs_commits = []\<rparr>"
| run_moves: "commit_run db0 s \<Longrightarrow> commit_move s s' \<Longrightarrow> commit_run db0 s'"

section \<open>The invariant\<close>

definition versions_of :: "string \<Rightarrow> (string \<times> int) list \<Rightarrow> int list" where
  "versions_of k xs = map snd (filter (\<lambda>x. fst x = k) xs)"

definition row_version :: "string \<Rightarrow> journey_db \<Rightarrow> int option" where
  "row_version k db = map_option r_StateVersion (find_journey k db)"

definition versions_ok :: "int option \<Rightarrow> int option \<Rightarrow> int list \<Rightarrow> bool" where
  "versions_ok start now vs \<longleftrightarrow>
     (case start of None \<Rightarrow> now = None \<and> vs = [] | Some v0 \<Rightarrow> (\<exists>v. now = Some v \<and> v0 \<le> v \<and> vs = [v0..v - 1]))"

definition commit_inv :: "journey_db \<Rightarrow> commit_system \<Rightarrow> bool" where
  "commit_inv db0 s \<longleftrightarrow>
     (\<forall>k. versions_ok (row_version k db0) (row_version k (cs_db s)) (versions_of k (cs_commits s))) \<and>
     distinct (map j_ID (jd_journeys (cs_db s))) \<and> distinct (map effect_ident (rd_effects (cs_db s))) \<and>
     set (map effect_ident (rd_effects (cs_db s))) \<subseteq> set (cs_commits s)"

lemma row_version_update:
  assumes "\<And>r. j_ID (f r) = j_ID r" and "\<And>r. r_StateVersion (f r) = r_StateVersion r"
  shows "row_version k (db\<lparr>jd_journeys := sql_update p f (jd_journeys db)\<rparr>) = row_version k db"
  by (auto simp: row_version_def find_journey_def sql_find_update_key[of j_ID, OF assms(1)] assms(2)
      option.map_comp comp_def intro!: map_option_cong)

lemma other_ops_keep:
  assumes "\<not> is_commit op"
  shows "row_version k (run_journey_op op db) = row_version k db \<and> rd_effects (run_journey_op op db) = rd_effects db \<and>
    map j_ID (jd_journeys (run_journey_op op db)) = map j_ID (jd_journeys db)"
proof -
  have autos: "row_version k (d\<lparr>jd_automations := x\<rparr>) = row_version k d" for d x
    by (simp add: row_version_def find_journey_def)
  show ?thesis
    using assms
    by (cases op)
      (auto simp: ExitContactJourneysOnReply_def exited_def DeleteAutomation_def ClaimContactAutomation_def
        RenewContactAutomationClaim_def ReleaseContactAutomationClaim_def UpdateContactAutomationIfActive_def
        write_journey_def IncrementAutomationStat_def Let_def row_version_update autos split: option.splits)
qed

text \<open>What a successful commit finds, and what it leaves.\<close>

lemma find_committed:
  "find_journey k (db\<lparr>jd_journeys := sql_update p (committed_row j) (jd_journeys db)\<rparr>) =
    map_option (\<lambda>r. if p r then committed_row j r else r) (find_journey k db)"
  unfolding find_journey_def
  by (subst sql_find_update_key[symmetric]) (simp_all add: committed_row_def write_journey_def)

lemma commit_effect:
  assumes "CommitContactAutomationState now c commit db = (Inr True, db')" and "distinct (map j_ID (jd_journeys db))"
  obtains r where "find_journey (j_ID (cl_Journey c)) db = Some r" "commit_applies (jd_automations db) c r"
    "\<And>k. find_journey k db' = (if k = j_ID (cl_Journey c) then Some (committed_row (jc_Journey commit) r) else find_journey k db)"
    "rd_effects db' = rd_effects db \<or>
      (\<exists>e e'. jc_SideEffect commit = Some e \<and> rd_effects db' = rd_effects db @ [e'] \<and> effect_ident e' = effect_ident e)"
    "map j_ID (jd_journeys db') = map j_ID (jd_journeys db)"
proof -
  let ?p = "commit_applies (jd_automations db) c" and ?id = "j_ID (cl_Journey c)"
  let ?db1 = "db\<lparr>jd_journeys := sql_update ?p (committed_row (jc_Journey commit)) (jd_journeys db)\<rparr>"
  have tx: "commit_tx now c commit db = (Inr True, db')"
    using assms(1) by (auto simp: CommitContactAutomationState_def split: if_splits dest!: in_tx_InrD)
  then have n: "sql_count ?p (jd_journeys db) \<noteq> 0" by (cases "sql_count ?p (jd_journeys db) = 0") (simp_all add: commit_tx_def)
  then obtain r where r: "r \<in> set (jd_journeys db)" "?p r" by (auto simp: sql_count_0_iff)
  then have id: "j_ID r = ?id" by (simp add: commit_applies_def)
  have find: "find_journey ?id db = Some r"
    using sql_find_unique[OF assms(2) r(1)] by (simp add: find_journey_def id)
  have "jd_journeys db' = jd_journeys ?db1 \<and> (rd_effects db' = rd_effects db \<or>
      (\<exists>e e'. jc_SideEffect commit = Some e \<and> rd_effects db' = rd_effects db @ [e'] \<and> effect_ident e' = effect_ident e))"
    using tx n
    by (auto simp: commit_tx_def Let_def reserveJourneySideEffectTx_def enqueue_command_def effect_ident_def
        split: option.splits if_splits)
  then have j: "jd_journeys db' = jd_journeys ?db1"
    and e: "rd_effects db' = rd_effects db \<or>
      (\<exists>e e'. jc_SideEffect commit = Some e \<and> rd_effects db' = rd_effects db @ [e'] \<and> effect_ident e' = effect_ident e)"
    by simp_all
  have "find_journey k db' = (if k = ?id then Some (committed_row (jc_Journey commit) r) else find_journey k db)" for k
  proof -
    have "find_journey k db' = find_journey k ?db1" using j by (simp add: find_journey_def)
    also have "\<dots> = map_option (\<lambda>r. if ?p r then committed_row (jc_Journey commit) r else r) (find_journey k db)"
      by (rule find_committed)
    also have "\<dots> = (if k = ?id then Some (committed_row (jc_Journey commit) r) else find_journey k db)"
    proof (cases "k = ?id")
      case True
      then show ?thesis using find r(2) by simp
    next
      case False
      then have "\<not> ?p x" if "find_journey k db = Some x" for x
        using sql_find_SomeD[OF that[unfolded find_journey_def]] by (auto simp: commit_applies_def)
      then show ?thesis using False by (cases "find_journey k db") auto
    qed
    finally show ?thesis .
  qed
  moreover have "map j_ID (jd_journeys db') = map j_ID (jd_journeys db)"
    using j by (simp add: committed_row_def write_journey_def)
  ultimately show thesis using that[OF find r(2) _ e] by blast
qed

lemma versions_of_simps [simp]:
  "versions_of k [] = []"
  "versions_of k (xs @ [x]) = versions_of k xs @ (if fst x = k then [snd x] else [])"
  by (auto simp: versions_of_def)

lemma versions_of_mem: "(k, v) \<in> set xs \<Longrightarrow> v \<in> set (versions_of k xs)"
  by (force simp: versions_of_def)

lemma inv_commits:
  assumes "commit_inv db0 s" and "CommitContactAutomationState now c commit (cs_db s) = (Inr True, db)"
    and "\<And>e. jc_SideEffect commit = Some e \<Longrightarrow> effect_ident e = (j_ID (cl_Journey c), cl_StateVersion c)"
  shows "commit_inv db0 (s\<lparr>cs_db := db, cs_commits := cs_commits s @ [(j_ID (cl_Journey c), cl_StateVersion c)]\<rparr>)"
proof -
  let ?k = "j_ID (cl_Journey c)" and ?v = "cl_StateVersion c"
  have d: "distinct (map j_ID (jd_journeys (cs_db s)))" using assms(1) by (simp add: commit_inv_def)
  obtain r where r: "find_journey ?k (cs_db s) = Some r" "commit_applies (jd_automations (cs_db s)) c r"
    and rows: "\<And>k. find_journey k db = (if k = ?k then Some (committed_row (jc_Journey commit) r) else find_journey k (cs_db s))"
    and effs: "rd_effects db = rd_effects (cs_db s) \<or> (\<exists>e e'. jc_SideEffect commit = Some e \<and>
        rd_effects db = rd_effects (cs_db s) @ [e'] \<and> effect_ident e' = effect_ident e)"
    and ids: "map j_ID (jd_journeys db) = map j_ID (jd_journeys (cs_db s))"
    using commit_effect[OF assms(2) d] by blast
  have v: "row_version ?k (cs_db s) = Some ?v" using r by (simp add: row_version_def commit_applies_def)
  have new: "row_version k db = (if k = ?k then Some (?v + 1) else row_version k (cs_db s))" for k
    using rows[of k] r(2) by (simp add: row_version_def committed_row_def write_journey_def commit_applies_def)
  obtain v0 where v0: "row_version ?k db0 = Some v0" "v0 \<le> ?v" "versions_of ?k (cs_commits s) = [v0..?v - 1]"
    using assms(1) v by (auto simp: commit_inv_def versions_ok_def dest!: spec[of _ ?k] split: option.splits)
  let ?old = "map effect_ident (rd_effects (cs_db s))"
  have fresh: "(?k, ?v) \<notin> set (cs_commits s)" using versions_of_mem[of ?k ?v "cs_commits s"] v0(3) by auto
  have old: "distinct ?old" "set ?old \<subseteq> set (cs_commits s)" using assms(1) by (simp_all add: commit_inv_def)
  have "map effect_ident (rd_effects db) = ?old \<or> map effect_ident (rd_effects db) = ?old @ [(?k, ?v)]"
    using effs assms(3) by auto
  moreover have "distinct (?old @ [(?k, ?v)])" using old fresh unfolding distinct_append by force
  ultimately have "distinct (map effect_ident (rd_effects db))"
    and "set (map effect_ident (rd_effects db)) \<subseteq> set (cs_commits s @ [(?k, ?v)])"
    using old unfolding set_append by (auto simp del: set_map)
  moreover have "versions_ok (row_version k db0) (row_version k db) (versions_of k (cs_commits s @ [(?k, ?v)]))" for k
  proof (cases "k = ?k")
    case True
    have "[v0..?v] = [v0..?v - 1] @ [?v]" by (rule upto_rec2) (rule v0(2))
    then show ?thesis using True v0 new[of k] by (simp add: versions_ok_def)
  next
    case False
    then show ?thesis using assms(1) new[of k] by (auto simp: commit_inv_def)
  qed
  ultimately show ?thesis using ids d by (simp add: commit_inv_def)
qed

lemma inv_same_versions:
  assumes "commit_inv db0 s" and "\<And>k. row_version k db = row_version k (cs_db s)"
    and "map effect_ident (rd_effects db) = map effect_ident (rd_effects (cs_db s))"
    and "map j_ID (jd_journeys db) = map j_ID (jd_journeys (cs_db s))"
  shows "commit_inv db0 (s\<lparr>cs_db := db, cs_claims := cl\<rparr>)" and "commit_inv db0 (s\<lparr>cs_db := db\<rparr>)"
proof -
  have "set (map effect_ident (rd_effects db)) = set (map effect_ident (rd_effects (cs_db s)))" by (simp only: assms(3))
  with assms show "commit_inv db0 (s\<lparr>cs_db := db, cs_claims := cl\<rparr>)" and "commit_inv db0 (s\<lparr>cs_db := db\<rparr>)"
    unfolding commit_inv_def by simp_all
qed

lemma inv_commit_move: "commit_move s s' \<Longrightarrow> commit_inv db0 s \<Longrightarrow> commit_inv db0 s'"
proof (induction rule: commit_move.induct)
  case (claims k worker now lease token s c db)
  have "db = run_journey_op (JO_Claim k worker now lease token) (cs_db s)" using claims.hyps by simp
  with other_ops_keep[of "JO_Claim k worker now lease token"] show ?case
    by (intro inv_same_versions[OF claims.prems]) simp_all
next
  case (commits c s env ws now dbp commit now' db)
  show ?case
    by (rule inv_commits[OF commits.prems commits.hyps(3)])
      (use planned_side_effect[OF commits.hyps(2)] in \<open>auto simp: effect_ident_def\<close>)
next
  case (others op s)
  then show ?case using other_ops_keep[OF others.hyps] by (intro inv_same_versions(2)) simp_all
next
  case (realtime s db)
  then show ?case
    by (intro inv_same_versions(2)) (simp_all add: same_effects_def row_version_def find_journey_def)
qed

lemma inv_commit_run: "commit_run db0 s \<Longrightarrow> commit_inv db0 s"
proof (induction rule: commit_run.induct)
  case run_starts
  then show ?case by (auto simp: commit_inv_def journey_keys_def versions_ok_def split: option.splits)
next
  case run_moves
  then show ?case by (blast intro: inv_commit_move)
qed

text \<open>C5.
  In every run of any number of workers of the realtime engine - claims, planned commits, exits and
  writes from outside, released and expired claims, in any order - the commits of a journey are of its
  versions one after the other, each exactly once, from the version that the run started with to the one
  before the present; and every side effect that was reserved belongs to one of these commits, no two
  to the same.\<close>

theorem journey_steps_commit_once:
  assumes "commit_run db0 s" and "row_version k db0 = Some v0"
  shows "\<exists>v. row_version k (cs_db s) = Some v \<and> v0 \<le> v \<and> versions_of k (cs_commits s) = [v0..v - 1] \<and>
    distinct (map effect_ident (rd_effects (cs_db s))) \<and>
    set (map effect_ident (rd_effects (cs_db s))) \<subseteq> set (cs_commits s)"
  using inv_commit_run[OF assms(1)] assms(2)
  by (auto simp: commit_inv_def versions_ok_def dest!: spec[of _ k])

section \<open>Exits during a step\<close>

text \<open>The environment of a worker that runs undisturbed, and one in which a reply comes in just before
  the commit.\<close>

definition alone :: "wake_env \<Rightarrow> bool" where
  "alone env \<longleftrightarrow> (\<forall>c. jw_fault env c = Works \<and> jw_others env c = [])"

definition with_reply :: "journey_op \<Rightarrow> wake_env \<Rightarrow> wake_env" where
  "with_reply op env = env\<lparr>jw_others := (\<lambda>c. if c = JC_Commit then [op] else [])\<rparr>"

text \<open>Reservation and outbox do not look at the journeys.\<close>

lemma reserve_journeys:
  "reserveJourneySideEffectTx now e (db\<lparr>jd_journeys := js\<rparr>) =
    map_prod id (\<lambda>d. d\<lparr>jd_journeys := js\<rparr>) (reserveJourneySideEffectTx now e db)"
  by (auto simp: reserveJourneySideEffectTx_def find_effect_def Let_def split: option.splits)

lemma enqueue_journeys:
  "enqueue_command m (db\<lparr>jd_journeys := js\<rparr>) = map_prod id (\<lambda>d. d\<lparr>jd_journeys := js\<rparr>) (enqueue_command m db)"
  by (auto simp: enqueue_command_def)

lemma commit_ignores_exit:
  assumes "db' = db\<lparr>jd_journeys := sql_update p (exited reason) (jd_journeys db)\<rparr>"
  shows "fst (CommitContactAutomationState now c commit db') = fst (CommitContactAutomationState now c commit db) \<and>
    rd_effects (snd (CommitContactAutomationState now c commit db')) =
      rd_effects (snd (CommitContactAutomationState now c commit db)) \<and>
    rd_outbox (snd (CommitContactAutomationState now c commit db')) =
      rd_outbox (snd (CommitContactAutomationState now c commit db))"
proof -
  let ?q = "commit_applies (jd_automations db) c"
  have q: "?q (exited reason r) = ?q r" for r by (simp add: commit_applies_def exited_def)
  have n: "sql_count ?q (sql_update p (exited reason) js) = sql_count ?q js" for js
    by (rule sql_count_update_eq) (simp add: q)
  have tx: "fst (commit_tx now c commit db') = fst (commit_tx now c commit db) \<and>
      rd_effects (snd (commit_tx now c commit db')) = rd_effects (snd (commit_tx now c commit db)) \<and>
      rd_outbox (snd (commit_tx now c commit db')) = rd_outbox (snd (commit_tx now c commit db))"
  proof (cases "sql_count ?q (jd_journeys db) = 0")
    case True
    then show ?thesis by (simp add: assms commit_tx_def n)
  next
    case False
    then show ?thesis
      unfolding assms
      by (cases "jc_SideEffect commit"; cases "jc_Command commit")
        (simp_all add: commit_tx_def n reserve_journeys enqueue_journeys Let_def split_beta split: sum.splits)
  qed
  obtain x1 d1 x2 d2 where t: "commit_tx now c commit db' = (x1, d1)" "commit_tx now c commit db = (x2, d2)"
    by (metis surj_pair)
  have "rd_effects db' = rd_effects db" "rd_outbox db' = rd_outbox db" by (simp_all add: assms)
  then show ?thesis
    using tx by (cases x2) (auto simp: CommitContactAutomationState_def in_tx_def t)
qed

text \<open>A claim finds its row as it will commit it.\<close>

lemma claim_grants:
  assumes "ClaimContactAutomation k worker now lease token db = (Inr (Some c), db')" and "distinct (map j_ID (jd_journeys db))"
  shows "j_ID (cl_Journey c) = k \<and> distinct (map j_ID (jd_journeys db')) \<and>
    (\<exists>r. find_journey k db' = Some r \<and> commit_applies (jd_automations db') c r)"
proof -
  let ?p = "claimable_journey (jd_automations db) now k"
  let ?f = "\<lambda>r. r\<lparr>r_ClaimedAt := Some now, r_ClaimToken := Some token, r_ClaimedBy := Some worker,
    r_ClaimExpiresAt := Some (now + lease)\<rparr>"
  obtain r where r: "sql_find ?p (jd_journeys db) = Some r" and c: "c = claim_of (?f r) token"
    and db': "db' = db\<lparr>jd_journeys := sql_update ?p ?f (jd_journeys db)\<rparr>"
    using assms(1) by (auto simp: ClaimContactAutomation_def Let_def split: if_splits option.splits)
  have set: "r \<in> set (jd_journeys db)" and p: "?p r" using sql_find_SomeD[OF r] by auto
  then have k: "j_ID r = k" by (simp add: claimable_journey_def)
  have "sql_find (\<lambda>x. j_ID x = k) (jd_journeys db) = Some r"
    using sql_find_unique[OF assms(2) set] by (simp add: k)
  then have "find_journey k db' = Some (?f r)"
    by (simp add: find_journey_def db' sql_find_update_key p)
  moreover have "commit_applies (jd_automations db') c (?f r)"
    using p by (auto simp: c db' commit_applies_def claim_of_def read_journey_def claimable_journey_def)
  ultimately show ?thesis using assms(2) by (simp add: c db' claim_of_def read_journey_def k)
qed

text \<open>C24.
  An exit by a reply that comes in while a worker steps the journey is lost: the reply finds the journey
  active and exits it, but the commit that follows does not look at the status of the row - it compares
  only claim, version and automation - and writes the planned step over it. Row, reserved effect and
  command are exactly what they would have been without the reply.\<close>

theorem reply_exit_is_overwritten:
  assumes "journey_keys db" and "alone env" and "check_wake (jw_is_uuid env) m = Inr e"
    and "ClaimContactAutomation (es_ID (ev_Subject e)) (jw_worker env) (jw_now env) (jw_lease env) (jw_token env) db =
      (Inr (Some c), db1)"
    and "find_journey (j_ID (cl_Journey c)) db1 = Some r" and "exits_on_reply (jd_automations db1) email a before r"
    and "fst (Handle_wake env m db) = Inr ()"
  shows "(\<exists>r1. find_journey (j_ID (cl_Journey c)) (run_journey_op (JO_Reply email a reason before) db1) = Some r1 \<and>
      j_Status r1 = JS_Exited) \<and>
    (let (res, db') = Handle_wake (with_reply (JO_Reply email a reason before) env) m db
     in res = Inr () \<and>
        find_journey (j_ID (cl_Journey c)) db' = find_journey (j_ID (cl_Journey c)) (snd (Handle_wake env m db)) \<and>
        rd_effects db' = rd_effects (snd (Handle_wake env m db)) \<and>
        rd_outbox db' = rd_outbox (snd (Handle_wake env m db)))"
proof -
  let ?p = "exits_on_reply (jd_automations db1) email a before" and ?k = "j_ID (cl_Journey c)"
  let ?op = "JO_Reply email a reason before"
  define db2 where "db2 = db1\<lparr>jd_journeys := sql_update ?p (exited reason) (jd_journeys db1)\<rparr>"
  have op: "run_journey_op ?op db1 = db2" by (simp add: db2_def ExitContactJourneysOnReply_def Let_def)
  have row2: "find_journey ?k db2 = Some (exited reason r)"
    using assms(5,6) by (simp add: find_journey_def db2_def sql_find_update_key exited_def)
  have d: "distinct (map j_ID (jd_journeys db))" using assms(1) by (simp add: journey_keys_def)
  have d1: "distinct (map j_ID (jd_journeys db1))" and applies: "commit_applies (jd_automations db1) c r"
    using claim_grants[OF assms(4) d] assms(5) by auto
  have d2: "distinct (map j_ID (jd_journeys db2))" using d1 by (simp add: db2_def exited_def)
  obtain commit where plan: "PlanClaimedJourneyStep (jw_plan env) (ev_WorkspaceID e) c (jw_now env) db1 = Inr commit"
    using assms(2,3,4,7)
    by (cases "PlanClaimedJourneyStep (jw_plan env) (ev_WorkspaceID e) c (jw_now env) db1")
      (auto simp: Handle_wake_def journey_call_def alone_def Let_def split: sum.splits prod.splits)
  let ?C = "CommitContactAutomationState (jw_now env) c commit"
  have w: "Handle_wake env m db = (case ?C db1 of (Inl err, x) \<Rightarrow> (Inl (JE_Commit err), x) | (Inr _, x) \<Rightarrow> (Inr (), x))"
    using assms(2,3,4) plan by (simp add: Handle_wake_def journey_call_def alone_def Let_def split_beta)
  have w': "Handle_wake (with_reply ?op env) m db =
      (case ?C db2 of (Inl err, x) \<Rightarrow> (Inl (JE_Commit err), x) | (Inr _, x) \<Rightarrow> (Inr (), x))"
    using assms(2,3,4) plan op
    by (simp add: Handle_wake_def journey_call_def alone_def with_reply_def Let_def split_beta del: run_journey_op.simps)
  obtain b x1 where c1: "?C db1 = (Inr b, x1)" using assms(7) w by (auto split: sum.splits prod.splits)
  have b: "b = True"
  proof -
    have "r \<in> set (jd_journeys db1)" using sql_find_SomeD[OF assms(5)[unfolded find_journey_def]] by simp
    then have "sql_count (commit_applies (jd_automations db1) c) (jd_journeys db1) \<noteq> 0"
      using applies by (auto simp: sql_count_0_iff)
    then show ?thesis using c1
      by (auto simp: CommitContactAutomationState_def commit_tx_def in_tx_def Let_def
          split: if_splits option.splits prod.splits sum.splits)
  qed
  note same = commit_ignores_exit[OF db2_def, of "jw_now env" c commit]
  obtain x2 where c2: "?C db2 = (Inr True, x2)" using same c1 b by (cases "?C db2") auto
  have "find_journey ?k x1 = Some (committed_row (jc_Journey commit) r)"
    by (rule commit_effect[OF c1[unfolded b] d1]) (use assms(5) in simp)
  moreover have "find_journey ?k x2 = Some (committed_row (jc_Journey commit) (exited reason r))"
    by (rule commit_effect[OF c2 d2]) (use row2 in simp)
  moreover have "committed_row (jc_Journey commit) (exited reason r) = committed_row (jc_Journey commit) r"
    by (simp add: committed_row_def write_journey_def exited_def)
  ultimately show ?thesis
    using same row2 c1 c2 by (simp add: w w' op exited_def del: run_journey_op.simps)
qed

section \<open>A concrete step\<close>

definition pause_db :: journey_db where
  "pause_db = db_of (live_automation [pause_node]) (row_on ''n0'')"

definition claimed_row :: journey_row where
  "claimed_row = (row_on ''n0'')\<lparr>r_ClaimedAt := Some 100, r_ClaimToken := Some ''t'', r_ClaimedBy := Some ''w'',
     r_ClaimExpiresAt := Some 160\<rparr>"

definition step_claim :: journey_claim where
  "step_claim = claim_of claimed_row ''t''"

definition claimed_db :: journey_db where
  "claimed_db = db_of (live_automation [pause_node]) claimed_row"

lemmas step_defs = pause_db_def claimed_row_def step_claim_def claimed_db_def claim_of_def read_journey_def pause_node_def
  sample_defs

lemma step_claims:
  "ClaimContactAutomation ''j'' ''w'' 100 60 ''t'' pause_db = (Inr (Some step_claim), claimed_db)"
  by (simp add: ClaimContactAutomation_def claimable_journey_def is_live_def step_defs)

definition paused_commit :: journey_commit where
  "paused_commit = transition ((journey_on ''n1'')\<lparr>j_ScheduledAt := Some 300000000100\<rparr>)"

lemma pause_executes:
  "fst (execute_node (quiet_node_env 100) (params_of ws j pause_node a contact []) email) =
    Inr ((advance (Some ''n1''))\<lparr>nr_ScheduledAt := Some 300000000100\<rparr>)"
  by (simp add: pause_node_def node_at_def
      execute_node_def exec_delay_def params_of_def config_of_def parseDelayNodeConfig_def described_def
      decode_string_def decode_int_def field_of_def validated_def DelayNodeConfig_Validate_def in_int64_def
      delay_duration_def minute_def second_def quiet_node_env_def)

lemma step_planned: "PlanClaimedJourneyStep quiet_plan ''ws'' step_claim 100 claimed_db = Inr paused_commit"
proof -
  have n: "journeySideEffectChannel (an_Type pause_node) = None" "has_executor True (an_Type pause_node)"
    "\<not> journeyNodeNeedsContactData (an_Type pause_node)"
    by (simp_all add: pause_node_def node_at_def journeySideEffectChannel_def has_executor_def journeyNodeNeedsContactData_def)
  have p: "pe_node quiet_plan = quiet_node_env 100" "pe_channels quiet_plan" "pe_context quiet_plan = None"
    "pe_automation_error quiet_plan = None"
    by (simp_all add: quiet_plan_def)
  have a: "GetAutomation ''ws'' ''a'' claimed_db = Some (live_automation [pause_node])"
    "a_Status (live_automation [pause_node]) = AS_Live"
    "GetNodeByID (live_automation [pause_node]) ''n0'' = Some pause_node"
    by (simp_all add: GetAutomation_def GetNodeByID_def step_defs)
  have j: "cl_Journey step_claim = journey_on ''n0''" by (simp add: step_defs)
  have jo: "j_Status (journey_on ''n0'') = JS_Active" "j_CurrentNodeID (journey_on ''n0'') = Some ''n0''"
    "j_AutomationID (journey_on ''n0'') = ''a''"
    by (simp_all add: journey_on_def)
  show ?thesis
    by (simp add: PlanClaimedJourneyStep_def Let_def j jo p a n internal_is_no_touch[OF n(1)] pause_executes)
      (simp add: paused_commit_def planned_def advance_def journey_on_def)
qed

lemma journey_steps_commit_once_witness:
  "\<exists>s :: commit_system. cs_commits s = [(''j'', 1)] \<and> row_version ''j'' (cs_db s) = Some 2 \<and> versions_of ''j'' (cs_commits s) = [1..2 - 1]"
proof -
  let ?s0 = "\<lparr>cs_db = pause_db, cs_claims = [], cs_commits = []\<rparr>"
  have r0: "commit_run pause_db ?s0"
    by (rule run_starts) (simp_all add: journey_keys_def realtime_keys_def pause_db_def db_of_def)
  have r1: "commit_run pause_db (?s0\<lparr>cs_db := claimed_db, cs_claims := cs_claims ?s0 @ [step_claim]\<rparr>)" (is "commit_run _ ?s1")
    by (rule run_moves[OF r0 claims[where k = "''j''" and worker = "''w''" and now = 100 and lease = 60 and token = "''t''"]])
      (simp add: step_claims)
  have c: "CommitContactAutomationState 150 step_claim paused_commit claimed_db =
      (Inr True, claimed_db\<lparr>jd_journeys := [committed_row (jc_Journey paused_commit) claimed_row]\<rparr>)"
    by (simp add: CommitContactAutomationState_def commit_tx_def in_tx_def commit_applies_def is_live_def
        paused_commit_def transition_def step_defs)
  define db where "db = claimed_db\<lparr>jd_journeys := [committed_row (jc_Journey paused_commit) claimed_row]\<rparr>"
  define s where "s = ?s1\<lparr>cs_db := db, cs_commits := cs_commits ?s1 @ [(j_ID (cl_Journey step_claim), cl_StateVersion step_claim)]\<rparr>"
  have run: "commit_run pause_db s"
    unfolding s_def by (rule run_moves[OF r1 commits[OF _ step_planned, where now' = 150]]) (simp_all add: c db_def)
  have v0: "row_version ''j'' pause_db = Some 1" by (simp add: row_version_def find_journey_def step_defs)
  have commits: "cs_commits s = [(''j'', 1)]" by (simp add: s_def step_defs)
  have v: "row_version ''j'' (cs_db s) = Some 2"
    by (simp add: s_def db_def row_version_def find_journey_def committed_row_def write_journey_def step_defs)
  show ?thesis by (rule exI[of _ s]) (use journey_steps_commit_once[OF run v0] commits v in auto)
qed

definition wake_event :: event_envelope where
  "wake_event = \<lparr>ev_ID = ''m'', ev_EventID = ''e'', ev_Type = ''journey.resume'', ev_SchemaVersion = 1,
     ev_WorkspaceID = ''ws'', ev_Subject = \<lparr>es_Type = ''contact_automation'', es_ID = ''j'', es_CustomerID = [],
       es_ContactEmail = ''a@x''\<rparr>, ev_Source = ''journey-scheduler'', ev_OccurredAt = 1, ev_ReceivedAt = 1,
     ev_CorrelationID = ''e'', ev_CausationID = None, ev_TraceID = [], ev_Data = ED_Other JNull\<rparr>"

definition wake_message :: broker_message where
  "wake_message = \<lparr>bm_ID = ''m'', bm_CorrelationID = ''c'', bm_Exchange = JobsExchange,
     bm_RoutingKey = ''journey.resume.a'', bm_Type = ''journey.resume'', bm_SchemaVersion = 1, bm_Timestamp = 1,
     bm_Headers = [], bm_Body = Some wake_event\<rparr>"

definition quiet_wake :: wake_env where
  "quiet_wake = \<lparr>jw_now = 100, jw_lease = 60, jw_worker = ''w'', jw_token = ''t'', jw_is_uuid = (\<lambda>_. True),
     jw_plan = quiet_plan, jw_fault = (\<lambda>_. Works), jw_others = (\<lambda>_. [])\<rparr>"

lemma reply_exit_is_overwritten_witness:
  "\<exists>r1 db'. find_journey ''j'' (run_journey_op (JO_Reply ''a@x'' None ''replied'' 50) claimed_db) = Some r1 \<and>
     j_Status r1 = JS_Exited \<and>
     Handle_wake (with_reply (JO_Reply ''a@x'' None ''replied'' 50) quiet_wake) wake_message pause_db = (Inr (), db') \<and>
     find_journey ''j'' db' = Some (committed_row (jc_Journey paused_commit) claimed_row)"
proof -
  let ?e = wake_event
  have k: "journey_keys pause_db" by (simp add: journey_keys_def realtime_keys_def pause_db_def db_of_def)
  have al: "alone quiet_wake" by (simp add: alone_def quiet_wake_def)
  have w: "check_wake (jw_is_uuid quiet_wake) wake_message = Inr ?e"
    by (simp add: check_wake_def wake_message_def wake_event_def EventEnvelope_Validate_def blank_def is_re_space_def)
  have e: "es_ID (ev_Subject ?e) = ''j''" "ev_WorkspaceID ?e = ''ws''" by (simp_all add: wake_event_def)
  have q: "jw_worker quiet_wake = ''w''" "jw_now quiet_wake = 100" "jw_lease quiet_wake = 60" "jw_token quiet_wake = ''t''"
    "jw_plan quiet_wake = quiet_plan"
    by (simp_all add: quiet_wake_def)
  have cl: "ClaimContactAutomation (es_ID (ev_Subject ?e)) (jw_worker quiet_wake) (jw_now quiet_wake) (jw_lease quiet_wake)
      (jw_token quiet_wake) pause_db = (Inr (Some step_claim), claimed_db)"
    unfolding e q by (rule step_claims)
  have id: "j_ID (cl_Journey step_claim) = ''j''" by (simp add: step_defs)
  have row: "find_journey (j_ID (cl_Journey step_claim)) claimed_db = Some claimed_row"
    by (simp add: find_journey_def step_defs)
  have ex: "exits_on_reply (jd_automations claimed_db) ''a@x'' None 50 claimed_row"
    by (simp add: exits_on_reply_def step_defs)
  have c: "CommitContactAutomationState 100 step_claim paused_commit claimed_db =
      (Inr True, claimed_db\<lparr>jd_journeys := [committed_row (jc_Journey paused_commit) claimed_row]\<rparr>)"
    by (simp add: CommitContactAutomationState_def commit_tx_def in_tx_def commit_applies_def is_live_def
        paused_commit_def transition_def step_defs)
  have h: "Handle_wake quiet_wake wake_message pause_db =
      (Inr (), claimed_db\<lparr>jd_journeys := [committed_row (jc_Journey paused_commit) claimed_row]\<rparr>)"
    unfolding Handle_wake_def w
    using al by (simp add: journey_call_def alone_def e q step_claims step_planned c)
  have f: "find_journey ''j'' (snd (Handle_wake quiet_wake wake_message pause_db)) =
      Some (committed_row (jc_Journey paused_commit) claimed_row)"
    unfolding h by (simp add: find_journey_def committed_row_def write_journey_def step_defs)
  have "fst (Handle_wake quiet_wake wake_message pause_db) = Inr ()" unfolding h by simp
  from reply_exit_is_overwritten[OF k al w cl row ex this, where reason = "''replied''"] show ?thesis
    unfolding id f by (auto split: prod.splits simp del: run_journey_op.simps)
qed

end
