(* ===== verification/Realtime_Delivery.thy ===== *)
theory Realtime_Delivery
  imports Journey_Engine
begin

text \<open>
  The delivery of side effects: \<open>ExecuteJourneySideEffect\<close> of
  \<open>internal/service/automation_executor.go\<close>, and the worker that calls it,
  \<open>internal/service/realtime_delivery_worker.go\<close>. The handler is a machine whose phases are its
  calls of the repository and of the executor, so that handlers on several workers, and of
  several deliveries of one message, interleave between any two calls.
\<close>

section \<open>Executing a side effect\<close>

text \<open>Errors by the sentinel that the chain of an error holds, with its text.\<close>

datatype error_class = EC_Invalid | EC_Busy | EC_Unknown | EC_Hash | EC_Other

type_synonym delivery_error = "error_class \<times> string"

record side_env =
  sx_channels :: bool
  sx_contact :: "string + string"
  sx_node :: node_env

definition command_node :: "side_effect_data \<Rightarrow> automation_node" where
  "command_node d = \<lparr>an_ID = sd_NodeID d, an_AutomationID = [], an_Type = sd_NodeType d,
     an_Config = sd_NodeConfig d, an_NextNodeID = None, an_CreatedAt = zero_time\<rparr>"

definition command_automation :: "string \<Rightarrow> side_effect_data \<Rightarrow> automation" where
  "command_automation ws d = \<lparr>a_ID = sd_AutomationID d, a_WorkspaceID = ws, a_Name = sd_AutomationName d,
     a_Status = AS_Other [], a_ListID = sd_AutomationListID d, a_ExitOnReply = sd_AutomationExitReply d,
     a_RootNodeID = [], a_Nodes = [], a_Stats = \<lparr>as_Enrolled = 0, as_Completed = 0, as_Exited = 0, as_Failed = 0\<rparr>,
     a_DeletedAt = None, a_Version = 0\<rparr>"

definition command_params :: "string \<Rightarrow> side_effect_data \<Rightarrow> string option \<Rightarrow> string \<Rightarrow> node_params" where
  "command_params ws d contact key = \<lparr>np_WorkspaceID = ws, np_ContactID = sd_ContactAutomationID d,
     np_ContactEmail = sd_ContactEmail d, np_Node = command_node d, np_Automation = command_automation ws d,
     np_ContactData = contact, np_EffectKey = key\<rparr>"

definition side_effect_error :: "side_effect_data \<Rightarrow> string \<Rightarrow> node_error \<Rightarrow> delivery_error" where
  "side_effect_error d key e =
     (case e of
        NE_Unknown s \<Rightarrow> (EC_Unknown, ''execute journey side effect '' @ key @ '': '' @ s)
      | NE_Network s \<Rightarrow>
          if sd_NodeType d = NT_Webhook
          then (EC_Unknown, ''side effect outcome is unknown and requires reconciliation: '' @ s)
          else (EC_Other, ''execute journey side effect '' @ key @ '': '' @ s)
      | NE_Text s \<Rightarrow> (EC_Other, ''execute journey side effect '' @ key @ '': '' @ s))"

text \<open>The error, if any, and the effects. The result of the executor is dropped.\<close>

definition ExecuteJourneySideEffect ::
    "side_env \<Rightarrow> event_envelope \<Rightarrow> string \<Rightarrow> delivery_error option \<times> node_effect list" where
  "ExecuteJourneySideEffect env ev key =
     (if key = [] then (Some (EC_Other, ''realtime effect key is required''), [])
      else case ev_Data ev of
        ED_SideEffect d \<Rightarrow>
          if sd_ContactAutomationID d = [] \<or> sd_AutomationID d = [] \<or> sd_ContactEmail d = [] \<or> sd_NodeID d = []
          then (Some (EC_Other, ''journey side effect identity is incomplete''), [])
          else if journeySideEffectChannel (sd_NodeType d) = None
          then (Some (EC_Other, ''unsupported journey side effect node type''), [])
          else if \<not> has_executor (sx_channels env) (sd_NodeType d)
          then (Some (EC_Other, ''journey side effect executor is not configured''), [])
          else
            let needs = sd_NodeType d \<in> {NT_Email, NT_Webhook}
            in (case (if needs then sx_contact env else Inr []) of
                  Inl e \<Rightarrow> (Some (EC_Other, ''load contact for journey side effect: '' @ e), [])
                | Inr email \<Rightarrow>
                    (case execute_node (sx_node env)
                            (command_params (ev_WorkspaceID ev) d (if needs then Some email else None) key) email of
                       (Inl err, calls) \<Rightarrow> (Some (side_effect_error d key err), calls)
                     | (Inr _, calls) \<Rightarrow> (None, calls)))
      | _ \<Rightarrow> (Some (EC_Other, ''decode journey side effect command''), []))"

section \<open>The handler\<close>

definition decodeDeliveryCommand ::
    "(string \<Rightarrow> bool) \<Rightarrow> broker_message \<Rightarrow> delivery_error + event_envelope \<times> string" where
  "decodeDeliveryCommand is_uuid m =
     (if bm_ID m = [] then Inl (EC_Invalid, ''message id is required'')
      else case bm_Body m of
        None \<Rightarrow> Inl (EC_Invalid, ''decode envelope'')
      | Some e \<Rightarrow>
          if ev_ID e \<noteq> bm_ID m then Inl (EC_Invalid, ''envelope id does not match message id'')
          else case EventEnvelope_Validate is_uuid e of
            Some err \<Rightarrow> Inl (EC_Invalid, err)
          | None \<Rightarrow>
              if ev_Type e \<noteq> ''journey.side_effect.requested'' then Inl (EC_Invalid, ''unsupported event type'')
              else case bm_EffectKey m of
                None \<Rightarrow> Inl (EC_Invalid, ''effect_key header is required'')
              | Some key \<Rightarrow> if blank key then Inl (EC_Invalid, ''effect_key header is required'')
                            else Inr (e, key))"

record delivery_env =
  dv_now :: instant     \<comment> \<open>the clock when the handler starts\<close>
  dv_later :: instant   \<comment> \<open>and when it records\<close>
  dv_lease :: duration
  dv_token :: string
  dv_hash :: "event_envelope \<Rightarrow> string"
  dv_side :: side_env

datatype phase =
    PH_Claim
  | PH_Read inbox_claim
  | PH_Decide inbox_claim side_effect
  | PH_Execute inbox_claim
  | PH_Record inbox_claim "delivery_error option"
  | PH_Complete inbox_claim
  | PH_Fail inbox_claim delivery_error
  | PH_Done "delivery_error + unit"

definition rt_call :: "fault \<Rightarrow> ('d \<Rightarrow> (rt_error + 'a) \<times> 'd) \<Rightarrow> 'd \<Rightarrow> (rt_error + 'a) \<times> 'd" where
  "rt_call f op db = (case f of Works \<Rightarrow> op db | Fails \<Rightarrow> (Inl RE_Driver, db) | Answer_Lost \<Rightarrow> (Inl RE_Driver, snd (op db)))"

definition answered :: "('d \<Rightarrow> bool \<times> 'd) \<Rightarrow> 'd \<Rightarrow> (rt_error + bool) \<times> 'd" where
  "answered op db = (case op db of (b, db') \<Rightarrow> (Inr b, db'))"

definition repo_error :: delivery_error where "repo_error = (EC_Other, ''repository error'')"

definition outcome_unknown :: delivery_error where
  "outcome_unknown = (EC_Unknown, ''side effect outcome is unknown and requires reconciliation'')"

text \<open>The switch on the status of the effect: \<open>Inl\<close> the next phase, or the transition to make first,
  with the phase when it is made and the error when the state has changed.\<close>

definition decide ::
    "inbox_claim \<Rightarrow> side_effect \<Rightarrow> phase + effect_status \<times> effect_status \<times> string option \<times> phase \<times> string" where
  "decide c e =
     (case se_Status e of
        ES_Confirmed \<Rightarrow> Inl (PH_Complete c)
      | ES_Unknown \<Rightarrow> Inl (PH_Fail c outcome_unknown)
      | ES_Submitted \<Rightarrow>
          if se_Channel e = ''webhook''
          then Inr (ES_Submitted, ES_Unknown, Some (snd outcome_unknown), PH_Fail c outcome_unknown,
                    ''side effect state changed during reconciliation'')
          else Inl (PH_Execute c)
      | ES_Reserved \<Rightarrow> Inr (ES_Reserved, ES_Submitted, None, PH_Execute c, ''side effect state changed before submission'')
      | ES_Failed \<Rightarrow> Inr (ES_Failed, ES_Submitted, None, PH_Execute c, ''side effect state changed before submission''))"

definition recorded_status :: "delivery_error option \<Rightarrow> effect_status" where
  "recorded_status r = (case r of None \<Rightarrow> ES_Confirmed | Some e \<Rightarrow> if fst e = EC_Unknown then ES_Unknown else ES_Failed)"

text \<open>One phase: the next one, the effects of the executor, and the database.\<close>

definition delivery_step ::
    "delivery_env \<Rightarrow> fault \<Rightarrow> event_envelope \<Rightarrow> string \<Rightarrow> phase \<Rightarrow> 'a realtime_db_scheme \<Rightarrow>
     (phase \<times> node_effect list) \<times> 'a realtime_db_scheme" where
  "delivery_step env f ev key ph db =
     (case ph of
        PH_Claim \<Rightarrow>
          (case rt_call f (ClaimInbox ''delivery-worker'' (ev_ID ev) (dv_now env) (dv_lease env) (dv_token env)) db of
             (Inl _, db') \<Rightarrow> ((PH_Done (Inl repo_error), []), db')
           | (Inr c, db') \<Rightarrow>
               ((if ic_Acquired c then PH_Read c
                 else if ic_Status c = IS_Completed then PH_Done (Inr ())
                 else PH_Done (Inl (EC_Busy, ''realtime delivery message is already being processed'')), []), db'))
      | PH_Read c \<Rightarrow>
          (case rt_call f (\<lambda>db. (GetSideEffect key db, db)) db of
             (Inl _, db') \<Rightarrow> ((PH_Fail c repo_error, []), db')
           | (Inr e, db') \<Rightarrow> ((PH_Decide c e, []), db'))
      | PH_Decide c e \<Rightarrow>
          if se_EffectKey e \<noteq> key then ((PH_Fail c (EC_Invalid, ''side effect key does not match''), []), db)
          else if se_RequestHash e \<noteq> [] \<and> dv_hash env ev \<noteq> se_RequestHash e
          then ((PH_Fail c (EC_Hash, ''side effect request hash conflict''), []), db)
          else
            (case decide c e of
               Inl ph' \<Rightarrow> ((ph', []), db)
             | Inr (before, to, err, ph', changed) \<Rightarrow>
                 (case rt_call f (TransitionSideEffect key before to (dv_later env) (dv_now env) err) db of
                    (Inl _, db') \<Rightarrow> ((PH_Fail c repo_error, []), db')
                  | (Inr True, db') \<Rightarrow> ((ph', []), db')
                  | (Inr False, db') \<Rightarrow> ((PH_Fail c (EC_Other, changed), []), db')))
      | PH_Execute c \<Rightarrow>
          (case ExecuteJourneySideEffect (dv_side env) ev key of (r, calls) \<Rightarrow> ((PH_Record c r, calls), db))
      | PH_Record c r \<Rightarrow>
          (case rt_call f (TransitionSideEffect key ES_Submitted (recorded_status r) (dv_later env) (dv_later env)
                  (map_option snd r)) db of
             (res, db') \<Rightarrow>
               ((case r of
                   Some e \<Rightarrow> PH_Fail c e
                 | None \<Rightarrow>
                     (case res of
                        Inl _ \<Rightarrow> PH_Fail c repo_error
                      | Inr True \<Rightarrow> PH_Complete c
                      | Inr False \<Rightarrow> PH_Fail c (EC_Other, ''side effect state changed before confirmation'')), []), db'))
      | PH_Complete c \<Rightarrow>
          (case rt_call f (answered (CompleteInbox ''delivery-worker'' (ev_ID ev) (ic_Token c) (dv_later env))) db of
             (Inl _, db') \<Rightarrow> ((PH_Done (Inl repo_error), []), db')
           | (Inr True, db') \<Rightarrow> ((PH_Done (Inr ()), []), db')
           | (Inr False, db') \<Rightarrow> ((PH_Done (Inl (EC_Other, ''delivery inbox claim lost before completion'')), []), db'))
      | PH_Fail c e \<Rightarrow>
          (case rt_call f (answered (FailConsumerMessage ''delivery-worker'' (ev_ID ev) (ic_Token c) (dv_now env) (snd e))) db of
             (_, db') \<Rightarrow> ((PH_Done (Inl e), []), db'))
      | PH_Done r \<Rightarrow> ((ph, []), db))"

text \<open>A handler alone, from a phase, with the fault of each of its calls: six phases end it.\<close>

fun delivery_phases ::
    "delivery_env \<Rightarrow> fault list \<Rightarrow> event_envelope \<Rightarrow> string \<Rightarrow> phase \<Rightarrow> node_effect list \<Rightarrow> 'a realtime_db_scheme \<Rightarrow>
     (phase \<times> node_effect list) \<times> 'a realtime_db_scheme" where
  "delivery_phases env [] ev key ph calls db = ((ph, calls), db)"
| "delivery_phases env (f # fs) ev key ph calls db =
     (case delivery_step env f ev key ph db of
        ((ph', calls'), db') \<Rightarrow> delivery_phases env fs ev key ph' (calls @ calls') db')"

definition Handle_delivery ::
    "(string \<Rightarrow> bool) \<Rightarrow> delivery_env \<Rightarrow> fault list \<Rightarrow> broker_message \<Rightarrow> 'a realtime_db_scheme \<Rightarrow>
     (phase \<times> node_effect list) \<times> 'a realtime_db_scheme" where
  "Handle_delivery is_uuid env faults m db =
     (case decodeDeliveryCommand is_uuid m of
        Inl e \<Rightarrow> ((PH_Done (Inl e), []), db)
      | Inr (ev, key) \<Rightarrow> delivery_phases env faults ev key PH_Claim [] db)"

definition HandleDelivery :: "delivery_error + unit \<Rightarrow> delivery_action" where
  "HandleDelivery r =
     (case r of
        Inr _ \<Rightarrow> Ack
      | Inl (c, _) \<Rightarrow>
          (case c of
             EC_Invalid \<Rightarrow> DeadLetter
           | EC_Unknown \<Rightarrow> DeadLetter
           | EC_Hash \<Rightarrow> DeadLetter
           | EC_Busy \<Rightarrow> Retry Retry5Seconds
           | EC_Other \<Rightarrow> Retry Retry30Seconds))"

end
