(* ===== verification/Side_Effect_Runs.thy ===== *)
theory Side_Effect_Runs
  imports Realtime_Delivery
begin

text \<open>
  Handlers of side effects on any number of workers: a state is the database, the handlers with
  their phases, and the log of what the executor did for which effect key. Handlers start on any
  message, at any time, several on one message; each call works, fails or loses its answer; a
  handler may die between any two calls; other processes reserve effects and use the outbox and
  the inbox. The invariant carries the claim that a webhook is called again only after a call
  that failed.
\<close>

section \<open>The system\<close>

record handler =
  hd_event :: event_envelope
  hd_key :: string
  hd_phase :: phase

record call_record =
  cr_key :: string
  cr_result :: "delivery_error option"
  cr_calls :: "node_effect list"

record delivery_system =
  ds_db :: realtime_db
  ds_handlers :: "handler list"
  ds_log :: "call_record list"

definition logged :: "delivery_env \<Rightarrow> handler \<Rightarrow> call_record list" where
  "logged env h = (case hd_phase h of
     PH_Execute c \<Rightarrow> (case ExecuteJourneySideEffect (dv_side env) (hd_event h) (hd_key h) of
        (r, calls) \<Rightarrow> [\<lparr>cr_key = hd_key h, cr_result = r, cr_calls = calls\<rparr>])
   | _ \<Rightarrow> [])"

inductive delivery_move :: "delivery_system \<Rightarrow> delivery_system \<Rightarrow> bool" where
  starts: "decodeDeliveryCommand is_uuid m = Inr (ev, key) \<Longrightarrow>
    delivery_move s (s\<lparr>ds_handlers := ds_handlers s @ [\<lparr>hd_event = ev, hd_key = key, hd_phase = PH_Claim\<rparr>]\<rparr>)"
| steps: "i < length (ds_handlers s) \<Longrightarrow> h = ds_handlers s ! i \<Longrightarrow>
    delivery_step env f (hd_event h) (hd_key h) (hd_phase h) (ds_db s) = ((ph, calls), db) \<Longrightarrow>
    delivery_move s (s\<lparr>ds_db := db, ds_handlers := (ds_handlers s)[i := h\<lparr>hd_phase := ph\<rparr>],
      ds_log := ds_log s @ logged env h\<rparr>)"
| dies: "i < length (ds_handlers s) \<Longrightarrow>
    delivery_move s (s\<lparr>ds_handlers := (ds_handlers s)[i := (ds_handlers s ! i)\<lparr>hd_phase := PH_Done r\<rparr>]\<rparr>)"
| reserves: "se_Status e = ES_Reserved \<Longrightarrow>
    delivery_move s (s\<lparr>ds_db := snd (reserveJourneySideEffectTx now e (ds_db s))\<rparr>)"
| elsewhere: "rd_effects db = rd_effects (ds_db s) \<Longrightarrow> delivery_move s (s\<lparr>ds_db := db\<rparr>)"

text \<open>Runs start with effects in any state and no handler.\<close>

inductive delivery_run :: "realtime_db \<Rightarrow> delivery_system \<Rightarrow> bool" for db0 where
  run_starts: "distinct (map se_EffectKey (rd_effects db0)) \<Longrightarrow>
    delivery_run db0 \<lparr>ds_db = db0, ds_handlers = [], ds_log = []\<rparr>"
| run_moves: "delivery_run db0 s \<Longrightarrow> delivery_move s s' \<Longrightarrow> delivery_run db0 s'"

section \<open>The invariant\<close>

definition results :: "string \<Rightarrow> call_record list \<Rightarrow> delivery_error option list" where
  "results k xs = map cr_result (filter (\<lambda>x. cr_key x = k) xs)"

lemma results_simps [simp]:
  "results k [] = []"
  "results k (xs @ ys) = results k xs @ results k ys"
  "results k [\<lparr>cr_key = k', cr_result = r, cr_calls = calls\<rparr>] = (if k' = k then [r] else [])"
  by (simp_all add: results_def)

text \<open>A call that failed: the executor returned an error that is not of an unknown outcome.\<close>

definition failed :: "delivery_error option \<Rightarrow> bool" where
  "failed r \<longleftrightarrow> (case r of None \<Rightarrow> False | Some e \<Rightarrow> fst e \<noteq> EC_Unknown)"

lemma failed_iff: "failed r \<longleftrightarrow> recorded_status r = ES_Failed"
  by (auto simp: failed_def recorded_status_def split: option.splits)

lemma recorded_status_cases:
  "recorded_status r \<in> {ES_Confirmed, ES_Failed, ES_Unknown}"
  by (auto simp: recorded_status_def split: option.splits)

text \<open>What a handler in its phase relies on, for the row of its webhook and the results so far.\<close>

fun in_call :: "phase \<Rightarrow> bool" where
  "in_call (PH_Execute c) = True"
| "in_call (PH_Record c r) = True"
| "in_call _ = False"

definition callers :: "string \<Rightarrow> handler list \<Rightarrow> handler list" where
  "callers k hs = filter (\<lambda>h. hd_key h = k \<and> in_call (hd_phase h)) hs"

fun phase_ok :: "phase \<Rightarrow> delivery_error option list \<Rightarrow> bool" where
  "phase_ok (PH_Execute c) rs = list_all failed rs"
| "phase_ok (PH_Record c r) rs = (rs \<noteq> [] \<and> last rs = r)"
| "phase_ok _ rs = True"

definition webhook_ok :: "effect_status \<Rightarrow> handler list \<Rightarrow> delivery_error option list \<Rightarrow> bool" where
  "webhook_ok status hs rs \<longleftrightarrow> list_all failed (butlast rs) \<and>
     (hs = [] \<or> (\<exists>h. hs = [h] \<and> status \<in> {ES_Submitted, ES_Unknown} \<and> phase_ok (hd_phase h) rs)) \<and>
     (status \<in> {ES_Reserved, ES_Failed} \<longrightarrow> list_all failed rs)"

definition key_ok :: "string \<Rightarrow> delivery_system \<Rightarrow> bool" where
  "key_ok k s \<longleftrightarrow>
     (case find_effect k (ds_db s) of
        None \<Rightarrow> callers k (ds_handlers s) = [] \<and> results k (ds_log s) = []
      | Some e \<Rightarrow> se_Channel e = ''webhook'' \<longrightarrow>
          webhook_ok (se_Status e) (callers k (ds_handlers s)) (results k (ds_log s)))"

text \<open>What a handler has read is of a row that exists, with its channel.\<close>

definition reading_ok :: "realtime_db \<Rightarrow> handler \<Rightarrow> bool" where
  "reading_ok db h \<longleftrightarrow>
     (case hd_phase h of
        PH_Decide c e \<Rightarrow> (\<exists>e'. find_effect (hd_key h) db = Some e' \<and> se_Channel e' = se_Channel e)
      | _ \<Rightarrow> True)"

definition delivery_inv :: "delivery_system \<Rightarrow> bool" where
  "delivery_inv s \<longleftrightarrow> distinct (map se_EffectKey (rd_effects (ds_db s))) \<and> (\<forall>k. key_ok k s) \<and>
     (\<forall>h \<in> set (ds_handlers s). reading_ok (ds_db s) h)"

section \<open>Transitions of effects\<close>

definition effect_moves ::
    "string \<Rightarrow> effect_status \<Rightarrow> effect_status \<Rightarrow> realtime_db \<Rightarrow> realtime_db \<Rightarrow> bool" where
  "effect_moves k before to db db' \<longleftrightarrow>
     map se_EffectKey (rd_effects db') = map se_EffectKey (rd_effects db) \<and>
     (\<forall>k'. (find_effect k' db' = None) = (find_effect k' db = None)) \<and>
     (\<forall>k' e. find_effect k' db = Some e \<longrightarrow> (\<exists>e'. find_effect k' db' = Some e' \<and> se_Channel e' = se_Channel e \<and>
        se_RequestHash e' = se_RequestHash e \<and> se_Status e' = (if k' = k \<and> se_Status e = before then to else se_Status e)))"

lemma effect_movesD:
  "effect_moves k b t db db' \<Longrightarrow> find_effect k' db = Some e \<Longrightarrow> \<exists>e'. find_effect k' db' = Some e' \<and>
     se_Channel e' = se_Channel e \<and> se_RequestHash e' = se_RequestHash e \<and>
     se_Status e' = (if k' = k \<and> se_Status e = b then t else se_Status e)"
  unfolding effect_moves_def by blast

lemma effect_moves_same: "rd_effects db' = rd_effects db \<Longrightarrow> effect_moves k before before db db'"
  by (auto simp: effect_moves_def find_effect_def)

lemma effect_moves_transition:
  assumes "validSideEffectTransition before to" and "k \<noteq> []"
  shows "effect_moves k before to db (snd (TransitionSideEffect k before to now u err db))"
proof -
  have *: "sql_find (\<lambda>e. se_EffectKey e = k') (sql_update (\<lambda>e. se_EffectKey e = k \<and> se_Status e = before) g es) =
      map_option (\<lambda>e. if se_EffectKey e = k \<and> se_Status e = before then g e else e)
        (sql_find (\<lambda>e. se_EffectKey e = k') es)"
    if "\<And>e. se_EffectKey (g e) = se_EffectKey e" for k' g es
    by (rule sql_find_update_key) (rule that)
  show ?thesis
    using assms
    by (auto simp: effect_moves_def TransitionSideEffect_def find_effect_def * Let_def dest!: sql_find_SomeD)
qed

text \<open>A transition as a worker calls it: it is made or not, and a worker that is told of it found the
  effect in its first status.\<close>

lemma transition_call:
  assumes "rt_call f (TransitionSideEffect k before to now u err) db = (r, db')"
  shows "(db' = db \<or> effect_moves k before to db db') \<and>
    (r = Inr True \<longrightarrow> effect_moves k before to db db' \<and> (\<exists>e. find_effect k db = Some e \<and> se_Status e = before) \<or>
       \<not> distinct (map se_EffectKey (rd_effects db)))"
proof (cases "k = [] \<or> \<not> validSideEffectTransition before to")
  case True
  then show ?thesis using assms by (auto simp: rt_call_def TransitionSideEffect_def split: fault.splits)
next
  case False
  then have moves: "effect_moves k before to db (snd (TransitionSideEffect k before to now u err db))"
    by (auto intro: effect_moves_transition)
  let ?p = "\<lambda>e. se_EffectKey e = k \<and> se_Status e = before"
  have "\<exists>e. find_effect k db = Some e \<and> se_Status e = before"
    if c: "sql_count ?p (rd_effects db) = 1" and d: "distinct (map se_EffectKey (rd_effects db))"
  proof -
    obtain e where e: "e \<in> set (rd_effects db)" "se_EffectKey e = k" "se_Status e = before"
    proof -
      have "sql_count ?p (rd_effects db) \<noteq> 0" using c by simp
      then show thesis using that by (auto simp: sql_count_0_iff)
    qed
    have "find_effect k db = Some e"
      using sql_find_unique[OF d e(1)] by (simp add: find_effect_def e(2))
    with e(3) show ?thesis by blast
  qed
  with assms False moves show ?thesis
    by (cases f) (auto simp: rt_call_def TransitionSideEffect_def Let_def)
qed

lemma other_phases_keep_effects:
  fixes db :: realtime_db
  assumes "delivery_step env f ev k ph db = ((ph', calls), db')"
    and "\<And>c e. ph \<noteq> PH_Decide c e" and "\<And>c r. ph \<noteq> PH_Record c r"
  shows "rd_effects db' = rd_effects db"
proof -
  have claim: "rd_effects (snd (ClaimInbox consumer m now lease token db)) = rd_effects db" for consumer m now lease token
    by (auto simp: ClaimInbox_def split: option.splits)

  have ans: "rd_effects (snd (answered op db)) = rd_effects (snd (op db))" for op :: "realtime_db \<Rightarrow> bool \<times> realtime_db"
    by (simp add: answered_def split: prod.splits)
  have same: "rd_effects d = rd_effects db"
    if "rt_call f op db = (r, d)" "rd_effects (snd (op db)) = rd_effects db"
    for r d and op :: "realtime_db \<Rightarrow> (rt_error + 'x) \<times> realtime_db"
    using that by (cases f) (auto simp: rt_call_def)
  show ?thesis
    using assms
    by (cases ph)
      (auto simp: delivery_step_def ans CompleteInbox_def FailConsumerMessage_def claim
        split: prod.splits sum.splits bool.splits dest!: same)
qed

section \<open>Every move keeps the invariant\<close>

definition quiet_moves :: "(effect_status \<times> effect_status) set" where
  "quiet_moves = {(ES_Reserved, ES_Submitted), (ES_Failed, ES_Submitted), (ES_Submitted, ES_Unknown),
     (ES_Reserved, ES_Reserved)}"

lemma decide_at_once: "decide c e = Inl ph \<Longrightarrow> \<not> in_call ph \<or> ph = PH_Execute c \<and> se_Channel e \<noteq> ''webhook''"
  by (auto simp: decide_def split: effect_status.splits if_splits)

lemma decide_moves:
  "decide c e = Inr (b, t, err, ph, changed) \<Longrightarrow> (b, t) \<in> quiet_moves \<and>
   (\<not> in_call ph \<or> ph = PH_Execute c \<and> b \<in> {ES_Reserved, ES_Failed} \<and> t = ES_Submitted)"
  by (auto simp: decide_def quiet_moves_def split: effect_status.splits if_splits)

lemma decide_step:
  fixes db :: realtime_db
  assumes "delivery_step env f ev k (PH_Decide c e) db = ((ph, calls), db')"
    and "distinct (map se_EffectKey (rd_effects db))"
  shows "(\<exists>b t. \<not> in_call ph \<and> effect_moves k b t db db' \<and> (b, t) \<in> quiet_moves) \<or>
    ph = PH_Execute c \<and> db' = db \<and> se_Channel e \<noteq> ''webhook'' \<or>
    (\<exists>b e'. ph = PH_Execute c \<and> b \<in> {ES_Reserved, ES_Failed} \<and> effect_moves k b ES_Submitted db db' \<and>
       find_effect k db = Some e' \<and> se_Status e' = b)"
proof -
  have "effect_moves k ES_Reserved ES_Reserved db db" by (rule effect_moves_same) simp
  then have stay: "\<exists>b t. effect_moves k b t db db \<and> (b, t) \<in> quiet_moves" by (auto simp: quiet_moves_def)
  show ?thesis
  proof (cases "se_EffectKey e \<noteq> k \<or> se_RequestHash e \<noteq> [] \<and> dv_hash env ev \<noteq> se_RequestHash e")
    case True
    then show ?thesis using assms(1) stay by (auto simp: delivery_step_def split: if_splits)
  next
    case guards: False
    show ?thesis
    proof (cases "decide c e")
      case (Inl ph')
      then show ?thesis using assms(1) guards stay decide_at_once[OF Inl] by (auto simp: delivery_step_def)
    next
      case (Inr x)
      obtain b t err ph' changed where x: "x = (b, t, err, ph', changed)" by (cases x)
      obtain r where call: "rt_call f (TransitionSideEffect k b t (dv_later env) (dv_now env) err) db = (r, db')"
        and ph: "ph = (case r of Inl _ \<Rightarrow> PH_Fail c repo_error | Inr True \<Rightarrow> ph' | Inr False \<Rightarrow> PH_Fail c (EC_Other, changed))"
        using assms(1) guards
        by (auto simp: delivery_step_def Inr x split: prod.splits sum.splits bool.splits)
      from transition_call[OF call] assms(2) stay decide_moves[OF Inr[unfolded x]] ph show ?thesis
        by (cases r) (auto split: bool.splits)
    qed
  qed
qed

lemma record_step:
  fixes db :: realtime_db
  assumes "delivery_step env f ev k (PH_Record c r) db = ((ph, calls), db')"
  shows "\<not> in_call ph" and "db' = db \<or> effect_moves k ES_Submitted (recorded_status r) db db'"
  using assms
  by (auto simp: delivery_step_def split: prod.splits sum.splits bool.splits option.splits dest!: transition_call)

lemma execute_step:
  "delivery_step env f ev k (PH_Execute c) db = ((ph, calls), db') \<Longrightarrow>
   db' = db \<and> ph = PH_Record c (fst (ExecuteJourneySideEffect (dv_side env) ev k))"
  by (auto simp: delivery_step_def split: prod.splits)

lemma other_step:
  assumes "delivery_step env f ev k ph db = ((ph', calls), db')" and "\<not> in_call ph" and "\<And>c e. ph \<noteq> PH_Decide c e"
  shows "\<not> in_call ph'"
  using assms by (cases ph) (auto simp: delivery_step_def split: prod.splits sum.splits bool.splits if_splits)

lemma new_reading:
  fixes db :: realtime_db
  assumes "delivery_step env f ev k ph db = ((PH_Decide c e, calls), db')"
  shows "find_effect k db' = Some e"
proof -
  have "\<not> (\<exists>c' e'. decide c' e' = Inl (PH_Decide c e)) \<and> \<not> (\<exists>c' e' b t x y. decide c' e' = Inr (b, t, x, PH_Decide c e, y))"
    by (auto simp: decide_def split: effect_status.splits if_splits)
  then show ?thesis
    using assms
    by (cases ph; cases f)
      (auto simp: delivery_step_def rt_call_def GetSideEffect_def split: prod.splits sum.splits bool.splits if_splits option.splits)
qed

lemma callers_update:
  assumes "i < length hs" and "k = hd_key (hs ! i)"
  obtains A B where "callers k hs = A @ (if in_call (hd_phase (hs ! i)) then [hs ! i] else []) @ B"
    and "\<And>h. hd_key h = k \<Longrightarrow> callers k (hs[i := h]) = A @ (if in_call (hd_phase h) then [h] else []) @ B"
proof
  let ?f = "filter (\<lambda>h. hd_key h = k \<and> in_call (hd_phase h))"
  have "callers k hs = ?f (take i hs @ hs ! i # drop (Suc i) hs)"
    unfolding callers_def using id_take_nth_drop[OF assms(1)] by simp
  then show "callers k hs = ?f (take i hs) @ (if in_call (hd_phase (hs ! i)) then [hs ! i] else []) @ ?f (drop (Suc i) hs)"
    by (simp add: assms(2))
  show "callers k (hs[i := h]) = ?f (take i hs) @ (if in_call (hd_phase h) then [h] else []) @ ?f (drop (Suc i) hs)"
    if "hd_key h = k" for h
    using that by (simp add: callers_def upd_conv_take_nth_drop[OF assms(1)])
qed

lemma callers_other:
  "i < length hs \<Longrightarrow> hd_key (hs ! i) \<noteq> k \<Longrightarrow> hd_key h \<noteq> k \<Longrightarrow> callers k (hs[i := h]) = callers k hs"
  by (induction hs arbitrary: i) (auto simp: callers_def nth_Cons split: nat.splits)

text \<open>The rules of a webhook's row, one for each kind of move.\<close>

lemma webhook_ok_quiet:
  "webhook_ok st hs rs \<Longrightarrow>
   (b, t) \<in> quiet_moves \<Longrightarrow> webhook_ok (if st = b then t else st) hs rs"
  by (auto simp: webhook_ok_def quiet_moves_def)

lemma webhook_ok_submit:
  "webhook_ok st hs rs \<Longrightarrow> st \<in> {ES_Reserved, ES_Failed} \<Longrightarrow> hd_phase h = PH_Execute c \<Longrightarrow>
   hs = [] \<and> webhook_ok ES_Submitted [h] rs"
  by (auto simp: webhook_ok_def)

lemma webhook_ok_execute:
  "webhook_ok st (A @ [h] @ B) rs \<Longrightarrow> hd_phase h = PH_Execute c \<Longrightarrow> hd_phase h' = PH_Record c r \<Longrightarrow>
   webhook_ok st (A @ [h'] @ B) (rs @ [r])"
  by (auto simp: webhook_ok_def append_eq_Cons_conv Cons_eq_append_conv)

lemma webhook_ok_record:
  assumes "webhook_ok st (A @ [h] @ B) rs" and "hd_phase h = PH_Record c r"
  shows "webhook_ok st (A @ B) rs"
    and "webhook_ok (if st = ES_Submitted then recorded_status r else st) (A @ B) rs"
proof -
  have f: "list_all failed (butlast rs)" and e: "A = []" "B = []" and st: "st \<in> {ES_Submitted, ES_Unknown}"
    and l: "rs \<noteq> []" "last rs = r"
    using assms by (auto simp: webhook_ok_def append_eq_Cons_conv Cons_eq_append_conv)
  have "list_all failed rs" if "failed r"
  proof -
    have "rs = butlast rs @ [r]" using append_butlast_last_id[OF l(1)] l(2) by simp
    then show ?thesis using f that by (metis list_all_append list.pred_inject)
  qed
  with f e st recorded_status_cases[of r] show "webhook_ok st (A @ B) rs"
    and "webhook_ok (if st = ES_Submitted then recorded_status r else st) (A @ B) rs"
    by (auto simp: webhook_ok_def failed_iff)
qed

lemma webhook_ok_dies: "webhook_ok st (A @ hs @ B) rs \<Longrightarrow> webhook_ok st (A @ B) rs \<or> hs = []"
  by (cases hs) (auto simp: webhook_ok_def append_eq_Cons_conv Cons_eq_append_conv)

lemma step_moves_effects:
  fixes db :: realtime_db
  assumes "delivery_step env f ev k ph db = ((ph', calls), db')" and "distinct (map se_EffectKey (rd_effects db))"
  shows "\<exists>b t. effect_moves k b t db db'"
proof (cases "(\<exists>c e. ph = PH_Decide c e) \<or> (\<exists>c r. ph = PH_Record c r)")
  case True
  have same: "effect_moves k ES_Reserved ES_Reserved db db" by (rule effect_moves_same) simp
  show ?thesis
    using True
  proof (elim disjE exE)
    fix c e assume "ph = PH_Decide c e"
    then show ?thesis using decide_step[of env f ev k c e db] assms same by blast
  next
    fix c r assume "ph = PH_Record c r"
    then show ?thesis using record_step(2)[of env f ev k c r db] assms same by blast
  qed
next
  case False
  then show ?thesis
    using other_phases_keep_effects[OF assms(1)] effect_moves_same[of db' db k] by blast
qed

lemma key_ok_cong:
  assumes "effect_moves k0 b t (ds_db s) (ds_db s')" and "k \<noteq> k0 \<or> b = t"
    and "callers k (ds_handlers s') = callers k (ds_handlers s)" and "results k (ds_log s') = results k (ds_log s)"
    and "key_ok k s"
  shows "key_ok k s'"
proof (cases "find_effect k (ds_db s)")
  case None
  moreover have "find_effect k (ds_db s') = None" using assms(1) None by (simp add: effect_moves_def)
  ultimately show ?thesis using assms(3-5) by (simp add: key_ok_def)
next
  case (Some e)
  then obtain e' where "find_effect k (ds_db s') = Some e'" "se_Channel e' = se_Channel e" "se_Status e' = se_Status e"
    using effect_movesD[OF assms(1) Some] assms(2) by (auto split: if_splits)
  then show ?thesis using assms(3-5) Some by (simp add: key_ok_def)
qed

lemma reading_ok_moves: "effect_moves k b t db db' \<Longrightarrow> reading_ok db h \<Longrightarrow> reading_ok db' h"
  unfolding reading_ok_def effect_moves_def by (cases "hd_phase h") (simp_all, metis)

lemma logged_simps:
  "\<not> in_call (hd_phase h) \<Longrightarrow> logged env h = []"
  "hd_phase h = PH_Record c r \<Longrightarrow> logged env h = []"
  by (cases "hd_phase h"; simp add: logged_def)+

text \<open>A step of a handler, on the key it is about.\<close>

lemma step_key_ok:
  fixes s :: delivery_system
  assumes "i < length (ds_handlers s)" and "h = ds_handlers s ! i" and "k = hd_key h"
    and "delivery_step env f (hd_event h) k (hd_phase h) (ds_db s) = ((ph, calls), db)"
    and "delivery_inv s"
  shows "key_ok k (s\<lparr>ds_db := db, ds_handlers := (ds_handlers s)[i := h\<lparr>hd_phase := ph\<rparr>],
      ds_log := ds_log s @ logged env h\<rparr>)"
proof -
  have d: "distinct (map se_EffectKey (rd_effects (ds_db s)))" and ok: "key_ok k s" and rd: "reading_ok (ds_db s) h"
    using assms(1,2,5) by (auto simp: delivery_inv_def)
  obtain A B where now: "callers k (ds_handlers s) = A @ (if in_call (hd_phase h) then [h] else []) @ B"
    and upd: "\<And>h'. hd_key h' = k \<Longrightarrow>
      callers k ((ds_handlers s)[i := h']) = A @ (if in_call (hd_phase h') then [h'] else []) @ B"
    using callers_update[OF assms(1), of k] assms(2,3) by metis
  have after: "callers k ((ds_handlers s)[i := h\<lparr>hd_phase := ph\<rparr>]) =
      A @ (if in_call ph then [h\<lparr>hd_phase := ph\<rparr>] else []) @ B"
    using upd[of "h\<lparr>hd_phase := ph\<rparr>"] assms(3) by simp
  obtain b t where moves: "effect_moves k b t (ds_db s) db" using step_moves_effects[OF assms(4) d] by blast
  show ?thesis
  proof (cases "find_effect k (ds_db s)")
    case None
    then have none: "find_effect k db = None" and c: "A = []" "B = []" "\<not> in_call (hd_phase h)"
      and r: "results k (ds_log s) = []"
      using moves ok now by (auto simp: effect_moves_def key_ok_def split: if_splits)
    have "\<And>c e. hd_phase h \<noteq> PH_Decide c e" using rd None assms(3) by (auto simp: reading_ok_def)
    then have "\<not> in_call ph" using other_step[OF assms(4) c(3)] by blast
    then show ?thesis using none c r after logged_simps(1)[OF c(3)] by (simp add: key_ok_def)
  next
    case (Some e)
    obtain e' where e': "find_effect k db = Some e'" and ch: "se_Channel e' = se_Channel e"
      using effect_movesD[OF moves Some] by blast
    let ?rs = "results k (ds_log s @ logged env h)"
    have "webhook_ok (se_Status e') (A @ (if in_call ph then [h\<lparr>hd_phase := ph\<rparr>] else []) @ B) ?rs"
      if web: "se_Channel e = ''webhook''"
    proof -
      have w: "webhook_ok (se_Status e) (A @ (if in_call (hd_phase h) then [h] else []) @ B) (results k (ds_log s))"
        using ok Some web now by (simp add: key_ok_def)
      have to: "se_Status e' = (if se_Status e = b' then t' else se_Status e)" if "effect_moves k b' t' (ds_db s) db" for b' t'
        using effect_movesD[OF that Some] e' by auto
      consider (decide) c x where "hd_phase h = PH_Decide c x" | (recording) c r where "hd_phase h = PH_Record c r"
        | (exec) c where "hd_phase h = PH_Execute c"
        | (other) "\<not> in_call (hd_phase h)" "\<And>c x. hd_phase h \<noteq> PH_Decide c x" "\<And>c r. hd_phase h \<noteq> PH_Record c r"
        by (cases "hd_phase h") auto
      then show ?thesis
      proof cases
        case decide
        have "se_Channel x = ''webhook''" using rd Some web decide assms(3) by (auto simp: reading_ok_def)
        then have "(\<exists>b t. \<not> in_call ph \<and> effect_moves k b t (ds_db s) db \<and> (b, t) \<in> quiet_moves) \<or>
            (\<exists>b. ph = PH_Execute c \<and> b \<in> {ES_Reserved, ES_Failed} \<and> effect_moves k b ES_Submitted (ds_db s) db \<and>
              se_Status e = b)"
          using decide_step[OF assms(4)[unfolded decide] d] Some by auto
        then show ?thesis
        proof (elim disjE exE conjE)
          fix b t assume q: "\<not> in_call ph" "effect_moves k b t (ds_db s) db" "(b, t) \<in> quiet_moves"
          then show ?thesis
            using webhook_ok_quiet[OF w q(3)] to[OF q(2)] by (simp add: decide logged_def)
        next
          fix b assume q: "ph = PH_Execute c" "b \<in> {ES_Reserved, ES_Failed}" "effect_moves k b ES_Submitted (ds_db s) db"
            "se_Status e = b"
          have "(A @ B = []) \<and> webhook_ok ES_Submitted [h\<lparr>hd_phase := ph\<rparr>] (results k (ds_log s))"
            using webhook_ok_submit[OF w, of "h\<lparr>hd_phase := ph\<rparr>" c] q by (simp add: decide)
          then show ?thesis using to[OF q(3)] q by (simp add: decide logged_def)
        qed
      next
        case recording
        note step = record_step[OF assms(4)[unfolded recording]]
        have w': "webhook_ok (se_Status e) (A @ [h] @ B) (results k (ds_log s))" using w recording by simp
        have "se_Status e' = se_Status e \<or>
            se_Status e' = (if se_Status e = ES_Submitted then recorded_status r else se_Status e)"
          using step(2) to e' Some by auto
        then show ?thesis
          using webhook_ok_record[OF w' recording] step(1) logged_simps(2)[OF recording, of env] by auto
      next
        case exec
        have x: "db = ds_db s" "ph = PH_Record c (fst (ExecuteJourneySideEffect (dv_side env) (hd_event h) k))"
          using execute_step[OF assms(4)[unfolded exec]] by simp_all
        have w': "webhook_ok (se_Status e) (A @ [h] @ B) (results k (ds_log s))" using w exec by simp
        have "results k (logged env h) = [fst (ExecuteJourneySideEffect (dv_side env) (hd_event h) k)]"
          by (simp add: logged_def exec assms(3) split: prod.splits)
        moreover have "e' = e" using e' Some x(1) by simp
        ultimately show ?thesis
          using webhook_ok_execute[OF w' exec, of "h\<lparr>hd_phase := ph\<rparr>"] x(2) by simp
      next
        case other
        have "\<not> in_call ph" using other_step[OF assms(4) other(1)] other(2) by blast
        moreover have "e' = e"
          using other_phases_keep_effects[OF assms(4)] other(2,3) e' Some by (simp add: find_effect_def)
        ultimately show ?thesis using w other(1) logged_simps(1)[OF other(1), of env] by simp
      qed
    qed
    then show ?thesis using e' ch after by (simp add: key_ok_def)
  qed
qed

lemma results_logged: "k \<noteq> hd_key h \<Longrightarrow> results k (logged env h) = []"
  by (cases "hd_phase h") (auto simp: logged_def results_def split: prod.splits)

lemma effects_kept:
  assumes "delivery_inv s" and "effect_moves k0 b t (ds_db s) db"
  shows "distinct (map se_EffectKey (rd_effects db))" and "\<forall>h \<in> set (ds_handlers s). reading_ok db h"
  using assms reading_ok_moves[OF assms(2)] by (auto simp: delivery_inv_def effect_moves_def)

lemma key_ok_eq:
  "find_effect k (ds_db s') = find_effect k (ds_db s) \<Longrightarrow> callers k (ds_handlers s') = callers k (ds_handlers s) \<Longrightarrow>
   ds_log s' = ds_log s \<Longrightarrow> key_ok k s' = key_ok k s"
  unfolding key_ok_def by metis

lemma inv_starts:
  assumes "delivery_inv s" and "hd_phase h = PH_Claim"
  shows "delivery_inv (s\<lparr>ds_handlers := ds_handlers s @ [h]\<rparr>)"
proof -
  have "callers k (ds_handlers s @ [h]) = callers k (ds_handlers s)" for k by (simp add: callers_def assms(2))
  then have "key_ok k (s\<lparr>ds_handlers := ds_handlers s @ [h]\<rparr>) = key_ok k s" for k by (intro key_ok_eq) simp_all
  moreover have "reading_ok (ds_db s) h" by (simp add: reading_ok_def assms(2))
  ultimately show ?thesis using assms(1) by (simp add: delivery_inv_def)
qed

lemma inv_steps:
  assumes "delivery_inv s" and "i < length (ds_handlers s)" and "h = ds_handlers s ! i"
    and "delivery_step env f (hd_event h) (hd_key h) (hd_phase h) (ds_db s) = ((ph, calls), db)"
  shows "delivery_inv (s\<lparr>ds_db := db, ds_handlers := (ds_handlers s)[i := h\<lparr>hd_phase := ph\<rparr>],
      ds_log := ds_log s @ logged env h\<rparr>)" (is "delivery_inv ?s'")
proof -
  have d: "distinct (map se_EffectKey (rd_effects (ds_db s)))" using assms(1) by (simp add: delivery_inv_def)
  obtain b t where moves: "effect_moves (hd_key h) b t (ds_db s) db" using step_moves_effects[OF assms(4) d] by blast
  have "key_ok k ?s'" for k
  proof (cases "k = hd_key h")
    case True
    then show ?thesis using step_key_ok[OF assms(2,3) refl assms(4,1)] by simp
  next
    case False
    show ?thesis
    proof (rule key_ok_cong)
      show "effect_moves (hd_key h) b t (ds_db s) (ds_db ?s')" using moves by simp
      show "callers k (ds_handlers ?s') = callers k (ds_handlers s)"
        using callers_other[OF assms(2)] False assms(3) by simp
      show "key_ok k s" using assms(1) by (simp add: delivery_inv_def)
    qed (use False results_logged[OF False] in simp_all)
  qed
  moreover have "reading_ok db x" if "x \<in> set ((ds_handlers s)[i := h\<lparr>hd_phase := ph\<rparr>])" for x
  proof -
    have "reading_ok db (h\<lparr>hd_phase := ph\<rparr>)"
      using new_reading[of env f "hd_event h" "hd_key h" "hd_phase h" "ds_db s"] assms(4)
      by (cases ph) (auto simp: reading_ok_def)
    with set_update_subset_insert[of "ds_handlers s" i "h\<lparr>hd_phase := ph\<rparr>"] that effects_kept(2)[OF assms(1) moves]
    show ?thesis by blast
  qed
  ultimately show ?thesis using effects_kept(1)[OF assms(1) moves] by (simp add: delivery_inv_def)
qed

lemma inv_dies:
  assumes "delivery_inv s" and "i < length (ds_handlers s)"
  shows "delivery_inv (s\<lparr>ds_handlers := (ds_handlers s)[i := (ds_handlers s ! i)\<lparr>hd_phase := PH_Done r\<rparr>]\<rparr>)"
    (is "delivery_inv ?s'")
proof -
  let ?h = "ds_handlers s ! i"
  have "key_ok k ?s'" for k
  proof (cases "k = hd_key ?h")
    case False
    have ok: "key_ok k s" using assms(1) by (simp add: delivery_inv_def)
    have "callers k (ds_handlers ?s') = callers k (ds_handlers s)" using callers_other[OF assms(2)] False by simp
    then show ?thesis using key_ok_eq[of k ?s' s] ok by simp
  next
    case True
    obtain A B where "callers k (ds_handlers s) = A @ (if in_call (hd_phase ?h) then [?h] else []) @ B"
      and "\<And>h'. hd_key h' = k \<Longrightarrow> callers k ((ds_handlers s)[i := h']) = A @ (if in_call (hd_phase h') then [h'] else []) @ B"
      using callers_update[OF assms(2) True] by metis
    then have before: "callers k (ds_handlers s) = A @ (if in_call (hd_phase ?h) then [?h] else []) @ B"
      and after: "callers k (ds_handlers ?s') = A @ B"
      using True by simp_all
    have ok: "key_ok k s" using assms(1) by (simp add: delivery_inv_def)
    show ?thesis
    proof (cases "find_effect k (ds_db s)")
      case None
      then show ?thesis using ok before after by (simp add: key_ok_def split: if_splits)
    next
      case (Some e)
      then show ?thesis using ok before after webhook_ok_dies[of "se_Status e" A "[?h]" B] unfolding key_ok_def
        by (auto split: if_splits)
    qed
  qed
  moreover have "reading_ok (ds_db s) x" if "x \<in> set ((ds_handlers s)[i := ?h\<lparr>hd_phase := PH_Done r\<rparr>])" for x
    using that set_update_subset_insert[of "ds_handlers s" i "?h\<lparr>hd_phase := PH_Done r\<rparr>"] assms(1)
    by (auto simp: delivery_inv_def reading_ok_def split: phase.splits)
  ultimately show ?thesis using assms(1) by (simp add: delivery_inv_def)
qed

lemma inv_reserves:
  assumes "delivery_inv s" and "se_Status e = ES_Reserved"
  shows "delivery_inv (s\<lparr>ds_db := snd (reserveJourneySideEffectTx now e (ds_db s))\<rparr>)"
proof (cases "snd (reserveJourneySideEffectTx now e (ds_db s)) = ds_db s")
  case True
  then show ?thesis using assms(1) by (simp add: delivery_inv_def key_ok_def)
next
  case False
  define e0 where "e0 = (if se_CreatedAt e = zero_time then e\<lparr>se_CreatedAt := now\<rparr> else e)"
  define e1 where "e1 = (if se_UpdatedAt e0 = zero_time then e0\<lparr>se_UpdatedAt := se_CreatedAt e0\<rparr> else e0)"
  have k: "se_EffectKey e1 = se_EffectKey e" and st: "se_Status e1 = ES_Reserved"
    using assms(2) by (simp_all add: e1_def e0_def)
  have none: "find_effect (se_EffectKey e) (ds_db s) = None"
    and db: "snd (reserveJourneySideEffectTx now e (ds_db s)) = (ds_db s)\<lparr>rd_effects := rd_effects (ds_db s) @ [e1]\<rparr>"
    using False k unfolding reserveJourneySideEffectTx_def Let_def e0_def[symmetric] e1_def[symmetric]
    by (simp_all split: if_splits option.splits)
  let ?db = "(ds_db s)\<lparr>rd_effects := rd_effects (ds_db s) @ [e1]\<rparr>"
  have find: "find_effect k' ?db =
      (case find_effect k' (ds_db s) of None \<Rightarrow> if k' = se_EffectKey e then Some e1 else None | Some x \<Rightarrow> Some x)" for k'
    by (simp add: find_effect_def sql_find_append k split: option.splits)
  have "key_ok k' (s\<lparr>ds_db := ?db\<rparr>)" for k'
  proof (cases "k' = se_EffectKey e")
    case True
    have "key_ok k' s" using assms(1) by (simp add: delivery_inv_def)
    then have "callers k' (ds_handlers s) = []" "results k' (ds_log s) = []" using none True by (simp_all add: key_ok_def)
    then show ?thesis using find[of k'] none True st by (simp add: key_ok_def webhook_ok_def)
  next
    case False
    then have "find_effect k' ?db = find_effect k' (ds_db s)" using find[of k'] by (simp split: option.splits)
    then have "key_ok k' (s\<lparr>ds_db := ?db\<rparr>) = key_ok k' s" by (intro key_ok_eq) simp_all
    then show ?thesis using assms(1) by (simp add: delivery_inv_def)
  qed
  moreover have "reading_ok ?db h" if "h \<in> set (ds_handlers s)" for h
  proof -
    have "reading_ok (ds_db s) h" using that assms(1) by (simp add: delivery_inv_def)
    then show ?thesis by (cases "hd_phase h") (auto simp: reading_ok_def find)
  qed
  moreover have "distinct (map se_EffectKey (rd_effects ?db))"
    using assms(1) none k by (auto simp: delivery_inv_def find_effect_def sql_find_None_iff)
  ultimately show ?thesis unfolding db by (simp add: delivery_inv_def)
qed

lemma inv_elsewhere:
  assumes "delivery_inv s" and "rd_effects db = rd_effects (ds_db s)"
  shows "delivery_inv (s\<lparr>ds_db := db\<rparr>)"
proof -
  have "find_effect k db = find_effect k (ds_db s)" for k by (simp add: find_effect_def assms(2))
  moreover from this have "key_ok k (s\<lparr>ds_db := db\<rparr>) = key_ok k s" for k by (intro key_ok_eq) simp_all
  moreover have "reading_ok db h = reading_ok (ds_db s) h" for h
    by (cases "hd_phase h") (simp_all add: reading_ok_def calculation)
  ultimately show ?thesis using assms by (simp add: delivery_inv_def)
qed

lemma inv_delivery_move: "delivery_move s s' \<Longrightarrow> delivery_inv s \<Longrightarrow> delivery_inv s'"
  by (induction rule: delivery_move.induct) (auto intro: inv_starts inv_steps inv_dies inv_reserves inv_elsewhere)

lemma inv_delivery_run: "delivery_run db0 s \<Longrightarrow> delivery_inv s"
proof (induction rule: delivery_run.induct)
  case run_starts
  then show ?case
    by (auto simp: delivery_inv_def key_ok_def callers_def webhook_ok_def split: option.splits)
next
  case run_moves
  then show ?case by (blast intro: inv_delivery_move)
qed

text \<open>C4.
  A webhook is never called twice without knowing that the first call failed: in every run of any
  number of handlers, under every interleaving of their calls, whatever fails, whoever dies and however
  often messages are delivered again, all calls for the effect key of a webhook but the last have
  returned a definite failure; and at most one handler at a time is between submitting the effect and
  recording its outcome.\<close>

theorem webhook_called_again_only_after_failure:
  assumes "delivery_run db0 s" and "find_effect k (ds_db s) = Some e" and "se_Channel e = ''webhook''"
  shows "list_all failed (butlast (results k (ds_log s))) \<and> length (callers k (ds_handlers s)) \<le> 1"
  using inv_delivery_run[OF assms(1)] assms(2,3)
  by (auto simp: delivery_inv_def key_ok_def webhook_ok_def dest!: spec[of _ k])

section \<open>A handler alone\<close>

lemma of_message_key: "of_message c k = (\<lambda>r. (ib_Consumer r, ib_MessageID r) = (c, k))"
  by (auto simp: of_message_def fun_eq_iff)

definition inbox_of :: "string \<Rightarrow> 'a realtime_db_scheme \<Rightarrow> inbox_row option" where
  "inbox_of k db = sql_find (of_message ''delivery-worker'' k) (rd_inbox db)"

definition held :: "string \<Rightarrow> string \<Rightarrow> 'a realtime_db_scheme \<Rightarrow> bool" where
  "held k token db \<longleftrightarrow> (\<exists>r. inbox_of k db = Some r \<and> ib_Status r = IS_Processing \<and> ib_ClaimToken r = token)"

lemma claim_step:
  fixes db :: realtime_db
  assumes "inbox_of (ev_ID ev) db = None \<or> (\<exists>r. inbox_of (ev_ID ev) db = Some r \<and> reclaimable (dv_now env) r)"
    and "ev_ID ev \<noteq> []" and "0 < dv_lease env"
  shows "\<exists>c db'. delivery_step env Works ev key PH_Claim db = ((PH_Read c, []), db') \<and> ic_Token c = dv_token env \<and>
    rd_effects db' = rd_effects db \<and> held (ev_ID ev) (dv_token env) db'"
proof (cases "inbox_of (ev_ID ev) db")
  case None
  then show ?thesis
    using assms(2,3)
    by (simp add: delivery_step_def rt_call_def ClaimInbox_def inbox_of_def held_def sql_find_append of_message_def)
next
  case (Some r)
  with assms have "reclaimable (dv_now env) r" by auto
  moreover have "sql_find (of_message ''delivery-worker'' (ev_ID ev))
      (sql_update (of_message ''delivery-worker'' (ev_ID ev)) g (rd_inbox db)) = Some (g r)"
    if "\<And>x. ib_Consumer (g x) = ib_Consumer x \<and> ib_MessageID (g x) = ib_MessageID x" for g
  proof -
    have "sql_find (\<lambda>r. (ib_Consumer r, ib_MessageID r) = (''delivery-worker'', ev_ID ev)) (rd_inbox db) = Some r"
      using Some by (simp add: inbox_of_def of_message_key)
    moreover from sql_find_SomeD[OF this] have "of_message ''delivery-worker'' (ev_ID ev) r" by (simp add: of_message_def)
    ultimately show ?thesis
      unfolding of_message_key[of "''delivery-worker''" "ev_ID ev"]
      by (subst sql_find_update_key) (simp_all add: that)
  qed
  ultimately show ?thesis
    using assms(2,3) Some
    by (simp add: delivery_step_def rt_call_def ClaimInbox_def inbox_of_def held_def)
qed

lemma transition_alone:
  assumes "distinct (map se_EffectKey (rd_effects db))" and "find_effect k db = Some e" and "se_Status e = before"
    and "k \<noteq> []" and "validSideEffectTransition before to"
  shows "\<exists>db'. TransitionSideEffect k before to now u err db = (Inr True, db') \<and> rd_inbox db' = rd_inbox db \<and>
    effect_moves k before to db db'"
proof -
  let ?p = "\<lambda>e. se_EffectKey e = k \<and> se_Status e = before"
  have e: "e \<in> set (rd_effects db)" "se_EffectKey e = k"
    using sql_find_SomeD[OF assms(2)[unfolded find_effect_def]] by auto
  have "sql_count ?p (rd_effects db) \<noteq> 0" using e assms(3) by (auto simp: sql_count_0_iff)
  moreover have "sql_count ?p (rd_effects db) \<le> sql_count (\<lambda>e. se_EffectKey e = k) (rd_effects db)"
    by (rule sql_count_mono) simp
  ultimately have "sql_count ?p (rd_effects db) = 1" using sql_count_key_le_1[OF assms(1), of k] by linarith
  with effect_moves_transition[OF assms(5,4), of db now u err] assms(4,5) show ?thesis
    by (simp add: TransitionSideEffect_def Let_def)
qed

lemma finish_step:
  fixes db :: realtime_db
  assumes "held (ev_ID ev) (ic_Token c) db"
  shows "\<exists>db'. delivery_step env Works ev key (PH_Complete c) db = ((PH_Done (Inr ()), []), db') \<and>
      rd_effects db' = rd_effects db \<and> (\<exists>r. inbox_of (ev_ID ev) db' = Some r \<and> ib_Status r = IS_Completed)"
    and "\<exists>db'. delivery_step env Works ev key (PH_Fail c e) db = ((PH_Done (Inl e), []), db') \<and>
      rd_effects db' = rd_effects db \<and> (\<exists>r. inbox_of (ev_ID ev) db' = Some r \<and> ib_Status r = IS_Failed)"
proof -
  let ?p = "holds_message ''delivery-worker'' (ev_ID ev) (ic_Token c)"
  obtain r where r: "inbox_of (ev_ID ev) db = Some r" "ib_Status r = IS_Processing" "ib_ClaimToken r = ic_Token c"
    using assms by (auto simp: held_def)
  then have set: "r \<in> set (rd_inbox db)" and p: "?p r"
    using sql_find_SomeD[OF r(1)[unfolded inbox_of_def]] by (auto simp: holds_message_def)
  then have "sql_count ?p (rd_inbox db) \<noteq> 0" by (auto simp: sql_count_0_iff)
  moreover have "sql_find (of_message ''delivery-worker'' (ev_ID ev)) (sql_update ?p g (rd_inbox db)) = Some (g r)"
    if "\<And>x. ib_Consumer (g x) = ib_Consumer x \<and> ib_MessageID (g x) = ib_MessageID x" for g
  proof -
    have "sql_find (\<lambda>r. (ib_Consumer r, ib_MessageID r) = (''delivery-worker'', ev_ID ev)) (rd_inbox db) = Some r"
      using r(1) by (simp add: inbox_of_def of_message_key)
    then show ?thesis
      unfolding of_message_key[of "''delivery-worker''" "ev_ID ev"]
      by (subst sql_find_update_key) (use that p in simp_all)
  qed
  ultimately show "\<exists>db'. delivery_step env Works ev key (PH_Complete c) db = ((PH_Done (Inr ()), []), db') \<and>
      rd_effects db' = rd_effects db \<and> (\<exists>r. inbox_of (ev_ID ev) db' = Some r \<and> ib_Status r = IS_Completed)"
    and "\<exists>db'. delivery_step env Works ev key (PH_Fail c e) db = ((PH_Done (Inl e), []), db') \<and>
      rd_effects db' = rd_effects db \<and> (\<exists>r. inbox_of (ev_ID ev) db' = Some r \<and> ib_Status r = IS_Failed)"
    by (simp_all add: delivery_step_def rt_call_def answered_def CompleteInbox_def FailConsumerMessage_def inbox_of_def)
qed

text \<open>What a handler is ready to run on: its message is not being handled, its effect is as it was
  reserved or has failed, and the hash of the body is the one of the reservation.\<close>

definition ready :: "delivery_env \<Rightarrow> event_envelope \<Rightarrow> string \<Rightarrow> realtime_db \<Rightarrow> bool" where
  "ready env ev key db \<longleftrightarrow> key \<noteq> [] \<and> ev_ID ev \<noteq> [] \<and> 0 < dv_lease env \<and>
     (inbox_of (ev_ID ev) db = None \<or> (\<exists>r. inbox_of (ev_ID ev) db = Some r \<and> reclaimable (dv_now env) r)) \<and>
     distinct (map se_EffectKey (rd_effects db)) \<and>
     (\<exists>e. find_effect key db = Some e \<and> se_Status e \<in> {ES_Reserved, ES_Failed} \<and>
        (se_RequestHash e = [] \<or> dv_hash env ev = se_RequestHash e))"

lemma handler_alone:
  assumes "ready env ev key db" and "ExecuteJourneySideEffect (dv_side env) ev key = (r, calls)"
  shows "\<exists>db' e' i. delivery_phases env (replicate 6 Works) ev key PH_Claim [] db =
      ((PH_Done (case r of None \<Rightarrow> Inr () | Some e \<Rightarrow> Inl e), calls), db') \<and>
    distinct (map se_EffectKey (rd_effects db')) \<and>
    find_effect key db' = Some e' \<and> se_Status e' = recorded_status r \<and>
    (\<forall>e. find_effect key db = Some e \<longrightarrow> se_Channel e' = se_Channel e \<and> se_RequestHash e' = se_RequestHash e) \<and>
    inbox_of (ev_ID ev) db' = Some i \<and> ib_Status i = (if r = None then IS_Completed else IS_Failed)"
proof -
  obtain e where e: "find_effect key db = Some e" "se_Status e \<in> {ES_Reserved, ES_Failed}"
      "se_RequestHash e = [] \<or> dv_hash env ev = se_RequestHash e"
    and k: "key \<noteq> []" and d: "distinct (map se_EffectKey (rd_effects db))"
    using assms(1) by (auto simp: ready_def)
  have ek: "se_EffectKey e = key" using sql_find_SomeD[OF e(1)[unfolded find_effect_def]] by auto
  obtain c db1 where s1: "delivery_step env Works ev key PH_Claim db = ((PH_Read c, []), db1)"
    and c: "ic_Token c = dv_token env" and eff1: "rd_effects db1 = rd_effects db" and h1: "held (ev_ID ev) (dv_token env) db1"
    using claim_step[of ev db env key] assms(1) by (auto simp: ready_def)
  have f1: "find_effect key db1 = Some e" using e(1) eff1 by (simp add: find_effect_def)
  have s2: "delivery_step env Works ev key (PH_Read c) db1 = ((PH_Decide c e, []), db1)"
    by (simp add: delivery_step_def rt_call_def GetSideEffect_def k f1)
  obtain db2 where t2: "TransitionSideEffect key (se_Status e) ES_Submitted (dv_later env) (dv_now env) None db1 = (Inr True, db2)"
    and in2: "rd_inbox db2 = rd_inbox db1" and m2: "effect_moves key (se_Status e) ES_Submitted db1 db2"
    using transition_alone[of db1 key e "se_Status e" ES_Submitted "dv_later env" "dv_now env" None] d eff1 f1 k e(2) by auto
  have s3: "delivery_step env Works ev key (PH_Decide c e) db1 = ((PH_Execute c, []), db2)"
    using e(2,3) t2 by (auto simp: delivery_step_def decide_def ek rt_call_def)
  have s4: "delivery_step env Works ev key (PH_Execute c) db2 = ((PH_Record c r, calls), db2)"
    by (simp add: delivery_step_def assms(2))
  obtain e2 where e2: "find_effect key db2 = Some e2" "se_Status e2 = ES_Submitted" "se_Channel e2 = se_Channel e"
      "se_RequestHash e2 = se_RequestHash e"
    using effect_movesD[OF m2 f1] by auto
  have d2: "distinct (map se_EffectKey (rd_effects db2))" using m2 d eff1 by (simp add: effect_moves_def)
  obtain db3 where t3: "TransitionSideEffect key ES_Submitted (recorded_status r) (dv_later env) (dv_later env)
        (map_option snd r) db2 = (Inr True, db3)"
    and in3: "rd_inbox db3 = rd_inbox db2" and m3: "effect_moves key ES_Submitted (recorded_status r) db2 db3"
    using transition_alone[OF d2 e2(1,2) k, of "recorded_status r" "dv_later env" "dv_later env" "map_option snd r"]
      recorded_status_cases[of r] by auto
  have s5: "delivery_step env Works ev key (PH_Record c r) db2 =
      (((case r of None \<Rightarrow> PH_Complete c | Some x \<Rightarrow> PH_Fail c x), []), db3)"
    using t3 by (auto simp: delivery_step_def rt_call_def split: option.splits)
  obtain e3 where e3: "find_effect key db3 = Some e3" "se_Status e3 = recorded_status r" "se_Channel e3 = se_Channel e"
      "se_RequestHash e3 = se_RequestHash e"
    using effect_movesD[OF m3 e2(1)] e2(2-4) by auto
  have d3: "distinct (map se_EffectKey (rd_effects db3))" using m3 d2 by (simp add: effect_moves_def)
  have h3: "held (ev_ID ev) (ic_Token c) db3" using h1 c by (simp add: held_def inbox_of_def in2 in3)
  obtain db4 i where s6: "delivery_step env Works ev key (case r of None \<Rightarrow> PH_Complete c | Some x \<Rightarrow> PH_Fail c x) db3 =
        ((PH_Done (case r of None \<Rightarrow> Inr () | Some x \<Rightarrow> Inl x), []), db4)"
    and eff4: "rd_effects db4 = rd_effects db3" and i: "inbox_of (ev_ID ev) db4 = Some i"
      "ib_Status i = (if r = None then IS_Completed else IS_Failed)"
    using finish_step(1)[OF h3, of env key] finish_step(2)[OF h3, of env key "the r"] by (cases r) auto
  have "delivery_phases env (replicate 6 Works) ev key PH_Claim [] db =
      ((PH_Done (case r of None \<Rightarrow> Inr () | Some e \<Rightarrow> Inl e), calls), db4)"
    by (simp add: eval_nat_numeral s1 s2 s3 s4 s5 s6)
  moreover have "find_effect key db4 = Some e3" using e3(1) eff4 by (simp add: find_effect_def)
  ultimately show ?thesis using e3 i e(1) d3 eff4 by auto
qed

text \<open>C26.
  A handler that runs alone records what happened: it executes the side effect once, the row of the
  effect ends confirmed, failed or unknown as the executor's answer was, the inbox row of the message
  completed or failed, and the broker is told to forget the message, to put it aside when the outcome is
  unknown, and to bring it again in half a minute when it failed.\<close>

theorem delivery_records_outcome:
  assumes "decodeDeliveryCommand is_uuid m = Inr (ev, key)" and "ready env ev key db"
    and "ExecuteJourneySideEffect (dv_side env) ev key = (r, calls)"
  shows "\<exists>db' e' i. Handle_delivery is_uuid env (replicate 6 Works) m db =
      ((PH_Done (case r of None \<Rightarrow> Inr () | Some e \<Rightarrow> Inl e), calls), db') \<and>
    find_effect key db' = Some e' \<and> se_Status e' = recorded_status r \<and>
    inbox_of (ev_ID ev) db' = Some i \<and> ib_Status i = (if r = None then IS_Completed else IS_Failed) \<and>
    (fst ` set_option r \<subseteq> {EC_Unknown, EC_Other} \<longrightarrow>
       HandleDelivery (case r of None \<Rightarrow> Inr () | Some e \<Rightarrow> Inl e) =
       (case se_Status e' of ES_Confirmed \<Rightarrow> Ack | ES_Unknown \<Rightarrow> DeadLetter | _ \<Rightarrow> Retry Retry30Seconds))"
proof -
  obtain db' e' i where h: "delivery_phases env (replicate 6 Works) ev key PH_Claim [] db =
      ((PH_Done (case r of None \<Rightarrow> Inr () | Some e \<Rightarrow> Inl e), calls), db')"
    and e': "find_effect key db' = Some e'" "se_Status e' = recorded_status r"
    and i: "inbox_of (ev_ID ev) db' = Some i" "ib_Status i = (if r = None then IS_Completed else IS_Failed)"
    using handler_alone[OF assms(2,3)] by blast
  have "HandleDelivery (case r of None \<Rightarrow> Inr () | Some e \<Rightarrow> Inl e) =
       (case se_Status e' of ES_Confirmed \<Rightarrow> Ack | ES_Unknown \<Rightarrow> DeadLetter | _ \<Rightarrow> Retry Retry30Seconds)"
    if "fst ` set_option r \<subseteq> {EC_Unknown, EC_Other}"
    using that e'(2) by (cases r) (auto simp: HandleDelivery_def recorded_status_def)
  moreover have "Handle_delivery is_uuid env (replicate 6 Works) m db =
      ((PH_Done (case r of None \<Rightarrow> Inr () | Some e \<Rightarrow> Inl e), calls), db')"
    using h by (simp add: Handle_delivery_def assms(1))
  ultimately show ?thesis using e' i by blast
qed

section \<open>Responses that break off\<close>

text \<open>A command for a webhook whose parts are all there.\<close>

definition webhook_command :: "side_env \<Rightarrow> event_envelope \<Rightarrow> webhook_config \<Rightarrow> bool" where
  "webhook_command env ev c \<longleftrightarrow> (\<exists>d. ev_Data ev = ED_SideEffect d \<and> sd_NodeType d = NT_Webhook \<and>
     sd_ContactAutomationID d \<noteq> [] \<and> sd_AutomationID d \<noteq> [] \<and> sd_ContactEmail d \<noteq> [] \<and> sd_NodeID d \<noteq> [] \<and>
     parseWebhookNodeConfig (case sd_NodeConfig d of None \<Rightarrow> [] | Some cfg \<Rightarrow> cfg) = Inr c) \<and>
     (\<exists>email. sx_contact env = Inr email)"

lemma webhook_command_executes:
  assumes "webhook_command env ev c" and "key \<noteq> []"
  shows "snd (ExecuteJourneySideEffect env ev key) =
      (case ne_webhook (sx_node env) c of HA_NotSent _ \<Rightarrow> [] | _ \<Rightarrow> [Call_Webhook (Some key)])"
    and "ne_webhook (sx_node env) c = HA_Unreadable False text \<Longrightarrow>
      \<exists>s. fst (ExecuteJourneySideEffect env ev key) = Some (EC_Other, s)"
    and "ne_webhook (sx_node env) c = HA_Unreadable True text \<Longrightarrow>
      \<exists>s. fst (ExecuteJourneySideEffect env ev key) = Some (EC_Unknown, s)"
proof -
  obtain d email where d: "ev_Data ev = ED_SideEffect d" "sd_NodeType d = NT_Webhook" "sd_ContactAutomationID d \<noteq> []"
      "sd_AutomationID d \<noteq> []" "sd_ContactEmail d \<noteq> []" "sd_NodeID d \<noteq> []"
      "parseWebhookNodeConfig (case sd_NodeConfig d of None \<Rightarrow> [] | Some cfg \<Rightarrow> cfg) = Inr c" "sx_contact env = Inr email"
    using assms(1) by (auto simp: webhook_command_def)
  have p: "parseWebhookNodeConfig (config_of (command_node d)) = Inr c"
    using d(7) by (simp add: config_of_def command_node_def)
  have run: "ExecuteJourneySideEffect env ev key =
      (case exec_webhook (sx_node env) (command_params (ev_WorkspaceID ev) d (Some email) key) of
         (Inl err, calls) \<Rightarrow> (Some (side_effect_error d key err), calls)
       | (Inr _, calls) \<Rightarrow> (None, calls))"
    using assms(2) d(1-6,8)
    by (simp add: ExecuteJourneySideEffect_def journeySideEffectChannel_def has_executor_def execute_node_def
        command_params_def command_node_def)
  show "snd (ExecuteJourneySideEffect env ev key) =
      (case ne_webhook (sx_node env) c of HA_NotSent _ \<Rightarrow> [] | _ \<Rightarrow> [Call_Webhook (Some key)])"
    and "ne_webhook (sx_node env) c = HA_Unreadable False text \<Longrightarrow>
      \<exists>s. fst (ExecuteJourneySideEffect env ev key) = Some (EC_Other, s)"
    and "ne_webhook (sx_node env) c = HA_Unreadable True text \<Longrightarrow>
      \<exists>s. fst (ExecuteJourneySideEffect env ev key) = Some (EC_Unknown, s)"
    unfolding run
    using p assms(2) d(2)
    by (auto simp: exec_webhook_def command_params_def Let_def node_text_def side_effect_error_def
        split: http_answer.splits bool.splits)
qed

text \<open>  A response that breaks off while it is read, with an error that is no network error - an unexpected
  end of the body is none - counts as a failure, although the webhook has been called and may have been
  served: the effect is recorded as failed, the message comes again, and the next handler calls the
  webhook a second time. Broken off by a network error the same response leaves the outcome unknown.\<close>

theorem cut_response_is_called_again:
  assumes "decodeDeliveryCommand is_uuid m = Inr (ev, key)" and "ready env ev key db"
    and "webhook_command (dv_side env) ev c" and "ne_webhook (sx_node (dv_side env)) c = HA_Unreadable False text"
    and "webhook_command (dv_side env') ev c" and "ne_webhook (sx_node (dv_side env')) c = HA_Response code body"
    and "dv_hash env' = dv_hash env" and "0 < dv_lease env'"
  shows "\<exists>e db1 res db2. Handle_delivery is_uuid env (replicate 6 Works) m db =
      ((PH_Done (Inl e), [Call_Webhook (Some key)]), db1) \<and> HandleDelivery (Inl e) = Retry Retry30Seconds \<and>
    Handle_delivery is_uuid env' (replicate 6 Works) m db1 = ((PH_Done res, [Call_Webhook (Some key)]), db2)"
proof -
  have key: "key \<noteq> []" using assms(2) by (simp add: ready_def)
  obtain s where x: "ExecuteJourneySideEffect (dv_side env) ev key = (Some (EC_Other, s), [Call_Webhook (Some key)])"
    using webhook_command_executes(1,2)[OF assms(3) key] assms(4)
    by (metis http_answer.simps(19) prod.collapse)
  obtain db1 e1 i where h: "delivery_phases env (replicate 6 Works) ev key PH_Claim [] db =
      ((PH_Done (Inl (EC_Other, s)), [Call_Webhook (Some key)]), db1)"
    and d1: "distinct (map se_EffectKey (rd_effects db1))"
    and e1: "find_effect key db1 = Some e1" "se_Status e1 = ES_Failed"
      "\<forall>e. find_effect key db = Some e \<longrightarrow> se_RequestHash e1 = se_RequestHash e"
    and i: "inbox_of (ev_ID ev) db1 = Some i" "ib_Status i = IS_Failed"
    using handler_alone[OF assms(2) x] by (auto simp: recorded_status_def)
  have "ready env' ev key db1"
    using assms(2,7,8) d1 e1 i by (auto simp: ready_def reclaimable_def)
  moreover obtain r' where "ExecuteJourneySideEffect (dv_side env') ev key = (r', [Call_Webhook (Some key)])"
    using webhook_command_executes(1)[OF assms(5) key] assms(6) by (metis http_answer.simps(20) prod.collapse)
  ultimately obtain res db2 where "delivery_phases env' (replicate 6 Works) ev key PH_Claim [] db1 =
      ((PH_Done res, [Call_Webhook (Some key)]), db2)"
    using handler_alone by blast
  with h show ?thesis by (auto simp: Handle_delivery_def assms(1) HandleDelivery_def)
qed

section \<open>Concrete deliveries\<close>

definition hook_command :: side_effect_data where
  "hook_command = \<lparr>sd_ContactAutomationID = ''j'', sd_AutomationID = ''a'', sd_AutomationName = ''welcome'',
     sd_AutomationVersion = 1, sd_AutomationListID = [], sd_AutomationExitReply = False, sd_StateVersion = 1,
     sd_ContactEmail = ''a@x'', sd_NodeID = ''n'', sd_NodeType = NT_Webhook,
     sd_NodeConfig = Some [(''url'', JStr ''https://x'')]\<rparr>"

definition hook_event :: event_envelope where
  "hook_event = \<lparr>ev_ID = ''m'', ev_EventID = ''e'', ev_Type = ''journey.side_effect.requested'', ev_SchemaVersion = 1,
     ev_WorkspaceID = ''ws'', ev_Subject = \<lparr>es_Type = ''contact_automation'', es_ID = ''j'', es_CustomerID = [],
       es_ContactEmail = ''a@x''\<rparr>, ev_Source = ''journey-worker'', ev_OccurredAt = 1, ev_ReceivedAt = 1,
     ev_CorrelationID = ''e'', ev_CausationID = None, ev_TraceID = [], ev_Data = ED_SideEffect hook_command\<rparr>"

definition hook_message :: broker_message where
  "hook_message = \<lparr>bm_ID = ''m'', bm_CorrelationID = ''c'', bm_Exchange = JobsExchange,
     bm_RoutingKey = ''delivery.webhook'', bm_Type = ''journey.side_effect.requested'', bm_SchemaVersion = 1, bm_Timestamp = 1,
     bm_Headers = [(''effect_key'', HV_Str ''k'')], bm_Body = Some hook_event\<rparr>"

definition hook_db :: realtime_db where
  "hook_db = \<lparr>rd_outbox = [], rd_inbox = [], rd_effects = [\<lparr>se_EffectKey = ''k'', se_ContactAutomationID = ''j'',
     se_AutomationVersion = 1, se_NodeID = ''n'', se_ExecutionVersion = 1, se_Channel = ''webhook'',
     se_Status = ES_Reserved, se_ProviderMessageID = None, se_RequestHash = ''h'', se_Attempts = 0,
     se_LastError = None, se_CreatedAt = 1, se_UpdatedAt = 1\<rparr>]\<rparr>"

definition quiet_nodes :: "http_answer \<Rightarrow> node_env" where
  "quiet_nodes answer = \<lparr>ne_now = 100, ne_connection = None, ne_matches = (\<lambda>_ _. Inr True),
     ne_list = (\<lambda>_ _. LA_Status ''active''), ne_add_to_list = (\<lambda>_ _. None), ne_remove_from_list = (\<lambda>_ _. None),
     ne_template = (\<lambda>_. Inr (''marketing'', [])), ne_render = (\<lambda>_. None), ne_enqueue = (\<lambda>_. None),
     ne_uuid = ''u1'', ne_uuid2 = ''u2'', ne_sha1 = (\<lambda>s. s), ne_webhook = (\<lambda>_. answer), ne_channel = (\<lambda>_. CA_Confirmed)\<rparr>"

definition hook_env :: "http_answer \<Rightarrow> delivery_env" where
  "hook_env answer = \<lparr>dv_now = 100, dv_later = 200, dv_lease = 60, dv_token = ''t'', dv_hash = (\<lambda>_. ''h''),
     dv_side = \<lparr>sx_channels = True, sx_contact = Inr ''a@x'', sx_node = quiet_nodes answer\<rparr>\<rparr>"

lemma hook_decodes: "decodeDeliveryCommand (\<lambda>_. True) hook_message = Inr (hook_event, ''k'')"
  by (simp add: decodeDeliveryCommand_def hook_message_def hook_event_def EventEnvelope_Validate_def blank_def bm_EffectKey_def
      is_re_space_def)

lemma hook_ready: "ready (hook_env answer) hook_event ''k'' hook_db"
  by (simp add: ready_def hook_env_def hook_event_def hook_db_def inbox_of_def find_effect_def)

lemma hook_webhook:
  "webhook_command (dv_side (hook_env answer)) hook_event \<lparr>wh_URL = ''https://x'', wh_Secret = None\<rparr>"
  by (simp add: webhook_command_def hook_env_def hook_event_def hook_command_def parseWebhookNodeConfig_def
      described_def decode_string_def decode_string_ptr_def field_of_def validated_def WebhookNodeConfig_Validate_def)

lemma hook_executes:
  "ExecuteJourneySideEffect (dv_side (hook_env (HA_Response 500 []))) hook_event ''k'' =
     (Some (EC_Other, ''execute journey side effect k: webhook returned server error: ''), [Call_Webhook (Some ''k'')])"
  by (simp add: ExecuteJourneySideEffect_def hook_event_def hook_command_def hook_env_def quiet_nodes_def
      journeySideEffectChannel_def has_executor_def execute_node_def exec_webhook_def command_params_def
      command_node_def config_of_def parseWebhookNodeConfig_def described_def decode_string_def decode_string_ptr_def
      field_of_def validated_def WebhookNodeConfig_Validate_def node_text_def side_effect_error_def)

lemma delivery_records_outcome_witness:
  "\<exists>db' e'. Handle_delivery (\<lambda>_. True) (hook_env (HA_Response 500 [])) (replicate 6 Works) hook_message hook_db =
      ((PH_Done (Inl (EC_Other, ''execute journey side effect k: webhook returned server error: '')),
        [Call_Webhook (Some ''k'')]), db') \<and>
    find_effect ''k'' db' = Some e' \<and> se_Status e' = ES_Failed"
  using delivery_records_outcome[OF hook_decodes hook_ready hook_executes] by (auto simp: recorded_status_def)

lemma cut_response_is_called_again_witness:
  "\<exists>e db1 res db2. Handle_delivery (\<lambda>_. True) (hook_env (HA_Unreadable False ''unexpected EOF'')) (replicate 6 Works)
      hook_message hook_db = ((PH_Done (Inl e), [Call_Webhook (Some ''k'')]), db1) \<and>
    HandleDelivery (Inl e) = Retry Retry30Seconds \<and>
    Handle_delivery (\<lambda>_. True) (hook_env (HA_Response 200 [])) (replicate 6 Works) hook_message db1 =
      ((PH_Done res, [Call_Webhook (Some ''k'')]), db2)"
  by (rule cut_response_is_called_again[OF hook_decodes hook_ready hook_webhook _ hook_webhook])
    (simp_all add: hook_env_def quiet_nodes_def)

text \<open>A run that calls the webhook: a handler takes its phases one after the other.\<close>

definition advance_handler :: "delivery_env \<Rightarrow> nat \<Rightarrow> delivery_system \<Rightarrow> delivery_system" where
  "advance_handler env i s =
     (let h = ds_handlers s ! i
      in case delivery_step env Works (hd_event h) (hd_key h) (hd_phase h) (ds_db s) of
           ((ph, calls), db) \<Rightarrow> s\<lparr>ds_db := db, ds_handlers := (ds_handlers s)[i := h\<lparr>hd_phase := ph\<rparr>],
             ds_log := ds_log s @ logged env h\<rparr>)"

lemma advance_run:
  assumes "delivery_run db0 s" and "i < length (ds_handlers s)"
  shows "delivery_run db0 (advance_handler env i s)"
proof -
  let ?h = "ds_handlers s ! i"
  obtain ph calls db where st: "delivery_step env Works (hd_event ?h) (hd_key ?h) (hd_phase ?h) (ds_db s) = ((ph, calls), db)"
    by (metis surj_pair)
  show ?thesis
    using run_moves[OF assms(1) delivery_move.steps[OF assms(2) refl st]] by (simp add: advance_handler_def Let_def st)
qed

lemma advance_length: "length (ds_handlers (advance_handler env i s)) = length (ds_handlers s)"
  by (simp add: advance_handler_def Let_def split: prod.splits)

definition hook_start :: delivery_system where
  "hook_start = \<lparr>ds_db = hook_db, ds_handlers = [\<lparr>hd_event = hook_event, hd_key = ''k'', hd_phase = PH_Claim\<rparr>], ds_log = []\<rparr>"

lemma hook_start_run: "delivery_run hook_db hook_start"
proof -
  have "delivery_run hook_db \<lparr>ds_db = hook_db, ds_handlers = [], ds_log = []\<rparr>"
    by (rule run_starts) (simp add: hook_db_def)
  from run_moves[OF this delivery_move.starts[OF hook_decodes]] show ?thesis by (simp add: hook_start_def)
qed

abbreviation called :: "nat \<Rightarrow> delivery_system" where
  "called n \<equiv> (advance_handler (hook_env (HA_Response 500 [])) 0 ^^ n) hook_start"

lemma called_run: "delivery_run hook_db (called n)"
proof (induction n)
  case (Suc n)
  have "length (ds_handlers (called n)) = 1" by (induction n) (simp_all add: advance_length, simp add: hook_start_def)
  then show ?case using advance_run[OF Suc.IH, of 0] by simp
qed (simp add: hook_start_run)

lemma webhook_called_again_only_after_failure_witness:
  "results ''k'' (ds_log (called 4)) \<noteq> [] \<and> list_all failed (butlast (results ''k'' (ds_log (called 4)))) \<and>
   length (callers ''k'' (ds_handlers (called 4))) \<le> 1"
proof -
  have step: "called (Suc n) = advance_handler (hook_env (HA_Response 500 [])) 0 (called n)" for n by simp
  have c: "called 4 = called (Suc (Suc (Suc (Suc 0))))" by (rule arg_cong) simp
  have "\<exists>e. find_effect ''k'' (ds_db (called 4)) = Some e \<and> se_Channel e = ''webhook''"
    and "results ''k'' (ds_log (called 4)) \<noteq> []"
    unfolding c step
    by (simp_all add: advance_handler_def hook_start_def delivery_step_def rt_call_def ClaimInbox_def hook_db_def
        hook_env_def hook_event_def GetSideEffect_def find_effect_def decide_def TransitionSideEffect_def logged_def
        split: prod.splits)
  then show ?thesis using webhook_called_again_only_after_failure[OF called_run, of "''k''" 4] by blast
qed

end
