(* ===== verification/Journey_Outcomes.thy ===== *)
theory Journey_Outcomes
  imports Journey_Commits Side_Effect_Runs
begin

text \<open>
  Where the two engines differ: the e-mail node of a contact who has unsubscribed, which ends the
  journey in the one and is passed over in the other.
\<close>

section \<open>E-mails to unsubscribed contacts\<close>

text \<open>The node is an e-mail of marketing to a list from which the contact has gone.\<close>

definition to_unsubscribed :: "node_env \<Rightarrow> automation \<Rightarrow> automation_node \<Rightarrow> string \<Rightarrow> string \<Rightarrow> bool" where
  "to_unsubscribed env a n email status \<longleftrightarrow> an_Type n = NT_Email \<and>
     (\<exists>c tmpl. parseEmailNodeConfig (config_of n) = Inr c \<and> ne_template env c = Inr tmpl \<and>
        isSubscriptionSensitiveCategory (fst tmpl) (snd tmpl)) \<and>
     a_ListID a \<noteq> [] \<and> ne_list env email (a_ListID a) = LA_Status status \<and> status \<in> set unsubscribed_statuses"

definition exit_result :: "string \<Rightarrow> node_result" where
  "exit_result reason = \<lparr>nr_NextNodeID = None, nr_ScheduledAt = None, nr_Status = JS_Exited, nr_ExitReason = Some reason\<rparr>"

lemma exec_email_unsubscribed:
  assumes "to_unsubscribed env a n email status"
    and "np_Node p = n'" and "config_of n' = config_of n" and "a_ListID (np_Automation p) = a_ListID a"
    and "np_ContactData p = Some email"
  shows "exec_email env p = (Inr (exit_result status), [])"
  using assms by (auto simp: to_unsubscribed_def exec_email_def subscription_check_def exit_result_def)

text \<open>  A marketing e-mail to a contact who has unsubscribed from the list of the automation: the legacy engine
  ends the journey there, with the status of the list as the reason. The realtime engine has planned the
  next node before the e-mail is looked at; when the command is executed the same check stops the e-mail,
  but its result is dropped - no error, no e-mail - so the contact goes on to the rest of the
  automation.\<close>

theorem unsubscribed_contacts_go_on:
  assumes "to_unsubscribed env a n (j_ContactEmail (cl_Journey c)) status"
    and "shouldSkipAudienceTouch (pe_audience pe) (cl_Journey c) n = Inr False"
    and "j_Status (cl_Journey c) = JS_Active" and "j_CurrentNodeID (cl_Journey c) = Some (an_ID n)"
    and "pe_automation_error pe = None" and "GetAutomation ws (j_AutomationID (cl_Journey c)) db = Some a"
    and "a_Status a = AS_Live" and "GetNodeByID a (an_ID n) = Some n" and "an_NextNodeID n = Some onto"
    and "j_ID (cl_Journey c) \<noteq> []" and "a_ID a \<noteq> []" and "j_ContactEmail (cl_Journey c) \<noteq> []" and "an_ID n \<noteq> []"
    and "te_audience te = pe_audience pe" and "(te_node te i)\<lparr>ne_now := te_now te i\<rparr> = env"
    and "sx_contact sx = Inr (j_ContactEmail (cl_Journey c))" and "sx_node sx = env"
  shows "(\<exists>r. node_step te i ws (cl_Journey c) n a (j_ContactEmail (cl_Journey c)) = (Inr r, []) \<and>
      j_Status (moved (te_after te i) r (cl_Journey c)) = JS_Exited \<and>
      j_ExitReason (moved (te_after te i) r (cl_Journey c)) = Some status) \<and>
    (\<exists>commit m. PlanClaimedJourneyStep pe ws c now db = Inr commit \<and>
      j_Status (jc_Journey commit) = JS_Active \<and> j_CurrentNodeID (jc_Journey commit) = Some onto \<and>
      jc_Command commit = Some m \<and>
      ExecuteJourneySideEffect sx (om_Payload m) (the (om_EffectKey m)) = (None, []))"
proof
  let ?j = "cl_Journey c" and ?e = "j_ContactEmail (cl_Journey c)"
  have t: "an_Type n = NT_Email" using assms(1) by (simp add: to_unsubscribed_def)
  have step: "node_step te i ws ?j n a ?e = (Inr (exit_result status), [])"
    using exec_email_unsubscribed[OF assms(1), of "params_of ws ?j n a (Some ?e) []" n] assms(2,14,15) t
    by (simp add: node_step_def params_of_sel execute_node_def)
  then show "\<exists>r. node_step te i ws ?j n a ?e = (Inr r, []) \<and>
      j_Status (moved (te_after te i) r ?j) = JS_Exited \<and> j_ExitReason (moved (te_after te i) r ?j) = Some status"
    by (intro exI[of _ "exit_result status"]) (simp add: moved_def exit_result_def)
  let ?commit = "planJourneySideEffect pe ws c a n ''email'' now"
  let ?d = "side_effect_data_of c a n" and ?key = "effect_key ws c (an_ID n)"
  have plan: "PlanClaimedJourneyStep pe ws c now db = Inr ?commit"
    using assms(2-8) t by (simp add: PlanClaimedJourneyStep_def journeySideEffectChannel_def)
  have cfg: "config_of (command_node ?d) = config_of n"
    by (simp add: config_of_def command_node_def side_effect_data_of_def)
  have "exec_email env (command_params ws ?d (Some ?e) ?key) = (Inr (exit_result status), [])"
    by (rule exec_email_unsubscribed[OF assms(1) refl])
      (simp_all add: command_params_def cfg[unfolded side_effect_data_of_def] command_automation_def side_effect_data_of_def)
  then have "execute_node env (command_params ws ?d (Some ?e) ?key) ?e = (Inr (exit_result status), [])"
    using t by (simp add: execute_node_def command_params_def command_node_def side_effect_data_of_def)
  moreover have "?key \<noteq> []" by (simp add: effect_key_def)
  ultimately have "ExecuteJourneySideEffect sx (side_effect_envelope pe ws c a n now) ?key = (None, [])"
    using assms(10-13,16,17) t
    by (simp add: ExecuteJourneySideEffect_def side_effect_envelope_def Let_def side_effect_data_of_def
        journeySideEffectChannel_def has_executor_def)
  then show "\<exists>commit m. PlanClaimedJourneyStep pe ws c now db = Inr commit \<and>
      j_Status (jc_Journey commit) = JS_Active \<and> j_CurrentNodeID (jc_Journey commit) = Some onto \<and>
      jc_Command commit = Some m \<and> ExecuteJourneySideEffect sx (om_Payload m) (the (om_EffectKey m)) = (None, [])"
    using plan assms(3,9) by (simp add: planJourneySideEffect_def Let_def)
qed

text \<open>Such a contact.\<close>

definition mail_node :: automation_node where
  "mail_node = node_at ''n0'' NT_Email [(''template_id'', JStr ''welcome'')] (Some ''n1'')"

definition gone_env :: node_env where
  "gone_env = (quiet_node_env 100)\<lparr>ne_list := (\<lambda>_ _. LA_Status ''unsubscribed'')\<rparr>"

lemma unsubscribed_contacts_go_on_witness:
  "(\<exists>r. node_step (quiet_tick\<lparr>te_node := (\<lambda>_. gone_env)\<rparr>) 0 ''ws'' (journey_on ''n0'') mail_node
        (live_automation [mail_node]) ''a@x'' = (Inr r, []) \<and>
      j_Status (moved 101 r (journey_on ''n0'')) = JS_Exited \<and>
      j_ExitReason (moved 101 r (journey_on ''n0'')) = Some ''unsubscribed'') \<and>
   (\<exists>commit m. PlanClaimedJourneyStep quiet_plan ''ws'' (claim_of (row_on ''n0'') ''t'') 100
        (db_of (live_automation [mail_node]) (row_on ''n0'')) = Inr commit \<and>
      j_Status (jc_Journey commit) = JS_Active \<and> j_CurrentNodeID (jc_Journey commit) = Some ''n1'' \<and>
      jc_Command commit = Some m \<and>
      ExecuteJourneySideEffect \<lparr>sx_channels = True, sx_contact = Inr ''a@x'', sx_node = gone_env\<rparr>
        (om_Payload m) (the (om_EffectKey m)) = (None, []))"
proof -
  let ?c = "claim_of (row_on ''n0'') ''t''" and ?a = "live_automation [mail_node]"
  let ?te = "quiet_tick\<lparr>te_node := (\<lambda>_. gone_env)\<rparr>"
  let ?sx = "\<lparr>sx_channels = True, sx_contact = Inr ''a@x'', sx_node = gone_env\<rparr>"
  have j: "cl_Journey ?c = journey_on ''n0''" by (simp add: claim_of_def read_journey_def row_on_def journey_on_def)
  have e: "j_ContactEmail (journey_on ''n0'') = ''a@x''" and te: "te_after ?te 0 = 101"
    by (simp_all add: journey_on_def quiet_tick_def)
  have u: "to_unsubscribed gone_env ?a mail_node (j_ContactEmail (cl_Journey ?c)) ''unsubscribed''"
    by (simp add: to_unsubscribed_def mail_node_def node_at_def config_of_def parseEmailNodeConfig_def described_def
        decode_string_def decode_int_def decode_string_ptr_def field_of_def validated_def EmailNodeConfig_Validate_def
        gone_env_def quiet_node_env_def isSubscriptionSensitiveCategory_def EffectiveTemplateCategoryPurpose_def
        live_automation_def unsubscribed_statuses_def)
  show ?thesis
    by (rule unsubscribed_contacts_go_on[OF u, where te = ?te and i = 0 and pe = quiet_plan and ws = "''ws''" and sx = ?sx
          and db = "db_of ?a (row_on ''n0'')" and now = 100 and onto = "''n1''", unfolded j e te])
      (simp_all add: shouldSkipAudienceTouch_def GetAutomation_def GetNodeByID_def gone_env_def mail_node_def sample_defs)
qed

end
