(* ===== verification/Broker_Runs.thy ===== *)
theory Broker_Runs
  imports Broker
begin

text \<open>
  How retries travel through the declared topology. A retry of the journey or the delivery worker
  comes back to its own queue; a retry of a consumer of events comes back to every consumer of
  events, so that two of them that both retry double the copies of a message in every round.
\<close>

text \<open>What RabbitMQ documents of binding keys of topic exchanges, as far as the topology uses them:
  \<open>#\<close> matches every key, a key without wildcards matches itself only, and \<open>w.#\<close> matches \<open>w\<close> and
  what continues \<open>w\<close> with a dot.\<close>

definition plain_key :: "string \<Rightarrow> bool" where
  "plain_key b \<longleftrightarrow> CHR ''#'' \<notin> set b \<and> CHR ''*'' \<notin> set b"

definition topic_keys :: "(string \<Rightarrow> string \<Rightarrow> bool) \<Rightarrow> bool" where
  "topic_keys matches \<longleftrightarrow> (\<forall>k. matches ''#'' k) \<and>
     (\<forall>b k. plain_key b \<longrightarrow> matches b k = (b = k)) \<and>
     (\<forall>w k. plain_key w \<longrightarrow> matches (w @ ''.#'') k = (k = w \<or> is_prefix (w @ ''.'') k))"

lemma topic_hash: "topic_keys matches \<Longrightarrow> matches ''#'' k"
  by (simp add: topic_keys_def)

lemma topic_plain: "topic_keys matches \<Longrightarrow> CHR ''#'' \<notin> set b \<Longrightarrow> CHR ''*'' \<notin> set b \<Longrightarrow> matches b k = (b = k)"
  unfolding topic_keys_def plain_key_def by blast

lemma topic_below:
  "topic_keys matches \<Longrightarrow> plain_key w \<Longrightarrow> matches (w @ ''.#'') k = (k = w \<or> is_prefix (w @ ''.'') k)"
  unfolding topic_keys_def by blast

lemma exchanges_distinct [simp]:
  "EventsExchange \<noteq> JobsExchange" "EventsExchange \<noteq> RetryExchange" "EventsExchange \<noteq> DeadExchange"
  "JobsExchange \<noteq> EventsExchange" "JobsExchange \<noteq> RetryExchange" "JobsExchange \<noteq> DeadExchange"
  "RetryExchange \<noteq> EventsExchange" "RetryExchange \<noteq> JobsExchange" "RetryExchange \<noteq> DeadExchange"
  "DeadExchange \<noteq> EventsExchange" "DeadExchange \<noteq> JobsExchange" "DeadExchange \<noteq> RetryExchange"
  by (simp_all add: exchange_defs)

lemma plain_tiers:
  "t \<in> set RetryTiers \<Longrightarrow> CHR ''#'' \<notin> set t \<and> CHR ''*'' \<notin> set t \<and> CHR ''.'' \<notin> set t"
  by (auto simp: RetryTiers_def tier_defs)

lemma queue_of_inj [simp]: "queue_of a = queue_of b \<longleftrightarrow> a = b"
  by (simp add: queue_of_def)

lemmas topology_defs = DefaultTopology_def broker_consumers_def consumer_bindings_def consumer_queues_def

section \<open>Routes\<close>

lemma events_route:
  assumes "topic_keys matches"
  shows "routed matches EventsExchange k = [queue_of ''rule'', queue_of ''analytics'']"
proof -
  have plain: "matches ''retry.rule'' k = (k = ''retry.rule'')" "matches ''retry.analytics'' k = (k = ''retry.analytics'')"
    by (auto simp: topic_plain[OF assms])
  consider "k = ''retry.rule''" | "k = ''retry.analytics''" | "k \<noteq> ''retry.rule''" "k \<noteq> ''retry.analytics''" by blast
  then show ?thesis
    by cases (simp_all add: routed_def topology_defs topic_hash[OF assms] plain filter_empty_conv filter_map comp_def)
qed

text \<open>A retry goes to the retry queue of its consumer and its tier, and nowhere else.\<close>

lemma retry_route:
  assumes "topic_keys matches" and "c \<in> set broker_consumers" and "t \<in> set RetryTiers"
  shows "routed matches RetryExchange (cd_name c @ ''.'' @ t) = [retry_queue_of (cd_name c) t]"
proof -
  have m: "matches (n @ ''.'' @ t') k = (n @ ''.'' @ t' = k)"
    if "t' \<in> set RetryTiers" "CHR ''#'' \<notin> set n" "CHR ''*'' \<notin> set n" for n t' k
    using plain_tiers[OF that(1)] that(2,3) by (auto simp: topic_plain[OF assms(1)])
  have one: "filter (\<lambda>t'. t' = t) RetryTiers = [t]"
    using assms(3) by (auto simp: RetryTiers_def tier_defs)
  have key: "matches (n @ ''.'' @ t') (n' @ ''.'' @ t) = (n = n' \<and> t' = t)"
    if "t' \<in> set RetryTiers" "(n, n') \<in> {''rule'', ''journey'', ''delivery'', ''analytics''} \<times> {''rule'', ''journey'', ''delivery'', ''analytics''}" for n n' t'
    using that by (subst m) auto
  have pick: "filter (\<lambda>t'. matches (n @ ''.'' @ t') (n' @ ''.'' @ t)) RetryTiers = (if n = n' then [t] else [])"
    if "(n, n') \<in> {''rule'', ''journey'', ''delivery'', ''analytics''} \<times> {''rule'', ''journey'', ''delivery'', ''analytics''}" for n n'
  proof -
    have "filter (\<lambda>t'. matches (n @ ''.'' @ t') (n' @ ''.'' @ t)) RetryTiers = filter (\<lambda>t'. n = n' \<and> t' = t) RetryTiers"
      by (rule filter_cong) (use key that in auto)
    then show ?thesis using one by auto
  qed
  show ?thesis
    using assms(2)
    by (auto simp: routed_def topology_defs filter_map comp_def pick simp del: append_Cons)
qed

text \<open>No two queues have one name.\<close>

lemma queue_names:
  "map qd_Name (tp_Queues DefaultTopology) = concat (map (\<lambda>c.
     map (\<lambda>x. queue_of (cd_name c) @ x) ([[]] @ [''.dead''] @ map (\<lambda>t. ''.retry.'' @ t) RetryTiers)) broker_consumers)"
  by (simp add: DefaultTopology_def consumer_queues_def retry_queue_of_def map_concat comp_def)

lemma queue_names_distinct: "distinct (map qd_Name (tp_Queues DefaultTopology))"
  unfolding queue_names by (simp add: broker_consumers_def queue_of_def RetryTiers_def tier_defs)

lemma queue_argument_of:
  assumes "c \<in> set broker_consumers" and "d \<in> set (consumer_queues c)"
  shows "queue_argument (qd_Name d) k = map_of (qd_Arguments d) k"
proof -
  have "d \<in> set (tp_Queues DefaultTopology)"
    using assms by (auto simp: DefaultTopology_def)
  from sql_find_unique[OF queue_names_distinct this] show ?thesis
    by (simp add: queue_argument_def sql_find_def)
qed

lemma work_queue_arguments:
  assumes "c \<in> set broker_consumers"
  shows "queue_argument (queue_of (cd_name c)) ''x-message-ttl'' = None"
  using queue_argument_of[OF assms, of "hd (consumer_queues c)"]
  by (simp add: consumer_queues_def quorum_def dead_letters_to_def)

lemma retry_queue_arguments:
  assumes "c \<in> set broker_consumers" and "t \<in> set RetryTiers"
  shows "queue_argument (retry_queue_of (cd_name c) t) ''x-message-ttl'' = Some (HV_Int (retryTierMilliseconds t))"
    and "queue_argument (retry_queue_of (cd_name c) t) ''x-dead-letter-exchange'' = Some (HV_Str (cd_exchange c))"
    and "queue_argument (retry_queue_of (cd_name c) t) ''x-dead-letter-routing-key'' = Some (HV_Str (cd_retryRouting c))"
proof -
  let ?d = "\<lparr>qd_Name = retry_queue_of (cd_name c) t, qd_Durable = True,
       qd_Arguments = quorum # (''x-message-ttl'', HV_Int (retryTierMilliseconds t)) #
         dead_letters_to (cd_exchange c) (cd_retryRouting c), qd_DeadLetter = False\<rparr>"
  have "?d \<in> set (consumer_queues c)" using assms(2) by (simp add: consumer_queues_def)
  from queue_argument_of[OF assms(1) this]
  show "queue_argument (retry_queue_of (cd_name c) t) ''x-message-ttl'' = Some (HV_Int (retryTierMilliseconds t))"
    "queue_argument (retry_queue_of (cd_name c) t) ''x-dead-letter-exchange'' = Some (HV_Str (cd_exchange c))"
    "queue_argument (retry_queue_of (cd_name c) t) ''x-dead-letter-routing-key'' = Some (HV_Str (cd_retryRouting c))"
    by (simp_all add: quorum_def dead_letters_to_def)
qed

lemma jobs_route:
  assumes "topic_keys matches"
  shows "routed matches JobsExchange ''retry.journey'' = [queue_of ''journey'']"
    and "routed matches JobsExchange ''retry.delivery'' = [queue_of ''delivery'']"
proof -
  have below: "matches ''journey.#'' k = (k = ''journey'' \<or> is_prefix ''journey.'' k)"
      "matches ''delivery.#'' k = (k = ''delivery'' \<or> is_prefix ''delivery.'' k)" for k
    using topic_below[OF assms, of "''journey''"] topic_below[OF assms, of "''delivery''"]
    by (simp_all add: plain_key_def)
  have plain: "matches ''retry.journey'' k = (k = ''retry.journey'')"
      "matches ''retry.delivery'' k = (k = ''retry.delivery'')" for k
    by (auto simp: topic_plain[OF assms])
  show "routed matches JobsExchange ''retry.journey'' = [queue_of ''journey'']"
    "routed matches JobsExchange ''retry.delivery'' = [queue_of ''delivery'']"
    by (simp_all add: routed_def topology_defs below plain filter_empty_conv filter_map comp_def)
qed

section \<open>A retry, there and back\<close>

lemma consumer_names_distinct: "distinct (map cd_name broker_consumers)"
  by (simp add: broker_consumers_def)

lemma find_consumer:
  "c \<in> set broker_consumers \<Longrightarrow> find (\<lambda>d. cd_name d = cd_name c) broker_consumers = Some c"
  using sql_find_unique[OF consumer_names_distinct] by (simp add: sql_find_def)

definition returned_message :: "consumer_definition \<Rightarrow> broker_message \<Rightarrow> broker_message" where
  "returned_message c m = m\<lparr>bm_Exchange := cd_exchange c, bm_RoutingKey := cd_retryRouting c\<rparr>"

lemma retry_returns:
  assumes "topic_keys matches" and "c \<in> set broker_consumers"
    and "handler (cd_name c) m = Retry t" and "t \<in> set RetryTiers"
  shows "concat (map (expire matches) (consume matches (\<lambda>_. None) handler (queue_of (cd_name c), m))) =
    send matches (returned_message c m)"
proof -
  have "validRetryTier t" using assms(4) by (auto simp: validRetryTier_def list_ex_iff)
  then have "consume matches (\<lambda>_. None) handler (queue_of (cd_name c), m) =
      send matches (m\<lparr>bm_Exchange := RetryExchange, bm_RoutingKey := cd_name c @ ''.'' @ t\<rparr>)"
    using assms(3) by (simp add: consume_def find_consumer[OF assms(2)] settle_def Let_def)
  also have "\<dots> = [(retry_queue_of (cd_name c) t, m\<lparr>bm_Exchange := RetryExchange, bm_RoutingKey := cd_name c @ ''.'' @ t\<rparr>)]"
    by (simp add: send_def retry_route[OF assms(1,2,4)] del: append_Cons)
  finally show ?thesis
    using retry_queue_arguments[OF assms(2,4)] by (simp add: expire_def dead_lettered_def returned_message_def)
qed

definition rule_consumer :: consumer_definition where "rule_consumer = broker_consumers ! 0"
definition analytics_consumer :: consumer_definition where "analytics_consumer = broker_consumers ! 3"

lemma event_consumers:
  "rule_consumer \<in> set broker_consumers" "analytics_consumer \<in> set broker_consumers"
  "cd_name rule_consumer = ''rule''" "cd_name analytics_consumer = ''analytics''"
  "cd_exchange rule_consumer = EventsExchange" "cd_exchange analytics_consumer = EventsExchange"
  by (simp_all add: rule_consumer_def analytics_consumer_def broker_consumers_def)

definition retries_always :: "(string \<Rightarrow> broker_message \<Rightarrow> delivery_action) \<Rightarrow> string \<Rightarrow> bool" where
  "retries_always handler c \<longleftrightarrow> (\<forall>m. \<exists>t \<in> set RetryTiers. handler c m = Retry t)"

lemma event_retry_doubles:
  assumes "topic_keys matches" and "retries_always handler ''rule''" and "retries_always handler ''analytics''"
    and "q \<in> {queue_of ''rule'', queue_of ''analytics''}"
  shows "\<exists>m'. bm_ID m' = bm_ID m \<and> bm_Body m' = bm_Body m \<and>
    concat (map (expire matches) (consume matches (\<lambda>_. None) handler (q, m))) =
      [(queue_of ''rule'', m'), (queue_of ''analytics'', m')]"
proof -
  have "\<exists>c \<in> {rule_consumer, analytics_consumer}. q = queue_of (cd_name c) \<and> retries_always handler (cd_name c)"
    using assms(2-4) by (auto simp: event_consumers)
  then obtain c where c: "c \<in> {rule_consumer, analytics_consumer}" "q = queue_of (cd_name c)" "retries_always handler (cd_name c)"
    by blast
  from c(3) obtain t where t: "t \<in> set RetryTiers" "handler (cd_name c) m = Retry t"
    unfolding retries_always_def by blast
  from c(1) have "c \<in> set broker_consumers" "cd_exchange c = EventsExchange" by (auto simp: event_consumers)
  with retry_returns[where handler = handler and m = m, OF assms(1) _ t(2,1)] c(2) show ?thesis
    by (intro exI[of _ "returned_message c m"]) (simp add: send_def returned_message_def events_route[OF assms(1)])
qed

section \<open>Rounds\<close>

lemma broker_round_Nil [simp]: "broker_round matches handler [] = []"
  by (simp add: broker_round_def)

lemma broker_round_Cons:
  "broker_round matches handler (p # st) =
     concat (map (expire matches) (consume matches (\<lambda>_. None) handler p)) @ broker_round matches handler st"
  by (simp add: broker_round_def)

lemma waiting_simps [simp]:
  "waiting q [] = 0" "waiting q (p # st) = (if fst p = q then 1 else 0) + waiting q st"
  "waiting q (st @ st') = waiting q st + waiting q st'"
  by (simp_all add: waiting_def)

definition copies_of :: "broker_message \<Rightarrow> placed list \<Rightarrow> bool" where
  "copies_of m st \<longleftrightarrow> (\<forall>p \<in> set st. fst p \<in> {queue_of ''rule'', queue_of ''analytics''} \<and>
     bm_ID (snd p) = bm_ID m \<and> bm_Body (snd p) = bm_Body m)"

lemma event_round:
  assumes "topic_keys matches" and "retries_always handler ''rule''" and "retries_always handler ''analytics''"
    and "copies_of m st"
  shows "copies_of m (broker_round matches handler st) \<and>
    waiting (queue_of ''rule'') (broker_round matches handler st) = length st \<and>
    waiting (queue_of ''analytics'') (broker_round matches handler st) = length st \<and>
    length (broker_round matches handler st) = 2 * length st"
  using assms(4)
proof (induction st)
  case (Cons p st)
  obtain q m0 where p: "p = (q, m0)" by (cases p)
  have q: "q \<in> {queue_of ''rule'', queue_of ''analytics''}" "bm_ID m0 = bm_ID m" "bm_Body m0 = bm_Body m"
    using Cons.prems by (simp_all add: copies_of_def p)
  obtain m' where m': "bm_ID m' = bm_ID m0" "bm_Body m' = bm_Body m0"
    "concat (map (expire matches) (consume matches (\<lambda>_. None) handler (q, m0))) =
      [(queue_of ''rule'', m'), (queue_of ''analytics'', m')]"
    using event_retry_doubles[OF assms(1-3) q(1)] by blast
  have "copies_of m st" using Cons.prems by (simp add: copies_of_def)
  then have IH: "copies_of m (broker_round matches handler st)"
    "waiting (queue_of ''rule'') (broker_round matches handler st) = length st"
    "waiting (queue_of ''analytics'') (broker_round matches handler st) = length st"
    "length (broker_round matches handler st) = 2 * length st"
    using Cons.IH by simp_all
  have r: "broker_round matches handler (p # st) =
      [(queue_of ''rule'', m'), (queue_of ''analytics'', m')] @ broker_round matches handler st"
    by (simp add: broker_round_Cons p m'(3))
  show ?case unfolding r using IH m'(1,2) q(2,3) by (simp add: copies_of_def)
qed (simp add: copies_of_def)

lemma event_rounds:
  assumes "topic_keys matches" and "retries_always handler ''rule''" and "retries_always handler ''analytics''"
    and "copies_of m st"
  shows "copies_of m ((broker_round matches handler ^^ n) st) \<and>
    length ((broker_round matches handler ^^ n) st) = 2 ^ n * length st"
proof (induction n)
  case (Suc n)
  then show ?case using event_round[OF assms(1-3), of m "(broker_round matches handler ^^ n) st"] by simp
qed (use assms(4) in simp)

lemma copies_waiting:
  "copies_of m st \<Longrightarrow> waiting (queue_of ''rule'') st + waiting (queue_of ''analytics'') st = length st"
  by (induction st) (auto simp: copies_of_def)

lemma job_consumers:
  "\<exists>d \<in> set broker_consumers. cd_name d = ''journey'' \<and> cd_exchange d = JobsExchange \<and> cd_retryRouting d = ''retry.journey''"
  "\<exists>d \<in> set broker_consumers. cd_name d = ''delivery'' \<and> cd_exchange d = JobsExchange \<and> cd_retryRouting d = ''retry.delivery''"
  by (simp_all add: broker_consumers_def)

text \<open>C29.
  Retries of events multiply. An event goes to the rule and the analytics queue; as long as both
  workers answer it with a retry - while the database they share is down, say - every round of
  retries brings each copy back to both queues, since the retry queues hand what expires to the
  exchange of events, whose binding \<open>#\<close> matches the key of either retry. After \<open>n\<close> rounds there are
  \<open>2^n\<close> copies in each queue. A retry of the journey or the delivery worker comes back to its own
  queue once.\<close>

theorem event_retries_multiply:
  assumes "topic_keys matches" and "retries_always handler ''rule''" and "retries_always handler ''analytics''"
    and "bm_Exchange m = EventsExchange"
  shows "waiting (queue_of ''rule'') ((broker_round matches handler ^^ n) (send matches m)) = 2 ^ n \<and>
    waiting (queue_of ''analytics'') ((broker_round matches handler ^^ n) (send matches m)) = 2 ^ n \<and>
    (\<forall>p \<in> set ((broker_round matches handler ^^ n) (send matches m)).
       bm_ID (snd p) = bm_ID m \<and> bm_Body (snd p) = bm_Body m) \<and>
    (\<forall>c \<in> {''journey'', ''delivery''}. \<forall>m t. handler c m = Retry t \<and> t \<in> set RetryTiers \<longrightarrow>
       (\<exists>m'. bm_ID m' = bm_ID m \<and> bm_Body m' = bm_Body m \<and>
          broker_round matches handler [(queue_of c, m)] = [(queue_of c, m')]))"
proof -
  let ?st = "\<lambda>n. (broker_round matches handler ^^ n) (send matches m)"
  have start: "send matches m = [(queue_of ''rule'', m), (queue_of ''analytics'', m)]"
    by (simp add: send_def assms(4) events_route[OF assms(1)])
  have c: "copies_of m (send matches m)" by (simp add: start copies_of_def)
  have copies: "copies_of m (?st k)" "length (?st k) = 2 ^ k * 2" for k
    using event_rounds[OF assms(1-3) c, of k] by (simp_all add: start)
  have "waiting (queue_of ''rule'') (?st n) = 2 ^ n \<and> waiting (queue_of ''analytics'') (?st n) = 2 ^ n"
  proof (cases n)
    case (Suc k)
    then show ?thesis using event_round[OF assms(1-3) copies(1)[of k]] copies(2)[of k] by simp
  qed (simp add: start)
  moreover have "\<exists>m'. bm_ID m' = bm_ID m \<and> bm_Body m' = bm_Body m \<and>
      broker_round matches handler [(queue_of c, m)] = [(queue_of c, m')]"
    if "c \<in> {''journey'', ''delivery''}" "handler c m = Retry t" "t \<in> set RetryTiers" for c m t
  proof -
    have "\<exists>d \<in> set broker_consumers. cd_name d = c \<and> routed matches (cd_exchange d) (cd_retryRouting d) = [queue_of c]"
      using that(1) job_consumers jobs_route[OF assms(1)] by (metis empty_iff insert_iff)
    then obtain d where d: "d \<in> set broker_consumers" "cd_name d = c" "routed matches (cd_exchange d) (cd_retryRouting d) = [queue_of c]"
      by blast
    from retry_returns[where handler = handler and m = m, OF assms(1) d(1) _ that(3)] that(2) d(2,3)
    show ?thesis
      by (intro exI[of _ "returned_message d m"]) (simp add: broker_round_Cons send_def returned_message_def)
  qed
  ultimately show ?thesis using copies(1)[of n] by (auto simp: copies_of_def)
qed

definition sample_matches :: "string \<Rightarrow> string \<Rightarrow> bool" where
  "sample_matches b k \<longleftrightarrow> b = ''#'' \<or> b = k \<or>
     (let w = take (length b - 2) b in b = w @ ''.#'' \<and> (k = w \<or> is_prefix (w @ ''.'') k))"

lemma sample_topic: "topic_keys sample_matches"
proof -
  have "b \<noteq> take (length b - 2) b @ ''.#''" if "plain_key b" for b
  proof
    assume "b = take (length b - 2) b @ ''.#''"
    then have "CHR ''#'' \<in> set b" by (metis in_set_conv_decomp list.set_intros(1) append_Cons append_assoc)
    with that show False by (simp add: plain_key_def)
  qed
  moreover have "plain_key b \<Longrightarrow> b \<noteq> ''#''" for b by (auto simp: plain_key_def)
  ultimately show ?thesis
    unfolding topic_keys_def sample_matches_def Let_def by (auto simp: is_prefix_append_iff)
qed

definition sample_event_message :: broker_message where
  "sample_event_message = \<lparr>bm_ID = ''m'', bm_CorrelationID = ''c'', bm_Exchange = EventsExchange,
     bm_RoutingKey = ''contact.updated'', bm_Type = ''contact.updated'', bm_SchemaVersion = 1, bm_Timestamp = 1,
     bm_Headers = [], bm_Body = None\<rparr>"

theorem event_retries_multiply_witness:
  "waiting (queue_of ''rule'')
     ((broker_round sample_matches (\<lambda>_ _. Retry Retry30Seconds) ^^ 20) (send sample_matches sample_event_message)) = 1048576"
proof -
  have r: "retries_always (\<lambda>_ _. Retry Retry30Seconds) c" for c
    by (simp add: retries_always_def RetryTiers_def)
  show ?thesis
    using event_retries_multiply[OF sample_topic r r, of sample_event_message 20] by (simp add: sample_event_message_def)
qed

end
