(* ===== verification/Outbox_Relay.thy ===== *)
theory Outbox_Relay
  imports Broker
begin

text \<open>
  The relay of the outbox, \<open>internal/service/realtime_outbox_relay.go\<close>, with the cursor it walks the
  workspaces by (\<open>internal/repository/realtime_cursor.go\<close>): the message it builds for the broker, the
  delay of a retry, one message as a machine whose phases are its calls of publisher and
  repository, and one tick over all workspaces.
\<close>

section \<open>The workspace cursor\<close>

text \<open>\<open>rank\<close> is the order of the workspace ids in the collation of the database. The rows of one
  call, and the cursor after it; a new cursor is the empty string.\<close>

definition NextWorkspaceIDs ::
    "(string \<Rightarrow> 'k::linorder) \<Rightarrow> string \<Rightarrow> nat \<Rightarrow> string \<Rightarrow> string list \<Rightarrow> (string + string list) \<times> string" where
  "NextWorkspaceIDs rank name limit cursor workspaces =
     (if name = [] \<or> limit = 0 then (Inl ''cursor name and positive limit are required'', cursor)
      else let ids = take limit (sort_key (\<lambda>w. (if rank cursor < rank w then 0 else 1 :: nat, rank w)) workspaces)
           in (Inr ids, if ids = [] then cursor else last ids))"

fun normalize_from :: "string list \<Rightarrow> string list \<Rightarrow> string list" where
  "normalize_from seen [] = []"
| "normalize_from seen (w # ws) =
     (if w = [] then normalize_from seen ws
      else if List.member seen w then normalize_from seen ws
      else w # normalize_from (w # seen) ws)"

definition normalizedWorkspaceIDs :: "string list \<Rightarrow> string list" where
  "normalizedWorkspaceIDs ws = normalize_from [] ws"

section \<open>The message\<close>

definition outboxBrokerMessage :: "string \<Rightarrow> outbox_message \<Rightarrow> string + broker_message" where
  "outboxBrokerMessage ws m =
     (if om_ID m = [] then Inl ''outbox message id is required''
      else
        let body = (om_Payload m)\<lparr>ev_WorkspaceID := ws\<rparr>;
            headers = (case om_EffectKey m of None \<Rightarrow> [] | Some k \<Rightarrow> [(''effect_key'', HV_Str k)])
        in Inr \<lparr>bm_ID = om_ID m, bm_CorrelationID = ev_CorrelationID body, bm_Exchange = om_Topic m,
             bm_RoutingKey = om_RoutingKey m, bm_Type = ev_Type body, bm_SchemaVersion = ev_SchemaVersion body,
             bm_Timestamp = ev_OccurredAt body,
             bm_Headers = set_header ''outbox_attempt'' (HV_Int (om_Attempts m))
               (set_header ''workspace_id'' (HV_Str ws) headers),
             bm_Body = Some body\<rparr>)"

section \<open>Delays\<close>

definition defaultOutboxMaxAttempts :: int where "defaultOutboxMaxAttempts = 20"
definition maxOutboxErrorLength :: nat where "maxOutboxErrorLength = 2000"

text \<open>\<open>byte0\<close> is the first byte of the message id.\<close>

definition outboxRetryBackoff :: "int \<Rightarrow> nat \<Rightarrow> duration" where
  "outboxRetryBackoff attempt byte0 =
     (let attempt = (if attempt < 1 then 1 else attempt);
          shift = min (attempt - 1) 11;
          base = second * 2 ^ nat shift;
          base = (if base > 30 * minute then 30 * minute else base);
          jitter = 80 + int (byte0 mod 41);
          backoff = base * jitter div 100
      in if backoff > 30 * minute then 30 * minute else backoff)"

definition is_trim_space :: "char \<Rightarrow> bool" where
  "is_trim_space c \<longleftrightarrow> is_re_space c \<or> (of_char c :: nat) = 11"

text \<open>\<open>strings.TrimSpace\<close> on ASCII.\<close>

definition trim_space :: "string \<Rightarrow> string" where
  "trim_space s = rev (dropWhile is_trim_space (rev (dropWhile is_trim_space s)))"

definition truncateOutboxError :: "string \<Rightarrow> string" where
  "truncateOutboxError message = take maxOutboxErrorLength (trim_space message)"

section \<open>One message\<close>

record relay_env =
  re_now :: instant
  re_byte0 :: "string \<Rightarrow> nat"
  re_publish :: "broker_message \<Rightarrow> string option"
  re_maxAttempts :: int

text \<open>The phases of \<open>processMessage\<close>: publish, record that, or release the claim.\<close>

datatype relay_phase =
    RP_Publish
  | RP_Mark
  | RP_Release string
  | RP_Done "string + unit"

definition token_of :: "outbox_message \<Rightarrow> string" where
  "token_of m = (case om_ClaimToken m of None \<Rightarrow> [] | Some t \<Rightarrow> t)"

text \<open>\<open>releaseFailed\<close>\<close>

definition release_failed ::
    "relay_env \<Rightarrow> outbox_message \<Rightarrow> string \<Rightarrow> 'a realtime_db_scheme \<Rightarrow> bool \<times> 'a realtime_db_scheme" where
  "release_failed env m cause db =
     (let dead = om_Attempts m \<ge> re_maxAttempts env;
          availableAt = (if dead then re_now env
                         else re_now env + outboxRetryBackoff (om_Attempts m) (re_byte0 env (om_ID m)))
      in ReleaseOutbox (om_ID m) (token_of m) availableAt (truncateOutboxError cause) dead db)"

definition relay_step ::
    "relay_env \<Rightarrow> fault \<Rightarrow> string \<Rightarrow> outbox_message \<Rightarrow> relay_phase \<Rightarrow> 'a realtime_db_scheme \<Rightarrow>
     (relay_phase \<times> broker_message list) \<times> 'a realtime_db_scheme" where
  "relay_step env f ws m ph db =
     (case ph of
        RP_Publish \<Rightarrow>
          if token_of m = [] then ((RP_Done (Inl (''outbox message '' @ om_ID m @ '' has no claim token'')), []), db)
          else (case outboxBrokerMessage ws m of
                  Inl e \<Rightarrow> ((RP_Release e, []), db)
                | Inr b \<Rightarrow>
                    (case re_publish env b of
                       Some e \<Rightarrow> ((RP_Release e, []), db)
                     | None \<Rightarrow> ((RP_Mark, [b]), db)))
      | RP_Mark \<Rightarrow>
          (case f of
             Fails \<Rightarrow> ((RP_Done (Inl (''mark outbox message '' @ om_ID m @ '' published'')), []), db)
           | _ \<Rightarrow>
               (case MarkOutboxPublished (om_ID m) (token_of m) (re_now env) db of
                  (marked, db') \<Rightarrow>
                    ((if f = Answer_Lost then RP_Done (Inl (''mark outbox message '' @ om_ID m @ '' published''))
                      else if marked then RP_Done (Inr ())
                      else RP_Done (Inl (''outbox claim lost after publishing message '' @ om_ID m)), []), db')))
      | RP_Release cause \<Rightarrow>
          (case f of
             Fails \<Rightarrow> ((RP_Done (Inl cause), []), db)
           | _ \<Rightarrow> (case release_failed env m cause db of (_, db') \<Rightarrow> ((RP_Done (Inl cause), []), db')))
      | RP_Done r \<Rightarrow> ((ph, []), db))"

text \<open>A message alone: two phases end it. The result, what was published with a confirmation, and
  the database.\<close>

definition processMessage ::
    "relay_env \<Rightarrow> fault \<Rightarrow> string \<Rightarrow> outbox_message \<Rightarrow> 'a realtime_db_scheme \<Rightarrow>
     (relay_phase \<times> broker_message list) \<times> 'a realtime_db_scheme" where
  "processMessage env f ws m db =
     (case relay_step env f ws m RP_Publish db of
        ((ph, out), db') \<Rightarrow> (case relay_step env f ws m ph db' of ((ph', _), db'') \<Rightarrow> ((ph', out), db'')))"

section \<open>One tick\<close>

text \<open>The databases of the workspaces, with what a tick does besides them.\<close>

record tick_env =
  te_relay :: relay_env
  te_worker :: string
  te_lease :: duration
  te_token :: "string \<Rightarrow> string"                \<comment> \<open>of the claim in a workspace\<close>
  te_claim_fails :: "string \<Rightarrow> bool"
  te_locked :: "string \<Rightarrow> string \<Rightarrow> bool"
  te_fault :: "string \<Rightarrow> string \<Rightarrow> fault"         \<comment> \<open>of a message's last call\<close>

type_synonym workspace_dbs = "string \<Rightarrow> realtime_db"

text \<open>The loop over the messages of a workspace, which stops when nothing remains.\<close>

fun relay_messages ::
    "tick_env \<Rightarrow> string \<Rightarrow> int \<Rightarrow> outbox_message list \<Rightarrow> realtime_db \<Rightarrow>
     (int \<times> broker_message list \<times> nat) \<times> realtime_db" where
  "relay_messages env ws remaining [] db = ((remaining, [], 0), db)"
| "relay_messages env ws remaining (m # ms) db =
     (case processMessage (te_relay env) (te_fault env ws (om_ID m)) ws m db of
        ((ph, out), db1) \<Rightarrow>
          let e = (if ph = RP_Done (Inr ()) then 0 else 1)
          in if remaining - 1 = 0 then ((0, out, e), db1)
             else (case relay_messages env ws (remaining - 1) ms db1 of
                     ((r, out', e'), db2) \<Rightarrow> ((r, out @ out', e + e'), db2)))"

text \<open>The loop over the workspaces: what remains, what was published, and the number of errors.\<close>

fun relay_workspaces ::
    "tick_env \<Rightarrow> int \<Rightarrow> int \<Rightarrow> string list \<Rightarrow> workspace_dbs \<Rightarrow>
     (int \<times> broker_message list \<times> nat) \<times> workspace_dbs" where
  "relay_workspaces env fairShare remaining [] dbs = ((remaining, [], 0), dbs)"
| "relay_workspaces env fairShare remaining (w # ws) dbs =
     (if remaining \<le> 0 then ((remaining, [], 0), dbs)
      else if te_claim_fails env w
      then (case relay_workspaces env fairShare remaining ws dbs of ((r, out, e), dbs') \<Rightarrow> ((r, out, e + 1), dbs'))
      else
        (case ClaimOutbox (te_worker env) (re_now (te_relay env)) (te_lease env) (min fairShare remaining)
                (te_token env w) (te_locked env w) (dbs w) of
           (Inl _, _) \<Rightarrow>
             (case relay_workspaces env fairShare remaining ws dbs of ((r, out, e), dbs') \<Rightarrow> ((r, out, e + 1), dbs'))
         | (Inr ms, db) \<Rightarrow>
             (case relay_messages env w remaining ms db of
                ((r, out, e), db') \<Rightarrow>
                  (case relay_workspaces env fairShare r ws (dbs(w := db')) of
                     ((r', out', e'), dbs') \<Rightarrow> ((r', out @ out', e + e'), dbs')))))"

definition fair_share :: "int \<Rightarrow> int \<Rightarrow> int" where
  "fair_share batch n = (batch + n - 1) div n"

record relay_state =
  rs_cursor :: string
  rs_dbs :: workspace_dbs

text \<open>The number processed, the messages published, and the number of errors.\<close>

definition RelayProcessOnce ::
    "(string \<Rightarrow> 'k::linorder) \<Rightarrow> tick_env \<Rightarrow> nat \<Rightarrow> string list \<Rightarrow> relay_state \<Rightarrow>
     (int \<times> broker_message list \<times> nat) \<times> relay_state" where
  "RelayProcessOnce rank env batch workspaces s =
     (case NextWorkspaceIDs rank ''outbox-relay'' batch (rs_cursor s) workspaces of
        (Inl _, _) \<Rightarrow> ((0, [], 1), s)
      | (Inr ids, c) \<Rightarrow>
          let ids = normalizedWorkspaceIDs ids; s1 = s\<lparr>rs_cursor := c\<rparr>
          in if ids = [] then ((0, [], 0), s1)
             else (case relay_workspaces env (fair_share (int batch) (int (length ids))) (int batch) ids (rs_dbs s1) of
                     ((r, out, e), dbs) \<Rightarrow> ((int batch - r, out, e), s1\<lparr>rs_dbs := dbs\<rparr>)))"

end
