(* ===== verification/Outbox_Runs.thy ===== *)
theory Outbox_Runs
  imports Outbox_Relay
begin

text \<open>
  Relays of one workspace on any number of processes: a state is the database, the messages that
  are being relayed with their phases, and the log of what the broker has confirmed. Relays claim
  at any time, with or without learning of it, their calls work, fail or lose their answers, a
  relay may die between any two calls, and other processes add commands.
\<close>

section \<open>The system\<close>

record relay_job =
  rj_message :: outbox_message
  rj_phase :: relay_phase

record relay_system =
  ry_db :: realtime_db
  ry_jobs :: "relay_job list"
  ry_log :: "broker_message list"

inductive relay_move :: "string \<Rightarrow> relay_system \<Rightarrow> relay_system \<Rightarrow> bool" for ws where
  claims: "ClaimOutbox worker now lease limit token locked (ry_db s) = (Inr ms, db) \<Longrightarrow>
    relay_move ws s (s\<lparr>ry_db := db, ry_jobs := ry_jobs s @ map (\<lambda>m. \<lparr>rj_message = m, rj_phase = RP_Publish\<rparr>) ms\<rparr>)"
| claim_unheard: "ClaimOutbox worker now lease limit token locked (ry_db s) = (Inr ms, db) \<Longrightarrow>
    relay_move ws s (s\<lparr>ry_db := db\<rparr>)"
| steps: "i < length (ry_jobs s) \<Longrightarrow> j = ry_jobs s ! i \<Longrightarrow> re_maxAttempts env = defaultOutboxMaxAttempts \<Longrightarrow>
    relay_step env f ws (rj_message j) (rj_phase j) (ry_db s) = ((ph, out), db) \<Longrightarrow>
    relay_move ws s (s\<lparr>ry_db := db, ry_jobs := (ry_jobs s)[i := j\<lparr>rj_phase := ph\<rparr>], ry_log := ry_log s @ out\<rparr>)"
| dies: "i < length (ry_jobs s) \<Longrightarrow>
    relay_move ws s (s\<lparr>ry_jobs := (ry_jobs s)[i := (ry_jobs s ! i)\<lparr>rj_phase := RP_Done r\<rparr>]\<rparr>)"
| enqueues: "om_Status m = OS_Pending \<Longrightarrow> enqueue_command m (ry_db s) = (Inr (), db) \<Longrightarrow>
    relay_move ws s (s\<lparr>ry_db := db\<rparr>)"
| elsewhere: "rd_outbox db = rd_outbox (ry_db s) \<Longrightarrow> relay_move ws s (s\<lparr>ry_db := db\<rparr>)"

text \<open>Runs start with commands that wait.\<close>

inductive relay_run :: "string \<Rightarrow> realtime_db \<Rightarrow> relay_system \<Rightarrow> bool" for ws db0 where
  relay_starts: "distinct (map om_ID (rd_outbox db0)) \<Longrightarrow> \<forall>r \<in> set (rd_outbox db0). om_Status r = OS_Pending \<Longrightarrow>
    relay_run ws db0 \<lparr>ry_db = db0, ry_jobs = [], ry_log = []\<rparr>"
| relay_moves: "relay_run ws db0 s \<Longrightarrow> relay_move ws s s' \<Longrightarrow> relay_run ws db0 s'"

section \<open>Rows\<close>

text \<open>What no operation changes of a row.\<close>

definition command_of :: "outbox_message \<Rightarrow> string \<times> string \<times> string \<times> event_envelope \<times> string option" where
  "command_of m = (om_ID m, om_Topic m, om_RoutingKey m, om_Payload m, om_EffectKey m)"

lemma command_of_ID: "command_of m = command_of m' \<Longrightarrow> om_ID m = om_ID m'"
  by (simp add: command_of_def)

definition later_row :: "outbox_message \<Rightarrow> outbox_message \<Rightarrow> bool" where
  "later_row r r' \<longleftrightarrow> command_of r' = command_of r \<and> om_Attempts r \<le> om_Attempts r'"

lemma later_row_refl [simp]: "later_row r r"
  by (simp add: later_row_def)

lemma later_row_trans: "later_row a b \<Longrightarrow> later_row b c \<Longrightarrow> later_row a c"
  by (auto simp: later_row_def)

definition later_rows :: "outbox_message list \<Rightarrow> outbox_message list \<Rightarrow> bool" where
  "later_rows t t' \<longleftrightarrow> (\<exists>f new. t' = map f t @ new \<and> (\<forall>r \<in> set t. later_row r (f r)))"

lemma later_rowsD: "later_rows t t' \<Longrightarrow> r \<in> set t \<Longrightarrow> \<exists>r' \<in> set t'. later_row r r'"
  unfolding later_rows_def by auto

lemma later_rows_refl [simp]: "later_rows t t"
  unfolding later_rows_def by (rule exI[of _ id]) auto

lemma later_rows_update: "(\<And>r. r \<in> set t \<Longrightarrow> later_row r (f r)) \<Longrightarrow> later_rows t (sql_update p f t)"
  unfolding later_rows_def sql_update_def
  by (rule exI[of _ "\<lambda>r. if p r then f r else r"]) auto

lemma later_rows_append: "later_rows t (t @ new)"
  unfolding later_rows_def by (rule exI[of _ id]) auto

text \<open>A row is fine: published rows are confirmed, dead ones were tried often enough, claimed ones
  have an end of their claim.\<close>

definition confirmed_in :: "string \<Rightarrow> broker_message list \<Rightarrow> outbox_message \<Rightarrow> bool" where
  "confirmed_in ws bs r \<longleftrightarrow> (\<exists>b \<in> set bs. bm_ID b = om_ID r \<and> bm_Exchange b = om_Topic r \<and>
     bm_RoutingKey b = om_RoutingKey r \<and> bm_EffectKey b = om_EffectKey r \<and>
     bm_Body b = Some ((om_Payload r)\<lparr>ev_WorkspaceID := ws\<rparr>))"

definition row_ok :: "string \<Rightarrow> broker_message list \<Rightarrow> outbox_message \<Rightarrow> bool" where
  "row_ok ws bs r \<longleftrightarrow>
     (case om_Status r of
        OS_Published \<Rightarrow> confirmed_in ws bs r
      | OS_Dead \<Rightarrow> om_Attempts r \<ge> defaultOutboxMaxAttempts
      | OS_Claimed \<Rightarrow> om_ClaimExpiresAt r \<noteq> None
      | OS_Pending \<Rightarrow> True)"

lemma confirmed_in_append: "confirmed_in ws bs r \<Longrightarrow> confirmed_in ws (bs @ bs') r"
  by (auto simp: confirmed_in_def)

lemma row_ok_append: "row_ok ws bs r \<Longrightarrow> row_ok ws (bs @ bs') r"
  by (auto simp: row_ok_def confirmed_in_append split: outbox_status.splits)

lemma confirmed_in_command: "command_of r = command_of r' \<Longrightarrow> confirmed_in ws bs r = confirmed_in ws bs r'"
  by (simp add: confirmed_in_def command_of_def)

lemma broker_message_confirms:
  "outboxBrokerMessage ws m = Inr b \<Longrightarrow> b \<in> set bs \<Longrightarrow> confirmed_in ws bs m"
  unfolding confirmed_in_def
  by (rule bexI[of _ b]) (auto simp: outboxBrokerMessage_def Let_def bm_EffectKey_def split: if_splits option.splits)

definition job_ok :: "string \<Rightarrow> broker_message list \<Rightarrow> outbox_message list \<Rightarrow> relay_job \<Rightarrow> bool" where
  "job_ok ws bs t j \<longleftrightarrow> (\<exists>r \<in> set t. later_row (rj_message j) r) \<and>
     (rj_phase j = RP_Mark \<longrightarrow> confirmed_in ws bs (rj_message j))"

definition relay_inv :: "string \<Rightarrow> relay_system \<Rightarrow> bool" where
  "relay_inv ws s \<longleftrightarrow> distinct (map om_ID (rd_outbox (ry_db s))) \<and>
     (\<forall>r \<in> set (rd_outbox (ry_db s)). row_ok ws (ry_log s) r) \<and>
     (\<forall>j \<in> set (ry_jobs s). job_ok ws (ry_log s) (rd_outbox (ry_db s)) j)"

lemma job_ok_later: "job_ok ws bs t j \<Longrightarrow> later_rows t t' \<Longrightarrow> job_ok ws (bs @ bs') t' j"
  unfolding job_ok_def by (blast dest: later_rowsD intro: later_row_trans confirmed_in_append)

section \<open>The operations\<close>

lemma outbox_candidates_subset: "set (outbox_candidates now locked limit ms) \<subseteq> set ms"
  by (auto simp: outbox_candidates_def dest!: in_set_takeD)

lemma claim_shape:
  assumes "ClaimOutbox worker now lease limit token locked db = (Inr ms, db')"
  shows "\<exists>picked. ms = map (claim_message now worker token lease) picked \<and> set picked \<subseteq> set (rd_outbox db) \<and>
    rd_outbox db' = sql_update (\<lambda>m. om_ID m \<in> om_ID ` set picked) (claim_message now worker token lease) (rd_outbox db)"
  using assms outbox_candidates_subset[of now locked limit "rd_outbox db"]
  by (intro exI[of _ "outbox_candidates now locked limit (rd_outbox db)"])
    (auto simp: ClaimOutbox_def Let_def split: if_splits)

lemma claim_message_simps:
  "om_ID (claim_message now w t l m) = om_ID m" "om_Status (claim_message now w t l m) = OS_Claimed"
  "om_ClaimExpiresAt (claim_message now w t l m) = Some (now + l)" "later_row m (claim_message now w t l m)"
  by (simp_all add: claim_message_def later_row_def command_of_def)

lemma claim_rows:
  assumes "ClaimOutbox worker now lease limit token locked db = (Inr ms, db')"
  shows "later_rows (rd_outbox db) (rd_outbox db')"
    and "map om_ID (rd_outbox db') = map om_ID (rd_outbox db)"
    and "\<forall>r' \<in> set (rd_outbox db'). r' \<in> set (rd_outbox db) \<or> om_Status r' = OS_Claimed \<and> om_ClaimExpiresAt r' \<noteq> None"
    and "set ms \<subseteq> set (rd_outbox db')"
proof -
  obtain picked where p: "ms = map (claim_message now worker token lease) picked" "set picked \<subseteq> set (rd_outbox db)"
    "rd_outbox db' = sql_update (\<lambda>m. om_ID m \<in> om_ID ` set picked) (claim_message now worker token lease) (rd_outbox db)"
    using claim_shape[OF assms] by blast
  show "later_rows (rd_outbox db) (rd_outbox db')"
    unfolding p(3) by (rule later_rows_update) (rule claim_message_simps)
  show "map om_ID (rd_outbox db') = map om_ID (rd_outbox db)"
    unfolding p(3) by (simp add: claim_message_simps)
  show "\<forall>r' \<in> set (rd_outbox db'). r' \<in> set (rd_outbox db) \<or> om_Status r' = OS_Claimed \<and> om_ClaimExpiresAt r' \<noteq> None"
    unfolding p(3) by (auto simp: set_sql_update claim_message_simps)
  show "set ms \<subseteq> set (rd_outbox db')"
  proof
    fix m assume "m \<in> set ms"
    then obtain x where x: "x \<in> set picked" "m = claim_message now worker token lease x" using p(1) by auto
    then have "x \<in> set (rd_outbox db)" "om_ID x \<in> om_ID ` set picked" using p(2) by auto
    then show "m \<in> set (rd_outbox db')" unfolding p(3) set_sql_update x(2) by (intro image_eqI[of _ _ x]) auto
  qed
qed

text \<open>A phase of a relay: rows stay the commands they are; what is not as before was claimed for the
  message and is published or released now.\<close>

definition settled_row :: "string \<Rightarrow> relay_phase \<Rightarrow> outbox_message \<Rightarrow> outbox_message \<Rightarrow> bool" where
  "settled_row k ph r r' \<longleftrightarrow> command_of r' = command_of r \<and> om_Attempts r' = om_Attempts r \<and>
     (r' = r \<or> om_ID r = k \<and>
       (case ph of RP_Mark \<Rightarrow> om_Status r' = OS_Published
        | RP_Release cause \<Rightarrow> om_Status r' \<in> {OS_Pending, OS_Dead}
        | _ \<Rightarrow> False))"

lemma step_rows:
  fixes db :: realtime_db
  assumes "relay_step env f ws m ph db = ((ph', out), db')"
  shows "\<exists>g. rd_outbox db' = map g (rd_outbox db) \<and> (\<forall>r. settled_row (om_ID m) ph r (g r) \<and>
    (om_Status (g r) = OS_Dead \<and> om_Status r \<noteq> OS_Dead \<longrightarrow> om_Attempts m \<ge> re_maxAttempts env))"
proof -
  have keep: ?thesis if "rd_outbox db' = rd_outbox db"
    by (rule exI[of _ id]) (simp add: that settled_row_def)
  show ?thesis
  proof (cases ph)
    case RP_Publish
    then show ?thesis using assms
      by (intro keep) (auto simp: relay_step_def split: if_splits sum.splits option.splits)
  next
    case RP_Mark
    show ?thesis
    proof (cases "f = Fails")
      case True
      then show ?thesis using assms RP_Mark by (intro keep) (simp add: relay_step_def)
    next
      case False
      let ?g = "\<lambda>r. if owns_message (om_ID m) (token_of m) r
        then r\<lparr>om_Status := OS_Published, om_PublishedAt := Some (re_now env), om_ClaimedBy := None,
               om_ClaimToken := None, om_ClaimExpiresAt := None, om_LastError := None\<rparr> else r"
      have "db' = snd (MarkOutboxPublished (om_ID m) (token_of m) (re_now env) db)"
        using assms RP_Mark False by (cases f) (auto simp: relay_step_def split: prod.splits)
      then have "rd_outbox db' = map ?g (rd_outbox db)" by (simp add: MarkOutboxPublished_def sql_update_def)
      moreover have "\<forall>r. settled_row (om_ID m) ph r (?g r)"
        using RP_Mark by (simp add: settled_row_def command_of_def owns_message_def)
      ultimately show ?thesis by (intro exI[of _ ?g]) simp
    qed
  next
    case (RP_Release cause)
    show ?thesis
    proof (cases "f = Fails")
      case True
      then show ?thesis using assms RP_Release by (intro keep) (simp add: relay_step_def)
    next
      case False
      define dead where "dead \<longleftrightarrow> om_Attempts m \<ge> re_maxAttempts env"
      define at' where "at' = (if dead then re_now env
        else re_now env + outboxRetryBackoff (om_Attempts m) (re_byte0 env (om_ID m)))"
      define st where "st = (if dead then OS_Dead else OS_Pending)"
      define err where "err = (if truncateOutboxError cause = [] then None else Some (truncateOutboxError cause))"
      let ?g = "\<lambda>r. if owns_message (om_ID m) (token_of m) r
        then r\<lparr>om_Status := st, om_AvailableAt := at', om_LastError := err,
               om_ClaimedBy := None, om_ClaimToken := None, om_ClaimExpiresAt := None\<rparr> else r"
      have "db' = snd (release_failed env m cause db)"
        using assms RP_Release False by (cases f) (auto simp: relay_step_def split: prod.splits)
      then have "rd_outbox db' = map ?g (rd_outbox db)"
        by (simp add: release_failed_def ReleaseOutbox_def Let_def sql_update_def st_def at'_def err_def dead_def)
      moreover have "st \<in> {OS_Pending, OS_Dead}" "st = OS_Dead \<Longrightarrow> dead"
        by (auto simp: st_def split: if_splits)
      then have "\<forall>r. settled_row (om_ID m) ph r (?g r) \<and>
          (om_Status (?g r) = OS_Dead \<and> om_Status r \<noteq> OS_Dead \<longrightarrow> om_Attempts m \<ge> re_maxAttempts env)"
        using RP_Release by (simp add: settled_row_def command_of_def owns_message_def dead_def)
      ultimately show ?thesis by (intro exI[of _ ?g]) simp
    qed
  next
    case (RP_Done r)
    then show ?thesis using assms by (intro keep) (simp add: relay_step_def)
  qed
qed

lemma step_phase:
  assumes "relay_step env f ws m ph db = ((RP_Mark, out), db')"
  shows "confirmed_in ws out m"
proof (cases ph)
  case RP_Publish
  then obtain b where "outboxBrokerMessage ws m = Inr b" "out = [b]"
    using assms by (auto simp: relay_step_def split: if_splits sum.splits option.splits)
  then show ?thesis using broker_message_confirms[of ws m b "[b]"] by simp
next
  case RP_Mark
  obtain marked d where "MarkOutboxPublished (om_ID m) (token_of m) (re_now env) db = (marked, d)" by fastforce
  then show ?thesis using assms RP_Mark by (cases f) (simp_all add: relay_step_def split: if_splits)
next
  case (RP_Release cause)
  obtain released d where "release_failed env m cause db = (released, d)" by fastforce
  then show ?thesis using assms RP_Release by (cases f) (simp_all add: relay_step_def)
qed (use assms in \<open>simp add: relay_step_def\<close>)

section \<open>The invariant\<close>

lemma relay_inv_start:
  "distinct (map om_ID (rd_outbox db0)) \<Longrightarrow> \<forall>r \<in> set (rd_outbox db0). om_Status r = OS_Pending \<Longrightarrow>
   relay_inv ws \<lparr>ry_db = db0, ry_jobs = [], ry_log = []\<rparr>"
  by (simp add: relay_inv_def row_ok_def)

lemma jobs_later:
  "relay_inv ws s \<Longrightarrow> later_rows (rd_outbox (ry_db s)) t \<Longrightarrow> j \<in> set (ry_jobs s) \<Longrightarrow> job_ok ws (ry_log s @ bs) t j"
  unfolding relay_inv_def by (blast intro: job_ok_later)

lemma claim_inv:
  assumes "relay_inv ws s" and "ClaimOutbox worker now lease limit token locked (ry_db s) = (Inr ms, db)"
    and "set ms' \<subseteq> set ms"
  shows "relay_inv ws (s\<lparr>ry_db := db, ry_jobs := ry_jobs s @ map (\<lambda>m. \<lparr>rj_message = m, rj_phase = RP_Publish\<rparr>) ms'\<rparr>)"
proof -
  note rows = claim_rows[OF assms(2)]
  have "row_ok ws (ry_log s) r" if "r \<in> set (rd_outbox db)" for r
  proof -
    have "r \<in> set (rd_outbox (ry_db s)) \<or> om_Status r = OS_Claimed \<and> om_ClaimExpiresAt r \<noteq> None"
      using rows(3) that by blast
    then show ?thesis
    proof
      assume "r \<in> set (rd_outbox (ry_db s))"
      then show ?thesis using assms(1) unfolding relay_inv_def by blast
    qed (simp add: row_ok_def)
  qed
  moreover have "job_ok ws (ry_log s) (rd_outbox db) \<lparr>rj_message = m, rj_phase = RP_Publish\<rparr>" if "m \<in> set ms'" for m
    using rows(4) assms(3) that by (auto simp: job_ok_def intro!: bexI[of _ m])
  moreover have "job_ok ws (ry_log s) (rd_outbox db) j" if "j \<in> set (ry_jobs s)" for j
    using jobs_later[OF assms(1) rows(1) that, of "[]"] by simp
  ultimately show ?thesis
    using assms(1) rows(2) by (auto simp: relay_inv_def)
qed

lemma settled_later: "settled_row k ph r r' \<Longrightarrow> later_row r r'"
  by (simp add: settled_row_def later_row_def)

lemma step_inv:
  assumes "relay_inv ws s" and "i < length (ry_jobs s)" and "j = ry_jobs s ! i"
    and "re_maxAttempts env = defaultOutboxMaxAttempts"
    and "relay_step env f ws (rj_message j) (rj_phase j) (ry_db s) = ((ph, out), db)"
  shows "relay_inv ws (s\<lparr>ry_db := db, ry_jobs := (ry_jobs s)[i := j\<lparr>rj_phase := ph\<rparr>], ry_log := ry_log s @ out\<rparr>)"
proof -
  let ?m = "rj_message j"
  obtain g where g: "rd_outbox db = map g (rd_outbox (ry_db s))"
    and settled: "\<And>r. settled_row (om_ID ?m) (rj_phase j) r (g r)"
    and dead: "\<And>r. om_Status (g r) = OS_Dead \<Longrightarrow> om_Status r \<noteq> OS_Dead \<Longrightarrow> om_Attempts ?m \<ge> defaultOutboxMaxAttempts"
    using step_rows[OF assms(5)] unfolding assms(4) by blast
  have j: "j \<in> set (ry_jobs s)" using assms(2,3) by simp
  then have jok: "job_ok ws (ry_log s) (rd_outbox (ry_db s)) j" using assms(1) by (simp add: relay_inv_def)
  then obtain r0 where r0: "r0 \<in> set (rd_outbox (ry_db s))" "later_row ?m r0" unfolding job_ok_def by blast
  have d: "distinct (map om_ID (rd_outbox (ry_db s)))" using assms(1) by (simp add: relay_inv_def)
  have ids: "om_ID (g r) = om_ID r" for r
    using settled[of r] by (simp add: settled_row_def command_of_def)
  have later: "later_rows (rd_outbox (ry_db s)) (rd_outbox db)"
    unfolding g later_rows_def by (rule exI[of _ g]) (auto intro: settled_later settled)
  have rows: "row_ok ws (ry_log s @ out) (g r)" if r: "r \<in> set (rd_outbox (ry_db s))" for r
  proof (cases "g r = r")
    case True
    then show ?thesis using assms(1) r unfolding relay_inv_def by (metis row_ok_append)
  next
    case False
    then have k: "om_ID r = om_ID ?m" and c: "command_of (g r) = command_of r" "om_Attempts (g r) = om_Attempts r"
      using settled[of r] by (auto simp: settled_row_def)
    have "r = r0"
      using unique_rowD[OF d r r0(1)] k r0(2) by (simp add: later_row_def command_of_def)
    then have cm: "command_of (g r) = command_of ?m" and le: "om_Attempts ?m \<le> om_Attempts (g r)"
      using c r0(2) by (simp_all add: later_row_def)
    show ?thesis
    proof (cases "rj_phase j")
      case RP_Mark
      then have "om_Status (g r) = OS_Published" using settled[of r] False by (simp add: settled_row_def)
      moreover have "confirmed_in ws (ry_log s) ?m" using jok RP_Mark by (simp add: job_ok_def)
      ultimately show ?thesis
        using confirmed_in_command[OF cm] by (simp add: row_ok_def confirmed_in_append)
    next
      case (RP_Release cause)
      then have "om_Status (g r) \<in> {OS_Pending, OS_Dead}" using settled[of r] False by (simp add: settled_row_def)
      moreover have "om_Attempts (g r) \<ge> defaultOutboxMaxAttempts" if "om_Status (g r) = OS_Dead"
      proof (cases "om_Status r = OS_Dead")
        case True
        then show ?thesis using assms(1) r c(2) unfolding relay_inv_def by (force simp: row_ok_def)
      next
        case False
        then show ?thesis using dead[OF that] le by linarith
      qed
      ultimately show ?thesis by (auto simp: row_ok_def)
    qed (use settled[of r] False in \<open>simp_all add: settled_row_def\<close>)
  qed
  have jobs: "job_ok ws (ry_log s @ out) (rd_outbox db) j'" if "j' \<in> set (ry_jobs s)" for j'
    using jobs_later[OF assms(1) later that] .
  have new: "job_ok ws (ry_log s @ out) (rd_outbox db) (j\<lparr>rj_phase := ph\<rparr>)"
  proof -
    have "confirmed_in ws (ry_log s @ out) ?m" if "ph = RP_Mark"
      using step_phase[OF assms(5)[unfolded that]] by (auto simp: confirmed_in_def)
    then show ?thesis using jobs[OF j] by (simp add: job_ok_def)
  qed
  have "set ((ry_jobs s)[i := j\<lparr>rj_phase := ph\<rparr>]) \<subseteq> insert (j\<lparr>rj_phase := ph\<rparr>) (set (ry_jobs s))"
    by (rule set_update_subset_insert)
  with jobs new have "\<forall>j' \<in> set ((ry_jobs s)[i := j\<lparr>rj_phase := ph\<rparr>]). job_ok ws (ry_log s @ out) (rd_outbox db) j'"
    by blast
  moreover have "map om_ID (rd_outbox db) = map om_ID (rd_outbox (ry_db s))" unfolding g by (simp add: ids comp_def)
  then have "distinct (map om_ID (rd_outbox db))" using d by (simp only:)
  moreover have "\<forall>r \<in> set (rd_outbox db). row_ok ws (ry_log s @ out) r" unfolding g using rows by simp
  ultimately show ?thesis by (simp add: relay_inv_def)
qed

lemma enqueue_inv:
  assumes "relay_inv ws s" and "om_Status m = OS_Pending" and "enqueue_command m (ry_db s) = (Inr (), db)"
  shows "relay_inv ws (s\<lparr>ry_db := db\<rparr>)" and "later_rows (rd_outbox (ry_db s)) (rd_outbox db)"
proof -
  have shape: "rd_outbox db = rd_outbox (ry_db s) \<or>
      rd_outbox db = rd_outbox (ry_db s) @ [m] \<and> om_ID m \<notin> om_ID ` set (rd_outbox (ry_db s))"
    using assms(3) by (auto simp: enqueue_command_def split: if_splits)
  then show later: "later_rows (rd_outbox (ry_db s)) (rd_outbox db)"
    using later_rows_append by auto
  have "distinct (map om_ID (rd_outbox db))" "\<forall>r \<in> set (rd_outbox db). row_ok ws (ry_log s) r"
    using shape assms(1,2) by (auto simp: relay_inv_def row_ok_def)
  then show "relay_inv ws (s\<lparr>ry_db := db\<rparr>)"
    using jobs_later[OF assms(1) later, of _ "[]"] by (simp add: relay_inv_def)
qed

lemma dies_inv:
  assumes "relay_inv ws s" and "i < length (ry_jobs s)"
  shows "relay_inv ws (s\<lparr>ry_jobs := (ry_jobs s)[i := (ry_jobs s ! i)\<lparr>rj_phase := RP_Done r\<rparr>]\<rparr>)"
proof -
  have "set ((ry_jobs s)[i := (ry_jobs s ! i)\<lparr>rj_phase := RP_Done r\<rparr>]) \<subseteq>
      insert ((ry_jobs s ! i)\<lparr>rj_phase := RP_Done r\<rparr>) (set (ry_jobs s))"
    by (rule set_update_subset_insert)
  moreover have "job_ok ws (ry_log s) (rd_outbox (ry_db s)) ((ry_jobs s ! i)\<lparr>rj_phase := RP_Done r\<rparr>)"
    using assms by (auto simp: relay_inv_def job_ok_def)
  ultimately show ?thesis using assms(1) by (auto simp: relay_inv_def)
qed

lemma relay_move_inv:
  assumes "relay_move ws s s'" and "relay_inv ws s"
  shows "relay_inv ws s'"
  using assms
proof (cases rule: relay_move.cases)
  case (claims worker now lease limit token locked ms db)
  then show ?thesis using claim_inv[OF assms(2) claims(2), of ms] by simp
next
  case (claim_unheard worker now lease limit token locked ms db)
  then show ?thesis using claim_inv[OF assms(2) claim_unheard(2), of "[]"] by simp
next
  case (steps i j env f ph out db)
  then show ?thesis using step_inv[OF assms(2) steps(2,3,4,5)] by simp
next
  case (dies i r)
  then show ?thesis using dies_inv[OF assms(2)] by simp
next
  case (enqueues m db)
  then show ?thesis using enqueue_inv(1)[OF assms(2)] by simp
next
  case (elsewhere db)
  then show ?thesis using assms(2) by (simp add: relay_inv_def)
qed

lemma relay_run_inv: "relay_run ws db0 s \<Longrightarrow> relay_inv ws s"
  by (induction rule: relay_run.induct) (auto intro: relay_inv_start relay_move_inv)

lemma relay_move_later:
  assumes "relay_move ws s s'" and "relay_inv ws s"
  shows "later_rows (rd_outbox (ry_db s)) (rd_outbox (ry_db s'))"
  using assms
proof (cases rule: relay_move.cases)
  case (claims worker now lease limit token locked ms db)
  then show ?thesis using claim_rows(1)[OF claims(2)] by simp
next
  case (claim_unheard worker now lease limit token locked ms db)
  then show ?thesis using claim_rows(1)[OF claim_unheard(2)] by simp
next
  case (steps i j env f ph out db)
  obtain g where "rd_outbox db = map g (rd_outbox (ry_db s))" "\<And>r. settled_row (om_ID (rj_message j)) (rj_phase j) r (g r)"
    using step_rows[OF steps(5)] by blast
  then show ?thesis using steps(1)
    by (auto simp: later_rows_def intro!: exI[of _ g] settled_later)
next
  case (enqueues m db)
  then show ?thesis using enqueue_inv(2)[OF assms(2)] by simp
qed simp_all

lemma relay_run_keeps:
  "relay_run ws db0 s \<Longrightarrow> \<forall>r0 \<in> set (rd_outbox db0). \<exists>r \<in> set (rd_outbox (ry_db s)). later_row r0 r"
proof (induction rule: relay_run.induct)
  case (relay_moves s s')
  then show ?case
    using relay_move_later[OF relay_moves(2) relay_run_inv[OF relay_moves(1)]]
    by (blast dest: later_rowsD intro: later_row_trans)
qed (simp, blast intro: later_row_refl)

section \<open>What the outbox promises\<close>

text \<open>A claim of everything that can be claimed at a time late enough.\<close>

lemma claim_all:
  assumes "r \<in> set t" and "om_Status r = OS_Pending \<or> om_Status r = OS_Claimed \<and> om_ClaimExpiresAt r \<noteq> None"
  shows "\<exists>now. r \<in> set (outbox_candidates now (\<lambda>_. False) (int (length t)) t)"
proof -
  define now where "now = max (om_AvailableAt r) (case om_ClaimExpiresAt r of None \<Rightarrow> om_AvailableAt r | Some u \<Rightarrow> u)"
  have "claimable_message now r"
    using assms(2) by (auto simp: claimable_message_def now_def split: option.splits)
  moreover have "length (filter (claimable_message now) t) \<le> length t" by simp
  ultimately have "r \<in> set (outbox_candidates now (\<lambda>_. False) (int (length t)) t)"
    using assms(1) by (simp add: outbox_candidates_def)
  then show ?thesis ..
qed

definition good_relay :: relay_env where
  "good_relay = \<lparr>re_now = 0, re_byte0 = (\<lambda>_. 0), re_publish = (\<lambda>_. None), re_maxAttempts = defaultOutboxMaxAttempts\<rparr>"

lemma good_max: "re_maxAttempts good_relay = defaultOutboxMaxAttempts"
  by (simp add: good_relay_def)

lemma good_publish:
  assumes "om_ID m \<noteq> []" and "token_of m \<noteq> []"
  shows "\<exists>b. relay_step good_relay Works ws m RP_Publish db = ((RP_Mark, [b]), db)"
  using assms by (auto simp: relay_step_def outboxBrokerMessage_def Let_def good_relay_def)

lemma good_mark:
  fixes db :: realtime_db
  assumes "r \<in> set (rd_outbox db)" and "owns_message (om_ID m) (token_of m) r"
  shows "\<exists>ph db'. relay_step good_relay Works ws m RP_Mark db = ((ph, []), db') \<and>
    (\<exists>r' \<in> set (rd_outbox db'). command_of r' = command_of r \<and> om_Status r' = OS_Published)"
proof -
  let ?r = "r\<lparr>om_Status := OS_Published, om_PublishedAt := Some (re_now good_relay), om_ClaimedBy := None,
               om_ClaimToken := None, om_ClaimExpiresAt := None, om_LastError := None\<rparr>"
  obtain marked db' where m: "MarkOutboxPublished (om_ID m) (token_of m) (re_now good_relay) db = (marked, db')"
    by fastforce
  have "?r \<in> set (rd_outbox db')"
    using m assms by (auto simp: MarkOutboxPublished_def set_sql_update intro!: image_eqI[of _ _ r])
  moreover have "command_of ?r = command_of r" by (simp add: command_of_def)
  moreover have "om_Status ?r = OS_Published" by simp
  ultimately have "\<exists>r' \<in> set (rd_outbox db'). command_of r' = command_of r \<and> om_Status r' = OS_Published" by blast
  then show ?thesis by (simp add: relay_step_def m)
qed

lemma publishable:
  assumes "relay_inv ws s" and "r \<in> set (rd_outbox (ry_db s))" and "om_ID r \<noteq> []"
    and "om_Status r \<notin> {OS_Published, OS_Dead}"
  shows "\<exists>s'. (relay_move ws)\<^sup>*\<^sup>* s s' \<and>
    (\<exists>r' \<in> set (rd_outbox (ry_db s')). command_of r' = command_of r \<and> om_Status r' = OS_Published)"
proof -
  let ?t = "rd_outbox (ry_db s)" and ?f = "\<lambda>now. claim_message now ''w'' ''t'' 1"
  have "row_ok ws (ry_log s) r" using assms(1,2) by (simp add: relay_inv_def)
  then have "om_Status r = OS_Pending \<or> om_Status r = OS_Claimed \<and> om_ClaimExpiresAt r \<noteq> None"
    using assms(4) by (cases "om_Status r") (auto simp: row_ok_def)
  then obtain now where now: "r \<in> set (outbox_candidates now (\<lambda>_. False) (int (length ?t)) ?t)"
    using claim_all[OF assms(2)] by blast
  define m where "m = ?f now r"
  have len: "length ?t > 0" using assms(2) by (cases ?t) auto
  obtain ms db1 where claim: "ClaimOutbox ''w'' now 1 (int (length ?t)) ''t'' (\<lambda>_. False) (ry_db s) = (Inr ms, db1)"
      and ms: "m \<in> set ms"
    using now len by (simp add: ClaimOutbox_def Let_def m_def)
  then obtain k where k: "k < length ms" "ms ! k = m" by (meson in_set_conv_nth)
  have row: "m \<in> set (rd_outbox db1)" using claim_rows(4)[OF claim] ms by blast
  have m: "om_ID m \<noteq> []" "token_of m \<noteq> []" "command_of m = command_of r" "owns_message (om_ID m) (token_of m) m"
    using assms(3) by (simp_all add: m_def claim_message_def token_of_def command_of_def owns_message_def)
  define s1 where "s1 = s\<lparr>ry_db := db1, ry_jobs := ry_jobs s @ map (\<lambda>m. \<lparr>rj_message = m, rj_phase = RP_Publish\<rparr>) ms\<rparr>"
  let ?i = "length (ry_jobs s) + k"
  have 1: "relay_move ws s s1" unfolding s1_def by (rule claims) (rule claim)
  have job: "?i < length (ry_jobs s1)" "ry_jobs s1 ! ?i = \<lparr>rj_message = m, rj_phase = RP_Publish\<rparr>" "ry_db s1 = db1"
    using k by (simp_all add: s1_def nth_append)
  obtain b where b: "relay_step good_relay Works ws m RP_Publish db1 = ((RP_Mark, [b]), db1)"
    using good_publish[OF m(1,2)] by blast
  define s2 where "s2 = s1\<lparr>ry_db := db1, ry_jobs := (ry_jobs s1)[?i := (ry_jobs s1 ! ?i)\<lparr>rj_phase := RP_Mark\<rparr>],
    ry_log := ry_log s1 @ [b]\<rparr>"
  have 2: "relay_move ws s1 s2" unfolding s2_def
    by (rule steps[OF job(1) refl, of good_relay Works]) (use b in \<open>simp_all add: job(2,3) good_max\<close>)
  obtain ph db2 where mark: "relay_step good_relay Works ws m RP_Mark db1 = ((ph, []), db2)"
    and published: "\<exists>r' \<in> set (rd_outbox db2). command_of r' = command_of m \<and> om_Status r' = OS_Published"
    using good_mark[OF row m(4)] by blast
  define s3 where "s3 = s2\<lparr>ry_db := db2, ry_jobs := (ry_jobs s2)[?i := (ry_jobs s2 ! ?i)\<lparr>rj_phase := ph\<rparr>],
    ry_log := ry_log s2 @ []\<rparr>"
  have job2: "?i < length (ry_jobs s2)" "ry_jobs s2 ! ?i = \<lparr>rj_message = m, rj_phase = RP_Mark\<rparr>" "ry_db s2 = db1"
    using job by (simp_all add: s2_def)
  have 3: "relay_move ws s2 s3" unfolding s3_def
    by (rule steps[OF job2(1) refl, of good_relay Works]) (use mark in \<open>simp_all add: job2 good_max\<close>)
  have "(relay_move ws)\<^sup>*\<^sup>* s s3" using 1 2 3 by (meson converse_rtranclp_into_rtranclp rtranclp.rtrancl_refl)
  moreover have "\<exists>r' \<in> set (rd_outbox (ry_db s3)). command_of r' = command_of r \<and> om_Status r' = OS_Published"
    using published m(3) by (simp add: s3_def)
  ultimately show ?thesis by blast
qed

lemma relay_run_moves: "(relay_move ws)\<^sup>*\<^sup>* s s' \<Longrightarrow> relay_run ws db0 s \<Longrightarrow> relay_run ws db0 s'"
  by (induction rule: rtranclp_induct) (auto intro: relay_moves)

definition sample_command :: outbox_message where
  "sample_command = \<lparr>om_ID = ''m'', om_EventID = ''e'', om_Topic = JobsExchange, om_RoutingKey = ''journey.start.a'',
     om_Payload = \<lparr>ev_ID = ''m'', ev_EventID = ''e'', ev_Type = ''journey.start'', ev_SchemaVersion = 1, ev_WorkspaceID = [],
       ev_Subject = \<lparr>es_Type = ''contact_automation'', es_ID = ''j'', es_CustomerID = [], es_ContactEmail = ''a@x''\<rparr>,
       ev_Source = ''rule-worker'', ev_OccurredAt = 1, ev_ReceivedAt = 1, ev_CorrelationID = ''e'', ev_CausationID = None,
       ev_TraceID = [], ev_Data = ED_Other JNull\<rparr>,
     om_EffectKey = None, om_Status = OS_Pending, om_Attempts = 0, om_AvailableAt = 1, om_ClaimedBy = None,
     om_ClaimToken = None, om_ClaimExpiresAt = None, om_PublishedAt = None, om_LastError = None, om_CreatedAt = 1\<rparr>"

definition sample_outbox :: realtime_db where
  "sample_outbox = \<lparr>rd_outbox = [sample_command], rd_inbox = [], rd_effects = []\<rparr>"

lemma sample_run: "relay_run ''w'' sample_outbox \<lparr>ry_db = sample_outbox, ry_jobs = [], ry_log = []\<rparr>"
  by (rule relay_starts) (simp_all add: sample_outbox_def sample_command_def)

text \<open>C27.
  The outbox keeps its promise whatever fails: a command marked as published has gone to the broker
  with a confirmation, under its own id, to its exchange and routing key, with its effect key and
  with its payload in its workspace; a command is given up only after twenty claims; and no command is ever lost or
  changed.\<close>

theorem published_commands_were_confirmed:
  assumes "relay_run ws db0 s"
  shows "(\<forall>r \<in> set (rd_outbox (ry_db s)).
      (om_Status r = OS_Published \<longrightarrow> (\<exists>b \<in> set (ry_log s). bm_ID b = om_ID r \<and> bm_Exchange b = om_Topic r \<and>
         bm_RoutingKey b = om_RoutingKey r \<and> bm_EffectKey b = om_EffectKey r \<and>
         bm_Body b = Some ((om_Payload r)\<lparr>ev_WorkspaceID := ws\<rparr>))) \<and>
      (om_Status r = OS_Dead \<longrightarrow> om_Attempts r \<ge> 20)) \<and>
    (\<forall>r0 \<in> set (rd_outbox db0). \<exists>r \<in> set (rd_outbox (ry_db s)). command_of r = command_of r0)"
proof -
  have "relay_inv ws s" by (rule relay_run_inv) (rule assms)
  then have "\<forall>r \<in> set (rd_outbox (ry_db s)). row_ok ws (ry_log s) r" by (simp add: relay_inv_def)
  then have "\<forall>r \<in> set (rd_outbox (ry_db s)).
      (om_Status r = OS_Published \<longrightarrow> confirmed_in ws (ry_log s) r) \<and> (om_Status r = OS_Dead \<longrightarrow> om_Attempts r \<ge> 20)"
    by (auto simp: row_ok_def defaultOutboxMaxAttempts_def)
  then show ?thesis using relay_run_keeps[OF assms] unfolding confirmed_in_def later_row_def by blast
qed

theorem published_commands_were_confirmed_witness:
  "\<exists>s. relay_run ''w'' sample_outbox s \<and> (\<exists>r \<in> set (rd_outbox (ry_db s)). om_Status r = OS_Published \<and> om_ID r = ''m'') \<and>
    (\<exists>b \<in> set (ry_log s). bm_ID b = ''m'')"
proof -
  have "relay_inv ''w'' \<lparr>ry_db = sample_outbox, ry_jobs = [], ry_log = []\<rparr>" by (rule relay_run_inv[OF sample_run])
  moreover have waits: "sample_command \<in> set (rd_outbox sample_outbox)" "om_ID sample_command \<noteq> []"
    "om_Status sample_command \<notin> {OS_Published, OS_Dead}"
    by (simp_all add: sample_outbox_def sample_command_def)
  ultimately obtain s r where s: "(relay_move ''w'')\<^sup>*\<^sup>* \<lparr>ry_db = sample_outbox, ry_jobs = [], ry_log = []\<rparr> s"
    and r: "r \<in> set (rd_outbox (ry_db s))" "command_of r = command_of sample_command" "om_Status r = OS_Published"
    using publishable[of "''w''" "\<lparr>ry_db = sample_outbox, ry_jobs = [], ry_log = []\<rparr>" sample_command] waits by auto
  have run: "relay_run ''w'' sample_outbox s" by (rule relay_run_moves[OF s sample_run])
  have "om_ID r = ''m''" using command_of_ID[OF r(2)] by (simp add: sample_command_def)
  moreover have "\<exists>b \<in> set (ry_log s). bm_ID b = om_ID r"
    using published_commands_were_confirmed[OF run] r(1,3) by blast
  ultimately show ?thesis using run r(1,3) by auto
qed

text \<open>C28.
  No command is stuck: from every state of every run, whatever relays and faults have done, each
  command that is neither published nor given up can still be published by one relay that claims
  it late enough, finds the broker well and records it.\<close>

theorem commands_can_always_be_published:
  assumes "relay_run ws db0 s" and "r \<in> set (rd_outbox (ry_db s))" and "om_ID r \<noteq> []"
    and "om_Status r \<notin> {OS_Published, OS_Dead}"
  shows "\<exists>s'. (relay_move ws)\<^sup>*\<^sup>* s s' \<and>
    (\<exists>r' \<in> set (rd_outbox (ry_db s')). command_of r' = command_of r \<and> om_Status r' = OS_Published)"
  by (rule publishable[OF relay_run_inv[OF assms(1)] assms(2-4)])

theorem commands_can_always_be_published_witness:
  "\<exists>s'. (relay_move ''w'')\<^sup>*\<^sup>* \<lparr>ry_db = sample_outbox, ry_jobs = [], ry_log = []\<rparr> s' \<and>
    (\<exists>r' \<in> set (rd_outbox (ry_db s')). command_of r' = command_of sample_command \<and> om_Status r' = OS_Published)"
  by (rule commands_can_always_be_published[OF sample_run]) (simp_all add: sample_outbox_def sample_command_def)

end
