(* ===== verification/Outbox_Ticks.thy ===== *)
theory Outbox_Ticks
  imports Outbox_Relay "HOL-Library.Multiset"
begin

text \<open>
  Ticks of the relay over all workspaces: how many messages a tick takes, and who waits. The cursor
  does not rotate as long as all workspaces fit in one call, so that one workspace stays the last
  of every tick, after the others have shared the batch.
\<close>

section \<open>What a tick takes\<close>

lemma relay_messages_remaining:
  "0 < remaining \<Longrightarrow>
   fst (fst (relay_messages env ws remaining ms db)) = max 0 (remaining - int (length ms))"
proof (induction ms arbitrary: remaining db)
  case (Cons m ms)
  obtain ph out db1 where p: "processMessage (te_relay env) (te_fault env ws (om_ID m)) ws m db = ((ph, out), db1)"
    by (metis prod.exhaust)
  show ?case
  proof (cases "remaining - 1 = 0")
    case False
    with Cons.prems have "0 < remaining - 1" by linarith
    moreover obtain r out' e' db2 where q: "relay_messages env ws (remaining - 1) ms db1 = ((r, out', e'), db2)"
      by (metis prod.exhaust)
    ultimately show ?thesis using Cons.IH[of "remaining - 1" db1] False by (simp add: p q Let_def)
  qed (simp add: p Let_def)
qed simp

lemma claimed_length:
  assumes "ClaimOutbox worker now lease limit token locked db = (Inr ms, db')"
  shows "int (length ms) \<le> limit"
  using assms by (auto simp: ClaimOutbox_def Let_def outbox_candidates_def split: if_splits)

lemma relay_workspaces_remaining:
  "0 \<le> remaining \<Longrightarrow> 0 \<le> fst (fst (relay_workspaces env fair remaining ws dbs)) \<and>
     fst (fst (relay_workspaces env fair remaining ws dbs)) \<le> remaining"
proof (induction ws arbitrary: remaining dbs)
  case (Cons w ws)
  obtain r0 out0 e0 dbs0 where 0: "relay_workspaces env fair remaining ws dbs = ((r0, out0, e0), dbs0)"
    by (metis prod.exhaust)
  show ?case
  proof (cases "remaining \<le> 0 \<or> te_claim_fails env w")
    case True
    then show ?thesis using Cons.prems Cons.IH[of remaining dbs] by (auto simp: 0)
  next
    case False
    obtain res db where c: "ClaimOutbox (te_worker env) (re_now (te_relay env)) (te_lease env) (min fair remaining)
        (te_token env w) (te_locked env w) (dbs w) = (res, db)" by fastforce
    show ?thesis
    proof (cases res)
      case (Inl e)
      then show ?thesis using Cons.IH[of remaining dbs] False by (simp add: c 0)
    next
      case (Inr ms)
      obtain r out e db' where m: "relay_messages env w remaining ms db = ((r, out, e), db')" by (metis prod.exhaust)
      have "0 \<le> r" "r \<le> remaining"
        using relay_messages_remaining[of remaining env w ms db] False by (auto simp: m)
      moreover obtain r1 out1 e1 dbs1 where u: "relay_workspaces env fair r ws (dbs(w := db')) = ((r1, out1, e1), dbs1)"
        by (metis prod.exhaust)
      ultimately show ?thesis using Cons.IH[of r "dbs(w := db')", unfolded u] False Inr by (simp add: c m)
    qed
  qed
qed simp

text \<open>A tick processes at most its batch.\<close>

lemma RelayProcessOnce_bound:
  "0 \<le> fst (fst (RelayProcessOnce rank env batch workspaces s)) \<and>
   fst (fst (RelayProcessOnce rank env batch workspaces s)) \<le> int batch"
proof -
  have *: "0 \<le> fst (fst (relay_workspaces env f (int batch) ids dbs)) \<and>
      fst (fst (relay_workspaces env f (int batch) ids dbs)) \<le> int batch" for f ids dbs
    by (rule relay_workspaces_remaining) simp
  show ?thesis
    unfolding RelayProcessOnce_def Let_def
    using *[of "fair_share (int batch) _"] by (auto split: prod.splits sum.splits) (metis fst_conv)+
qed

section \<open>The order of the workspaces\<close>

definition cursor_order :: "(string \<Rightarrow> 'k::linorder) \<Rightarrow> string \<Rightarrow> string list \<Rightarrow> string list" where
  "cursor_order rank cursor ws = sort_key (\<lambda>w. (if rank cursor < rank w then 0 else 1 :: nat, rank w)) ws"

lemma cursor_order_Nil [simp]: "cursor_order rank cursor ws = [] \<longleftrightarrow> ws = []"
  unfolding cursor_order_def by (metis length_0_conv length_sort)

lemma NextWorkspaceIDs_all:
  "length ws \<le> limit \<Longrightarrow> ws \<noteq> [] \<Longrightarrow> name \<noteq> [] \<Longrightarrow>
   NextWorkspaceIDs rank name limit cursor ws = (Inr (cursor_order rank cursor ws), last (cursor_order rank cursor ws))"
  using cursor_order_Nil[of rank cursor ws]
  by (cases limit) (simp_all add: NextWorkspaceIDs_def cursor_order_def Let_def del: cursor_order_Nil)

text \<open>The last workspace of a call stays the last of the next one: the order is the same.\<close>

lemma cursor_order_fixed:
  assumes "ws \<noteq> []" and "inj_on rank (set ws)"
  shows "cursor_order rank (last (cursor_order rank cursor ws)) ws = cursor_order rank cursor ws"
proof -
  let ?f = "\<lambda>c w. (if rank c < rank w then 0 else 1 :: nat, rank w)"
  let ?xs = "cursor_order rank cursor ws"
  define l where "l = last ?xs"
  have xs: "?xs \<noteq> []" "set ?xs = set ws" "sorted (map (?f cursor) ?xs)" "mset ?xs = mset ws"
    using assms(1) by (simp_all add: cursor_order_def) (metis assms(1) set_empty set_sort)
  have l: "l \<in> set ws" using xs(1,2) unfolding l_def by (metis last_in_set)
  have top: "?f cursor w \<le> ?f cursor l" if w: "w \<in> set ws" for w
  proof -
    have split: "?xs = butlast ?xs @ [l]" using append_butlast_last_id[OF xs(1)] by (simp only: l_def)
    have "sorted (map (?f cursor) (butlast ?xs @ [l]))" using xs(3) split by (simp only:)
    then have "sorted (map (?f cursor) (butlast ?xs) @ [?f cursor l])" by (simp only: map_append list.map)
    moreover have "w \<in> set (butlast ?xs @ [l])" using w xs(2) split by (simp only:)
    then have "w \<in> set (butlast ?xs) \<or> w = l" by auto
    ultimately show ?thesis by (auto simp: sorted_append)
  qed
  have mono: "?f l x \<le> ?f l y" if "x \<in> set ws" "y \<in> set ws" "?f cursor x \<le> ?f cursor y" for x y
    using that(3) top[OF that(1)] top[OF that(2)] by (auto simp: less_eq_prod_def split: if_splits)
  have "sorted_wrt (\<lambda>x y. ?f cursor x \<le> ?f cursor y) ?xs" using xs(3) by (simp add: sorted_wrt_map)
  then have "sorted_wrt (\<lambda>x y. ?f l x \<le> ?f l y) ?xs"
    by (rule sorted_wrt_mono_rel[rotated]) (use mono xs(2) in auto)
  then have "sorted (map (?f l) ?xs)" by (simp add: sorted_wrt_map)
  moreover have "inj_on (?f l) (set ws)" using assms(2) by (auto simp: inj_on_def)
  ultimately have "sort_key (?f l) ws = ?xs"
    by (intro sort_key_inj_key_eq) (simp_all only: xs(4))
  then show ?thesis by (simp add: cursor_order_def l_def)
qed

section \<open>The last workspace starves\<close>

lemma distinct_normalized:
  "distinct ws \<Longrightarrow> [] \<notin> set ws \<Longrightarrow> set ws \<inter> set seen = {} \<Longrightarrow> normalize_from seen ws = ws"
  by (induction ws arbitrary: seen) auto

text \<open>The workspace has a full share of messages that can be claimed, and its claim works.\<close>

definition backlogged :: "tick_env \<Rightarrow> int \<Rightarrow> string \<Rightarrow> workspace_dbs \<Rightarrow> bool" where
  "backlogged env share w dbs \<longleftrightarrow> te_worker env \<noteq> [] \<and> te_lease env > 0 \<and> \<not> te_claim_fails env w \<and>
     int (length (filter (\<lambda>m. claimable_message (re_now (te_relay env)) m \<and> \<not> te_locked env w (om_ID m))
       (rd_outbox (dbs w)))) \<ge> share"

lemma outbox_candidates_length:
  "length (outbox_candidates now locked limit ms) =
     min (nat limit) (length (filter (\<lambda>m. claimable_message now m \<and> \<not> locked (om_ID m)) ms))"
  by (simp add: outbox_candidates_def filter_sort conj_commute min.commute)

lemma backlogged_claim:
  assumes "backlogged env share w dbs" and "0 < limit" and "limit \<le> share"
  shows "\<exists>ms db. ClaimOutbox (te_worker env) (re_now (te_relay env)) (te_lease env) limit (te_token env w)
    (te_locked env w) (dbs w) = (Inr ms, db) \<and> int (length ms) = limit"
  using assms by (auto simp: backlogged_def ClaimOutbox_def Let_def outbox_candidates_length)

lemma last_untouched:
  assumes "0 < share" and "remaining \<le> share * int (length front)" and "distinct (front @ [w])"
    and "\<forall>v \<in> set front. backlogged env share v dbs"
  shows "snd (relay_workspaces env share remaining (front @ [w]) dbs) w = dbs w"
  using assms
proof (induction front arbitrary: remaining dbs)
  case (Cons v front)
  show ?case
  proof (cases "remaining \<le> 0")
    case False
    define limit where "limit = min share remaining"
    have limit: "0 < limit" "limit \<le> share" using False Cons.prems(1) by (auto simp: limit_def)
    obtain ms db where c: "ClaimOutbox (te_worker env) (re_now (te_relay env)) (te_lease env) limit (te_token env v)
        (te_locked env v) (dbs v) = (Inr ms, db)" "int (length ms) = limit"
      using backlogged_claim[of env share v dbs limit] Cons.prems(4) limit by auto
    obtain r out e db' where m: "relay_messages env v remaining ms db = ((r, out, e), db')" by (metis prod.exhaust)
    have "r = max 0 (remaining - limit)"
      using relay_messages_remaining[of remaining env v ms db] False c(2) by (simp add: m)
    then have r: "r \<le> share * int (length front)"
      using Cons.prems(1,2) by (cases "share \<le> remaining") (auto simp: limit_def algebra_simps)
    have "v \<noteq> w" "v \<notin> set front" "distinct (front @ [w])" using Cons.prems(3) by auto
    moreover have "backlogged env share u (dbs(v := db'))" if "u \<in> set front" for u
      using that Cons.prems(4) calculation(2) by (auto simp: backlogged_def)
    ultimately have IH: "snd (relay_workspaces env share r (front @ [w]) (dbs(v := db'))) w = dbs w"
      using Cons.IH[OF Cons.prems(1) r, of "dbs(v := db')"] by (simp del: fun_upd_apply) (simp add: fun_upd_other)
    obtain q dbs1 where u: "relay_workspaces env share r (front @ [w]) (dbs(v := db')) = (q, dbs1)" by fastforce
    have "\<not> te_claim_fails env v" using Cons.prems(4) by (simp add: backlogged_def)
    then show ?thesis
      using IH False c(1) by (cases q) (simp add: u m limit_def[symmetric] del: fun_upd_apply)
  qed simp
qed simp

text \<open>Any number of ticks, before each of which others change the databases.\<close>

type_synonym tick = "tick_env \<times> (string \<Rightarrow> realtime_db \<Rightarrow> realtime_db)"

definition changed_by :: "tick \<Rightarrow> relay_state \<Rightarrow> relay_state" where
  "changed_by t s = s\<lparr>rs_dbs := (\<lambda>w. snd t w (rs_dbs s w))\<rparr>"

definition relay_tick :: "(string \<Rightarrow> 'k::linorder) \<Rightarrow> nat \<Rightarrow> string list \<Rightarrow> tick \<Rightarrow> relay_state \<Rightarrow> relay_state" where
  "relay_tick rank batch ws t s = snd (RelayProcessOnce rank (fst t) batch ws (changed_by t s))"

text \<open>At every tick every workspace but \<open>w\<close> has a full share waiting.\<close>

fun others_backlogged ::
    "(string \<Rightarrow> 'k::linorder) \<Rightarrow> nat \<Rightarrow> string list \<Rightarrow> string \<Rightarrow> tick list \<Rightarrow> relay_state \<Rightarrow> bool" where
  "others_backlogged rank batch ws w [] s = True"
| "others_backlogged rank batch ws w (t # ts) s =
     ((\<forall>v \<in> set ws - {w}. backlogged (fst t) (fair_share (int batch) (int (length ws))) v (rs_dbs (changed_by t s))) \<and>
      others_backlogged rank batch ws w ts (relay_tick rank batch ws t s))"

lemma one_tick:
  assumes "distinct ws" and "[] \<notin> set ws" and "ws \<noteq> []" and "inj_on rank (set ws)" and "length ws \<le> batch"
    and "int batch \<le> (int (length ws) - 1) * fair_share (int batch) (int (length ws))"
    and "cursor_order rank (rs_cursor s) ws = ids"
    and "\<forall>v \<in> set ws - {last ids}. backlogged (fst t) (fair_share (int batch) (int (length ws))) v (rs_dbs (changed_by t s))"
  shows "rs_dbs (relay_tick rank batch ws t s) (last ids) = snd t (last ids) (rs_dbs s (last ids))"
    and "cursor_order rank (rs_cursor (relay_tick rank batch ws t s)) ws = ids"
proof -
  let ?n = "int (length ws)"
  let ?share = "fair_share (int batch) ?n"
  have ids: "ids \<noteq> []" "set ids = set ws" "distinct ids" "length ids = length ws"
    using assms(1,3,7) by (auto simp: cursor_order_def) (metis cursor_order_Nil cursor_order_def)
  then have norm: "normalizedWorkspaceIDs ids = ids"
    using distinct_normalized[of ids "[]"] assms(2) by (simp add: normalizedWorkspaceIDs_def)
  have n: "0 < ?n" using assms(3) by simp
  have "?n \<le> int batch + ?n - 1" using assms(3,5) n by linarith
  then have share: "0 < ?share"
    using n by (simp add: fair_share_def pos_imp_zdiv_pos_iff)
  obtain q dbs where w: "relay_workspaces (fst t) ?share (int batch) ids (rs_dbs (changed_by t s)) = (q, dbs)" by fastforce
  have nxt: "NextWorkspaceIDs rank ''outbox-relay'' batch (rs_cursor (changed_by t s)) ws = (Inr ids, last ids)"
    using NextWorkspaceIDs_all[OF assms(5,3), of "''outbox-relay''" rank "rs_cursor s"] assms(7)
    by (simp add: changed_by_def)
  have tick: "relay_tick rank batch ws t s = (changed_by t s)\<lparr>rs_cursor := last ids, rs_dbs := dbs\<rparr>"
    using w by (cases q) (simp add: relay_tick_def RelayProcessOnce_def nxt norm ids Let_def)
  have "ids = butlast ids @ [last ids]" using ids(1) by simp
  moreover have "snd (relay_workspaces (fst t) ?share (int batch) (butlast ids @ [last ids]) (rs_dbs (changed_by t s))) (last ids) =
      rs_dbs (changed_by t s) (last ids)"
  proof (rule last_untouched[OF share])
    show "int batch \<le> ?share * int (length (butlast ids))"
      using assms(6) ids(1,4) n by (cases ws) (simp_all add: mult.commute)
    show d: "distinct (butlast ids @ [last ids])" using ids(1,3) by simp
    have "set (butlast ids) \<subseteq> set ws - {last ids}"
      using d in_set_butlastD[of _ ids] ids(2) by auto
    then show "\<forall>v \<in> set (butlast ids). backlogged (fst t) ?share v (rs_dbs (changed_by t s))"
      using assms(8) by blast
  qed
  ultimately show "rs_dbs (relay_tick rank batch ws t s) (last ids) = snd t (last ids) (rs_dbs s (last ids))"
    using w by (simp add: tick changed_by_def)
  show "cursor_order rank (rs_cursor (relay_tick rank batch ws t s)) ws = ids"
    using cursor_order_fixed[OF assms(3,4), of "rs_cursor s"] assms(7) by (simp add: tick)
qed

text \<open>C30.
  A workspace starves. When the workspaces fit in one call of the cursor and the others can take
  the batch among them - with the default batch of 200, from eighteen workspaces on - there is a workspace
  that every tick comes to last, and as long as the others have their share waiting, no tick
  touches it: whatever happens to its outbox happens by others.\<close>

theorem relay_starves_the_last_workspace:
  assumes "distinct ws" and "[] \<notin> set ws" and "ws \<noteq> []" and "inj_on rank (set ws)" and "length ws \<le> batch"
    and "int batch \<le> (int (length ws) - 1) * fair_share (int batch) (int (length ws))"
    and "w = last (cursor_order rank (rs_cursor s) ws)"
  shows "w \<in> set ws \<and> (\<forall>ts. others_backlogged rank batch ws w ts s \<longrightarrow>
    rs_dbs (fold (relay_tick rank batch ws) ts s) w = fold (\<lambda>t db. snd t w db) ts (rs_dbs s w))"
proof -
  define ids where "ids = cursor_order rank (rs_cursor s) ws"
  have main: "rs_dbs (fold (relay_tick rank batch ws) ts s) (last ids) = fold (\<lambda>t db. snd t (last ids) db) ts (rs_dbs s (last ids))"
    if "others_backlogged rank batch ws (last ids) ts s" "cursor_order rank (rs_cursor s) ws = ids" for ts s
    using that
  proof (induction ts arbitrary: s)
    case (Cons t ts)
    then show ?case using one_tick[OF assms(1-6) Cons.prems(2)] by simp
  qed simp
  have "last ids \<in> set ws"
  proof -
    have "ids \<noteq> []" using assms(3) by (simp add: ids_def)
    then have "last ids \<in> set ids" by simp
    then show ?thesis by (simp add: ids_def cursor_order_def)
  qed
  with main ids_def assms(7) show ?thesis by blast
qed

text \<open>Eighteen workspaces share the default batch.\<close>

lemma default_batch_starves:
  "int 200 \<le> (int 18 - 1) * fair_share (int 200) (int 18)"
  by (simp add: fair_share_def)

definition waiting_command :: "string \<Rightarrow> outbox_message" where
  "waiting_command k = \<lparr>om_ID = k, om_EventID = k, om_Topic = JobsExchange, om_RoutingKey = ''journey.start.a'',
     om_Payload = \<lparr>ev_ID = k, ev_EventID = k, ev_Type = ''journey.start'', ev_SchemaVersion = 1, ev_WorkspaceID = [],
       ev_Subject = \<lparr>es_Type = ''contact_automation'', es_ID = ''j'', es_CustomerID = [], es_ContactEmail = ''a@x''\<rparr>,
       ev_Source = ''rule-worker'', ev_OccurredAt = 1, ev_ReceivedAt = 1, ev_CorrelationID = ''e'', ev_CausationID = None,
       ev_TraceID = [], ev_Data = ED_Other JNull\<rparr>,
     om_EffectKey = None, om_Status = OS_Pending, om_Attempts = 0, om_AvailableAt = 1, om_ClaimedBy = None,
     om_ClaimToken = None, om_ClaimExpiresAt = None, om_PublishedAt = None, om_LastError = None, om_CreatedAt = 1\<rparr>"

definition full_outbox :: realtime_db where
  "full_outbox = \<lparr>rd_outbox = map waiting_command [''1'', ''2'', ''3''], rd_inbox = [], rd_effects = []\<rparr>"

definition sample_tick :: tick where
  "sample_tick = (\<lparr>te_relay = \<lparr>re_now = 5, re_byte0 = (\<lambda>_. 0), re_publish = (\<lambda>_. None), re_maxAttempts = 20\<rparr>,
     te_worker = ''w'', te_lease = 1, te_token = (\<lambda>_. ''t''), te_claim_fails = (\<lambda>_. False),
     te_locked = (\<lambda>_ _. False), te_fault = (\<lambda>_ _. Works)\<rparr>,
     \<lambda>w db. if w = ''c'' then db else full_outbox)"

definition sample_rank :: "string \<Rightarrow> nat" where
  "sample_rank w = (if w = ''a'' then 1 else if w = ''b'' then 2 else if w = ''c'' then 3 else 0)"

definition sample_state :: relay_state where
  "sample_state = \<lparr>rs_cursor = [], rs_dbs = (\<lambda>_. full_outbox)\<rparr>"

lemma sample_backlog: "others_backlogged sample_rank 4 [''a'', ''b'', ''c''] ''c'' (replicate n sample_tick) s"
proof (induction n arbitrary: s)
  case (Suc n)
  then show ?case
    by (auto simp: backlogged_def changed_by_def sample_tick_def fair_share_def full_outbox_def waiting_command_def
        claimable_message_def)
qed simp

text \<open>Four messages a tick, three workspaces: the third keeps its messages through a thousand ticks.\<close>

theorem relay_starves_the_last_workspace_witness:
  "rs_dbs (fold (relay_tick sample_rank 4 [''a'', ''b'', ''c'']) (replicate 1000 sample_tick) sample_state) ''c'' = full_outbox"
proof -
  have inj: "inj_on sample_rank (set [''a'', ''b'', ''c''])" by (simp add: inj_on_def sample_rank_def)
  have c: "''c'' = last (cursor_order sample_rank (rs_cursor sample_state) [''a'', ''b'', ''c''])"
    by (simp add: cursor_order_def sample_state_def sample_rank_def less_eq_prod_def)
  have others: "fold (\<lambda>t db. snd t ''c'' db) (replicate n sample_tick) db = db" for n db
    by (induction n) (simp_all add: sample_tick_def)
  have "\<forall>ts. others_backlogged sample_rank 4 [''a'', ''b'', ''c''] ''c'' ts sample_state \<longrightarrow>
    rs_dbs (fold (relay_tick sample_rank 4 [''a'', ''b'', ''c'']) ts sample_state) ''c'' =
      fold (\<lambda>t db. snd t ''c'' db) ts (rs_dbs sample_state ''c'')"
    using relay_starves_the_last_workspace[OF _ _ _ inj _ _ c] by (simp add: fair_share_def)
  then have "rs_dbs (fold (relay_tick sample_rank 4 [''a'', ''b'', ''c'']) (replicate 1000 sample_tick) sample_state) ''c'' =
      fold (\<lambda>t db. snd t ''c'' db) (replicate 1000 sample_tick) (rs_dbs sample_state ''c'')"
    using sample_backlog by blast
  then show ?thesis unfolding others by (simp add: sample_state_def)
qed

end
