(* ===== verification/Enrollment.thy ===== *)
theory Enrollment
  imports Journey_Store
begin

text \<open>
  How contacts enter automations: the tables of \<open>internal/database/schema/journey_tables.go\<close>, the
  function \<open>automation_enroll_customer\<close> that its Go code installs, and the enrolment of an audience
  build by \<open>internal/repository/automation_postgres.go\<close>. A call is one statement of a transaction:
  \<open>seen\<close> is the committed database that the queries of the guard look at, which other open
  transactions have not changed yet; enrolments of one key wait for each other by the unique
  indexes and the row lock. The traces of an enrolment (instance events, the entry on the timeline)
  are left out.
\<close>

section \<open>Tables\<close>

datatype trigger_frequency = TF_Once | TF_EveryTime | TF_Other string

datatype entry_outcome = EO_Enrolled | EO_AlreadyOnce | EO_ReplayedEvent | EO_GuardDeferred | EO_GuardDenied

record entry_guard =
  eg_Enabled :: bool
  eg_Cooldown :: duration
  eg_MaxConcurrent :: int

definition no_guard :: entry_guard where
  "no_guard = \<lparr>eg_Enabled = False, eg_Cooldown = 0, eg_MaxConcurrent = 0\<rparr>"

definition JourneyEntryGuard_Validate :: "entry_guard \<Rightarrow> string option" where
  "JourneyEntryGuard_Validate g =
     (if \<not> eg_Enabled g then None
      else if eg_Cooldown g < 0 \<or> eg_MaxConcurrent g < 0
      then Some ''journey entry cooldown and max_concurrent cannot be negative''
      else if eg_Cooldown g = 0 \<and> eg_MaxConcurrent g = 0
      then Some ''enabled journey entry guard requires cooldown or max_concurrent'' else None)"

record customer_row =
  cu_ID :: string
  cu_MergedInto :: "string option"

record contact_row =
  ct_Email :: string
  ct_CustomerID :: "string option"
  ct_UpdatedAt :: instant

record enrollment_row =
  en_ID :: string
  en_AutomationID :: string
  en_AutomationVersion :: int
  en_CustomerID :: string
  en_ContactEmail :: string
  en_Frequency :: trigger_frequency
  en_OriginEventID :: "string option"
  en_Guard :: entry_guard

record instance_row =
  in_ID :: string
  in_EnrollmentID :: string
  in_ContactAutomationID :: string
  in_Status :: journey_status
  in_StartedAt :: instant

record decision_row =
  de_AutomationID :: string
  de_CustomerID :: string
  de_OriginEventID :: "string option"
  de_Decision :: entry_outcome
  de_Reason :: "string option"
  de_RetryAt :: "instant option"
  de_DecidedAt :: instant

record trigger_log_row =
  tl_AutomationID :: string
  tl_ContactEmail :: string
  tl_CustomerID :: "string option"

record match_audit =
  ma_EventID :: string
  ma_AutomationID :: string
  ma_Engine :: string
  ma_Matched :: bool
  ma_DecisionHash :: string
  ma_ContactAutomationID :: "string option"
  ma_Reason :: json_object
  ma_CreatedAt :: instant

text \<open>The tree of a trigger's conditions is compiled elsewhere and stays JSON here. The compiled condition of a
  binding is what its column decodes as.\<close>

record trigger_config =
  tc_EventKind :: string
  tc_ListID :: "string option"
  tc_SegmentID :: "string option"
  tc_CustomEventName :: "string option"
  tc_Tag :: "string option"
  tc_UpdatedFields :: "string list"
  tc_Conditions :: "json option"
  tc_Frequency :: trigger_frequency
  tc_EntryGuard :: "entry_guard option"

record compiled_condition =
  cc_Query :: string
  cc_Arguments :: "json list"
  cc_RootNodeID :: string
  cc_Frequency :: trigger_frequency
  cc_Trigger :: "trigger_config option"

record trigger_binding =
  tb_AutomationID :: string
  tb_AutomationVersion :: int
  tb_EventType :: string
  tb_SubjectType :: string
  tb_DependencyKeys :: "string list"
  tb_ConditionHash :: string
  tb_Compiled :: "compiled_condition option"

text \<open>The ledger of events, without their context and their entry on the timeline.\<close>

record idempotency_row =
  ip_ID :: string
  ip_ReceivedAt :: instant
  ip_PayloadHash :: string

record event_row =
  el_ID :: string
  el_Type :: string
  el_SubjectType :: string
  el_SubjectID :: string
  el_CustomerID :: "string option"
  el_ContactEmail :: "string option"
  el_Source :: string
  el_SchemaVersion :: int
  el_OccurredAt :: instant
  el_ReceivedAt :: instant
  el_Data :: event_data

record rule_db = journey_db +
  ru_customers :: "customer_row list"
  ru_contacts :: "contact_row list"
  ru_enrollments :: "enrollment_row list"
  ru_instances :: "instance_row list"
  ru_decisions :: "decision_row list"
  ru_trigger_log :: "trigger_log_row list"
  ru_audits :: "match_audit list"
  ru_bindings :: "trigger_binding list"
  ru_idempotency :: "idempotency_row list"
  ru_events :: "event_row list"

section \<open>The function\<close>

record enroll_args =
  ea_AutomationID :: string
  ea_CustomerID :: string
  ea_ContactEmail :: string
  ea_RootNodeID :: string
  ea_Frequency :: trigger_frequency
  ea_OriginEventID :: "string option"
  ea_Guard :: entry_guard
  ea_ExpectedVersion :: "int option"
  ea_Engine :: string

text \<open>The generated identifiers of a call.\<close>

record enroll_ids =
  ei_Enrollment :: string
  ei_Journey :: string
  ei_Instance :: string
  ei_Execution :: string

record enroll_result =
  er_Outcome :: entry_outcome
  er_ContactAutomationID :: "string option"
  er_RetryAt :: "instant option"

definition outcome_only :: "entry_outcome \<Rightarrow> enroll_result" where
  "outcome_only out = \<lparr>er_Outcome = out, er_ContactAutomationID = None, er_RetryAt = None\<rparr>"

definition resolve_customer :: "string \<Rightarrow> rule_db \<Rightarrow> string option" where
  "resolve_customer k db =
     (case sql_find (\<lambda>c. cu_ID c = k) (ru_customers db) of
        None \<Rightarrow> None
      | Some c \<Rightarrow> Some (case cu_MergedInto c of None \<Rightarrow> cu_ID c | Some k' \<Rightarrow> k'))"

definition live_version :: "string \<Rightarrow> int option \<Rightarrow> rule_db \<Rightarrow> int option" where
  "live_version k expected db =
     map_option a_Version (sql_find (\<lambda>a. a_ID a = k \<and> is_live a \<and>
       (case expected of None \<Rightarrow> True | Some v \<Rightarrow> a_Version a = v)) (jd_automations db))"

definition only_spaces :: "string \<Rightarrow> bool" where
  "only_spaces s = list_all (\<lambda>c. c = CHR '' '') s"

text \<open>\<open>SELECT email .. ORDER BY updated_at DESC LIMIT 1\<close>\<close>

definition projected_email :: "string \<Rightarrow> rule_db \<Rightarrow> string" where
  "projected_email customer db =
     (case sort_key (\<lambda>c. - ct_UpdatedAt c) (filter (\<lambda>c. ct_CustomerID c = Some customer) (ru_contacts db)) of
        [] \<Rightarrow> [] | c # _ \<Rightarrow> ct_Email c)"

definition entry_email :: "enroll_args \<Rightarrow> string \<Rightarrow> rule_db \<Rightarrow> string" where
  "entry_email a customer db =
     (if only_spaces (ea_ContactEmail a) then projected_email customer db else ea_ContactEmail a)"

definition log_decision ::
    "instant \<Rightarrow> enroll_args \<Rightarrow> string \<Rightarrow> entry_outcome \<Rightarrow> string option \<Rightarrow> instant option \<Rightarrow> rule_db \<Rightarrow> rule_db" where
  "log_decision now a customer out reason retryAt db =
     db\<lparr>ru_decisions := ru_decisions db @ [\<lparr>de_AutomationID = ea_AutomationID a, de_CustomerID = customer,
       de_OriginEventID = ea_OriginEventID a, de_Decision = out, de_Reason = reason, de_RetryAt = retryAt,
       de_DecidedAt = now\<rparr>]\<rparr>"

text \<open>The row an enrolment of the key would be: one per customer, or one per customer and event.\<close>

definition same_entry :: "enroll_args \<Rightarrow> string \<Rightarrow> enrollment_row \<Rightarrow> bool" where
  "same_entry a customer e \<longleftrightarrow> en_AutomationID e = ea_AutomationID a \<and> en_CustomerID e = customer \<and>
     (ea_Frequency a = TF_Once \<and> en_Frequency e = TF_Once \<or>
      ea_Frequency a = TF_EveryTime \<and> en_Frequency e = TF_EveryTime \<and> en_OriginEventID e = ea_OriginEventID a)"

text \<open>\<open>INSERT .. ON CONFLICT DO NOTHING\<close>. The hash of the deduplication key is a function of the
  columns of the two unique indexes and adds nothing.\<close>

definition insert_enrollment ::
    "enroll_ids \<Rightarrow> enroll_args \<Rightarrow> string \<Rightarrow> int \<Rightarrow> string \<Rightarrow> rule_db \<Rightarrow> bool \<times> rule_db" where
  "insert_enrollment ids a customer version email db =
     (if (\<exists>e \<in> set (ru_enrollments db). same_entry a customer e \<or> en_ID e = ei_Enrollment ids) then (False, db)
      else (True, db\<lparr>ru_enrollments := ru_enrollments db @ [\<lparr>en_ID = ei_Enrollment ids,
        en_AutomationID = ea_AutomationID a, en_AutomationVersion = version, en_CustomerID = customer,
        en_ContactEmail = email, en_Frequency = ea_Frequency a,
        en_OriginEventID = (if ea_Frequency a = TF_Once then None else ea_OriginEventID a), en_Guard = ea_Guard a\<rparr>]\<rparr>))"

definition entered :: "string option \<Rightarrow> rule_db \<Rightarrow> bool" where
  "entered enrollment db = sql_exists (\<lambda>i. Some (in_EnrollmentID i) = enrollment) (ru_instances db)"

text \<open>\<open>ORDER BY decided_at DESC LIMIT 1\<close>\<close>

definition deferred_until :: "enroll_args \<Rightarrow> string \<Rightarrow> rule_db \<Rightarrow> instant option" where
  "deferred_until a customer db =
     (case sort_key (\<lambda>d. - de_DecidedAt d) (filter (\<lambda>d. de_AutomationID d = ea_AutomationID a \<and>
          de_CustomerID d = customer \<and> de_Decision d = EO_GuardDeferred \<and> de_OriginEventID d = ea_OriginEventID a)
          (ru_decisions db)) of
        [] \<Rightarrow> None | d # _ \<Rightarrow> de_RetryAt d)"

definition repeated_outcome :: "enroll_args \<Rightarrow> entry_outcome" where
  "repeated_outcome a = (if ea_Frequency a = TF_Once then EO_AlreadyOnce else EO_ReplayedEvent)"

text \<open>The instances of the automation and the customer.\<close>

definition instances_of :: "string \<Rightarrow> string \<Rightarrow> rule_db \<Rightarrow> instance_row list" where
  "instances_of automation customer db =
     filter (\<lambda>i. \<exists>e \<in> set (ru_enrollments db). en_ID e = in_EnrollmentID i \<and> en_AutomationID e = automation \<and>
       en_CustomerID e = customer) (ru_instances db)"

definition active_count :: "string \<Rightarrow> string \<Rightarrow> rule_db \<Rightarrow> nat" where
  "active_count automation customer db = sql_count (\<lambda>i. in_Status i = JS_Active) (instances_of automation customer db)"

definition latest_start :: "instance_row list \<Rightarrow> instant option" where
  "latest_start is = (if is = [] then None else Some (foldr max (map in_StartedAt is) (in_StartedAt (hd is))))"

text \<open>The guard: nothing, or the outcome with its reason and the time of the next try.\<close>

definition guard_verdict ::
    "instant \<Rightarrow> enroll_args \<Rightarrow> string \<Rightarrow> rule_db \<Rightarrow> (entry_outcome \<times> string \<times> instant option) option" where
  "guard_verdict now a customer seen =
     (if \<not> eg_Enabled (ea_Guard a) then None
      else
        let cooldown = max (eg_Cooldown (ea_Guard a)) 0;
            max_concurrent = max (eg_MaxConcurrent (ea_Guard a)) 0;
            latest = latest_start (instances_of (ea_AutomationID a) customer seen)
        in if max_concurrent > 0 \<and> int (active_count (ea_AutomationID a) customer seen) \<ge> max_concurrent
           then (if cooldown > 0
                 then Some (EO_GuardDeferred, ''max_concurrent_reached'',
                        Some (max (now + minute) ((case latest of None \<Rightarrow> now | Some t \<Rightarrow> t) + cooldown)))
                 else Some (EO_GuardDenied, ''max_concurrent_reached'', None))
           else (case latest of
                   None \<Rightarrow> None
                 | Some t \<Rightarrow> if cooldown > 0 \<and> t + cooldown > now
                             then Some (EO_GuardDeferred, ''cooldown_active'', Some (t + cooldown)) else None))"

text \<open>The unique keys of \<open>contact_automations\<close>.\<close>

definition journey_clash :: "enroll_ids \<Rightarrow> enroll_args \<Rightarrow> string \<Rightarrow> instant \<Rightarrow> journey_row \<Rightarrow> bool" where
  "journey_clash ids a email now r \<longleftrightarrow> j_ID r = ei_Journey ids \<or>
     j_AutomationID r = ea_AutomationID a \<and>
       (ea_OriginEventID a \<noteq> None \<and> r_OriginEventID r = ea_OriginEventID a \<or>
        j_ContactEmail r = email \<and> j_EnteredAt r = now)"

definition entered_journey :: "enroll_ids \<Rightarrow> enroll_args \<Rightarrow> int \<Rightarrow> string \<Rightarrow> instant \<Rightarrow> journey_row" where
  "entered_journey ids a version email now =
     \<lparr>j_ID = ei_Journey ids, j_AutomationID = ea_AutomationID a, j_ContactEmail = email,
      j_CurrentNodeID = Some (ea_RootNodeID a), j_Status = JS_Active, j_ExitReason = None, j_EnteredAt = now,
      j_ScheduledAt = Some now, j_Context = Some [], j_RetryCount = 0, j_LastError = None, j_LastRetryAt = None,
      j_MaxRetries = 3, r_OriginEventID = ea_OriginEventID a, r_AutomationVersion = version, r_StateVersion = 0,
      r_ClaimToken = None, r_ClaimedBy = None, r_ClaimedAt = None, r_ClaimExpiresAt = None\<rparr>"

definition log_trigger :: "enroll_args \<Rightarrow> string \<Rightarrow> string \<Rightarrow> rule_db \<Rightarrow> rule_db" where
  "log_trigger a customer email db =
     (let p = (\<lambda>l. tl_AutomationID l = ea_AutomationID a \<and> tl_ContactEmail l = email)
      in if sql_exists p (ru_trigger_log db)
         then db\<lparr>ru_trigger_log := sql_update p (\<lambda>l. l\<lparr>tl_CustomerID :=
                (case tl_CustomerID l of None \<Rightarrow> Some customer | Some c \<Rightarrow> Some c)\<rparr>) (ru_trigger_log db)\<rparr>
         else db\<lparr>ru_trigger_log := ru_trigger_log db @ [\<lparr>tl_AutomationID = ea_AutomationID a, tl_ContactEmail = email,
                tl_CustomerID = Some customer\<rparr>]\<rparr>)"

definition same_audit :: "string \<Rightarrow> string \<Rightarrow> string \<Rightarrow> match_audit \<Rightarrow> bool" where
  "same_audit event automation engine m \<longleftrightarrow>
     ma_EventID m = event \<and> ma_AutomationID m = automation \<and> ma_Engine m = engine"

text \<open>\<open>md5\<close> is the hash of the legacy decision.\<close>

definition audit_legacy ::
    "(string \<Rightarrow> int \<Rightarrow> string \<Rightarrow> trigger_frequency \<Rightarrow> string) \<Rightarrow> instant \<Rightarrow> enroll_ids \<Rightarrow> enroll_args \<Rightarrow> string \<Rightarrow> int \<Rightarrow> rule_db \<Rightarrow> rule_db" where
  "audit_legacy md5 now ids a customer version db =
     (case ea_OriginEventID a of
        None \<Rightarrow> db
      | Some e \<Rightarrow>
          if ea_Engine a \<noteq> ''legacy'' \<or> sql_exists (same_audit e (ea_AutomationID a) ''legacy'') (ru_audits db) then db
          else db\<lparr>ru_audits := ru_audits db @ [\<lparr>ma_EventID = e, ma_AutomationID = ea_AutomationID a, ma_Engine = ''legacy'',
                 ma_Matched = True, ma_DecisionHash = md5 (ea_AutomationID a) version (ea_RootNodeID a) (ea_Frequency a),
                 ma_ContactAutomationID = Some (ei_Journey ids),
                 ma_Reason = [(''decision'', JStr ''enrolled''), (''customer_id'', JStr customer)], ma_CreatedAt = now\<rparr>]\<rparr>)"

definition count_enrolled :: "enroll_args \<Rightarrow> int \<Rightarrow> rule_db \<Rightarrow> rule_db" where
  "count_enrolled a version db =
     db\<lparr>jd_automations := sql_update (\<lambda>x. a_ID x = ea_AutomationID a \<and> a_Version x = version)
       (\<lambda>x. x\<lparr>a_Stats := (a_Stats x)\<lparr>as_Enrolled := as_Enrolled (a_Stats x) + 1\<rparr>\<rparr>) (jd_automations db)\<rparr>"

text \<open>The writes of an enrolment: an error when a unique key is violated.\<close>

definition start_journey ::
    "(string \<Rightarrow> int \<Rightarrow> string \<Rightarrow> trigger_frequency \<Rightarrow> string) \<Rightarrow> instant \<Rightarrow> enroll_ids \<Rightarrow> enroll_args \<Rightarrow> string \<Rightarrow> int \<Rightarrow> string \<Rightarrow>
     string \<Rightarrow> rule_db \<Rightarrow> (string + enroll_result) \<times> rule_db" where
  "start_journey md5 now ids a customer version email enrollment db =
     (if \<exists>r \<in> set (jd_journeys db). journey_clash ids a email now r
      then (Inl ''duplicate key value violates unique constraint of contact_automations'', db)
      else if \<exists>i \<in> set (ru_instances db). in_ID i = ei_Instance ids \<or> in_EnrollmentID i = enrollment \<or>
           in_ContactAutomationID i = ei_Journey ids
      then (Inl ''duplicate key value violates unique constraint of journey_instances'', db)
      else
        let db1 = db\<lparr>jd_journeys := jd_journeys db @ [entered_journey ids a version email now],
              ru_instances := ru_instances db @ [\<lparr>in_ID = ei_Instance ids, in_EnrollmentID = enrollment,
                in_ContactAutomationID = ei_Journey ids, in_Status = JS_Active, in_StartedAt = now\<rparr>]\<rparr>;
            db2 = log_decision now a customer EO_Enrolled None None db1;
            db3 = (if ea_Frequency a = TF_Once then log_trigger a customer email db2 else db2);
            db4 = count_enrolled a version (audit_legacy md5 now ids a customer version db3);
            db5 = db4\<lparr>jd_executions := jd_executions db4 @ [\<lparr>nx_ID = ei_Execution ids,
                nx_ContactAutomationID = ei_Journey ids, nx_AutomationID = ea_AutomationID a,
                nx_NodeID = ea_RootNodeID a, nx_NodeType = NT_Trigger, nx_Action = NA_Entered, nx_EnteredAt = now,
                nx_CompletedAt = None, nx_Error = None\<rparr>]\<rparr>
        in (Inr \<lparr>er_Outcome = EO_Enrolled, er_ContactAutomationID = Some (ei_Journey ids), er_RetryAt = None\<rparr>, db5))"

text \<open>After the insertion into \<open>journey_enrollments\<close>: what an earlier enrolment of the key decides, then
  the guard.\<close>

definition enter_or_not ::
    "(string \<Rightarrow> int \<Rightarrow> string \<Rightarrow> trigger_frequency \<Rightarrow> string) \<Rightarrow> instant \<Rightarrow> enroll_ids \<Rightarrow> rule_db \<Rightarrow> enroll_args \<Rightarrow> string \<Rightarrow>
     int \<Rightarrow> string \<Rightarrow> string \<Rightarrow> rule_db \<Rightarrow> (string + enroll_result) \<times> rule_db" where
  "enter_or_not md5 now ids seen a customer version email enrollment db =
     (case guard_verdict now a customer seen of
        Some (out, reason, retryAt) \<Rightarrow>
          (Inr \<lparr>er_Outcome = out, er_ContactAutomationID = None, er_RetryAt = retryAt\<rparr>,
           log_decision now a customer out (Some reason) retryAt db)
      | None \<Rightarrow> start_journey md5 now ids a customer version email enrollment db)"

definition automation_enroll_customer ::
    "(string \<Rightarrow> int \<Rightarrow> string \<Rightarrow> trigger_frequency \<Rightarrow> string) \<Rightarrow> instant \<Rightarrow> enroll_ids \<Rightarrow> rule_db \<Rightarrow> enroll_args \<Rightarrow> rule_db \<Rightarrow>
     (string + enroll_result) \<times> rule_db" where
  "automation_enroll_customer md5 now ids seen a db =
     (case resolve_customer (ea_CustomerID a) db of
        None \<Rightarrow> (Inr (outcome_only EO_GuardDenied), db)
      | Some customer \<Rightarrow>
     (case live_version (ea_AutomationID a) (ea_ExpectedVersion a) db of
        None \<Rightarrow> (Inr (outcome_only EO_GuardDenied),
                 log_decision now a customer EO_GuardDenied (Some ''automation_not_live_or_version_changed'') None db)
      | Some version \<Rightarrow>
     let email = entry_email a customer db
     in if only_spaces email
        then (Inr (outcome_only EO_GuardDenied),
              log_decision now a customer EO_GuardDenied (Some ''contact_email_projection_missing'') None db)
        else if \<not> (ea_Frequency a = TF_Once \<or> ea_Frequency a = TF_EveryTime \<and> ea_OriginEventID a \<noteq> None)
        then (Inr (outcome_only EO_GuardDenied),
              log_decision now a customer EO_GuardDenied (Some ''invalid_frequency_or_missing_event_id'') None db)
        else
          (case insert_enrollment ids a customer version email db of
             (True, db1) \<Rightarrow> enter_or_not md5 now ids seen a customer version email (ei_Enrollment ids) db1
           | (False, _) \<Rightarrow>
               let enrollment = map_option en_ID (sql_find (same_entry a customer) (ru_enrollments db))
               in if entered enrollment db
                  then (Inr (outcome_only (repeated_outcome a)),
                        log_decision now a customer (repeated_outcome a) (Some ''database_unique_constraint'') None db)
                  else
                    (case deferred_until a customer db of
                       None \<Rightarrow> (Inr (outcome_only (repeated_outcome a)), db)
                     | Some t \<Rightarrow>
                         if t > now
                         then (Inr \<lparr>er_Outcome = EO_GuardDeferred, er_ContactAutomationID = None, er_RetryAt = Some t\<rparr>, db)
                         else (case enrollment of
                                 None \<Rightarrow> (Inl ''null value in column enrollment_id'', db)
                               | Some e \<Rightarrow> enter_or_not md5 now ids seen a customer version email e db)))))"

section \<open>An audience\<close>

text \<open>\<open>EnrollAudienceBuild\<close> is one statement: the function for every member of the build, with the
  build as the event, and an update of the context of the journeys it enrolled. PostgreSQL runs the
  parts of a \<open>WITH\<close> on one snapshot, so the update looks for its rows in the table as the statement
  found it; unique keys are checked on the table as it is. \<open>context\<close> is what the update adds.\<close>

fun enroll_members ::
    "(string \<Rightarrow> int \<Rightarrow> string \<Rightarrow> trigger_frequency \<Rightarrow> string) \<Rightarrow> instant \<Rightarrow> (string \<Rightarrow> enroll_ids) \<Rightarrow> (string \<Rightarrow> enroll_args) \<Rightarrow>
     string list \<Rightarrow> rule_db \<Rightarrow> (string + (string \<times> enroll_result) list) \<times> rule_db" where
  "enroll_members md5 now ids args [] db = (Inr [], db)"
| "enroll_members md5 now ids args (c # cs) db =
     (case automation_enroll_customer md5 now (ids c) db (args c) db of
        (Inl e, db1) \<Rightarrow> (Inl e, db1)
      | (Inr r, db1) \<Rightarrow>
          (case enroll_members md5 now ids args cs db1 of
             (Inl e, db2) \<Rightarrow> (Inl e, db2)
           | (Inr rs, db2) \<Rightarrow> (Inr ((c, r) # rs), db2)))"

definition audience_args :: "string \<Rightarrow> string \<Rightarrow> int \<Rightarrow> string \<Rightarrow> string \<Rightarrow> enroll_args" where
  "audience_args automation rootNode version build customer =
     \<lparr>ea_AutomationID = automation, ea_CustomerID = customer, ea_ContactEmail = [], ea_RootNodeID = rootNode,
      ea_Frequency = TF_EveryTime, ea_OriginEventID = Some build, ea_Guard = no_guard,
      ea_ExpectedVersion = Some version, ea_Engine = ''audience''\<rparr>"

definition journeys_enrolled :: "(string \<times> enroll_result) list \<Rightarrow> (string \<times> string) list" where
  "journeys_enrolled rs = List.map_filter (\<lambda>(c, r). if er_Outcome r = EO_Enrolled
     then map_option (\<lambda>j. (j, c)) (er_ContactAutomationID r) else None) rs"

definition EnrollAudienceBuild ::
    "(string \<Rightarrow> int \<Rightarrow> string \<Rightarrow> trigger_frequency \<Rightarrow> string) \<Rightarrow> (string \<Rightarrow> json_object) \<Rightarrow> instant \<Rightarrow> (string \<Rightarrow> enroll_ids) \<Rightarrow>
     string \<Rightarrow> string \<Rightarrow> int \<Rightarrow> string \<Rightarrow> int \<Rightarrow> string \<Rightarrow> string list \<Rightarrow> rule_db \<Rightarrow> (string + nat) \<times> rule_db" where
  "EnrollAudienceBuild md5 context now ids automation rootNode version audience audienceVersion build members db =
     (if automation = [] \<or> rootNode = [] \<or> version \<le> 0 \<or> audience = [] \<or> audienceVersion \<le> 0 \<or> build = []
      then (Inl ''automation, root node, versions, audience, and build are required'', db)
      else in_tx (\<lambda>db.
        case enroll_members md5 now ids (audience_args automation rootNode version build) members db of
          (Inl e, db') \<Rightarrow> (Inl (''enroll audience build into automation: '' @ e), db')
        | (Inr rs, db') \<Rightarrow>
            let js = journeys_enrolled rs;
                seen = {r \<in> set (jd_journeys db). j_ID r \<in> fst ` set js}
            in (Inr (sql_count (\<lambda>r. j_ID r \<in> fst ` set js) (jd_journeys db)),
                db'\<lparr>jd_journeys := sql_update (\<lambda>r. r \<in> seen)
                  (\<lambda>r. r\<lparr>j_Context := Some ((case j_Context r of None \<Rightarrow> [] | Some x \<Rightarrow> x) @
                     (case map_of js (j_ID r) of None \<Rightarrow> [] | Some c \<Rightarrow> context c))\<rparr>) (jd_journeys db')\<rparr>)) db)"

end
