(* ===== verification/Enrollment_Runs.thy ===== *)
theory Enrollment_Runs
  imports Enrollment
begin

text \<open>
  Runs of enrolments: the calls of \<open>automation_enroll_customer\<close> as the steps of a relation, beside
  whatever the rest of the program does to customers, contacts, automations and the states of journeys.
  A customer enters an automation at most once, or at most once for an event, and the keys of the tables
  are kept; what the guard promises holds for calls that see each other, and only for those.
\<close>

section \<open>What a call writes\<close>

lemma log_decision_frame [simp]:
  "ru_customers (log_decision now a k out reason retryAt db) = ru_customers db"
  "ru_contacts (log_decision now a k out reason retryAt db) = ru_contacts db"
  "ru_enrollments (log_decision now a k out reason retryAt db) = ru_enrollments db"
  "ru_instances (log_decision now a k out reason retryAt db) = ru_instances db"
  "jd_journeys (log_decision now a k out reason retryAt db) = jd_journeys db"
  "jd_automations (log_decision now a k out reason retryAt db) = jd_automations db"
  by (simp_all add: log_decision_def)

lemma log_trigger_frame [simp]:
  "ru_customers (log_trigger a k email db) = ru_customers db"
  "ru_contacts (log_trigger a k email db) = ru_contacts db"
  "ru_enrollments (log_trigger a k email db) = ru_enrollments db"
  "ru_instances (log_trigger a k email db) = ru_instances db"
  "jd_journeys (log_trigger a k email db) = jd_journeys db"
  "jd_automations (log_trigger a k email db) = jd_automations db"
  by (simp_all add: log_trigger_def Let_def)

lemma audit_legacy_frame [simp]:
  "ru_customers (audit_legacy md5 now ids a k version db) = ru_customers db"
  "ru_contacts (audit_legacy md5 now ids a k version db) = ru_contacts db"
  "ru_enrollments (audit_legacy md5 now ids a k version db) = ru_enrollments db"
  "ru_instances (audit_legacy md5 now ids a k version db) = ru_instances db"
  "jd_journeys (audit_legacy md5 now ids a k version db) = jd_journeys db"
  "jd_automations (audit_legacy md5 now ids a k version db) = jd_automations db"
  by (simp_all add: audit_legacy_def split: option.split)

lemma count_enrolled_frame [simp]:
  "ru_customers (count_enrolled a version db) = ru_customers db"
  "ru_contacts (count_enrolled a version db) = ru_contacts db"
  "ru_enrollments (count_enrolled a version db) = ru_enrollments db"
  "ru_instances (count_enrolled a version db) = ru_instances db"
  "jd_journeys (count_enrolled a version db) = jd_journeys db"
  by (simp_all add: count_enrolled_def)

lemma find_live_update:
  assumes "\<And>x. a_ID (f x) = a_ID x" "\<And>x. a_Status (f x) = a_Status x"
    "\<And>x. a_DeletedAt (f x) = a_DeletedAt x" "\<And>x. a_Version (f x) = a_Version x"
  shows "map_option a_Version (sql_find (\<lambda>a. a_ID a = k \<and> is_live a \<and>
       (case v of None \<Rightarrow> True | Some v \<Rightarrow> a_Version a = v)) (sql_update p f t)) =
     map_option a_Version (sql_find (\<lambda>a. a_ID a = k \<and> is_live a \<and>
       (case v of None \<Rightarrow> True | Some v \<Rightarrow> a_Version a = v)) t)"
  by (cases v; induction t) (auto simp: is_live_def assms simp del: map_option_eq_Some)

lemma live_version_count_enrolled [simp]:
  "live_version k v (count_enrolled a version db) = live_version k v db"
  by (simp add: live_version_def count_enrolled_def find_live_update)

lemma live_version_frame [simp]:
  "live_version x v (log_decision now a k out reason retryAt db) = live_version x v db"
  "live_version x v (log_trigger a k email db) = live_version x v db"
  "live_version x v (audit_legacy md5 now ids a k version db) = live_version x v db"
  "live_version x v (db\<lparr>jd_executions := nx\<rparr>) = live_version x v db"
  "live_version x v (db\<lparr>jd_journeys := js\<rparr>) = live_version x v db"
  "live_version x v (db\<lparr>ru_instances := is\<rparr>) = live_version x v db"
  "live_version x v (db\<lparr>ru_enrollments := es\<rparr>) = live_version x v db"
  by (simp_all add: live_version_def)

lemma resolve_customer_cong: "ru_customers db' = ru_customers db \<Longrightarrow> resolve_customer k db' = resolve_customer k db"
  by (simp add: resolve_customer_def)

lemma projected_email_cong: "ru_contacts db' = ru_contacts db \<Longrightarrow> projected_email k db' = projected_email k db"
  by (simp add: projected_email_def)

text \<open>What a call of a customer leaves as it is: everybody else's entries, and all the rest that the
  next call reads.\<close>

definition enters :: "enroll_ids \<Rightarrow> string \<Rightarrow> rule_db \<Rightarrow> rule_db \<Rightarrow> bool" where
  "enters ids k db db' \<longleftrightarrow> ru_customers db' = ru_customers db \<and> ru_contacts db' = ru_contacts db \<and>
     (\<forall>x v. live_version x v db' = live_version x v db) \<and> set (jd_journeys db) \<subseteq> set (jd_journeys db') \<and>
     set (ru_enrollments db') \<subseteq> set (ru_enrollments db) \<union> {e. en_CustomerID e = k \<and> en_ID e = ei_Enrollment ids}"

lemma enters_refl [simp]: "enters ids k db db"
  by (simp add: enters_def)

lemma enters_trans: "enters ids k db db1 \<Longrightarrow> enters ids k db1 db2 \<Longrightarrow> enters ids k db db2"
  unfolding enters_def by (elim conjE, intro conjI) (simp, simp, simp, blast, blast)

lemma enters_log [simp]: "enters ids k db (log_decision now a k' out reason retryAt db)"
  by (simp add: enters_def)

lemma insert_enters:
  assumes "insert_enrollment ids a k version email db = (b, db1)"
  shows "enters ids k db db1"
  using assms by (auto simp: insert_enrollment_def enters_def live_version_def split: if_splits)

text \<open>The tables after an enrolment.\<close>

definition instance_of :: "instant \<Rightarrow> enroll_ids \<Rightarrow> string \<Rightarrow> instance_row" where
  "instance_of now ids enrollment = \<lparr>in_ID = ei_Instance ids, in_EnrollmentID = enrollment,
     in_ContactAutomationID = ei_Journey ids, in_Status = JS_Active, in_StartedAt = now\<rparr>"

lemma start_journey_cases:
  assumes "start_journey md5 now ids a k version email enrollment db = (out, db')"
  shows "(\<exists>e. out = Inl e) \<and> db' = db \<or>
    (\<exists>r. out = Inr r \<and> er_Outcome r = EO_Enrolled \<and> er_ContactAutomationID r = Some (ei_Journey ids)) \<and>
    (\<forall>r \<in> set (jd_journeys db). \<not> journey_clash ids a email now r) \<and>
    (\<forall>i \<in> set (ru_instances db). in_ID i \<noteq> ei_Instance ids \<and> in_EnrollmentID i \<noteq> enrollment \<and>
       in_ContactAutomationID i \<noteq> ei_Journey ids) \<and>
    ru_customers db' = ru_customers db \<and> ru_contacts db' = ru_contacts db \<and>
    ru_enrollments db' = ru_enrollments db \<and> (\<forall>x v. live_version x v db' = live_version x v db) \<and>
    ru_instances db' = ru_instances db @ [instance_of now ids enrollment] \<and>
    jd_journeys db' = jd_journeys db @ [entered_journey ids a version email now]"
proof (cases "(\<exists>r \<in> set (jd_journeys db). journey_clash ids a email now r) \<or>
    (\<exists>i \<in> set (ru_instances db). in_ID i = ei_Instance ids \<or> in_EnrollmentID i = enrollment \<or>
           in_ContactAutomationID i = ei_Journey ids)")
  case True
  with assms show ?thesis
    by (simp only: start_journey_def) (auto split: if_splits)
next
  case False
  then have js: "\<not> (\<exists>r \<in> set (jd_journeys db). journey_clash ids a email now r)"
    and "is": "\<not> (\<exists>i \<in> set (ru_instances db). in_ID i = ei_Instance ids \<or> in_EnrollmentID i = enrollment \<or>
      in_ContactAutomationID i = ei_Journey ids)"
    by blast+
  have "start_journey md5 now ids a k version email enrollment db = (out, db')" by (rule assms)
  then have out: "out = Inr \<lparr>er_Outcome = EO_Enrolled, er_ContactAutomationID = Some (ei_Journey ids), er_RetryAt = None\<rparr>"
    and db': "ru_customers db' = ru_customers db \<and> ru_contacts db' = ru_contacts db \<and>
      ru_enrollments db' = ru_enrollments db \<and> (\<forall>x v. live_version x v db' = live_version x v db) \<and>
      ru_instances db' = ru_instances db @ [instance_of now ids enrollment] \<and>
      jd_journeys db' = jd_journeys db @ [entered_journey ids a version email now]"
    unfolding start_journey_def if_not_P [OF js] if_not_P [OF "is"] Let_def
    by (auto simp: instance_of_def)
  show ?thesis
    using js "is" out db' by (intro disjI2) simp
qed

text \<open>A call enrols, or it writes at most an enrolment without a journey.\<close>

definition valid_entry :: "enroll_args \<Rightarrow> bool" where
  "valid_entry a \<longleftrightarrow> ea_Frequency a = TF_Once \<or> ea_Frequency a = TF_EveryTime \<and> ea_OriginEventID a \<noteq> None"

definition quiet_call ::
    "(string + enroll_result) \<Rightarrow> enroll_ids \<Rightarrow> enroll_args \<Rightarrow> string \<Rightarrow> rule_db \<Rightarrow> rule_db \<Rightarrow> bool" where
  "quiet_call out ids a k db db' \<longleftrightarrow> (\<forall>r. out = Inr r \<longrightarrow> er_Outcome r \<noteq> EO_Enrolled) \<and>
     jd_journeys db' = jd_journeys db \<and> ru_instances db' = ru_instances db \<and>
     (ru_enrollments db' = ru_enrollments db \<or>
      valid_entry a \<and> (\<exists>version email db1. insert_enrollment ids a k version email db = (True, db1) \<and>
         ru_enrollments db' = ru_enrollments db1)) \<and>
     enters ids k db db'"

text \<open>The enrolment that a journey is started for: a new one, or a deferred one of the same key.\<close>

definition entry_row ::
    "enroll_ids \<Rightarrow> enroll_args \<Rightarrow> string \<Rightarrow> int \<Rightarrow> string \<Rightarrow> rule_db \<Rightarrow> string \<Rightarrow> rule_db \<Rightarrow> bool" where
  "entry_row ids a k version email db e db1 \<longleftrightarrow>
     insert_enrollment ids a k version email db = (True, db1) \<and> e = ei_Enrollment ids \<or>
     db1 = db \<and> map_option en_ID (sql_find (same_entry a k) (ru_enrollments db)) = Some e \<and> \<not> entered (Some e) db"

lemma same_quiet: "(\<And>r. out = Inr r \<Longrightarrow> er_Outcome r \<noteq> EO_Enrolled) \<Longrightarrow> quiet_call out ids a k db db"
  by (simp add: quiet_call_def)

lemma log_decision_quiet:
  "(\<And>r. out = Inr r \<Longrightarrow> er_Outcome r \<noteq> EO_Enrolled) \<Longrightarrow>
     quiet_call out ids a k db (log_decision now a k' x reason retryAt db)"
  by (simp add: quiet_call_def)

lemma enter_or_not_cases:
  assumes "enter_or_not md5 now ids seen a k version email e db = (out, db')"
  shows "guard_verdict now a k seen = None \<and> start_journey md5 now ids a k version email e db = (out, db') \<or>
    (\<exists>r reason retryAt. out = Inr r \<and> er_Outcome r \<in> {EO_GuardDeferred, EO_GuardDenied} \<and>
       db' = log_decision now a k (er_Outcome r) (Some reason) retryAt db)"
proof (cases "guard_verdict now a k seen")
  case None
  with assms show ?thesis by (simp add: enter_or_not_def)
next
  case (Some v)
  then obtain x reason retryAt where v: "guard_verdict now a k seen = Some (x, reason, retryAt)"
    by (cases v) auto
  then have "x \<in> {EO_GuardDeferred, EO_GuardDenied}"
    by (auto simp: guard_verdict_def Let_def split: if_splits option.splits)
  moreover from assms v have "out = Inr \<lparr>er_Outcome = x, er_ContactAutomationID = None, er_RetryAt = retryAt\<rparr>"
    and "db' = log_decision now a k x (Some reason) retryAt db"
    by (simp_all add: enter_or_not_def)
  ultimately show ?thesis
    by (intro disjI2 exI [of _ "\<lparr>er_Outcome = x, er_ContactAutomationID = None, er_RetryAt = retryAt\<rparr>"]
        exI [of _ reason] exI [of _ retryAt]) simp
qed

lemma enter_or_not_quiet:
  assumes call: "enter_or_not md5 now ids seen a k version email e db1 = (out, db')"
    and row: "entry_row ids a k version email db e db1" and valid: "valid_entry a"
  shows "quiet_call out ids a k db db' \<or>
    guard_verdict now a k seen = None \<and> start_journey md5 now ids a k version email e db1 = (out, db') \<and>
      (\<exists>r. out = Inr r)"
proof -
  have db1: "jd_journeys db1 = jd_journeys db" "ru_instances db1 = ru_instances db" "enters ids k db db1"
    "ru_enrollments db1 = ru_enrollments db \<or>
      valid_entry a \<and> (\<exists>version email db2. insert_enrollment ids a k version email db = (True, db2) \<and>
         ru_enrollments db1 = ru_enrollments db2)"
    using row valid insert_enters [of ids a k version email db True db1]
    by (auto simp: entry_row_def insert_enrollment_def split: if_splits)
  from enter_or_not_cases [OF call] show ?thesis
  proof
    assume start: "guard_verdict now a k seen = None \<and> start_journey md5 now ids a k version email e db1 = (out, db')"
    show ?thesis
    proof (cases out)
      case (Inl x)
      then have "db' = db1"
        using start_journey_cases [OF conjunct2 [OF start]] by auto
      with Inl db1 show ?thesis by (simp add: quiet_call_def)
    qed (use start in simp)
  next
    assume "\<exists>r reason retryAt. out = Inr r \<and> er_Outcome r \<in> {EO_GuardDeferred, EO_GuardDenied} \<and>
       db' = log_decision now a k (er_Outcome r) (Some reason) retryAt db1"
    then obtain r reason retryAt where r: "out = Inr r" "er_Outcome r \<noteq> EO_Enrolled"
      and db': "db' = log_decision now a k (er_Outcome r) (Some reason) retryAt db1"
      by auto
    show ?thesis
      using r db1 enters_trans [OF db1(3) enters_log] unfolding db' by (simp add: quiet_call_def)
  qed
qed

lemma enroll_call_cases:
  assumes call: "automation_enroll_customer md5 now ids seen a db = (out, db')"
    and k: "resolve_customer (ea_CustomerID a) db = Some k"
  shows "quiet_call out ids a k db db' \<or>
    (\<exists>version e db1. live_version (ea_AutomationID a) (ea_ExpectedVersion a) db = Some version \<and> valid_entry a \<and>
       entry_row ids a k version (entry_email a k db) db e db1 \<and> guard_verdict now a k seen = None \<and>
       start_journey md5 now ids a k version (entry_email a k db) e db1 = (out, db') \<and> (\<exists>r. out = Inr r))"
proof (cases "live_version (ea_AutomationID a) (ea_ExpectedVersion a) db")
  case None
  with call k show ?thesis
    by (auto simp: automation_enroll_customer_def outcome_only_def intro!: log_decision_quiet)
next
  case (Some version)
  define email where "email = entry_email a k db"
  consider (refused) "only_spaces email \<or> \<not> valid_entry a" | (goes) "\<not> only_spaces email" "valid_entry a" by blast
  then show ?thesis
  proof cases
    case refused
    with call k Some show ?thesis
      by (auto simp: automation_enroll_customer_def outcome_only_def Let_def email_def valid_entry_def
          intro!: log_decision_quiet split: if_splits)
  next
    case goes
    have concl: ?thesis if enter: "enter_or_not md5 now ids seen a k version email e db1 = (out, db')"
      and row: "entry_row ids a k version email db e db1" for e db1
      using enter_or_not_quiet [OF enter row goes(2)]
    proof
      assume "guard_verdict now a k seen = None \<and> start_journey md5 now ids a k version email e db1 = (out, db') \<and>
        (\<exists>r. out = Inr r)"
      then show ?thesis
        using row Some goes(2)
        by (intro disjI2 exI [of _ version] exI [of _ e] exI [of _ db1]) (simp add: email_def)
    qed blast
    obtain b db1 where insert: "insert_enrollment ids a k version email db = (b, db1)" by fastforce
    show ?thesis
    proof (cases b)
      case True
      with goes call k Some insert have "enter_or_not md5 now ids seen a k version email (ei_Enrollment ids) db1 = (out, db')"
        by (simp add: automation_enroll_customer_def Let_def email_def valid_entry_def)
      moreover have "entry_row ids a k version email db (ei_Enrollment ids) db1"
        using insert True by (simp add: entry_row_def)
      ultimately show ?thesis by (rule concl)
    next
      case False
      define old where "old = map_option en_ID (sql_find (same_entry a k) (ru_enrollments db))"
      have rest: "(if entered old db
          then (Inr (outcome_only (repeated_outcome a)),
                log_decision now a k (repeated_outcome a) (Some ''database_unique_constraint'') None db)
          else (case deferred_until a k db of
              None \<Rightarrow> (Inr (outcome_only (repeated_outcome a)), db)
            | Some t \<Rightarrow>
                if t > now
                then (Inr \<lparr>er_Outcome = EO_GuardDeferred, er_ContactAutomationID = None, er_RetryAt = Some t\<rparr>, db)
                else (case old of
                        None \<Rightarrow> (Inl ''null value in column enrollment_id'', db)
                      | Some e \<Rightarrow> enter_or_not md5 now ids seen a k version email e db))) = (out, db')"
        using goes call k Some insert False unfolding old_def email_def
        by (simp add: automation_enroll_customer_def Let_def valid_entry_def)
      from rest show ?thesis
      proof (cases "\<exists>e. old = Some e \<and> \<not> entered old db \<and> enter_or_not md5 now ids seen a k version email e db = (out, db')")
        case True
        then obtain e where e: "old = Some e" "\<not> entered old db"
          "enter_or_not md5 now ids seen a k version email e db = (out, db')"
          by blast
        then have "entry_row ids a k version email db e db"
          unfolding entry_row_def old_def by metis
        with e(3) show ?thesis by (rule concl)
      next
        case other: False
        with rest have "quiet_call out ids a k db db'"
          by (auto simp: outcome_only_def repeated_outcome_def intro!: same_quiet log_decision_quiet
              split: if_splits option.splits)
        then show ?thesis ..
      qed
    qed
  qed
qed

section \<open>The keys of the tables\<close>

text \<open>An entry is an automation and a customer, with the event where every event may enter.\<close>

type_synonym entry = "string \<times> string \<times> string option"

definition entry_of :: "enrollment_row \<Rightarrow> entry" where
  "entry_of e = (en_AutomationID e, en_CustomerID e, en_OriginEventID e)"

definition entry_of_call :: "enroll_args \<Rightarrow> string \<Rightarrow> entry" where
  "entry_of_call a k = (ea_AutomationID a, k, if ea_Frequency a = TF_Once then None else ea_OriginEventID a)"

definition frequency_ok :: "enrollment_row \<Rightarrow> bool" where
  "frequency_ok e \<longleftrightarrow> (en_Frequency e = TF_Once \<and> en_OriginEventID e = None) \<or>
     (en_Frequency e = TF_EveryTime \<and> en_OriginEventID e \<noteq> None)"

definition journey_events :: "rule_db \<Rightarrow> (string \<times> string option) list" where
  "journey_events db = map (\<lambda>r. (j_AutomationID r, r_OriginEventID r))
     (filter (\<lambda>r. r_OriginEventID r \<noteq> None) (jd_journeys db))"

definition instance_linked :: "rule_db \<Rightarrow> instance_row \<Rightarrow> bool" where
  "instance_linked db i \<longleftrightarrow> (\<exists>e \<in> set (ru_enrollments db). en_ID e = in_EnrollmentID i \<and>
     (\<exists>r \<in> set (jd_journeys db). j_ID r = in_ContactAutomationID i \<and> j_AutomationID r = en_AutomationID e))"

definition entry_wf :: "rule_db \<Rightarrow> bool" where
  "entry_wf db \<longleftrightarrow> distinct (map en_ID (ru_enrollments db)) \<and> distinct (map entry_of (ru_enrollments db)) \<and>
     list_all frequency_ok (ru_enrollments db) \<and>
     distinct (map in_ID (ru_instances db)) \<and> distinct (map in_EnrollmentID (ru_instances db)) \<and>
     distinct (map in_ContactAutomationID (ru_instances db)) \<and>
     distinct (map j_ID (jd_journeys db)) \<and> distinct (journey_events db) \<and>
     list_all (instance_linked db) (ru_instances db)"

lemma same_entry_iff:
  "valid_entry a \<Longrightarrow> frequency_ok e \<Longrightarrow> same_entry a k e \<longleftrightarrow> entry_of e = entry_of_call a k"
  by (auto simp: valid_entry_def frequency_ok_def same_entry_def entry_of_def entry_of_call_def)

definition has_entered :: "entry \<Rightarrow> rule_db \<Rightarrow> bool" where
  "has_entered x db \<longleftrightarrow> (\<exists>e \<in> set (ru_enrollments db). entry_of e = x \<and>
     (\<exists>i \<in> set (ru_instances db). in_EnrollmentID i = en_ID e))"

lemma instance_linked_mono:
  "instance_linked db i \<Longrightarrow> set (ru_enrollments db) \<subseteq> set (ru_enrollments db') \<Longrightarrow>
     set (jd_journeys db) \<subseteq> set (jd_journeys db') \<Longrightarrow> instance_linked db' i"
  unfolding instance_linked_def by blast

lemma insert_wf:
  assumes wf: "entry_wf db" and valid: "valid_entry a"
    and insert: "insert_enrollment ids a k version email db = (True, db1)"
    and db': "ru_enrollments db' = ru_enrollments db1" "ru_instances db' = ru_instances db" "jd_journeys db' = jd_journeys db"
  shows "entry_wf db'"
proof -
  have old: "\<not> same_entry a k e" "en_ID e \<noteq> ei_Enrollment ids" if "e \<in> set (ru_enrollments db)" for e
    using insert that by (auto simp: insert_enrollment_def split: if_splits)
  obtain r where r: "ru_enrollments db' = ru_enrollments db @ [r]" "en_ID r = ei_Enrollment ids"
      "entry_of r = entry_of_call a k" "frequency_ok r"
    using insert valid unfolding db'(1)
    by (auto simp: insert_enrollment_def entry_of_def entry_of_call_def frequency_ok_def valid_entry_def split: if_splits)
  have "entry_of e \<noteq> entry_of r" if "e \<in> set (ru_enrollments db)" for e
    using old(1) [OF that] same_entry_iff [OF valid, of e k] wf that r(3)
    by (auto simp: entry_wf_def list_all_iff)
  then have new: "entry_of r \<notin> entry_of ` set (ru_enrollments db)" "en_ID r \<notin> en_ID ` set (ru_enrollments db)"
    using old(2) r(2) by force+
  have "instance_linked db' i" if "instance_linked db i" for i
    using that by (rule instance_linked_mono) (auto simp: r(1) db'(3))
  with wf new r(4) show ?thesis
    by (simp add: entry_wf_def r(1) db'(2,3) journey_events_def list_all_iff)
qed

lemma start_wf:
  assumes wf: "entry_wf db"
    and row: "\<exists>x \<in> set (ru_enrollments db). en_ID x = e \<and> en_AutomationID x = ea_AutomationID a"
    and start: "start_journey md5 now ids a k version email e db = (Inr r, db')"
  shows "entry_wf db'"
proof -
  have clash: "\<not> journey_clash ids a email now j" if "j \<in> set (jd_journeys db)" for j
    using start_journey_cases [OF start] that by auto
  have fresh: "ei_Instance ids \<notin> in_ID ` set (ru_instances db)" "e \<notin> in_EnrollmentID ` set (ru_instances db)"
    "ei_Journey ids \<notin> in_ContactAutomationID ` set (ru_instances db)"
    using start_journey_cases [OF start] by auto
  have db': "ru_enrollments db' = ru_enrollments db" "ru_instances db' = ru_instances db @ [instance_of now ids e]"
    "jd_journeys db' = jd_journeys db @ [entered_journey ids a version email now]"
    using start_journey_cases [OF start] by auto
  have js: "ei_Journey ids \<notin> j_ID ` set (jd_journeys db)"
    using clash by (force simp: journey_clash_def)
  have events: "distinct (journey_events db')"
  proof (cases "ea_OriginEventID a")
    case None
    with wf show ?thesis
      by (simp add: entry_wf_def journey_events_def db'(3) entered_journey_def)
  next
    case (Some ev)
    then have "(ea_AutomationID a, ea_OriginEventID a) \<notin> set (journey_events db)"
      using clash by (auto simp: journey_events_def journey_clash_def)
    with wf Some show ?thesis
      by (simp add: entry_wf_def journey_events_def db'(3) entered_journey_def)
  qed
  have "instance_linked db' i" if "i \<in> set (ru_instances db)" for i
    using wf that by (auto simp: entry_wf_def list_all_iff db' intro: instance_linked_mono [of db])
  moreover have "instance_linked db' (instance_of now ids e)"
    using row by (auto simp: instance_linked_def instance_of_def entered_journey_def db')
  ultimately have "list_all (instance_linked db') (ru_instances db')"
    by (auto simp: list_all_iff db')
  with wf events fresh js show ?thesis
    by (simp add: entry_wf_def db') (simp add: instance_of_def entered_journey_def)
qed

section \<open>Steps\<close>

text \<open>The rest of the program changes customers, contacts and automations, and moves journeys and, through
  the trigger that projects their state, instances; it leaves the keys as they are.\<close>

definition same_entries :: "rule_db \<Rightarrow> rule_db \<Rightarrow> bool" where
  "same_entries db db' \<longleftrightarrow> ru_enrollments db' = ru_enrollments db \<and>
     map (\<lambda>i. (in_ID i, in_EnrollmentID i, in_ContactAutomationID i)) (ru_instances db') =
       map (\<lambda>i. (in_ID i, in_EnrollmentID i, in_ContactAutomationID i)) (ru_instances db) \<and>
     map (\<lambda>r. (j_ID r, j_AutomationID r, r_OriginEventID r)) (jd_journeys db') =
       map (\<lambda>r. (j_ID r, j_AutomationID r, r_OriginEventID r)) (jd_journeys db)"

type_synonym entry_call = "entry \<times> (string + enroll_result)"

inductive entry_step :: "rule_db \<Rightarrow> entry_call list \<Rightarrow> rule_db \<Rightarrow> bool" where
  enrols: "resolve_customer (ea_CustomerID a) db = Some k \<Longrightarrow>
     in_tx (automation_enroll_customer md5 now ids seen a) db = (out, db') \<Longrightarrow>
     entry_step db [(entry_of_call a k, out)] db'"
| elsewhere: "same_entries db db' \<Longrightarrow> entry_step db [] db'"

inductive entry_run :: "rule_db \<Rightarrow> entry_call list \<Rightarrow> rule_db \<Rightarrow> bool" where
  nothing: "entry_run db [] db"
| then_step: "entry_run db tr db' \<Longrightarrow> entry_step db' calls db'' \<Longrightarrow> entry_run db (tr @ calls) db''"

definition enrolled_call :: "entry \<Rightarrow> entry_call \<Rightarrow> bool" where
  "enrolled_call x c \<longleftrightarrow> fst c = x \<and> (case snd c of Inl _ \<Rightarrow> False | Inr r \<Rightarrow> er_Outcome r = EO_Enrolled)"

lemma map_of_triples:
  "map (\<lambda>x. (f x, g x, h x)) xs = map (\<lambda>x. (f x, g x, h x)) ys \<Longrightarrow>
     map f xs = map f ys \<and> map g xs = map g ys \<and> map h xs = map h ys"
  by (induction xs ys rule: list_induct2') auto

lemma same_events:
  fixes js js' :: "journey_row list"
  shows "map (\<lambda>r. (j_ID r, j_AutomationID r, r_OriginEventID r)) js' =
       map (\<lambda>r. (j_ID r, j_AutomationID r, r_OriginEventID r)) js \<Longrightarrow>
    map (\<lambda>r. (j_AutomationID r, r_OriginEventID r)) (filter (\<lambda>r. r_OriginEventID r \<noteq> None) js') =
    map (\<lambda>r. (j_AutomationID r, r_OriginEventID r)) (filter (\<lambda>r. r_OriginEventID r \<noteq> None) js)"
  by (induction js' js rule: list_induct2') auto

lemma triple_image:
  assumes "map (\<lambda>x. (f x, g x, h x)) xs' = map (\<lambda>x. (f x, g x, h x)) xs" "x' \<in> set xs'"
  shows "\<exists>x \<in> set xs. f x = f x' \<and> g x = g x' \<and> h x = h x'"
proof -
  have "(f x', g x', h x') \<in> set (map (\<lambda>x. (f x, g x, h x)) xs)"
    using assms(2) by (simp flip: assms(1))
  then show ?thesis by auto
qed

lemma same_entries_wf:
  assumes wf: "entry_wf db" and same: "same_entries db db'"
  shows "entry_wf db'"
proof -
  note i = same [unfolded same_entries_def, THEN conjunct2, THEN conjunct1]
  note j = same [unfolded same_entries_def, THEN conjunct2, THEN conjunct2]
  have "instance_linked db' i'" if i': "i' \<in> set (ru_instances db')" for i'
  proof -
    obtain i where "i \<in> set (ru_instances db)" "in_EnrollmentID i = in_EnrollmentID i'"
        "in_ContactAutomationID i = in_ContactAutomationID i'"
      using triple_image [OF i i'] by blast
    moreover from this wf have "instance_linked db i"
      by (simp add: entry_wf_def list_all_iff)
    ultimately obtain e r where "e \<in> set (ru_enrollments db')" "en_ID e = in_EnrollmentID i'"
        "r \<in> set (jd_journeys db)" "j_ID r = in_ContactAutomationID i'" "j_AutomationID r = en_AutomationID e"
      using same by (auto simp: instance_linked_def same_entries_def)
    with triple_image [OF j [symmetric]] show ?thesis
      unfolding instance_linked_def by metis
  qed
  with wf map_of_triples [OF i] map_of_triples [OF j] same_events [OF j] same show ?thesis
    by (simp add: entry_wf_def journey_events_def same_entries_def list_all_iff)
qed

lemma same_entries_has_entered:
  assumes "same_entries db db'" "has_entered x db"
  shows "has_entered x db'"
proof -
  note i = assms(1) [unfolded same_entries_def, THEN conjunct2, THEN conjunct1]
  obtain e r where e: "e \<in> set (ru_enrollments db)" "entry_of e = x" "r \<in> set (ru_instances db)" "in_EnrollmentID r = en_ID e"
    using assms(2) by (auto simp: has_entered_def)
  then obtain r' where "r' \<in> set (ru_instances db')" "in_EnrollmentID r' = en_ID e"
    using triple_image [OF i [symmetric]] by metis
  with e assms(1) show ?thesis
    by (auto simp: has_entered_def same_entries_def)
qed

text \<open>The row that a journey is started for is the row of the entry.\<close>

lemma entry_row_found:
  assumes wf: "entry_wf db" and valid: "valid_entry a" and row: "entry_row ids a k version email db e db1"
  shows "entry_wf db1" "ru_instances db1 = ru_instances db" "jd_journeys db1 = jd_journeys db"
    "\<exists>x \<in> set (ru_enrollments db1). en_ID x = e \<and> entry_of x = entry_of_call a k"
    "set (ru_enrollments db) \<subseteq> set (ru_enrollments db1)"
proof -
  have "entry_wf db1 \<and> ru_instances db1 = ru_instances db \<and> jd_journeys db1 = jd_journeys db \<and>
    (\<exists>x \<in> set (ru_enrollments db1). en_ID x = e \<and> entry_of x = entry_of_call a k) \<and>
    set (ru_enrollments db) \<subseteq> set (ru_enrollments db1)"
  proof (cases "insert_enrollment ids a k version email db = (True, db1) \<and> e = ei_Enrollment ids")
    case True
    then have insert: "insert_enrollment ids a k version email db = (True, db1)" by blast
    from True have db1: "ru_instances db1 = ru_instances db" "jd_journeys db1 = jd_journeys db"
      "\<exists>x \<in> set (ru_enrollments db1). en_ID x = e \<and> entry_of x = entry_of_call a k"
      "set (ru_enrollments db) \<subseteq> set (ru_enrollments db1)"
      by (auto simp: insert_enrollment_def entry_of_def entry_of_call_def split: if_splits)
    with insert_wf [OF wf valid insert refl db1(1,2)] show ?thesis by simp
  next
    case False
    with row obtain x where x: "db1 = db" "sql_find (same_entry a k) (ru_enrollments db) = Some x" "en_ID x = e"
      by (auto simp: entry_row_def)
    then have "x \<in> set (ru_enrollments db)" "same_entry a k x"
      using sql_find_SomeD by metis+
    moreover from this have "entry_of x = entry_of_call a k"
      using same_entry_iff [OF valid] wf by (auto simp: entry_wf_def list_all_iff)
    ultimately show ?thesis
      using wf x by auto
  qed
  then show "entry_wf db1" "ru_instances db1 = ru_instances db" "jd_journeys db1 = jd_journeys db"
    "\<exists>x \<in> set (ru_enrollments db1). en_ID x = e \<and> entry_of x = entry_of_call a k"
    "set (ru_enrollments db) \<subseteq> set (ru_enrollments db1)"
    by blast+
qed

lemma has_entered_mono:
  "has_entered x db \<Longrightarrow> set (ru_enrollments db) \<subseteq> set (ru_enrollments db') \<Longrightarrow>
     set (ru_instances db) \<subseteq> set (ru_instances db') \<Longrightarrow> has_entered x db'"
  unfolding has_entered_def by blast

lemma call_keeps:
  assumes wf: "entry_wf db" and k: "resolve_customer (ea_CustomerID a) db = Some k"
    and call: "automation_enroll_customer md5 now ids seen a db = (Inr r, db')"
  shows "entry_wf db' \<and> (\<forall>x. has_entered x db \<longrightarrow> has_entered x db') \<and>
    (er_Outcome r = EO_Enrolled \<longrightarrow> \<not> has_entered (entry_of_call a k) db \<and> has_entered (entry_of_call a k) db')"
  using enroll_call_cases [OF call k]
proof
  assume q: "quiet_call (Inr r) ids a k db db'"
  have "entry_wf db' \<and> set (ru_enrollments db) \<subseteq> set (ru_enrollments db')"
  proof (cases "ru_enrollments db' = ru_enrollments db")
    case True
    with q wf show ?thesis
      by (simp add: quiet_call_def entry_wf_def journey_events_def instance_linked_def list_all_iff)
  next
    case False
    with q obtain version email db1 where i: "valid_entry a" "insert_enrollment ids a k version email db = (True, db1)"
        "ru_enrollments db' = ru_enrollments db1" "ru_instances db' = ru_instances db" "jd_journeys db' = jd_journeys db"
      by (auto simp: quiet_call_def)
    then show ?thesis
      using insert_wf [OF wf i] by (auto simp: insert_enrollment_def split: if_splits)
  qed
  with q has_entered_mono show ?thesis
    by (auto simp: quiet_call_def)
next
  assume "\<exists>version e db1. live_version (ea_AutomationID a) (ea_ExpectedVersion a) db = Some version \<and> valid_entry a \<and>
       entry_row ids a k version (entry_email a k db) db e db1 \<and> guard_verdict now a k seen = None \<and>
       start_journey md5 now ids a k version (entry_email a k db) e db1 = (Inr r, db') \<and> (\<exists>r'. Inr r = Inr r')"
  then obtain version e db1 where valid: "valid_entry a"
      and row: "entry_row ids a k version (entry_email a k db) db e db1"
      and start: "start_journey md5 now ids a k version (entry_email a k db) e db1 = (Inr r, db')"
    by blast
  note db1 = entry_row_found [OF wf valid row]
  from db1(4) obtain x where x: "x \<in> set (ru_enrollments db1)" "en_ID x = e" "entry_of x = entry_of_call a k"
    by blast
  then have wf': "entry_wf db'"
    using start_wf [OF db1(1) _ start] by (auto simp: entry_of_def entry_of_call_def)
  have db': "ru_enrollments db' = ru_enrollments db1" "ru_instances db' = ru_instances db @ [instance_of now ids e]"
    and fresh: "\<forall>i \<in> set (ru_instances db). in_EnrollmentID i \<noteq> e"
    using start_journey_cases [OF start] db1(2) by auto
  have "y = x" if "y \<in> set (ru_enrollments db)" "entry_of y = entry_of x" for y
    using db1(1,5) x(1) that unique_rowD [of entry_of "ru_enrollments db1" y x] by (auto simp: entry_wf_def)
  then have "\<not> has_entered (entry_of_call a k) db"
    using fresh x by (auto simp: has_entered_def)
  moreover have "has_entered (entry_of_call a k) db'"
    using x by (auto simp: has_entered_def db' instance_of_def)
  moreover have "has_entered y db'" if "has_entered y db" for y
    by (rule has_entered_mono [OF that]) (use db1(5) in \<open>auto simp: db'\<close>)
  ultimately show ?thesis
    using wf' by blast
qed

lemma step_keeps:
  assumes "entry_step db calls db'" "entry_wf db"
  shows "entry_wf db' \<and> (\<forall>x. sql_count (enrolled_call x) calls + (if has_entered x db then 1 else 0)
    \<le> (if has_entered x db' then 1 else 0))"
  using assms
proof (induction rule: entry_step.induct)
  case (enrols a db k md5 now ids seen out db')
  show ?case
  proof (cases out)
    case (Inl e)
    with enrols(2) have "db' = db" using in_tx_InlD by metis
    with Inl enrols(3) show ?thesis by (simp add: enrolled_call_def)
  next
    case (Inr r)
    with enrols have "automation_enroll_customer md5 now ids seen a db = (Inr r, db')"
      by (auto dest: in_tx_InrD)
    from call_keeps [OF enrols(3,1) this] Inr show ?thesis
      by (auto simp: enrolled_call_def)
  qed
next
  case (elsewhere db db')
  then show ?case
    using same_entries_wf same_entries_has_entered by simp
qed

lemma run_keeps:
  assumes "entry_run db tr db'" "entry_wf db"
  shows "entry_wf db' \<and> (\<forall>x. sql_count (enrolled_call x) tr + (if has_entered x db then 1 else 0)
    \<le> (if has_entered x db' then 1 else 0))"
  using assms
proof (induction rule: entry_run.induct)
  case (then_step db tr db' calls db'')
  then have wf: "entry_wf db'" and
    tr: "\<And>x. sql_count (enrolled_call x) tr + (if has_entered x db then 1 else 0) \<le> (if has_entered x db' then 1 else 0)"
    by blast+
  from step_keeps [OF then_step(2) wf] have "entry_wf db''" and
    st: "\<And>x. sql_count (enrolled_call x) calls + (if has_entered x db' then 1 else 0) \<le> (if has_entered x db'' then 1 else 0)"
    by blast+
  moreover have "sql_count (enrolled_call x) (tr @ calls) + (if has_entered x db then 1 else 0)
      \<le> (if has_entered x db'' then 1 else 0)" for x
    using add_mono [OF tr [of x] st [of x]] by simp
  ultimately show ?case by blast
qed simp

section \<open>New entries\<close>

text \<open>A call for an entry without an enrolment, and one that nothing but the guard can stop.\<close>

definition open_entry :: "enroll_ids \<Rightarrow> enroll_args \<Rightarrow> string \<Rightarrow> rule_db \<Rightarrow> bool" where
  "open_entry ids a k db \<longleftrightarrow> resolve_customer (ea_CustomerID a) db = Some k \<and>
     live_version (ea_AutomationID a) (ea_ExpectedVersion a) db \<noteq> None \<and> \<not> only_spaces (entry_email a k db) \<and>
     valid_entry a \<and> (\<forall>e \<in> set (ru_enrollments db). \<not> same_entry a k e \<and> en_ID e \<noteq> ei_Enrollment ids)"

definition new_entry :: "instant \<Rightarrow> enroll_ids \<Rightarrow> enroll_args \<Rightarrow> string \<Rightarrow> rule_db \<Rightarrow> bool" where
  "new_entry now ids a k db \<longleftrightarrow> open_entry ids a k db \<and>
     (\<forall>r \<in> set (jd_journeys db). \<not> journey_clash ids a (entry_email a k db) now r) \<and>
     (\<forall>i \<in> set (ru_instances db). in_ID i \<noteq> ei_Instance ids \<and> in_EnrollmentID i \<noteq> ei_Enrollment ids \<and>
        in_ContactAutomationID i \<noteq> ei_Journey ids)"

definition new_row :: "enroll_ids \<Rightarrow> enroll_args \<Rightarrow> string \<Rightarrow> int \<Rightarrow> string \<Rightarrow> enrollment_row" where
  "new_row ids a k version email = \<lparr>en_ID = ei_Enrollment ids,
        en_AutomationID = ea_AutomationID a, en_AutomationVersion = version, en_CustomerID = k,
        en_ContactEmail = email, en_Frequency = ea_Frequency a,
        en_OriginEventID = (if ea_Frequency a = TF_Once then None else ea_OriginEventID a), en_Guard = ea_Guard a\<rparr>"

text \<open>What an enrolment adds.\<close>

definition enrolled_tables :: "instant \<Rightarrow> enroll_ids \<Rightarrow> enroll_args \<Rightarrow> string \<Rightarrow> rule_db \<Rightarrow> rule_db \<Rightarrow> bool" where
  "enrolled_tables now ids a k db db' \<longleftrightarrow> ru_customers db' = ru_customers db \<and> ru_contacts db' = ru_contacts db \<and>
     (\<forall>x v. live_version x v db' = live_version x v db) \<and>
     (\<exists>version. ru_enrollments db' = ru_enrollments db @ [new_row ids a k version (entry_email a k db)] \<and>
        jd_journeys db' = jd_journeys db @ [entered_journey ids a version (entry_email a k db) now]) \<and>
     ru_instances db' = ru_instances db @ [instance_of now ids (ei_Enrollment ids)]"

lemma open_entry_insert:
  assumes "open_entry ids a k db"
  shows "insert_enrollment ids a k version email db = (True, db\<lparr>ru_enrollments := ru_enrollments db @ [new_row ids a k version email]\<rparr>)"
  using assms by (auto simp: insert_enrollment_def open_entry_def new_row_def)

lemma open_entry_call:
  assumes "open_entry ids a k db"
  shows "\<exists>version. automation_enroll_customer md5 now ids seen a db =
    enter_or_not md5 now ids seen a k version (entry_email a k db) (ei_Enrollment ids)
      (db\<lparr>ru_enrollments := ru_enrollments db @ [new_row ids a k version (entry_email a k db)]\<rparr>)"
proof -
  obtain version where v: "live_version (ea_AutomationID a) (ea_ExpectedVersion a) db = Some version"
    using assms by (auto simp: open_entry_def)
  have k: "resolve_customer (ea_CustomerID a) db = Some k" "\<not> only_spaces (entry_email a k db)"
    and f: "ea_Frequency a = TF_Once \<or> ea_Frequency a = TF_EveryTime \<and> ea_OriginEventID a \<noteq> None"
    using assms by (auto simp: open_entry_def valid_entry_def)
  show ?thesis
    using f by (intro exI [of _ version])
      (auto simp: automation_enroll_customer_def k v Let_def open_entry_insert [OF assms])
qed

lemma new_entry_enrols:
  assumes new: "new_entry now ids a k db" and guard: "guard_verdict now a k seen = None"
  shows "\<exists>r db'. automation_enroll_customer md5 now ids seen a db = (Inr r, db') \<and> er_Outcome r = EO_Enrolled \<and>
    er_ContactAutomationID r = Some (ei_Journey ids) \<and> enrolled_tables now ids a k db db'"
proof -
  obtain version where call: "automation_enroll_customer md5 now ids seen a db =
    enter_or_not md5 now ids seen a k version (entry_email a k db) (ei_Enrollment ids)
      (db\<lparr>ru_enrollments := ru_enrollments db @ [new_row ids a k version (entry_email a k db)]\<rparr>)"
    using open_entry_call new unfolding new_entry_def by metis
  define db1 where "db1 = db\<lparr>ru_enrollments := ru_enrollments db @ [new_row ids a k version (entry_email a k db)]\<rparr>"
  obtain out db' where start: "start_journey md5 now ids a k version (entry_email a k db) (ei_Enrollment ids) db1 = (out, db')"
    by fastforce
  have clear: "\<not> (\<exists>r \<in> set (jd_journeys db1). journey_clash ids a (entry_email a k db) now r)"
    "\<not> (\<exists>i \<in> set (ru_instances db1). in_ID i = ei_Instance ids \<or> in_EnrollmentID i = ei_Enrollment ids \<or>
       in_ContactAutomationID i = ei_Journey ids)"
    using new by (auto simp: new_entry_def open_entry_def db1_def)
  have "\<exists>r. out = Inr r"
    using start unfolding start_journey_def if_not_P [OF clear(1)] if_not_P [OF clear(2)] Let_def by auto
  with start_journey_cases [OF start] obtain r where "out = Inr r" "er_Outcome r = EO_Enrolled"
      "er_ContactAutomationID r = Some (ei_Journey ids)" "enrolled_tables now ids a k db db'"
    by (auto simp: enrolled_tables_def db1_def)
  with start call guard show ?thesis
    by (auto simp: enter_or_not_def db1_def)
qed

text \<open>The instances of a customer after an enrolment: those before it and the new one.\<close>

lemma instances_of_enrolled:
  assumes wf: "entry_wf db" and new: "new_entry now ids a k db" and after: "enrolled_tables now ids a k db db'"
  shows "instances_of (ea_AutomationID a) k db' =
    instances_of (ea_AutomationID a) k db @ [instance_of now ids (ei_Enrollment ids)]"
proof -
  let ?A = "ea_AutomationID a"
  obtain version where rows: "ru_enrollments db' = ru_enrollments db @ [new_row ids a k version (entry_email a k db)]"
      "ru_instances db' = ru_instances db @ [instance_of now ids (ei_Enrollment ids)]"
    using after by (auto simp: enrolled_tables_def)
  have "en_ID (new_row ids a k version (entry_email a k db)) \<noteq> in_EnrollmentID i" if "i \<in> set (ru_instances db)" for i
  proof -
    obtain e where "e \<in> set (ru_enrollments db)" "en_ID e = in_EnrollmentID i"
      using wf \<open>i \<in> set (ru_instances db)\<close> by (auto simp: entry_wf_def list_all_iff instance_linked_def)
    with new show ?thesis by (force simp: new_entry_def open_entry_def new_row_def)
  qed
  then have "filter (\<lambda>i. \<exists>e \<in> set (ru_enrollments db'). en_ID e = in_EnrollmentID i \<and> en_AutomationID e = ?A \<and>
       en_CustomerID e = k) (ru_instances db) = instances_of ?A k db"
    unfolding instances_of_def rows by (intro filter_cong refl) auto
  moreover have "\<exists>e \<in> set (ru_enrollments db'). en_ID e = ei_Enrollment ids \<and> en_AutomationID e = ?A \<and> en_CustomerID e = k"
    by (simp add: rows new_row_def)
  ultimately show ?thesis
    unfolding instances_of_def rows(2) by (simp add: instance_of_def)
qed

lemma active_count_enrolled:
  assumes "entry_wf db" "new_entry now ids a k db" "enrolled_tables now ids a k db db'"
  shows "active_count (ea_AutomationID a) k db' = active_count (ea_AutomationID a) k db + 1"
  using instances_of_enrolled [OF assms] by (simp add: active_count_def instance_of_def)

text \<open>A call of another entry is still new after an enrolment.\<close>

definition apart :: "instant \<Rightarrow> enroll_ids \<Rightarrow> enroll_args \<Rightarrow> instant \<Rightarrow> enroll_ids \<Rightarrow> enroll_args \<Rightarrow> string \<Rightarrow> bool" where
  "apart now ids a now' ids' a' k \<longleftrightarrow> entry_of_call a k \<noteq> entry_of_call a' k \<and> now \<noteq> now' \<and>
     \<not> (ea_OriginEventID a' \<noteq> None \<and> ea_OriginEventID a = ea_OriginEventID a') \<and>
     ei_Enrollment ids \<noteq> ei_Enrollment ids' \<and> ei_Journey ids \<noteq> ei_Journey ids' \<and> ei_Instance ids \<noteq> ei_Instance ids'"

lemma new_entry_after:
  assumes new: "new_entry now' ids' a' k db" and apart: "apart now ids a now' ids' a' k"
    and first: "new_entry now ids a k db" and after: "enrolled_tables now ids a k db db'"
  shows "new_entry now' ids' a' k db'"
proof -
  obtain version where rows: "ru_enrollments db' = ru_enrollments db @ [new_row ids a k version (entry_email a k db)]"
      "jd_journeys db' = jd_journeys db @ [entered_journey ids a version (entry_email a k db) now]"
      "ru_instances db' = ru_instances db @ [instance_of now ids (ei_Enrollment ids)]"
    using after by (auto simp: enrolled_tables_def)
  have same: "resolve_customer x db' = resolve_customer x db" "entry_email a' k db' = entry_email a' k db"
      "live_version x v db' = live_version x v db" for x v
    using after by (simp_all add: enrolled_tables_def resolve_customer_def entry_email_def projected_email_def)
  have valid: "valid_entry a" "valid_entry a'"
    using first new by (simp_all add: new_entry_def open_entry_def)
  then have "frequency_ok (new_row ids a k version (entry_email a k db))"
    by (auto simp: frequency_ok_def new_row_def valid_entry_def)
  from same_entry_iff [OF valid(2) this, of k] apart
  have "\<not> same_entry a' k (new_row ids a k version (entry_email a k db))"
    by (auto simp: apart_def entry_of_def new_row_def entry_of_call_def)
  moreover have "\<not> journey_clash ids' a' (entry_email a' k db) now' (entered_journey ids a version (entry_email a k db) now)"
    using apart by (auto simp: apart_def journey_clash_def entered_journey_def)
  ultimately show ?thesis
    using new apart unfolding new_entry_def open_entry_def same rows by (simp add: apart_def instance_of_def) (simp add: new_row_def)
qed

end
