(* ===== verification/Entry_Outcomes.thy ===== *)
theory Entry_Outcomes
  imports Enrollment_Runs
begin

text \<open>
  What enrolments promise: the keys of their tables, one entry per customer or per customer and event,
  the limit of the guard for calls that see each other and what happens to it when they do not, and the
  enrolment of an audience, which fails as soon as two members may enter.
\<close>

section \<open>Entries\<close>

text \<open>C31. Whatever enrolments run beside the rest of the program, the unique keys of enrolments,
  instances and journeys hold: one enrolment per entry, one instance per enrolment, one journey per
  instance and per automation and event, and every instance belongs to an enrolment and to a journey of
  the same automation.\<close>

theorem entry_tables_stay_well_formed:
  assumes "entry_run db tr db'" and "entry_wf db"
  shows "entry_wf db'"
  using run_keeps [OF assms] by blast

text \<open>C6. A customer enters an automation of the frequency \<open>once\<close> at most once, and one of the
  frequency \<open>every_time\<close> at most once for an event, however often the event comes again and whatever
  the guard deferred before; and not at all when the entry has a journey already.\<close>

theorem customers_enter_once:
  assumes "entry_run db tr db'" and "entry_wf db"
  shows "sql_count (enrolled_call x) tr \<le> (if has_entered x db then 0 else 1) \<and>
    (sql_count (enrolled_call x) tr = 1 \<longrightarrow> has_entered x db')"
  using spec [OF conjunct2 [OF run_keeps [OF assms]], of x] by (auto split: if_splits)

definition sample_entry_automation :: automation where
  "sample_entry_automation = \<lparr>a_ID = ''a'', a_WorkspaceID = ''w'', a_Name = ''n'', a_Status = AS_Live, a_ListID = [],
     a_ExitOnReply = False, a_RootNodeID = ''t'', a_Nodes = [],
     a_Stats = \<lparr>as_Enrolled = 0, as_Completed = 0, as_Exited = 0, as_Failed = 0\<rparr>, a_DeletedAt = None, a_Version = 1\<rparr>"

text \<open>Two customers with an address each, and a live automation.\<close>

definition sample_entry_db :: rule_db where
  "sample_entry_db = \<lparr>rd_outbox = [], rd_inbox = [], rd_effects = [], jd_automations = [sample_entry_automation],
     jd_journeys = [], jd_executions = [], jd_ends = [],
     ru_customers = [\<lparr>cu_ID = ''k'', cu_MergedInto = None\<rparr>, \<lparr>cu_ID = ''l'', cu_MergedInto = None\<rparr>],
     ru_contacts = [\<lparr>ct_Email = ''k@x'', ct_CustomerID = Some ''k'', ct_UpdatedAt = 1\<rparr>,
       \<lparr>ct_Email = ''l@x'', ct_CustomerID = Some ''l'', ct_UpdatedAt = 1\<rparr>],
     ru_enrollments = [], ru_instances = [], ru_decisions = [], ru_trigger_log = [], ru_audits = [], ru_bindings = [],
     ru_idempotency = [], ru_events = []\<rparr>"

definition sample_enroll :: "trigger_frequency \<Rightarrow> string \<Rightarrow> enroll_args" where
  "sample_enroll freq event = \<lparr>ea_AutomationID = ''a'', ea_CustomerID = ''k'', ea_ContactEmail = [], ea_RootNodeID = ''t'',
     ea_Frequency = freq, ea_OriginEventID = Some event,
     ea_Guard = \<lparr>eg_Enabled = True, eg_Cooldown = 0, eg_MaxConcurrent = 1\<rparr>,
     ea_ExpectedVersion = Some 1, ea_Engine = ''realtime''\<rparr>"

definition sample_ids :: "string \<Rightarrow> enroll_ids" where
  "sample_ids n = \<lparr>ei_Enrollment = n, ei_Journey = n, ei_Instance = n, ei_Execution = n\<rparr>"

lemmas entry_defs = sample_entry_db_def sample_entry_automation_def sample_enroll_def sample_ids_def resolve_customer_def
  live_version_def is_live_def entry_email_def only_spaces_def projected_email_def entry_of_call_def
  valid_entry_def same_entry_def journey_clash_def

lemma sample_wf: "entry_wf sample_entry_db"
  by (simp add: entry_wf_def sample_entry_db_def journey_events_def)

lemma sample_new_entry:
  "new_entry now (sample_ids n) (sample_enroll TF_Once ev) ''k'' sample_entry_db"
  "new_entry now (sample_ids n) (sample_enroll TF_EveryTime ev) ''k'' sample_entry_db"
  by (simp_all add: new_entry_def open_entry_def entry_defs)

lemma sample_verdict: "guard_verdict now (sample_enroll freq ev) ''k'' sample_entry_db = None"
  by (simp add: guard_verdict_def sample_enroll_def sample_entry_db_def active_count_def instances_of_def
      latest_start_def)

lemma sample_once_run:
  "\<exists>r out db2. entry_run sample_entry_db [((''a'', ''k'', None), Inr r), ((''a'', ''k'', None), out)] db2 \<and>
     er_Outcome r = EO_Enrolled"
proof -
  obtain r db1 where r: "automation_enroll_customer (\<lambda>_ _ _ _. ''h'') 10 (sample_ids ''1'') sample_entry_db
      (sample_enroll TF_Once ''1'') sample_entry_db = (Inr r, db1)" "er_Outcome r = EO_Enrolled"
      "enrolled_tables 10 (sample_ids ''1'') (sample_enroll TF_Once ''1'') ''k'' sample_entry_db db1"
    using new_entry_enrols [OF sample_new_entry(1) sample_verdict] by blast
  obtain out db2 where two: "in_tx (automation_enroll_customer (\<lambda>_ _ _ _. ''h'') 20 (sample_ids ''2'') db1
      (sample_enroll TF_Once ''2'')) db1 = (out, db2)"
    by fastforce
  have "resolve_customer ''k'' sample_entry_db = Some ''k''"
    by (simp add: entry_defs)
  moreover from this r(3) have "resolve_customer ''k'' db1 = Some ''k''"
    by (simp add: enrolled_tables_def resolve_customer_def)
  ultimately have k: "resolve_customer (ea_CustomerID (sample_enroll TF_Once ''1'')) sample_entry_db = Some ''k''"
      "resolve_customer (ea_CustomerID (sample_enroll TF_Once ''2'')) db1 = Some ''k''"
    by (simp_all add: sample_enroll_def)
  from r(1) have one: "in_tx (automation_enroll_customer (\<lambda>_ _ _ _. ''h'') 10 (sample_ids ''1'') sample_entry_db
      (sample_enroll TF_Once ''1'')) sample_entry_db = (Inr r, db1)"
    by simp
  have "entry_run sample_entry_db (([] @ [(entry_of_call (sample_enroll TF_Once ''1'') ''k'', Inr r)]) @
      [(entry_of_call (sample_enroll TF_Once ''2'') ''k'', out)]) db2"
    by (rule then_step [OF then_step enrols [OF k(2) two]], rule nothing, rule enrols [OF k(1) one])
  then have "entry_run sample_entry_db [((''a'', ''k'', None), Inr r), ((''a'', ''k'', None), out)] db2"
    by (simp add: entry_of_call_def sample_enroll_def)
  with r(2) show ?thesis by blast
qed

theorem entry_tables_stay_well_formed_witness:
  "\<exists>tr db'. tr \<noteq> [] \<and> entry_run sample_entry_db tr db' \<and> entry_wf db'"
  using sample_once_run entry_tables_stay_well_formed [OF _ sample_wf] by blast

theorem customers_enter_once_witness:
  "\<exists>r out db'. entry_run sample_entry_db [((''a'', ''k'', None), Inr r), ((''a'', ''k'', None), out)] db' \<and>
     sql_count (enrolled_call (''a'', ''k'', None)) [((''a'', ''k'', None), Inr r), ((''a'', ''k'', None), out)] = 1 \<and>
     has_entered (''a'', ''k'', None) db'"
proof -
  obtain r out db' where run: "entry_run sample_entry_db [((''a'', ''k'', None), Inr r), ((''a'', ''k'', None), out)] db'"
      and r: "er_Outcome r = EO_Enrolled"
    using sample_once_run by blast
  have "\<not> has_entered (''a'', ''k'', None) sample_entry_db"
    by (simp add: has_entered_def sample_entry_db_def)
  moreover from r have "sql_count (enrolled_call (''a'', ''k'', None)) [((''a'', ''k'', None), Inr r), ((''a'', ''k'', None), out)] \<ge> 1"
    by (simp add: enrolled_call_def)
  ultimately show ?thesis
    using customers_enter_once [OF run sample_wf, of "(''a'', ''k'', None)"] run by (auto simp del: sql_count_Cons)
qed

section \<open>The guard\<close>

lemma guard_limit:
  assumes "eg_Enabled (ea_Guard a)" "eg_MaxConcurrent (ea_Guard a) > 0"
    "int (active_count (ea_AutomationID a) k seen) \<ge> eg_MaxConcurrent (ea_Guard a)"
  shows "\<exists>out reason retryAt. guard_verdict now a k seen = Some (out, reason, retryAt) \<and> out \<noteq> EO_Enrolled"
  using assms by (auto simp: guard_verdict_def Let_def)

lemma guarded_call:
  assumes new: "new_entry now ids a k db" and guard: "guard_verdict now a k seen = Some (out, reason, retryAt)"
  shows "\<exists>r db'. automation_enroll_customer md5 now ids seen a db = (Inr r, db') \<and> er_Outcome r = out"
  using open_entry_call [OF conjunct1 [OF new [unfolded new_entry_def]], of md5 now seen] guard
  by (auto simp: enter_or_not_def)

text \<open>C32. The limit of concurrent journeys counts what is committed. A second call that sees the journey
  of the first is deferred or denied; the same call in a transaction that began to look before the first
  one was committed enrols as well, and the customer then has one active journey more than the guard
  allows. Nothing else that the two transactions do keeps them apart before their guards have looked.\<close>

theorem guard_misses_concurrent_entries:
  assumes wf: "entry_wf db"
    and new1: "new_entry now1 ids1 a1 k db" and new2: "new_entry now2 ids2 a2 k db"
    and apart: "apart now1 ids1 a1 now2 ids2 a2 k"
    and automation: "ea_AutomationID a2 = ea_AutomationID a1"
    and verdict1: "guard_verdict now1 a1 k db = None" and verdict2: "guard_verdict now2 a2 k db = None"
    and guard: "eg_Enabled (ea_Guard a2)"
      "eg_MaxConcurrent (ea_Guard a2) = int (active_count (ea_AutomationID a1) k db) + 1"
  shows "\<exists>r1 db1. automation_enroll_customer md5 now1 ids1 db a1 db = (Inr r1, db1) \<and> er_Outcome r1 = EO_Enrolled \<and>
    (\<exists>r db2. automation_enroll_customer md5 now2 ids2 db1 a2 db1 = (Inr r, db2) \<and> er_Outcome r \<noteq> EO_Enrolled) \<and>
    (\<exists>r db2. automation_enroll_customer md5 now2 ids2 db a2 db1 = (Inr r, db2) \<and> er_Outcome r = EO_Enrolled \<and>
       int (active_count (ea_AutomationID a1) k db2) = eg_MaxConcurrent (ea_Guard a2) + 1)"
proof -
  obtain r1 db1 where c1: "automation_enroll_customer md5 now1 ids1 db a1 db = (Inr r1, db1)"
      "er_Outcome r1 = EO_Enrolled" "enrolled_tables now1 ids1 a1 k db db1"
    using new_entry_enrols [OF new1 verdict1] by blast
  have new2': "new_entry now2 ids2 a2 k db1"
    by (rule new_entry_after [OF new2 apart new1 c1(3)])
  have wf1: "entry_wf db1"
    using call_keeps [OF wf _ c1(1)] new1 by (auto simp: new_entry_def open_entry_def)
  have count1: "active_count (ea_AutomationID a1) k db1 = active_count (ea_AutomationID a1) k db + 1"
    by (rule active_count_enrolled [OF wf new1 c1(3)])
  obtain out reason retryAt where v: "guard_verdict now2 a2 k db1 = Some (out, reason, retryAt)" "out \<noteq> EO_Enrolled"
    using guard_limit [of a2 k db1 now2] guard count1 automation by auto
  obtain r2 db2 where c2: "automation_enroll_customer md5 now2 ids2 db a2 db1 = (Inr r2, db2)"
      "er_Outcome r2 = EO_Enrolled" "enrolled_tables now2 ids2 a2 k db1 db2"
    using new_entry_enrols [OF new2' verdict2] by blast
  have "int (active_count (ea_AutomationID a1) k db2) = eg_MaxConcurrent (ea_Guard a2) + 1"
    using active_count_enrolled [OF wf1 new2' c2(3)] count1 guard(2) automation by simp
  with c1 c2 guarded_call [OF new2' v(1)] v(2) show ?thesis by blast
qed

theorem guard_misses_concurrent_entries_witness:
  "\<exists>r1 db1 r2 db2. automation_enroll_customer (\<lambda>_ _ _ _. ''h'') 10 (sample_ids ''1'') sample_entry_db
       (sample_enroll TF_EveryTime ''1'') sample_entry_db = (Inr r1, db1) \<and> er_Outcome r1 = EO_Enrolled \<and>
     automation_enroll_customer (\<lambda>_ _ _ _. ''h'') 20 (sample_ids ''2'') sample_entry_db
       (sample_enroll TF_EveryTime ''2'') db1 = (Inr r2, db2) \<and> er_Outcome r2 = EO_Enrolled \<and>
     active_count ''a'' ''k'' db2 = 2 \<and> eg_MaxConcurrent (ea_Guard (sample_enroll TF_EveryTime ''2'')) = 1"
proof -
  have apart: "apart 10 (sample_ids ''1'') (sample_enroll TF_EveryTime ''1'') 20 (sample_ids ''2'')
      (sample_enroll TF_EveryTime ''2'') ''k''"
    by (simp add: apart_def sample_ids_def sample_enroll_def entry_of_call_def)
  have guard: "ea_AutomationID (sample_enroll TF_EveryTime ''2'') = ea_AutomationID (sample_enroll TF_EveryTime ''1'')"
    "eg_Enabled (ea_Guard (sample_enroll TF_EveryTime ''2''))"
    "eg_MaxConcurrent (ea_Guard (sample_enroll TF_EveryTime ''2'')) =
       int (active_count (ea_AutomationID (sample_enroll TF_EveryTime ''1'')) ''k'' sample_entry_db) + 1"
    by (simp_all add: sample_enroll_def active_count_def instances_of_def sample_entry_db_def)
  have one: "ea_AutomationID (sample_enroll TF_EveryTime ''1'') = ''a''"
    "eg_MaxConcurrent (ea_Guard (sample_enroll TF_EveryTime ''2'')) = 1"
    by (simp_all add: sample_enroll_def)
  from guard_misses_concurrent_entries [OF sample_wf sample_new_entry(2) sample_new_entry(2) apart guard(1)
      sample_verdict sample_verdict guard(2,3), of "\<lambda>_ _ _ _. ''h''"]
  show ?thesis unfolding one by force
qed

section \<open>Audiences\<close>

text \<open>A call adds at most one journey, whose context is empty.\<close>

lemma call_journeys:
  assumes "automation_enroll_customer md5 now ids seen a db = (out, db')"
  shows "jd_journeys db' = jd_journeys db \<or>
    (\<exists>r. jd_journeys db' = jd_journeys db @ [r] \<and> j_ID r = ei_Journey ids \<and> j_Context r = Some [] \<and>
       j_AutomationID r = ea_AutomationID a \<and> r_OriginEventID r = ea_OriginEventID a)"
proof (cases "resolve_customer (ea_CustomerID a) db")
  case None
  with assms show ?thesis by (simp add: automation_enroll_customer_def)
next
  case (Some k)
  from enroll_call_cases [OF assms this] show ?thesis
  proof
    assume "\<exists>version e db1. live_version (ea_AutomationID a) (ea_ExpectedVersion a) db = Some version \<and> valid_entry a \<and>
       entry_row ids a k version (entry_email a k db) db e db1 \<and> guard_verdict now a k seen = None \<and>
       start_journey md5 now ids a k version (entry_email a k db) e db1 = (out, db') \<and> (\<exists>r. out = Inr r)"
    then obtain version e db1 where row: "entry_row ids a k version (entry_email a k db) db e db1"
        and start: "start_journey md5 now ids a k version (entry_email a k db) e db1 = (out, db')"
      by blast
    from row have "jd_journeys db1 = jd_journeys db"
      by (auto simp: entry_row_def insert_enrollment_def split: if_splits)
    with start_journey_cases [OF start] show ?thesis
      by (auto simp: entered_journey_def)
  qed (simp add: quiet_call_def)
qed

lemma call_enters:
  assumes call: "automation_enroll_customer md5 now ids seen a db = (Inr r, db')"
    and k: "resolve_customer (ea_CustomerID a) db = Some k"
  shows "enters ids k db db'"
  using enroll_call_cases [OF call k]
proof
  assume "\<exists>version e db1. live_version (ea_AutomationID a) (ea_ExpectedVersion a) db = Some version \<and> valid_entry a \<and>
       entry_row ids a k version (entry_email a k db) db e db1 \<and> guard_verdict now a k seen = None \<and>
       start_journey md5 now ids a k version (entry_email a k db) e db1 = (Inr r, db') \<and> (\<exists>r'. Inr r = Inr r')"
  then obtain version e db1 where row: "entry_row ids a k version (entry_email a k db) db e db1"
      and start: "start_journey md5 now ids a k version (entry_email a k db) e db1 = (Inr r, db')"
    by blast
  have "enters ids k db db1"
    using row insert_enters [of ids a k version "entry_email a k db" db True db1] by (auto simp: entry_row_def)
  moreover have "enters ids k db1 db'"
    using start_journey_cases [OF start] by (auto simp: enters_def)
  ultimately show ?thesis by (rule enters_trans)
qed (simp add: quiet_call_def)

lemma same_entry_customer: "same_entry a k e \<Longrightarrow> en_CustomerID e = k"
  by (simp add: same_entry_def)

text \<open>A customer that waits goes on waiting while others are enrolled.\<close>

lemma open_entry_other:
  assumes wait: "open_entry ids' a' k' db" and other: "resolve_customer (ea_CustomerID a) db \<noteq> Some k'"
    and ids: "ei_Enrollment ids \<noteq> ei_Enrollment ids'"
    and call: "automation_enroll_customer md5 now ids seen a db = (Inr r, db')"
  shows "open_entry ids' a' k' db'"
proof (cases "resolve_customer (ea_CustomerID a) db")
  case None
  with call wait show ?thesis by (simp add: automation_enroll_customer_def)
next
  case (Some k)
  have e: "enters ids k db db'" by (rule call_enters [OF call Some])
  then have "resolve_customer x db' = resolve_customer x db" "entry_email a' k' db' = entry_email a' k' db"
      "live_version x v db' = live_version x v db" for x v
    by (simp_all add: enters_def resolve_customer_def entry_email_def projected_email_def)
  moreover have "\<not> same_entry a' k' x \<and> en_ID x \<noteq> ei_Enrollment ids'" if "x \<in> set (ru_enrollments db')" for x
  proof (cases "x \<in> set (ru_enrollments db)")
    case True
    with wait show ?thesis by (simp add: open_entry_def)
  next
    case False
    with e that have "en_CustomerID x = k" "en_ID x = ei_Enrollment ids"
      unfolding enters_def by blast+
    with other Some ids show ?thesis
      using same_entry_customer by metis
  qed
  ultimately show ?thesis
    using wait by (simp add: open_entry_def)
qed

definition build_started :: "string \<Rightarrow> string \<Rightarrow> rule_db \<Rightarrow> bool" where
  "build_started automation build db \<longleftrightarrow>
     (\<exists>r \<in> set (jd_journeys db). j_AutomationID r = automation \<and> r_OriginEventID r = Some build)"

lemma build_started_call:
  "build_started automation build db \<Longrightarrow> automation_enroll_customer md5 now ids seen a db = (out, db') \<Longrightarrow>
     build_started automation build db'"
  using call_journeys [of md5 now ids seen a db out db'] by (auto simp: build_started_def)

lemma audience_guard: "guard_verdict now (audience_args automation rootNode version build c) k db = None"
  by (simp add: guard_verdict_def audience_args_def no_guard_def)

text \<open>A member that waits starts the journey of the build, or the unique key of the event stops the call.\<close>

lemma waiting_member:
  assumes wait: "open_entry ids (audience_args automation rootNode version build c) k db"
    and call: "automation_enroll_customer md5 now ids db (audience_args automation rootNode version build c) db = (Inr r, db')"
  shows "\<not> build_started automation build db \<and> build_started automation build db'"
proof -
  let ?a = "audience_args automation rootNode version build c"
  obtain v where start: "start_journey md5 now ids ?a k v (entry_email ?a k db) (ei_Enrollment ids)
      (db\<lparr>ru_enrollments := ru_enrollments db @ [new_row ids ?a k v (entry_email ?a k db)]\<rparr>) = (Inr r, db')"
    using open_entry_call [OF wait, of md5 now db] call audience_guard by (auto simp: enter_or_not_def)
  have a: "ea_AutomationID ?a = automation" "ea_OriginEventID ?a = Some build"
    by (simp_all add: audience_args_def)
  from start_journey_cases [OF start] have "\<not> build_started automation build db"
    by (auto simp: build_started_def journey_clash_def a)
  moreover from start_journey_cases [OF start] have "build_started automation build db'"
    by (auto simp: build_started_def entered_journey_def a)
  ultimately show ?thesis by blast
qed

definition fresh_ids :: "(string \<Rightarrow> enroll_ids) \<Rightarrow> string list \<Rightarrow> rule_db \<Rightarrow> bool" where
  "fresh_ids ids cs db \<longleftrightarrow> distinct (map (\<lambda>c. ei_Enrollment (ids c)) cs) \<and>
     (\<forall>c \<in> set cs. \<forall>e \<in> set (ru_enrollments db). en_ID e \<noteq> ei_Enrollment (ids c))"

lemma fresh_ids_after:
  assumes "fresh_ids ids (c # cs) db"
    and call: "automation_enroll_customer md5 now (ids c) seen a db = (Inr r, db')"
  shows "fresh_ids ids cs db'"
proof (cases "resolve_customer (ea_CustomerID a) db")
  case None
  with assms show ?thesis by (auto simp: automation_enroll_customer_def fresh_ids_def)
next
  case (Some k)
  have "set (ru_enrollments db') \<subseteq> set (ru_enrollments db) \<union> {e. en_CustomerID e = k \<and> en_ID e = ei_Enrollment (ids c)}"
    using call_enters [OF call Some] by (simp add: enters_def)
  moreover have "ei_Enrollment (ids c) \<noteq> ei_Enrollment (ids c')" if "c' \<in> set cs" for c'
    using assms(1) that by (auto simp: fresh_ids_def)
  ultimately have "en_ID e \<noteq> ei_Enrollment (ids c')" if "c' \<in> set cs" "e \<in> set (ru_enrollments db')" for c' e
    using assms(1) that unfolding fresh_ids_def by (metis (mono_tags, lifting) Un_iff list.set_intros(2) mem_Collect_eq subsetD)
  with assms(1) show ?thesis by (simp add: fresh_ids_def)
qed

lemma open_entry_member:
  assumes "open_entry (ids c) (audience_args automation rootNode version build c) k db" "fresh_ids ids cs db" "c' \<in> set cs"
    "resolve_customer c' db = Some k"
  shows "open_entry (ids c') (audience_args automation rootNode version build c') k db"
  using assms by (simp add: open_entry_def fresh_ids_def audience_args_def entry_email_def valid_entry_def same_entry_def
    only_spaces_def)

lemma resolve_audience [simp]: "ea_CustomerID (audience_args automation rootNode version build c) = c"
  by (simp add: audience_args_def)

lemma enroll_members_step:
  assumes "automation_enroll_customer md5 now (ids c) db (audience_args automation rootNode version build c) db = (Inr r, db1)"
    and "\<exists>e db2. enroll_members md5 now ids (audience_args automation rootNode version build) cs db1 = (Inl e, db2)"
  shows "\<exists>e db'. enroll_members md5 now ids (audience_args automation rootNode version build) (c # cs) db = (Inl e, db')"
  using assms by auto

lemma enroll_members_stop:
  assumes "automation_enroll_customer md5 now (ids c) db (audience_args automation rootNode version build c) db = (Inl e, db1)"
  shows "\<exists>e db'. enroll_members md5 now ids (audience_args automation rootNode version build) (c # cs) db = (Inl e, db')"
  using assms by simp

lemma members_stop_after_one:
  assumes "build_started automation build db" "c \<in> set cs" "fresh_ids ids cs db"
    "open_entry (ids c) (audience_args automation rootNode version build c) k db"
  shows "\<exists>e db'. enroll_members md5 now ids (audience_args automation rootNode version build) cs db = (Inl e, db')"
  using assms
proof (induction cs arbitrary: db)
  case (Cons c0 cs)
  let ?args = "audience_args automation rootNode version build"
  obtain out db1 where call: "automation_enroll_customer md5 now (ids c0) db (?args c0) db = (out, db1)"
    by fastforce
  show ?case
  proof (cases out)
    case (Inl e)
    with call show ?thesis by (intro enroll_members_stop) simp
  next
    case (Inr r)
    with call have ok: "automation_enroll_customer md5 now (ids c0) db (?args c0) db = (Inr r, db1)" by simp
    have other: "resolve_customer c0 db \<noteq> Some k"
    proof
      assume "resolve_customer c0 db = Some k"
      then have "open_entry (ids c0) (?args c0) k db"
        using open_entry_member [OF Cons.prems(4,3)] by simp
      with waiting_member [OF this ok] Cons.prems(1) show False by blast
    qed
    then have c: "c \<in> set cs" "ei_Enrollment (ids c0) \<noteq> ei_Enrollment (ids c)"
      using Cons.prems by (auto simp: open_entry_def fresh_ids_def)
    have "open_entry (ids c) (?args c) k db1"
      by (rule open_entry_other [OF Cons.prems(4) _ c(2) ok]) (simp add: other)
    with Cons.IH [OF build_started_call [OF Cons.prems(1) ok] c(1) fresh_ids_after [OF Cons.prems(3) ok]]
    show ?thesis by (intro enroll_members_step [where ids = ids and c = c0, OF ok])
  qed
qed simp

lemma members_stop_at_two:
  assumes "c1 \<in> set cs" "c2 \<in> set cs" "k1 \<noteq> k2" "fresh_ids ids cs db"
    "open_entry (ids c1) (audience_args automation rootNode version build c1) k1 db"
    "open_entry (ids c2) (audience_args automation rootNode version build c2) k2 db"
  shows "\<exists>e db'. enroll_members md5 now ids (audience_args automation rootNode version build) cs db = (Inl e, db')"
  using assms
proof (induction cs arbitrary: db)
  case (Cons c0 cs)
  let ?args = "audience_args automation rootNode version build"
  obtain out db1 where call: "automation_enroll_customer md5 now (ids c0) db (?args c0) db = (out, db1)"
    by fastforce
  show ?case
  proof (cases out)
    case (Inl e)
    with call show ?thesis by (intro enroll_members_stop) simp
  next
    case (Inr r)
    with call have ok: "automation_enroll_customer md5 now (ids c0) db (?args c0) db = (Inr r, db1)" by simp
    note fresh = fresh_ids_after [OF Cons.prems(4) ok]
    have stays: "c \<in> set cs \<and> open_entry (ids c) (?args c) k db1"
      if c: "c \<in> set (c0 # cs)" and wait: "open_entry (ids c) (?args c) k db" and other: "resolve_customer c0 db \<noteq> Some k" for c k
    proof -
      have "c \<noteq> c0" using wait other by (auto simp: open_entry_def)
      with c Cons.prems(4) have "c \<in> set cs" "ei_Enrollment (ids c0) \<noteq> ei_Enrollment (ids c)"
        by (auto simp: fresh_ids_def)
      moreover from this have "open_entry (ids c) (?args c) k db1"
        by (intro open_entry_other [OF wait _ _ ok]) (simp_all add: other)
      ultimately show ?thesis by blast
    qed
    have starts: "build_started automation build db1"
      if "c \<in> set (c0 # cs)" and wait: "open_entry (ids c) (?args c) k db" and same: "resolve_customer c0 db = Some k" for c k
    proof -
      have "open_entry (ids c0) (?args c0) k db"
        using open_entry_member [OF wait Cons.prems(4)] same by simp
      with waiting_member [OF this ok] show ?thesis by blast
    qed
    consider "resolve_customer c0 db = Some k1" | "resolve_customer c0 db = Some k2"
      | "resolve_customer c0 db \<noteq> Some k1" "resolve_customer c0 db \<noteq> Some k2" by blast
    then have "\<exists>e db'. enroll_members md5 now ids ?args cs db1 = (Inl e, db')"
    proof cases
      case 1
      with stays [OF Cons.prems(2,6)] Cons.prems(3) starts [OF Cons.prems(1,5)] fresh show ?thesis
        by (metis members_stop_after_one option.inject)
    next
      case 2
      with stays [OF Cons.prems(1,5)] Cons.prems(3) starts [OF Cons.prems(2,6)] fresh show ?thesis
        by (metis members_stop_after_one option.inject)
    next
      case 3
      with stays [OF Cons.prems(1,5)] stays [OF Cons.prems(2,6)] Cons.prems(3) fresh show ?thesis
        by (intro Cons.IH) simp_all
    qed
    then show ?thesis by (rule enroll_members_step [where ids = ids and c = c0, OF ok])
  qed
qed simp

lemma enroll_members_journeys:
  assumes "enroll_members md5 now ids args cs db = (out, db')"
  shows "set (jd_journeys db') \<subseteq> set (jd_journeys db) \<union> {r. j_Context r = Some []}"
  using assms
proof (induction cs arbitrary: db out db')
  case (Cons c cs)
  obtain o1 db1 where call: "automation_enroll_customer md5 now (ids c) db (args c) db = (o1, db1)" by fastforce
  then have one: "set (jd_journeys db1) \<subseteq> set (jd_journeys db) \<union> {r. j_Context r = Some []}"
    using call_journeys [OF call] by auto
  show ?case
  proof (cases o1)
    case (Inl e)
    with Cons.prems call one show ?thesis by simp
  next
    case (Inr r)
    obtain o2 db2 where "enroll_members md5 now ids args cs db1 = (o2, db2)" by fastforce
    with Cons.IH [OF this] Cons.prems call Inr one show ?thesis
      by (auto split: sum.splits)
  qed
qed simp

lemma start_result:
  "start_journey md5 now ids a k version email e db = (Inr r, db') \<Longrightarrow>
     er_ContactAutomationID r = Some (ei_Journey ids)"
  by (auto dest!: start_journey_cases)

lemma enter_result:
  "enter_or_not md5 now ids seen a k version email e db = (Inr r, db') \<Longrightarrow>
     er_ContactAutomationID r \<in> {None, Some (ei_Journey ids)}"
  by (auto simp: enter_or_not_def dest: start_result split: option.splits)

lemma enroll_result_journey:
  "automation_enroll_customer md5 now ids seen a db = (Inr r, db') \<Longrightarrow>
     er_ContactAutomationID r \<in> {None, Some (ei_Journey ids)}"
  using enter_result
  by (fastforce simp: automation_enroll_customer_def outcome_only_def Let_def
      split: option.splits if_splits prod.splits bool.splits)

lemma enroll_members_ids:
  assumes "enroll_members md5 now ids args cs db = (Inr rs, db')"
  shows "fst ` set (journeys_enrolled rs) \<subseteq> (\<lambda>c. ei_Journey (ids c)) ` set cs"
  using assms
proof (induction cs arbitrary: db rs db')
  case Nil
  then show ?case by (simp add: journeys_enrolled_def)
next
  case (Cons c cs)
  obtain o1 db1 where call: "automation_enroll_customer md5 now (ids c) db (args c) db = (o1, db1)" by fastforce
  with Cons.prems obtain r where r: "o1 = Inr r" by (cases o1) auto
  obtain o2 db2 where rest: "enroll_members md5 now ids args cs db1 = (o2, db2)" by fastforce
  with Cons.prems call r obtain rs2 where rs: "o2 = Inr rs2" "rs = (c, r) # rs2" by (cases o2) auto
  have "er_ContactAutomationID r \<in> {None, Some (ei_Journey (ids c))}"
    using enroll_result_journey [OF call [unfolded r]] by blast
  with Cons.IH [OF rest [unfolded rs(1)]] show ?case
    by (auto simp: rs journeys_enrolled_def map_filter_simps split: option.splits)
qed

text \<open>C33. An audience can enrol one member of a build. The build is the origin event of every call, and a
  unique index of \<open>contact_automations\<close> allows one journey per automation and event; so as soon as two
  members resolve to different customers that may enter - their automation is live in the version, they
  have an address, and no enrolment for the build - the statement fails, everything is rolled back, and
  every further try fails in the same way.\<close>

theorem audience_of_two_fails:
  assumes "c1 \<in> set members" and "c2 \<in> set members" and "k1 \<noteq> k2"
    and "open_entry (ids c1) (audience_args automation rootNode version build c1) k1 db"
    and "open_entry (ids c2) (audience_args automation rootNode version build c2) k2 db"
    and "fresh_ids ids members db"
  shows "\<exists>e. EnrollAudienceBuild md5 context now ids automation rootNode version audience audienceVersion build members db =
    (Inl e, db)"
proof -
  obtain e db' where "enroll_members md5 now ids (audience_args automation rootNode version build) members db = (Inl e, db')"
    using members_stop_at_two [OF assms(1-3,6,4,5)] by blast
  then show ?thesis
    by (auto simp: EnrollAudienceBuild_def in_tx_def)
qed

text \<open>C34. Where a build is enrolled, its run reports that nobody was: the update that adds the audience to
  the context of the new journeys, and whose rows are counted, looks for them in the table as the
  statement found it. The journeys start with the empty context.\<close>

theorem audience_runs_count_nothing:
  assumes "EnrollAudienceBuild md5 context now ids automation rootNode version audience audienceVersion build members db =
      (Inr n, db')"
    and "\<forall>c \<in> set members. \<forall>r \<in> set (jd_journeys db). j_ID r \<noteq> ei_Journey (ids c)"
  shows "n = 0 \<and> (\<forall>r \<in> set (jd_journeys db'). r \<in> set (jd_journeys db) \<or> j_Context r = Some [])"
proof -
  obtain rs db1 where members: "enroll_members md5 now ids (audience_args automation rootNode version build) members db = (Inr rs, db1)"
    using assms(1) by (auto simp: EnrollAudienceBuild_def in_tx_def split: if_splits prod.splits sum.splits)
  define js where "js = journeys_enrolled rs"
  have none: "\<not> j_ID r \<in> fst ` set js" if "r \<in> set (jd_journeys db)" for r
    using enroll_members_ids [OF members] assms(2) that unfolding js_def by blast
  then have count: "sql_count (\<lambda>r. j_ID r \<in> fst ` set js) (jd_journeys db) = 0"
    by (simp add: sql_count_0_iff)
  from none have seen: "{r \<in> set (jd_journeys db). j_ID r \<in> fst ` set js} = {}" by blast
  have "n = 0 \<and> jd_journeys db' = jd_journeys db1"
    using assms(1) members count seen unfolding js_def
    by (auto simp: EnrollAudienceBuild_def in_tx_def Let_def sql_update_none split: if_splits)
  with enroll_members_journeys [OF members] show ?thesis by auto
qed

theorem audience_of_two_fails_witness:
  "\<exists>e. EnrollAudienceBuild (\<lambda>_ _ _ _. ''h'') (\<lambda>_. []) 10 sample_ids ''a'' ''t'' 1 ''s'' 1 ''b'' [''k'', ''l''] sample_entry_db =
    (Inl e, sample_entry_db)"
proof -
  have "open_entry (sample_ids ''k'') (audience_args ''a'' ''t'' 1 ''b'' ''k'') ''k'' sample_entry_db"
    "open_entry (sample_ids ''l'') (audience_args ''a'' ''t'' 1 ''b'' ''l'') ''l'' sample_entry_db"
    "fresh_ids sample_ids [''k'', ''l''] sample_entry_db"
    by (simp_all add: open_entry_def fresh_ids_def entry_defs audience_args_def)
  from audience_of_two_fails [OF _ _ _ this, of "\<lambda>_ _ _ _. ''h''"] show ?thesis by simp
qed

theorem audience_runs_count_nothing_witness:
  "\<exists>db'. EnrollAudienceBuild (\<lambda>_ _ _ _. ''h'') (\<lambda>_. [(''audience_id'', JStr ''s'')]) 10 sample_ids ''a'' ''t'' 1 ''s'' 1 ''b''
      [''k''] sample_entry_db = (Inr 0, db') \<and> length (jd_journeys db') = 1 \<and>
    (\<forall>r \<in> set (jd_journeys db'). j_Context r = Some [])"
proof -
  let ?a = "audience_args ''a'' ''t'' 1 ''b'' ''k''"
  let ?added = "\<lambda>_. [(''audience_id'', JStr ''s'')]"
  have "new_entry 10 (sample_ids ''k'') ?a ''k'' sample_entry_db"
    by (simp add: new_entry_def open_entry_def entry_defs audience_args_def)
  then obtain r db1 where r: "automation_enroll_customer (\<lambda>_ _ _ _. ''h'') 10 (sample_ids ''k'') sample_entry_db ?a sample_entry_db =
      (Inr r, db1)" "enrolled_tables 10 (sample_ids ''k'') ?a ''k'' sample_entry_db db1"
    using new_entry_enrols [OF _ audience_guard] by blast
  obtain n db' where build: "EnrollAudienceBuild (\<lambda>_ _ _ _. ''h'') ?added 10 sample_ids ''a'' ''t'' 1 ''s'' 1 ''b''
      [''k''] sample_entry_db = (Inr n, db')" "length (jd_journeys db') = length (jd_journeys db1)"
    using r(1) by (simp add: EnrollAudienceBuild_def in_tx_def Let_def)
  have "\<forall>c \<in> set [''k'']. \<forall>r \<in> set (jd_journeys sample_entry_db). j_ID r \<noteq> ei_Journey (sample_ids c)"
    by (simp add: sample_entry_db_def)
  from audience_runs_count_nothing [OF build(1) this]
  have "n = 0" "\<forall>r \<in> set (jd_journeys db'). j_Context r = Some []"
    by (auto simp: sample_entry_db_def)
  moreover have "length (jd_journeys db') = 1"
    using build(2) r(2) by (auto simp: enrolled_tables_def sample_entry_db_def)
  ultimately show ?thesis using build(1) by blast
qed

end
