(* ===== verification/Delivery_Ends.thy ===== *)
theory Delivery_Ends
  imports Side_Effect_Runs
begin

text \<open>
  The delivery of a side effect ends: whatever its calls of the database answer, a handler has an answer
  for the broker after six phases, and does nothing after it.
\<close>

fun phase_rank :: "phase \<Rightarrow> nat" where
  "phase_rank PH_Claim = 6"
| "phase_rank (PH_Read _) = 5"
| "phase_rank (PH_Decide _ _) = 4"
| "phase_rank (PH_Execute _) = 3"
| "phase_rank (PH_Record _ _) = 2"
| "phase_rank (PH_Complete _) = 1"
| "phase_rank (PH_Fail _ _) = 1"
| "phase_rank (PH_Done _) = 0"

lemma phase_rank_0: "phase_rank ph = 0 \<Longrightarrow> \<exists>r. ph = PH_Done r"
  by (cases ph) auto

lemma decide_rank:
  "decide c e = Inl ph \<Longrightarrow> phase_rank ph < 4"
  "decide c e = Inr (before, to, err, ph, changed) \<Longrightarrow> phase_rank ph < 4"
  by (auto simp: decide_def split: effect_status.splits if_splits option.splits)

lemma step_rank:
  assumes "delivery_step env f ev key ph db = ((ph', calls), db')"
  shows "phase_rank ph' \<le> phase_rank ph - 1"
proof (cases ph)
  case (PH_Decide c e)
  show ?thesis
  proof (cases "decide c e")
    case (Inl x)
    with assms PH_Decide decide_rank(1) [OF Inl] show ?thesis
      by (auto simp: delivery_step_def split: if_splits)
  next
    case (Inr y)
    obtain before to err x changed where y: "y = (before, to, err, x, changed)" by (cases y) auto
    with assms PH_Decide Inr decide_rank(2) [OF Inr [unfolded y]] show ?thesis
      by (auto simp: delivery_step_def split: if_splits prod.splits sum.splits bool.splits)
  qed
qed (use assms in \<open>auto simp: delivery_step_def split: if_splits prod.splits sum.splits bool.splits option.splits\<close>)

lemma done_steps: "delivery_phases env fs ev key (PH_Done r) calls db = ((PH_Done r, calls), db)"
  by (induction fs) (simp_all add: delivery_step_def)

lemma phases_end:
  "phase_rank ph \<le> length fs \<Longrightarrow> \<exists>r calls' db'. delivery_phases env fs ev key ph calls db = ((PH_Done r, calls'), db')"
proof (induction fs arbitrary: ph calls db)
  case Nil
  then show ?case using phase_rank_0 [of ph] by auto
next
  case (Cons f fs)
  obtain ph' c' db' where step: "delivery_step env f ev key ph db = ((ph', c'), db')"
    by (metis prod.exhaust)
  with step_rank [OF this] Cons.prems show ?case
    by (auto intro!: Cons.IH)
qed

lemma phases_append:
  "delivery_phases env (fs @ gs) ev key ph calls db =
     (case delivery_phases env fs ev key ph calls db of
        ((ph', calls'), db') \<Rightarrow> delivery_phases env gs ev key ph' calls' db')"
  by (induction fs arbitrary: ph calls db) (auto split: prod.splits)



end
