(* ===== verification/Trigger_Bindings.thy ===== *)
theory Trigger_Bindings
  imports Enrollment Outbox_Relay "HOL-Library.Char_ord" "HOL-Library.List_Lexorder"
begin

text \<open>
  The index by which events find automations: the validation of a trigger
  (\<open>internal/domain/automation.go\<close>), its compilation into a binding
  (\<open>internal/service/realtime_rule_compiler.go\<close>), the bindings' table with the installation of a new
  version of an automation (\<open>internal/repository/realtime_postgres.go\<close>, \<open>automation_postgres.go\<close>), and
  the keys of an event (\<open>internal/service/realtime_rule_worker.go\<close>). The builder of SQL conditions and the
  execution of a compiled query are parameters.
\<close>

section \<open>Triggers\<close>

definition ValidEventKinds :: "string list" where
  "ValidEventKinds =
     [''contact.created'', ''contact.updated'', ''contact.deleted'',
      ''contact.profile_created'', ''contact.profile_updated'', ''contact.tagged'', ''contact.untagged'',
      ''list.subscribed'', ''list.unsubscribed'', ''list.confirmed'', ''list.resubscribed'',
      ''list.bounced'', ''list.complained'', ''list.pending'', ''list.removed'',
      ''segment.joined'', ''segment.left'',
      ''email.opened'', ''email.clicked'', ''email.bounced'', ''email.complained'', ''email.unsubscribed'',
      ''custom_event'']"

definition IsValidEventKind :: "string \<Rightarrow> bool" where
  "IsValidEventKind kind = List.member ValidEventKinds kind"

fun TriggerFrequency_IsValid :: "trigger_frequency \<Rightarrow> bool" where
  "TriggerFrequency_IsValid TF_Once = True"
| "TriggerFrequency_IsValid TF_EveryTime = True"
| "TriggerFrequency_IsValid (TF_Other _) = False"

definition absent :: "string option \<Rightarrow> bool" where
  "absent s = (case s of None \<Rightarrow> True | Some t \<Rightarrow> t = [])"

text \<open>\<open>tree_ok\<close> validates the tree of conditions.\<close>

definition TimelineTriggerConfig_Validate :: "(json \<Rightarrow> string option) \<Rightarrow> trigger_config \<Rightarrow> string option" where
  "TimelineTriggerConfig_Validate tree_ok c =
     (if tc_EventKind c = [] then Some ''event kind is required''
      else if \<not> IsValidEventKind (tc_EventKind c) then Some (''invalid event kind: '' @ tc_EventKind c)
      else if \<not> TriggerFrequency_IsValid (tc_Frequency c) then Some ''invalid trigger frequency''
      else case (case tc_EntryGuard c of None \<Rightarrow> None | Some g \<Rightarrow> JourneyEntryGuard_Validate g) of
        Some e \<Rightarrow> Some e
      | None \<Rightarrow>
          if is_prefix ''list.'' (tc_EventKind c) \<and> absent (tc_ListID c)
          then Some ''list_id is required for list events''
          else if is_prefix ''segment.'' (tc_EventKind c) \<and> absent (tc_SegmentID c)
          then Some ''segment_id is required for segment events''
          else if tc_EventKind c = ''custom_event'' \<and> absent (tc_CustomEventName c)
          then Some ''custom_event_name is required for custom events''
          else if (tc_EventKind c = ''contact.tagged'' \<or> tc_EventKind c = ''contact.untagged'') \<and>
             (case tc_Tag c of None \<Rightarrow> True | Some t \<Rightarrow> trim_space t = [])
          then Some ''tag is required for contact tag events''
          else case tc_Conditions c of
            None \<Rightarrow> None
          | Some t \<Rightarrow> map_option (\<lambda>e. ''invalid trigger conditions: '' @ e) (tree_ok t))"

section \<open>Compilation\<close>

definition AllowedContactFields :: "string list" where
  "AllowedContactFields =
     [''external_id'', ''timezone'', ''language'', ''first_name'', ''last_name'', ''phone'',
      ''address_line_1'', ''address_line_2'', ''country'', ''postcode'', ''state'',
      ''custom_string_1'', ''custom_string_2'', ''custom_string_3'', ''custom_string_4'', ''custom_string_5'',
      ''custom_number_1'', ''custom_number_2'', ''custom_number_3'', ''custom_number_4'', ''custom_number_5'',
      ''custom_datetime_1'', ''custom_datetime_2'', ''custom_datetime_3'', ''custom_datetime_4'', ''custom_datetime_5'',
      ''custom_json_1'', ''custom_json_2'', ''custom_json_3'', ''custom_json_4'', ''custom_json_5'']"

definition sortedUniqueStrings :: "string list \<Rightarrow> string list" where
  "sortedUniqueStrings values = sort (remdups (filter (\<lambda>v. v \<noteq> []) values))"

text \<open>A nil pointer is a panic.\<close>

definition deref :: "string option \<Rightarrow> string + string" where
  "deref p = (case p of None \<Rightarrow> Inl ''panic: nil pointer dereference'' | Some s \<Rightarrow> Inr s)"

definition with_entity :: "string \<Rightarrow> string \<Rightarrow> string option \<Rightarrow> string + (string \<times> string \<times> string list)" where
  "with_entity eventType subjectType p =
     and_then (deref p) (\<lambda>s. Inr (eventType, subjectType, [''entity_id:'' @ s]))"

fun field_dependencies :: "string list \<Rightarrow> string + string list" where
  "field_dependencies [] = Inr []"
| "field_dependencies (f # fs) =
     (if \<not> List.member AllowedContactFields f then Inl (''invalid updated_field: '' @ f)
      else and_then (field_dependencies fs) (\<lambda>ds. Inr ((''changes.'' @ f) # ds)))"

definition compileTriggerIndex :: "trigger_config \<Rightarrow> string + (string \<times> string \<times> string list)" where
  "compileTriggerIndex t =
     (let kind = tc_EventKind t;
          index =
            (if kind = ''custom_event''
             then and_then (deref (tc_CustomEventName t)) (\<lambda>n. Inr (''custom_event.'' @ n, ''custom_event'', []))
             else if kind = ''contact.tagged'' \<or> kind = ''contact.untagged''
             then with_entity kind ''contact_tag'' (tc_Tag t)
             else if kind = ''contact.profile_created'' \<or> kind = ''contact.profile_updated''
             then Inr (kind, ''contact_profile'', [])
             else if is_prefix ''contact.'' kind then Inr (kind, ''contact'', [])
             else if is_prefix ''list.'' kind then with_entity kind ''contact_list'' (tc_ListID t)
             else if is_prefix ''segment.'' kind then with_entity kind ''contact_segment'' (tc_SegmentID t)
             else if is_prefix ''email.'' kind then Inr (kind, ''message_history'', [])
             else Inl (''unsupported realtime trigger event kind '' @ kind))
      in and_then index (\<lambda>(eventType, subjectType, deps).
           and_then (if kind = ''contact.updated'' then field_dependencies (tc_UpdatedFields t) else Inr [])
             (\<lambda>fs. Inr (eventType, subjectType, sortedUniqueStrings (deps @ fs)))))"

record compiler =
  co_tree :: "json \<Rightarrow> string option"
  co_build :: "json \<Rightarrow> string \<Rightarrow> string + string \<times> json list"
  co_hash :: "string \<Rightarrow> trigger_config \<Rightarrow> string + string"

text \<open>\<open>BuildTriggerCondition\<close> runs twice, the second time with the number of the placeholder of the address.\<close>

definition compileCondition :: "compiler \<Rightarrow> json option \<Rightarrow> string + (string \<times> json list)" where
  "compileCondition co tree =
     (case tree of
        None \<Rightarrow> Inr (''SELECT TRUE'', [])
      | Some t \<Rightarrow>
          and_then (co_build co t (replicate 2 (CHR 39) @ ''::text'')) (\<lambda>(_, arguments).
            and_then (co_build co t (CHR ''$'' # show_nat (length arguments + 1))) (\<lambda>(condition, rebuilt).
              if length rebuilt \<noteq> length arguments
              then Inl ''trigger condition argument count changed while binding email''
              else Inr (''SELECT COALESCE(('' @ condition @ ''), FALSE)'', arguments))))"

definition Compile :: "compiler \<Rightarrow> string \<Rightarrow> string \<Rightarrow> trigger_config option \<Rightarrow> string + trigger_binding" where
  "Compile co automation rootNode trigger =
     (case trigger of
        None \<Rightarrow> Inl ''automation and trigger are required''
      | Some t \<Rightarrow>
          if automation = [] \<or> rootNode = [] then Inl ''automation id and root node id are required''
          else case TimelineTriggerConfig_Validate (co_tree co) t of
            Some e \<Rightarrow> Inl (''validate automation trigger: '' @ e)
          | None \<Rightarrow>
              and_then (compileTriggerIndex t) (\<lambda>(eventType, subjectType, dependencyKeys).
              and_then (compileCondition co (tc_Conditions t)) (\<lambda>(query, arguments).
              and_then (co_hash co rootNode t) (\<lambda>hash.
                Inr \<lparr>tb_AutomationID = automation, tb_AutomationVersion = 1, tb_EventType = eventType,
                  tb_SubjectType = subjectType, tb_DependencyKeys = dependencyKeys, tb_ConditionHash = hash,
                  tb_Compiled = Some \<lparr>cc_Query = query, cc_Arguments = arguments, cc_RootNodeID = rootNode,
                    cc_Frequency = tc_Frequency t, cc_Trigger = Some t\<rparr>\<rparr>))))"

section \<open>The table\<close>

definition binding_invalid :: "string \<Rightarrow> trigger_binding \<Rightarrow> bool" where
  "binding_invalid automation b \<longleftrightarrow> tb_AutomationID b \<noteq> automation \<or> tb_AutomationVersion b \<le> 0 \<or>
     tb_EventType b = [] \<or> tb_SubjectType b = [] \<or> tb_ConditionHash b = [] \<or> tb_Compiled b = None"

definition same_binding :: "trigger_binding \<Rightarrow> trigger_binding \<Rightarrow> bool" where
  "same_binding b c \<longleftrightarrow> tb_AutomationID b = tb_AutomationID c \<and> tb_AutomationVersion b = tb_AutomationVersion c \<and>
     tb_EventType b = tb_EventType c \<and> tb_SubjectType b = tb_SubjectType c"

fun insert_bindings :: "string \<Rightarrow> trigger_binding list \<Rightarrow> trigger_binding list \<Rightarrow> string + trigger_binding list" where
  "insert_bindings automation [] t = Inr t"
| "insert_bindings automation (b # bs) t =
     (if binding_invalid automation b then Inl (''invalid trigger binding for automation '' @ automation)
      else if list_ex (same_binding b) t then Inl ''insert trigger binding: duplicate key''
      else insert_bindings automation bs (t @ [b]))"

definition replaceTriggerBindingsTx :: "string \<Rightarrow> trigger_binding list \<Rightarrow> rule_db \<Rightarrow> (string + unit) \<times> rule_db" where
  "replaceTriggerBindingsTx automation bs db =
     (case insert_bindings automation bs (sql_delete (\<lambda>b. tb_AutomationID b = automation) (ru_bindings db)) of
        Inl e \<Rightarrow> (Inl e, db)
      | Inr t \<Rightarrow> (Inr (), db\<lparr>ru_bindings := t\<rparr>))"

definition ReplaceTriggerBindings :: "string \<Rightarrow> trigger_binding list \<Rightarrow> rule_db \<Rightarrow> (string + unit) \<times> rule_db" where
  "ReplaceTriggerBindings automation bs db =
     (if automation = [] then (Inl ''automation id is required'', db)
      else in_tx (replaceTriggerBindingsTx automation bs) db)"

definition DeleteTriggerBindings :: "string \<Rightarrow> rule_db \<Rightarrow> rule_db" where
  "DeleteTriggerBindings automation db =
     db\<lparr>ru_bindings := sql_delete (\<lambda>b. tb_AutomationID b = automation) (ru_bindings db)\<rparr>"

text \<open>\<open>rank\<close> is the order of the automation ids in the collation of the database.\<close>

definition binding_current :: "rule_db \<Rightarrow> trigger_binding \<Rightarrow> bool" where
  "binding_current db b \<longleftrightarrow> (\<exists>a \<in> set (jd_automations db). a_ID a = tb_AutomationID b \<and>
     a_Version a = tb_AutomationVersion b \<and> is_live a)"

definition listTriggerBindings ::
    "(string \<Rightarrow> nat) \<Rightarrow> string \<Rightarrow> string \<Rightarrow> string list \<Rightarrow> rule_db \<Rightarrow> trigger_binding list" where
  "listTriggerBindings rank eventType subjectType keys db =
     sort_key (\<lambda>b. rank (tb_AutomationID b))
       (filter (\<lambda>b. binding_current db b \<and> tb_EventType b = eventType \<and> tb_SubjectType b = subjectType \<and>
          (tb_DependencyKeys b = [] \<or> list_ex (List.member keys) (tb_DependencyKeys b))) (ru_bindings db))"

section \<open>Conditions\<close>

definition upper_char :: "char \<Rightarrow> char" where
  "upper_char c = (let n = (of_char c :: nat) in if 97 \<le> n \<and> n \<le> 122 then char_of (n - 32) else c)"

definition to_upper :: "string \<Rightarrow> string" where
  "to_upper s = map upper_char s"

text \<open>\<open>run\<close> executes a query with its arguments on the database: its row, or an error.\<close>

definition evaluateTriggerBinding ::
    "(string \<Rightarrow> json list \<Rightarrow> rule_db \<Rightarrow> string + bool) \<Rightarrow> trigger_binding \<Rightarrow> string \<Rightarrow> rule_db \<Rightarrow>
     string + (bool \<times> compiled_condition)" where
  "evaluateTriggerBinding run b contactEmail db =
     (case tb_Compiled b of
        None \<Rightarrow> Inl ''decode compiled condition''
      | Some c \<Rightarrow>
          let query = trim_space (cc_Query c)
          in if \<not> is_prefix ''SELECT '' (to_upper query) \<or> str_contains query '';''
             then Inl ''compiled condition must be one SELECT statement''
             else and_then (run query
                 (cc_Arguments c @ (if query \<noteq> ''SELECT TRUE'' then [JStr contactEmail] else [])) db)
               (\<lambda>matched. Inr (matched, c)))"

section \<open>A new version\<close>

text \<open>\<open>CreateRealtimeTriggerBinding\<close>: nothing happens when the current version is bound to the same
  condition; otherwise the version is raised and its binding takes the place of the old one.\<close>

definition create_binding_tx ::
    "(string \<Rightarrow> json list \<Rightarrow> rule_db \<Rightarrow> string + bool) \<Rightarrow> string \<Rightarrow> trigger_binding \<Rightarrow> rule_db \<Rightarrow>
     (string + unit) \<times> rule_db" where
  "create_binding_tx run ws b db =
     (let p = (\<lambda>a. a_ID a = tb_AutomationID b \<and> a_WorkspaceID a = ws \<and> a_DeletedAt a = None)
      in case sql_find p (jd_automations db) of
        None \<Rightarrow> (Inl ''failed to lock automation for realtime binding'', db)
      | Some a \<Rightarrow>
          if (case sql_find (\<lambda>c. tb_AutomationID c = a_ID a \<and> tb_AutomationVersion c = a_Version a) (ru_bindings db) of
                None \<Rightarrow> False | Some c \<Rightarrow> tb_ConditionHash c = tb_ConditionHash b)
          then (Inr (), db)
          else case evaluateTriggerBinding run b ''__notifuse_validation__@invalid.local'' db of
            Inl e \<Rightarrow> (Inl (''failed to validate realtime trigger binding: '' @ e), db)
          | Inr _ \<Rightarrow>
              let db1 = db\<lparr>jd_automations := sql_update p (\<lambda>a. a\<lparr>a_Version := a_Version a + 1\<rparr>) (jd_automations db)\<rparr>
              in replaceTriggerBindingsTx (a_ID a) [b\<lparr>tb_AutomationVersion := a_Version a + 1\<rparr>] db1)"

definition CreateRealtimeTriggerBinding ::
    "compiler \<Rightarrow> (string \<Rightarrow> json list \<Rightarrow> rule_db \<Rightarrow> string + bool) \<Rightarrow> string \<Rightarrow> string \<Rightarrow> string \<Rightarrow> trigger_config option \<Rightarrow>
     rule_db \<Rightarrow> (string + unit) \<times> rule_db" where
  "CreateRealtimeTriggerBinding co run ws automation rootNode trigger db =
     (case Compile co automation rootNode trigger of
        Inl e \<Rightarrow> (Inl (''failed to compile realtime trigger binding: '' @ e), db)
      | Inr b \<Rightarrow> in_tx (create_binding_tx run ws b) db)"

end
