(* ===== verification/Rule_Engine.thy ===== *)
theory Rule_Engine
  imports Trigger_Bindings
begin

text \<open>
  Events and the automations they start: the ledger of events
  (\<open>internal/repository/realtime_postgres.go\<close>, \<open>AppendEvent\<close>), the processing of an event against the
  bindings of its kind (\<open>ProcessRuleEvent\<close>), which enrols the customer and enqueues the command that
  starts the journey, and the worker around it (\<open>internal/service/realtime_rule_worker.go\<close>).
\<close>

section \<open>The ledger\<close>

text \<open>The fields of an event that its hash covers; \<open>hash\<close> is the hash of their canonical JSON.\<close>

record event_fingerprint =
  fp_EventID :: string
  fp_Type :: string
  fp_SchemaVersion :: int
  fp_Subject :: event_subject
  fp_Source :: string
  fp_OccurredAt :: instant
  fp_CorrelationID :: string
  fp_CausationID :: "string option"
  fp_Data :: event_data

definition fingerprint :: "event_envelope \<Rightarrow> event_fingerprint" where
  "fingerprint e = \<lparr>fp_EventID = ev_EventID e, fp_Type = ev_Type e, fp_SchemaVersion = ev_SchemaVersion e,
     fp_Subject = ev_Subject e, fp_Source = ev_Source e, fp_OccurredAt = ev_OccurredAt e,
     fp_CorrelationID = ev_CorrelationID e, fp_CausationID = ev_CausationID e, fp_Data = ev_Data e\<rparr>"

record append_env =
  ae_now :: instant
  ae_uuid :: string
  ae_is_uuid :: "string \<Rightarrow> bool"
  ae_hash :: "event_fingerprint \<Rightarrow> string"

record append_result =
  ar_EventID :: string
  ar_MessageID :: string
  ar_ReceivedAt :: instant
  ar_Duplicate :: bool

datatype append_error = AE_Invalid string | AE_Conflict | AE_Driver string

text \<open>The defaults. Whether the data is empty is an argument of its own: the model's event data does not
  tell empty data from data that is no JSON.\<close>

definition received_or_now :: "append_env \<Rightarrow> instant \<Rightarrow> instant" where
  "received_or_now env receivedAt = (if receivedAt = zero_time then ae_now env else receivedAt)"

definition event_defaults :: "append_env \<Rightarrow> string \<Rightarrow> bool \<Rightarrow> instant \<Rightarrow> event_envelope \<Rightarrow> event_envelope" where
  "event_defaults env ws no_data receivedAt e =
     e\<lparr>ev_ID := (if ev_ID e = [] then ae_uuid env else ev_ID e),
       ev_CorrelationID := (if ev_CorrelationID e = [] then ev_EventID e else ev_CorrelationID e),
       ev_SchemaVersion := (if ev_SchemaVersion e = 0 then 1 else ev_SchemaVersion e),
       ev_Data := (if no_data then ED_Other (JObj []) else ev_Data e),
       ev_WorkspaceID := ws, ev_ReceivedAt := receivedAt\<rparr>"

definition new_outbox_row ::
    "instant \<Rightarrow> string \<Rightarrow> string \<Rightarrow> event_envelope \<Rightarrow> outbox_message" where
  "new_outbox_row now topic key e =
     \<lparr>om_ID = ev_ID e, om_EventID = ev_EventID e, om_Topic = topic, om_RoutingKey = key, om_Payload = e,
      om_EffectKey = None, om_Status = OS_Pending, om_Attempts = 0, om_AvailableAt = now, om_ClaimedBy = None,
      om_ClaimToken = None, om_ClaimExpiresAt = None, om_PublishedAt = None, om_LastError = None,
      om_CreatedAt = now\<rparr>"

text \<open>\<open>INSERT INTO event_outbox\<close> without a conflict clause.\<close>

definition outbox_clash :: "outbox_message \<Rightarrow> outbox_message \<Rightarrow> bool" where
  "outbox_clash m x \<longleftrightarrow> om_ID x = om_ID m \<or>
     om_EventID x = om_EventID m \<and> om_Topic x = om_Topic m \<and> om_RoutingKey x = om_RoutingKey m"

text \<open>\<open>LOWER(BTRIM(email))\<close>, and the customer that the subquery finds: an error when it finds two.\<close>

definition btrim :: "string \<Rightarrow> string" where
  "btrim s = rev (dropWhile (\<lambda>c. c = CHR '' '') (rev (dropWhile (\<lambda>c. c = CHR '' '') s)))"

definition same_address :: "string \<Rightarrow> contact_row \<Rightarrow> bool" where
  "same_address email c \<longleftrightarrow> to_lower (btrim (ct_Email c)) = to_lower (btrim email)"

definition event_customer :: "event_subject \<Rightarrow> rule_db \<Rightarrow> string + string option" where
  "event_customer s db =
     (if es_CustomerID s \<noteq> [] then Inr (Some (es_CustomerID s))
      else case filter (same_address (es_ContactEmail s)) (ru_contacts db) of
        [] \<Rightarrow> Inr None
      | [c] \<Rightarrow> Inr (ct_CustomerID c)
      | _ \<Rightarrow> Inl ''more than one row returned by a subquery used as an expression'')"

definition known_customer :: "string option \<Rightarrow> rule_db \<Rightarrow> bool" where
  "known_customer c db = (case c of None \<Rightarrow> True | Some k \<Rightarrow> sql_exists (\<lambda>x. cu_ID x = k) (ru_customers db))"

definition ledger_row :: "string option \<Rightarrow> event_envelope \<Rightarrow> event_row" where
  "ledger_row customer e = \<lparr>el_ID = ev_EventID e, el_Type = ev_Type e, el_SubjectType = es_Type (ev_Subject e),
     el_SubjectID = es_ID (ev_Subject e), el_CustomerID = customer,
     el_ContactEmail = (if es_ContactEmail (ev_Subject e) = [] then None else Some (es_ContactEmail (ev_Subject e))),
     el_Source = ev_Source e, el_SchemaVersion = ev_SchemaVersion e, el_OccurredAt = ev_OccurredAt e,
     el_ReceivedAt = ev_ReceivedAt e, el_Data = ev_Data e\<rparr>"

text \<open>The message of the event that is in the outbox already, the oldest one.\<close>

definition event_message :: "string \<Rightarrow> rule_db \<Rightarrow> string" where
  "event_message k db =
     (case sort_key om_CreatedAt (filter (\<lambda>m. om_EventID m = k \<and> om_Topic m = EventsExchange) (rd_outbox db)) of
        [] \<Rightarrow> [] | m # _ \<Rightarrow> om_ID m)"

definition append_tx :: "append_env \<Rightarrow> event_envelope \<Rightarrow> rule_db \<Rightarrow> (append_error + append_result) \<times> rule_db" where
  "append_tx env e db =
     (case sql_find (\<lambda>i. ip_ID i = ev_EventID e) (ru_idempotency db) of
        Some i \<Rightarrow>
          if ip_PayloadHash i \<noteq> ae_hash env (fingerprint e) then (Inl AE_Conflict, db)
          else (Inr \<lparr>ar_EventID = ev_EventID e, ar_MessageID = event_message (ev_EventID e) db,
                  ar_ReceivedAt = ip_ReceivedAt i, ar_Duplicate = True\<rparr>, db)
      | None \<Rightarrow>
     let db1 = db\<lparr>ru_idempotency := ru_idempotency db @
           [\<lparr>ip_ID = ev_EventID e, ip_ReceivedAt = ev_ReceivedAt e, ip_PayloadHash = ae_hash env (fingerprint e)\<rparr>]\<rparr>
     in case event_customer (ev_Subject e) db1 of
          Inl err \<Rightarrow> (Inl (AE_Driver err), db1)
        | Inr customer \<Rightarrow>
            if \<not> known_customer customer db1 \<or>
               sql_exists (\<lambda>x. el_ID x = ev_EventID e \<and> el_ReceivedAt x = ev_ReceivedAt e) (ru_events db1)
            then (Inl (AE_Driver ''append event ledger''), db1)
            else
              let db2 = db1\<lparr>ru_events := ru_events db1 @ [ledger_row customer e]\<rparr>;
                  m = new_outbox_row (ae_now env) EventsExchange (ev_Type e) e
              in if sql_exists (outbox_clash m) (rd_outbox db2) then (Inl (AE_Driver ''append event outbox''), db2)
                 else (Inr \<lparr>ar_EventID = ev_EventID e, ar_MessageID = ev_ID e, ar_ReceivedAt = ev_ReceivedAt e,
                         ar_Duplicate = False\<rparr>, db2\<lparr>rd_outbox := rd_outbox db2 @ [m]\<rparr>))"

definition AppendEvent ::
    "append_env \<Rightarrow> string \<Rightarrow> bool \<Rightarrow> event_envelope \<Rightarrow> instant \<Rightarrow> rule_db \<Rightarrow>
     (append_error + append_result) \<times> rule_db" where
  "AppendEvent env ws no_data e receivedAt db =
     (let e = event_defaults env ws no_data (received_or_now env receivedAt) e
      in case EventEnvelope_Validate (ae_is_uuid env) e of
           Some err \<Rightarrow> (Inl (AE_Invalid err), db)
         | None \<Rightarrow> in_tx (append_tx env e) db)"

section \<open>The keys of an event\<close>

text \<open>Decoding into a struct of \<open>entity_id\<close> and \<open>changes\<close>: names match without case, a later field
  overwrites or, for the map, adds to an earlier one; a field of the wrong kind is an error, which leaves
  no keys. A command of a side effect has neither field.\<close>

fun index_fields :: "json_object \<Rightarrow> string \<times> string list \<Rightarrow> (string \<times> string list) option" where
  "index_fields [] acc = Some acc"
| "index_fields ((k, v) # kvs) (entity, changes) =
     (if to_lower k = ''entity_id'' then
        (case v of
           JStr s \<Rightarrow> index_fields kvs (s, changes)
         | JNull \<Rightarrow> index_fields kvs (entity, changes)
         | _ \<Rightarrow> None)
      else if to_lower k = ''changes'' then
        (case v of
           JObj cs \<Rightarrow> index_fields kvs (entity, changes @ map fst cs)
         | JNull \<Rightarrow> index_fields kvs (entity, [])
         | _ \<Rightarrow> None)
      else index_fields kvs (entity, changes))"

definition eventDependencyKeys :: "event_data \<Rightarrow> string list" where
  "eventDependencyKeys d =
     (case d of
        ED_Other (JObj kvs) \<Rightarrow>
          (case index_fields kvs ([], []) of
             None \<Rightarrow> []
           | Some (entity, changes) \<Rightarrow>
               sort ((if entity \<noteq> [] then [''entity_id:'' @ entity] else []) @
                 map (\<lambda>f. ''changes.'' @ f) (remdups changes)))
      | _ \<Rightarrow> [])"

section \<open>One event\<close>

record rule_env =
  ru_run :: "string \<Rightarrow> json list \<Rightarrow> rule_db \<Rightarrow> string + bool"
  ru_rank :: "string \<Rightarrow> nat"
  ru_md5 :: "string \<Rightarrow> int \<Rightarrow> string \<Rightarrow> trigger_frequency \<Rightarrow> string"
  ru_sha256 :: "string \<Rightarrow> string"
  ru_is_uuid :: "string \<Rightarrow> bool"
  ru_ids :: "string \<Rightarrow> enroll_ids"
  ru_message :: "string \<Rightarrow> string"
  ru_token :: string
  ru_now :: instant

text \<open>The identifiers that a run draws are given by automation: those of the enrolment and of the command.\<close>

record rule_request =
  rq_WorkspaceID :: string
  rq_Consumer :: string
  rq_MessageID :: string
  rq_Envelope :: event_envelope
  rq_DependencyKeys :: "string list"
  rq_Primary :: bool
  rq_Now :: instant
  rq_InboxLease :: duration

record rule_result =
  rr_Duplicate :: bool
  rr_Busy :: bool
  rr_Candidates :: nat
  rr_Matched :: nat
  rr_Enrolled :: nat
  rr_Deferred :: nat
  rr_Suppressed :: nat

datatype rule_error = RU_Identity | RU_Audit | RU_Other string

definition rule_result_of :: "nat \<Rightarrow> rule_result" where
  "rule_result_of n = \<lparr>rr_Duplicate = False, rr_Busy = False, rr_Candidates = n, rr_Matched = 0, rr_Enrolled = 0,
     rr_Deferred = 0, rr_Suppressed = 0\<rparr>"

definition resolveRuleEventCustomerTx :: "rule_env \<Rightarrow> event_envelope \<Rightarrow> rule_db \<Rightarrow> rule_error + string" where
  "resolveRuleEventCustomerTx env e db =
     (let s = ev_Subject e;
          found =
            (if trim_space (es_CustomerID s) \<noteq> []
             then (if \<not> ru_is_uuid env (es_CustomerID s) then None else resolve_customer (es_CustomerID s) db)
             else case filter (\<lambda>c. same_address (es_ContactEmail s) c \<and>
                    (case ct_CustomerID c of None \<Rightarrow> False | Some k \<Rightarrow> resolve_customer k db \<noteq> None)) (ru_contacts db) of
                [] \<Rightarrow> None
              | c # _ \<Rightarrow> (case ct_CustomerID c of None \<Rightarrow> None | Some k \<Rightarrow> resolve_customer k db))
      in case found of None \<Rightarrow> Inl RU_Identity | Some k \<Rightarrow> if trim_space k = [] then Inl RU_Identity else Inr k)"

definition ruleDecisionHash :: "rule_env \<Rightarrow> string \<Rightarrow> bool \<Rightarrow> string" where
  "ruleDecisionHash env hash matched = ru_sha256 env (hash @ '':'' @ (if matched then ''true'' else ''false''))"

text \<open>\<open>writeMatchAuditTx\<close>: an audit of the same event, automation and engine is renewed when the verdict is
  the same, and is a conflict otherwise.\<close>

definition writeMatchAuditTx :: "match_audit \<Rightarrow> rule_db \<Rightarrow> (rule_error + unit) \<times> rule_db" where
  "writeMatchAuditTx m db =
     (let p = same_audit (ma_EventID m) (ma_AutomationID m) (ma_Engine m)
      in case sql_find p (ru_audits db) of
           None \<Rightarrow> (Inr (), db\<lparr>ru_audits := ru_audits db @ [m]\<rparr>)
         | Some x \<Rightarrow>
             if ma_DecisionHash x = ma_DecisionHash m \<and> ma_Matched x = ma_Matched m
             then (Inr (), db\<lparr>ru_audits := sql_update p (\<lambda>x. x\<lparr>
                ma_ContactAutomationID := (case ma_ContactAutomationID m of
                  None \<Rightarrow> ma_ContactAutomationID x | Some k \<Rightarrow> Some k),
                ma_Reason := ma_Reason m, ma_CreatedAt := ma_CreatedAt m\<rparr>) (ru_audits db)\<rparr>)
             else (Inl RU_Audit, db))"

definition start_command :: "rule_env \<Rightarrow> rule_request \<Rightarrow> trigger_binding \<Rightarrow> string \<Rightarrow> string \<Rightarrow> outbox_message" where
  "start_command env q b customer journey =
     new_outbox_row (rq_Now q) JobsExchange (''journey.start.'' @ tb_AutomationID b)
       \<lparr>ev_ID = ru_message env (tb_AutomationID b), ev_EventID = ev_EventID (rq_Envelope q), ev_Type = ''journey.start'',
        ev_SchemaVersion = 1, ev_WorkspaceID = [],
        ev_Subject = \<lparr>es_Type = ''contact_automation'', es_ID = journey, es_CustomerID = customer,
          es_ContactEmail = es_ContactEmail (ev_Subject (rq_Envelope q))\<rparr>,
        ev_Source = ''rule-worker'', ev_OccurredAt = rq_Now q, ev_ReceivedAt = rq_Now q,
        ev_CorrelationID = ev_CorrelationID (rq_Envelope q),
        ev_CausationID = Some (ev_EventID (rq_Envelope q)), ev_TraceID = [],
        ev_Data = ED_Other (JObj [(''automation_id'', JStr (tb_AutomationID b)),
          (''automation_version'', JNum (of_int (tb_AutomationVersion b))), (''contact_automation_id'', JStr journey)])\<rparr>"

definition rule_enroll_args :: "rule_request \<Rightarrow> trigger_binding \<Rightarrow> compiled_condition \<Rightarrow> string \<Rightarrow> enroll_args" where
  "rule_enroll_args q b c customer =
     \<lparr>ea_AutomationID = tb_AutomationID b, ea_CustomerID = customer,
      ea_ContactEmail = es_ContactEmail (ev_Subject (rq_Envelope q)), ea_RootNodeID = cc_RootNodeID c,
      ea_Frequency = cc_Frequency c, ea_OriginEventID = Some (ev_EventID (rq_Envelope q)),
      ea_Guard = (case cc_Trigger c of None \<Rightarrow> no_guard | Some t \<Rightarrow>
        (case tc_EntryGuard t of None \<Rightarrow> no_guard | Some g \<Rightarrow> g)),
      ea_ExpectedVersion = Some (tb_AutomationVersion b), ea_Engine = ''realtime''\<rparr>"

definition enrollRealtimeAutomation ::
    "rule_env \<Rightarrow> rule_request \<Rightarrow> trigger_binding \<Rightarrow> compiled_condition \<Rightarrow> string \<Rightarrow> rule_db \<Rightarrow>
     (rule_error + enroll_result) \<times> rule_db" where
  "enrollRealtimeAutomation env q b c customer db =
     (case automation_enroll_customer (ru_md5 env) (rq_Now q) (ru_ids env (tb_AutomationID b)) db
             (rule_enroll_args q b c customer) db of
        (Inl e, db1) \<Rightarrow> (Inl (RU_Other e), db1)
      | (Inr r, db1) \<Rightarrow>
          if er_Outcome r \<noteq> EO_Enrolled then (Inr r, db1)
          else case er_ContactAutomationID r of
            None \<Rightarrow> (Inl (RU_Other ''returned no contact automation id''), db1)
          | Some journey \<Rightarrow>
              if journey = [] then (Inl (RU_Other ''returned no contact automation id''), db1)
              else let m = start_command env q b customer journey
                   in if sql_exists (outbox_clash m) (rd_outbox db1)
                      then (Inl (RU_Other ''enqueue journey start command''), db1)
                      else (Inr r, db1\<lparr>rd_outbox := rd_outbox db1 @ [m]\<rparr>))"

definition outcome_text :: "entry_outcome \<Rightarrow> string" where
  "outcome_text out = (case out of EO_Enrolled \<Rightarrow> ''enrolled'' | EO_AlreadyOnce \<Rightarrow> ''already_once''
     | EO_ReplayedEvent \<Rightarrow> ''replayed_event'' | EO_GuardDeferred \<Rightarrow> ''guard_deferred'' | EO_GuardDenied \<Rightarrow> ''guard_denied'')"

definition rule_audit ::
    "rule_env \<Rightarrow> rule_request \<Rightarrow> trigger_binding \<Rightarrow> bool \<Rightarrow> enroll_result option \<Rightarrow> match_audit" where
  "rule_audit env q b matched r =
     \<lparr>ma_EventID = ev_EventID (rq_Envelope q), ma_AutomationID = tb_AutomationID b, ma_Engine = ''realtime'',
      ma_Matched = matched, ma_DecisionHash = ruleDecisionHash env (tb_ConditionHash b) matched,
      ma_ContactAutomationID = (case r of None \<Rightarrow> None | Some x \<Rightarrow>
        (if er_Outcome x = EO_Enrolled then er_ContactAutomationID x else None)),
      ma_Reason = [(''condition_hash'', JStr (tb_ConditionHash b)),
        (''decision'', JStr (if matched then ''matched'' else ''not_matched'')),
        (''entry_outcome'', JStr (case r of None \<Rightarrow> [] | Some x \<Rightarrow> outcome_text (er_Outcome x))),
        (''primary'', JBool (rq_Primary q))],
      ma_CreatedAt = rq_Now q\<rparr>"

definition count_outcome :: "enroll_result option \<Rightarrow> rule_result \<Rightarrow> rule_result" where
  "count_outcome r res =
     (case r of
        None \<Rightarrow> res
      | Some x \<Rightarrow>
          (case er_Outcome x of
             EO_Enrolled \<Rightarrow> res\<lparr>rr_Enrolled := rr_Enrolled res + 1\<rparr>
           | EO_GuardDeferred \<Rightarrow> res\<lparr>rr_Deferred := rr_Deferred res + 1\<rparr>
           | _ \<Rightarrow> res\<lparr>rr_Suppressed := rr_Suppressed res + 1\<rparr>))"

text \<open>In the shadow mode a \<open>once\<close> automation matches a customer that has no enrolment of it yet.\<close>

definition shadow_match :: "rule_request \<Rightarrow> trigger_binding \<Rightarrow> compiled_condition \<Rightarrow> string \<Rightarrow> bool \<Rightarrow> rule_db \<Rightarrow> bool" where
  "shadow_match q b c customer matched db =
     (if matched \<and> \<not> rq_Primary q \<and> cc_Frequency c = TF_Once
      then \<not> sql_exists (\<lambda>e. en_AutomationID e = tb_AutomationID b \<and> en_CustomerID e = customer \<and>
              en_Frequency e = TF_Once) (ru_enrollments db)
      else matched)"

definition process_binding ::
    "rule_env \<Rightarrow> rule_request \<Rightarrow> trigger_binding \<Rightarrow> rule_result \<Rightarrow> rule_db \<Rightarrow> (rule_error + rule_result) \<times> rule_db" where
  "process_binding env q b res db =
     (case evaluateTriggerBinding (ru_run env) b (es_ContactEmail (ev_Subject (rq_Envelope q))) db of
        Inl e \<Rightarrow> (Inl (RU_Other e), db)
      | Inr (matched0, c) \<Rightarrow>
     (case (if matched0 \<and> (rq_Primary q \<or> cc_Frequency c = TF_Once)
            then resolveRuleEventCustomerTx env (rq_Envelope q) db else Inr []) of
        Inl e \<Rightarrow> (Inl e, db)
      | Inr customer \<Rightarrow>
     let matched = shadow_match q b c customer matched0 db;
         res1 = (if matched then res\<lparr>rr_Matched := rr_Matched res + 1\<rparr> else res)
     in case (if matched \<and> rq_Primary q
              then (case enrollRealtimeAutomation env q b c customer db of
                      (Inl e, db1) \<Rightarrow> (Inl e, db1) | (Inr r, db1) \<Rightarrow> (Inr (Some r), db1))
              else (Inr None, db)) of
          (Inl e, db1) \<Rightarrow> (Inl e, db1)
        | (Inr r, db1) \<Rightarrow>
            (case writeMatchAuditTx (rule_audit env q b matched r) db1 of
               (Inl e, db2) \<Rightarrow> (Inl e, db2)
             | (Inr _, db2) \<Rightarrow> (Inr (count_outcome r res1), db2))))"

fun process_bindings ::
    "rule_env \<Rightarrow> rule_request \<Rightarrow> trigger_binding list \<Rightarrow> rule_result \<Rightarrow> rule_db \<Rightarrow> (rule_error + rule_result) \<times> rule_db" where
  "process_bindings env q [] res db = (Inr res, db)"
| "process_bindings env q (b # bs) res db =
     (case process_binding env q b res db of
        (Inl e, db1) \<Rightarrow> (Inl e, db1)
      | (Inr res1, db1) \<Rightarrow> process_bindings env q bs res1 db1)"

definition defer_inbox :: "rule_request \<Rightarrow> string \<Rightarrow> rule_db \<Rightarrow> bool \<times> rule_db" where
  "defer_inbox q token db =
     (sql_count (holds_message (rq_Consumer q) (rq_MessageID q) token) (rd_inbox db) = 1,
      db\<lparr>rd_inbox := sql_update (holds_message (rq_Consumer q) (rq_MessageID q) token)
        (\<lambda>r. r\<lparr>ib_Status := IS_Failed, ib_ProcessedAt := None, ib_LastError := Some ''journey_entry_deferred''\<rparr>)
        (rd_inbox db)\<rparr>)"

definition process_tx :: "rule_env \<Rightarrow> rule_request \<Rightarrow> rule_db \<Rightarrow> (rule_error + rule_result) \<times> rule_db" where
  "process_tx env q db =
     (case ClaimInbox (rq_Consumer q) (rq_MessageID q) (rq_Now q) (rq_InboxLease q) (ru_token env) db of
        (Inl _, db1) \<Rightarrow> (Inl (RU_Other ''claim inbox''), db1)
      | (Inr c, db1) \<Rightarrow>
          if \<not> ic_Acquired c
          then (Inr (if ic_Status c = IS_Completed then (rule_result_of 0)\<lparr>rr_Duplicate := True\<rparr>
                     else (rule_result_of 0)\<lparr>rr_Busy := True\<rparr>), db1)
          else
            let bs = listTriggerBindings (ru_rank env) (ev_Type (rq_Envelope q)) (es_Type (ev_Subject (rq_Envelope q)))
                       (rq_DependencyKeys q) db1
            in case process_bindings env q bs (rule_result_of (length bs)) db1 of
                 (Inl e, db2) \<Rightarrow> (Inl e, db2)
               | (Inr res, db2) \<Rightarrow>
                   if rr_Deferred res > 0
                   then (case defer_inbox q (ic_Token c) db2 of
                           (False, db3) \<Rightarrow> (Inl (RU_Other ''rule inbox claim lost before journey entry defer''), db3)
                         | (True, db3) \<Rightarrow> (Inr res, db3))
                   else (case CompleteInbox (rq_Consumer q) (rq_MessageID q) (ic_Token c) (rq_Now q) db2 of
                           (False, db3) \<Rightarrow> (Inl (RU_Other ''rule inbox claim lost before completion''), db3)
                         | (True, db3) \<Rightarrow> (Inr res, db3)))"

definition ProcessRuleEvent :: "rule_env \<Rightarrow> rule_request \<Rightarrow> rule_db \<Rightarrow> (rule_error + rule_result) \<times> rule_db" where
  "ProcessRuleEvent env q db =
     (if rq_WorkspaceID q = [] \<or> rq_Consumer q = [] \<or> rq_MessageID q = [] \<or> rq_InboxLease q \<le> 0
      then (Inl (RU_Other ''workspace, consumer, message id, engine, and inbox lease are required''), db)
      else in_tx (process_tx env (if rq_Now q = zero_time then q\<lparr>rq_Now := ru_now env\<rparr> else q)) db)"

section \<open>The worker\<close>

datatype rule_worker_error = RW_Invalid string | RW_Busy | RW_Deferred | RW_Process rule_error

definition check_rule_message :: "(string \<Rightarrow> bool) \<Rightarrow> broker_message \<Rightarrow> string + event_envelope" where
  "check_rule_message is_uuid m =
     (if bm_ID m = [] then Inl ''message id is required''
      else case bm_Body m of
        None \<Rightarrow> Inl ''decode event envelope''
      | Some e \<Rightarrow>
          if ev_ID e \<noteq> bm_ID m then Inl ''envelope id does not match message id''
          else case EventEnvelope_Validate is_uuid e of
            Some err \<Rightarrow> Inl err
          | None \<Rightarrow>
              if es_ContactEmail (ev_Subject e) = [] then Inl ''contact_email is required for rule matching''
              else Inr e)"

definition rule_request_of :: "bool \<Rightarrow> instant \<Rightarrow> duration \<Rightarrow> broker_message \<Rightarrow> event_envelope \<Rightarrow> rule_request" where
  "rule_request_of primary now lease m e =
     \<lparr>rq_WorkspaceID = ev_WorkspaceID e, rq_Consumer = ''rule-worker'', rq_MessageID = bm_ID m, rq_Envelope = e,
      rq_DependencyKeys = eventDependencyKeys (ev_Data e), rq_Primary = primary, rq_Now = now, rq_InboxLease = lease\<rparr>"

definition Handle_rule ::
    "rule_env \<Rightarrow> bool \<Rightarrow> duration \<Rightarrow> broker_message \<Rightarrow> rule_db \<Rightarrow> (rule_worker_error + unit) \<times> rule_db" where
  "Handle_rule env primary lease m db =
     (case check_rule_message (ru_is_uuid env) m of
        Inl e \<Rightarrow> (Inl (RW_Invalid e), db)
      | Inr e \<Rightarrow>
          (case ProcessRuleEvent env (rule_request_of primary (ru_now env) lease m e) db of
             (Inl err, db1) \<Rightarrow> (Inl (RW_Process err), db1)
           | (Inr res, db1) \<Rightarrow>
               ((if rr_Busy res then Inl RW_Busy else if rr_Deferred res > 0 then Inl RW_Deferred else Inr ()), db1)))"

definition HandleDelivery_rule :: "rule_worker_error + unit \<Rightarrow> delivery_action" where
  "HandleDelivery_rule r =
     (case r of
        Inr _ \<Rightarrow> Ack
      | Inl (RW_Invalid _) \<Rightarrow> DeadLetter
      | Inl RW_Busy \<Rightarrow> Retry Retry5Seconds
      | Inl RW_Deferred \<Rightarrow> Retry Retry5Minutes
      | Inl (RW_Process _) \<Rightarrow> Retry Retry30Seconds)"

end
