(* ===== verification/Automation_Lifecycle.thy ===== *)
theory Automation_Lifecycle
  imports Trigger_Bindings Entry_Outcomes
begin

text \<open>
  Activating and pausing an automation in the primary mode of the realtime engine
  (\<open>internal/service/automation_service.go\<close>, with \<open>DropAutomationTrigger\<close> of
  \<open>internal/repository/automation_postgres.go\<close>), and what the two do to the journeys under way. The
  statements that create and drop triggers of PostgreSQL work or fail as a whole.
\<close>

record lifecycle_env =
  lf_may_write :: bool
  lf_valid :: "automation \<Rightarrow> string option"
  lf_trigger :: "string \<Rightarrow> trigger_config option"
  lf_compiler :: compiler
  lf_run :: "string \<Rightarrow> json list \<Rightarrow> rule_db \<Rightarrow> string + bool"
  lf_ddl :: bool

text \<open>\<open>lf_valid\<close> is the validation of the stored automation and of its nodes, \<open>lf_trigger\<close> the column with
  the configuration of the trigger.\<close>

definition identifier_char :: "char \<Rightarrow> bool" where
  "identifier_char c = (let n = (of_char c :: nat) in
     65 \<le> n \<and> n \<le> 90 \<or> 97 \<le> n \<and> n \<le> 122 \<or> 48 \<le> n \<and> n \<le> 57 \<or> n = 95)"

definition AutomationTriggerName :: "string \<Rightarrow> string option" where
  "AutomationTriggerName k =
     (let safe = filter (\<lambda>c. c \<noteq> CHR ''-'') k
      in if safe = [] \<or> \<not> list_all identifier_char safe then None else Some (''automation_trigger_'' @ safe))"

definition DropAutomationTrigger :: "lifecycle_env \<Rightarrow> string \<Rightarrow> rule_db \<Rightarrow> (string + unit) \<times> rule_db" where
  "DropAutomationTrigger env k db =
     (case AutomationTriggerName k of
        None \<Rightarrow> (Inl ''automation id cannot be used in a trigger name'', db)
      | Some _ \<Rightarrow>
          if \<not> lf_ddl env then (Inl ''failed to drop trigger'', db) else (Inr (), DeleteTriggerBindings k db))"

text \<open>The update of an automation writes the columns back as they were read, but for the status.\<close>

definition set_status :: "string \<Rightarrow> string \<Rightarrow> automation_status \<Rightarrow> rule_db \<Rightarrow> rule_db" where
  "set_status ws k status db =
     db\<lparr>jd_automations := sql_update (\<lambda>a. a_ID a = k \<and> a_WorkspaceID a = ws) (\<lambda>a. a\<lparr>a_Status := status\<rparr>) (jd_automations db)\<rparr>"

definition UpdateIfStatus ::
    "string \<Rightarrow> string \<Rightarrow> automation_status \<Rightarrow> automation_status \<Rightarrow> rule_db \<Rightarrow> bool \<times> rule_db" where
  "UpdateIfStatus ws k status expected db =
     (let p = (\<lambda>a. a_ID a = k \<and> a_WorkspaceID a = ws \<and> a_Status a = expected)
      in (sql_count p (jd_automations db) > 0,
          db\<lparr>jd_automations := sql_update p (\<lambda>a. a\<lparr>a_Status := status\<rparr>) (jd_automations db)\<rparr>))"

definition Activate :: "lifecycle_env \<Rightarrow> string \<Rightarrow> string \<Rightarrow> rule_db \<Rightarrow> (string + unit) \<times> rule_db" where
  "Activate env ws k db =
     (if \<not> lf_may_write env then (Inl ''Insufficient permissions: write access to automations required'', db)
      else case GetAutomation ws k (journey_db.truncate db) of
        None \<Rightarrow> (Inl ''failed to get automation'', db)
      | Some a \<Rightarrow>
          if a_Status a = AS_Live then (Inl ''automation is already live'', db)
          else if HasEmailNodeRestriction a \<and> HasEmailNodes (a_Nodes a)
          then (Inl ''cannot activate automation with email nodes when list_id is not set'', db)
          else case lf_valid env a of
            Some e \<Rightarrow> (Inl (''cannot activate automation: '' @ e), db)
          | None \<Rightarrow>
              (case UpdateIfStatus ws k AS_Live (a_Status a) db of
                 (False, db1) \<Rightarrow> (Inl ''failed to update automation status: conflict'', db1)
               | (True, db1) \<Rightarrow>
                   (case CreateRealtimeTriggerBinding (lf_compiler env) (lf_run env) ws k (a_RootNodeID a)
                           (lf_trigger env k) db1 of
                      (Inl e, db2) \<Rightarrow>
                        (Inl (''failed to create automation trigger: '' @ e), set_status ws k (a_Status a) db2)
                    | (Inr _, db2) \<Rightarrow> (Inr (), db2))))"

definition Pause :: "lifecycle_env \<Rightarrow> string \<Rightarrow> string \<Rightarrow> rule_db \<Rightarrow> (string + unit) \<times> rule_db" where
  "Pause env ws k db =
     (if \<not> lf_may_write env then (Inl ''Insufficient permissions: write access to automations required'', db)
      else case GetAutomation ws k (journey_db.truncate db) of
        None \<Rightarrow> (Inl ''failed to get automation'', db)
      | Some a \<Rightarrow>
          if a_Status a \<noteq> AS_Live \<and> a_Status a \<noteq> AS_Paused then (Inl ''automation is not live'', db)
          else
            (case (if a_Status a = AS_Live then UpdateIfStatus ws k AS_Paused AS_Live db else (True, db)) of
               (False, db1) \<Rightarrow> (Inl ''failed to update automation status: conflict'', db1)
             | (True, db1) \<Rightarrow> DropAutomationTrigger env k db1))"

section \<open>Journeys under way\<close>

lemma find_automation_unique:
  "distinct (map a_ID as) \<Longrightarrow> sql_find p as = Some a \<Longrightarrow> x \<in> set as \<Longrightarrow> a_ID x = a_ID a \<Longrightarrow> x = a"
  using unique_rowD [of a_ID as x a] sql_find_SomeD [of p as a] by blast

lemma map_ids_update:
  "(\<And>a. a_ID (f a) = a_ID a) \<Longrightarrow> map a_ID (sql_update p f as) = map a_ID as"
  by simp

lemma pauseD:
  assumes "Pause env ws k db = (Inr (), db1)"
  shows "jd_journeys db1 = jd_journeys db \<and> (\<forall>b \<in> set (ru_bindings db1). tb_AutomationID b \<noteq> k) \<and>
    map (\<lambda>a. (a_ID a, a_WorkspaceID a, a_DeletedAt a, a_Version a)) (jd_automations db1) =
    map (\<lambda>a. (a_ID a, a_WorkspaceID a, a_DeletedAt a, a_Version a)) (jd_automations db)"
  using assms
  by (auto simp: Pause_def DropAutomationTrigger_def DeleteTriggerBindings_def UpdateIfStatus_def Let_def sql_update_def
      split: if_splits option.splits prod.splits bool.splits)

lemma compile_id: "Compile co k node t = Inr b \<Longrightarrow> tb_AutomationID b = k"
  by (auto simp: Compile_def and_then_def split: option.splits if_splits sum.splits)

lemma createD:
  assumes "CreateRealtimeTriggerBinding co run ws k node t db = (Inr (), db2)"
    and "\<forall>b \<in> set (ru_bindings db). tb_AutomationID b \<noteq> k"
  shows "jd_journeys db2 = jd_journeys db \<and> jd_automations db2 =
    sql_update (\<lambda>a. a_ID a = k \<and> a_WorkspaceID a = ws \<and> a_DeletedAt a = None) (\<lambda>a. a\<lparr>a_Version := a_Version a + 1\<rparr>) (jd_automations db)"
proof -
  let ?p = "\<lambda>a. a_ID a = k \<and> a_WorkspaceID a = ws \<and> a_DeletedAt a = None"
  obtain b where b: "Compile co k node t = Inr b"
    using assms(1) by (auto simp: CreateRealtimeTriggerBinding_def split: sum.splits)
  note id = compile_id [OF b]
  from assms(1) b have tx: "create_binding_tx run ws b db = (Inr (), db2)"
    by (auto simp: CreateRealtimeTriggerBinding_def dest: in_tx_InrD)
  then obtain a where a: "sql_find ?p (jd_automations db) = Some a"
    by (auto simp: create_binding_tx_def id Let_def split: option.splits)
  then have "a_ID a = k" using sql_find_SomeD by fastforce
  then have "sql_find (\<lambda>c. tb_AutomationID c = a_ID a \<and> tb_AutomationVersion c = a_Version a) (ru_bindings db) = None"
    using assms(2) by (auto simp: sql_find_None_iff)
  with tx a show ?thesis
    by (auto simp: create_binding_tx_def id Let_def replaceTriggerBindingsTx_def split: sum.splits)
qed

lemma activateD:
  assumes "Activate env ws k db = (Inr (), db2)" and "\<forall>b \<in> set (ru_bindings db). tb_AutomationID b \<noteq> k"
  shows "jd_journeys db2 = jd_journeys db \<and>
    (\<exists>status. jd_automations db2 =
      sql_update (\<lambda>a. a_ID a = k \<and> a_WorkspaceID a = ws \<and> a_DeletedAt a = None) (\<lambda>a. a\<lparr>a_Version := a_Version a + 1\<rparr>)
        (sql_update (\<lambda>a. a_ID a = k \<and> a_WorkspaceID a = ws \<and> a_Status a = status) (\<lambda>a. a\<lparr>a_Status := AS_Live\<rparr>) (jd_automations db)) \<and>
      (\<exists>a. sql_find (\<lambda>a. a_ID a = k \<and> a_WorkspaceID a = ws \<and> a_DeletedAt a = None) (jd_automations db) = Some a \<and> a_Status a = status))"
proof -
  obtain a where a: "GetAutomation ws k (journey_db.truncate db) = Some a"
    using assms(1) by (auto simp: Activate_def split: if_splits option.splits)
  obtain db1 where up: "UpdateIfStatus ws k AS_Live (a_Status a) db = (True, db1)"
    using assms(1) a by (auto simp: Activate_def split: if_splits option.splits prod.splits bool.splits)
  with assms(1) a have create: "CreateRealtimeTriggerBinding (lf_compiler env) (lf_run env) ws k (a_RootNodeID a)
      (lf_trigger env k) db1 = (Inr (), db2)"
    by (auto simp: Activate_def split: if_splits option.splits prod.splits bool.splits sum.splits)
  from up have db1: "jd_journeys db1 = jd_journeys db" "ru_bindings db1 = ru_bindings db"
      "jd_automations db1 = sql_update (\<lambda>x. a_ID x = k \<and> a_WorkspaceID x = ws \<and> a_Status x = a_Status a)
         (\<lambda>x. x\<lparr>a_Status := AS_Live\<rparr>) (jd_automations db)"
    by (auto simp: UpdateIfStatus_def Let_def)
  from createD [OF create] assms(2) db1 a show ?thesis
    by (auto simp: GetAutomation_def journey_db.truncate_def)
qed

lemma sql_update_memI: "y \<in> set t \<Longrightarrow> (if p y then f y else y) \<in> set (sql_update p f t)"
  by (simp add: set_sql_update)

lemma sql_update_memE:
  assumes "x \<in> set (sql_update p f t)"
  obtains y where "y \<in> set t" "x = (if p y then f y else y)"
  using assms by (auto simp: set_sql_update)

lemma frozen_version:
  assumes ids: "distinct (map a_ID as)" and a: "a \<in> set as" "a_ID a = k" "a_WorkspaceID a = ws" "a_DeletedAt a = None"
    and x: "x \<in> set (sql_update (\<lambda>a. a_ID a = k \<and> a_WorkspaceID a = ws \<and> a_DeletedAt a = None)
        (\<lambda>a. a\<lparr>a_Version := a_Version a + 1\<rparr>)
        (sql_update (\<lambda>a. a_ID a = k \<and> a_WorkspaceID a = ws \<and> a_Status a = status) (\<lambda>a. a\<lparr>a_Status := AS_Live\<rparr>) as))"
    and k: "a_ID x = k"
  shows "a_Version x = a_Version a + 1"
proof -
  from x obtain z where z: "z \<in> set (sql_update (\<lambda>a. a_ID a = k \<and> a_WorkspaceID a = ws \<and> a_Status a = status)
        (\<lambda>a. a\<lparr>a_Status := AS_Live\<rparr>) as)"
      "x = (if a_ID z = k \<and> a_WorkspaceID z = ws \<and> a_DeletedAt z = None then z\<lparr>a_Version := a_Version z + 1\<rparr> else z)"
    by (rule sql_update_memE)
  from z(1) obtain y where y: "y \<in> set as"
      "z = (if a_ID y = k \<and> a_WorkspaceID y = ws \<and> a_Status y = status then y\<lparr>a_Status := AS_Live\<rparr> else y)"
    by (rule sql_update_memE)
  have zs: "a_ID z = a_ID y" "a_WorkspaceID z = a_WorkspaceID y" "a_DeletedAt z = a_DeletedAt y" "a_Version z = a_Version y"
    by (simp_all add: y(2))
  have "a_ID x = a_ID z"
    by (simp add: z(2))
  then have "y = a"
    using unique_rowD [OF ids y(1) a(1)] a(2) k zs by simp
  with z(2) zs a show ?thesis by simp
qed

lemma activated_live:
  assumes "sql_find (\<lambda>a. a_ID a = k \<and> a_WorkspaceID a = ws \<and> a_DeletedAt a = None) as = Some a" "a_Status a = status"
  shows "\<exists>x \<in> set (sql_update (\<lambda>a. a_ID a = k \<and> a_WorkspaceID a = ws \<and> a_DeletedAt a = None)
        (\<lambda>a. a\<lparr>a_Version := a_Version a + 1\<rparr>)
        (sql_update (\<lambda>a. a_ID a = k \<and> a_WorkspaceID a = ws \<and> a_Status a = status) (\<lambda>a. a\<lparr>a_Status := AS_Live\<rparr>) as)).
    a_ID x = k \<and> is_live x"
proof -
  let ?P = "\<lambda>a. a_ID a = k \<and> a_WorkspaceID a = ws \<and> a_DeletedAt a = None"
  let ?Q = "\<lambda>a. a_ID a = k \<and> a_WorkspaceID a = ws \<and> a_Status a = status"
  have a: "a \<in> set as" "?P a" using sql_find_SomeD [OF assms(1)] by blast+
  with assms(2) have "a\<lparr>a_Status := AS_Live\<rparr> \<in> set (sql_update ?Q (\<lambda>a. a\<lparr>a_Status := AS_Live\<rparr>) as)"
    using sql_update_memI [of a as ?Q "\<lambda>a. a\<lparr>a_Status := AS_Live\<rparr>"] by simp
  from sql_update_memI [OF this, of ?P "\<lambda>a. a\<lparr>a_Version := a_Version a + 1\<rparr>"] a(2)
  have "a\<lparr>a_Status := AS_Live, a_Version := a_Version a + 1\<rparr> \<in> set (sql_update ?P (\<lambda>a. a\<lparr>a_Version := a_Version a + 1\<rparr>)
      (sql_update ?Q (\<lambda>a. a\<lparr>a_Status := AS_Live\<rparr>) as))"
    by simp
  with a(2) show ?thesis
    by (intro bexI [of _ "a\<lparr>a_Status := AS_Live, a_Version := a_Version a + 1\<rparr>"]) (simp_all add: is_live_def)
qed

text \<open>C40. Pausing an automation and activating it again strands the journeys under way. The pause deletes the
  binding; the activation finds none, raises the version, and a claim of the realtime engine wants the
  version with which the journey was started: from then on no worker at any time can claim such a journey,
  whatever the trigger of the automation is - but it stays active and due, and takes its place in every
  batch of the scheduler.\<close>

theorem pausing_strands_journeys:
  assumes pause: "Pause env ws k db = (Inr (), db1)" and activate: "Activate env' ws k db1 = (Inr (), db2)"
    and ids: "distinct (map a_ID (jd_automations db))" "distinct (map j_ID (jd_journeys db))"
    and automation: "a \<in> set (jd_automations db)" "a_ID a = k" "a_WorkspaceID a = ws" "a_DeletedAt a = None"
    and journey: "r \<in> set (jd_journeys db)" "j_AutomationID r = k" "r_AutomationVersion r = a_Version a"
      "j_Status r = JS_Active" "j_ScheduledAt r = Some u" "u \<le> now" "j_ID r \<noteq> []"
  shows "r \<in> set (jd_journeys db2) \<and> due_journey (jd_automations db2) now r \<and>
    (worker \<noteq> [] \<longrightarrow> lease > 0 \<longrightarrow>
     ClaimContactAutomation (j_ID r) worker later lease token (journey_db.truncate db2) = (Inr None, journey_db.truncate db2))"
proof -
  note p = pauseD [OF pause]
  then have ids1: "map a_ID (jd_automations db1) = map a_ID (jd_automations db)"
    by (metis (no_types, lifting) map_eq_conv map_map comp_apply fst_conv)
  obtain status b where db2: "jd_journeys db2 = jd_journeys db1"
      "jd_automations db2 = sql_update (\<lambda>a. a_ID a = k \<and> a_WorkspaceID a = ws \<and> a_DeletedAt a = None)
        (\<lambda>a. a\<lparr>a_Version := a_Version a + 1\<rparr>)
        (sql_update (\<lambda>a. a_ID a = k \<and> a_WorkspaceID a = ws \<and> a_Status a = status) (\<lambda>a. a\<lparr>a_Status := AS_Live\<rparr>) (jd_automations db1))"
      "sql_find (\<lambda>a. a_ID a = k \<and> a_WorkspaceID a = ws \<and> a_DeletedAt a = None) (jd_automations db1) = Some b" "a_Status b = status"
    using activateD [OF activate] p by blast
  have "(a_ID a, a_WorkspaceID a, a_DeletedAt a, a_Version a) \<in>
      set (map (\<lambda>a. (a_ID a, a_WorkspaceID a, a_DeletedAt a, a_Version a)) (jd_automations db1))"
    using p automation(1) by simp
  then obtain a1 where a1: "a1 \<in> set (jd_automations db1)" "a_ID a1 = k" "a_WorkspaceID a1 = ws" "a_DeletedAt a1 = None"
      "a_Version a1 = a_Version a"
    using automation by auto
  have version: "a_Version x = a_Version a + 1" if "x \<in> set (jd_automations db2)" "a_ID x = k" for x
    using frozen_version [OF _ a1(1-4) that(1) [unfolded db2(2)] that(2)] ids(1) ids1 a1(5) by simp
  have "\<exists>x \<in> set (jd_automations db2). a_ID x = k \<and> is_live x"
    unfolding db2(2) by (rule activated_live [OF db2(3,4)])
  then have due: "due_journey (jd_automations db2) now r"
    using journey by (auto simp: due_journey_def)
  have "sql_find (claimable_journey (jd_automations db2) later (j_ID r)) (jd_journeys db2) = None"
  proof -
    have "\<not> claimable_journey (jd_automations db2) later (j_ID r) x" if "x \<in> set (jd_journeys db2)" for x
    proof (cases "x = r")
      case True
      with version journey(2,3) show ?thesis by (auto simp: claimable_journey_def)
    next
      case False
      with that db2(1) p journey(1) unique_rowD [OF ids(2), of x r] show ?thesis
        by (auto simp: claimable_journey_def)
    qed
    then show ?thesis by (simp add: sql_find_None_iff)
  qed
  with due journey(1,7) db2(1) p show ?thesis
    by (auto simp: ClaimContactAutomation_def journey_db.truncate_def Let_def)
qed

text \<open>A live automation on a custom event, with a journey under way.\<close>

definition sample_trigger :: trigger_config where
  "sample_trigger = \<lparr>tc_EventKind = ''custom_event'', tc_ListID = None, tc_SegmentID = None, tc_CustomEventName = Some ''paid'',
     tc_Tag = None, tc_UpdatedFields = [], tc_Conditions = None, tc_Frequency = TF_Once, tc_EntryGuard = None\<rparr>"

definition sample_lifecycle :: lifecycle_env where
  "sample_lifecycle = \<lparr>lf_may_write = True, lf_valid = (\<lambda>_. None), lf_trigger = (\<lambda>_. Some sample_trigger),
     lf_compiler = \<lparr>co_tree = (\<lambda>_. None), co_build = (\<lambda>_ _. Inr ([], [])), co_hash = (\<lambda>_ _. Inr ''h'')\<rparr>,
     lf_run = (\<lambda>_ _ _. Inr True), lf_ddl = True\<rparr>"

definition sample_journey :: journey_row where
  "sample_journey = entered_journey (sample_ids ''j'') (sample_enroll TF_Once ''e'') 1 ''k@x'' 5"

definition sample_frozen :: rule_db where
  "sample_frozen = sample_entry_db\<lparr>jd_journeys := [sample_journey]\<rparr>"

lemma sample_name: "AutomationTriggerName ''a'' = Some ''automation_trigger_a''"
  by (simp add: AutomationTriggerName_def identifier_char_def)

lemma sample_pause: "\<exists>db1. Pause sample_lifecycle ''w'' ''a'' sample_frozen = (Inr (), db1) \<and> ru_bindings db1 = [] \<and>
    jd_automations db1 = [sample_entry_automation\<lparr>a_Status := AS_Paused\<rparr>]"
  by (simp add: Pause_def sample_lifecycle_def sample_frozen_def sample_entry_db_def sample_entry_automation_def GetAutomation_def
      journey_db.truncate_def UpdateIfStatus_def DropAutomationTrigger_def sample_name DeleteTriggerBindings_def
      sql_delete_def)

lemma sample_compile: "\<exists>b. Compile (lf_compiler sample_lifecycle) ''a'' ''t'' (Some sample_trigger) = Inr b \<and>
    tb_AutomationID b = ''a'' \<and> tb_EventType b \<noteq> [] \<and> tb_SubjectType b \<noteq> [] \<and> tb_ConditionHash b \<noteq> [] \<and>
    (\<exists>c. tb_Compiled b = Some c \<and> cc_Query c = ''SELECT TRUE'')"
  by (simp add: Compile_def sample_lifecycle_def sample_trigger_def TimelineTriggerConfig_Validate_def IsValidEventKind_def
      ValidEventKinds_def absent_def compileTriggerIndex_def compileCondition_def and_then_def deref_def)

lemma sample_activate:
  assumes "ru_bindings db = []" "jd_automations db = [sample_entry_automation\<lparr>a_Status := AS_Paused\<rparr>]"
  shows "\<exists>db2. Activate sample_lifecycle ''w'' ''a'' db = (Inr (), db2)"
proof -
  obtain b c where b: "Compile (lf_compiler sample_lifecycle) ''a'' ''t'' (Some sample_trigger) = Inr b" "tb_AutomationID b = ''a''"
      "tb_EventType b \<noteq> []" "tb_SubjectType b \<noteq> []" "tb_ConditionHash b \<noteq> []" "tb_Compiled b = Some c" "cc_Query c = ''SELECT TRUE''"
    using sample_compile by blast
  have query: "trim_space ''SELECT TRUE'' = ''SELECT TRUE''" "is_prefix ''SELECT '' (to_upper ''SELECT TRUE'')"
      "\<not> str_contains ''SELECT TRUE'' '';''"
    by (simp_all add: trim_space_def is_trim_space_def is_re_space_def to_upper_def upper_char_def)
  have eval: "\<exists>x. evaluateTriggerBinding (lf_run sample_lifecycle) b email x' = Inr x" for email x'
    by (auto simp: evaluateTriggerBinding_def b(6,7) query and_then_def sample_lifecycle_def)
  have "\<exists>db2. create_binding_tx (lf_run sample_lifecycle) ''w'' b (db\<lparr>jd_automations := [sample_entry_automation]\<rparr>) = (Inr (), db2)"
    using eval [of "''__notifuse_validation__@invalid.local''" "db\<lparr>jd_automations := [sample_entry_automation]\<rparr>"] assms(1) b(2-6)
    by (auto simp: create_binding_tx_def sample_entry_automation_def Let_def replaceTriggerBindingsTx_def binding_invalid_def
        sql_delete_def simp del: sql_update_Cons)
  then obtain db2 where create: "create_binding_tx (lf_run sample_lifecycle) ''w'' b
      (db\<lparr>jd_automations := [sample_entry_automation]\<rparr>) = (Inr (), db2)" by blast
  have env: "lf_may_write sample_lifecycle" "lf_valid sample_lifecycle x = None" "lf_trigger sample_lifecycle k = Some sample_trigger" for x k
    by (simp_all add: sample_lifecycle_def)
  have get: "GetAutomation ''w'' ''a'' (journey_db.truncate db) = Some (sample_entry_automation\<lparr>a_Status := AS_Paused\<rparr>)"
    using assms(2) by (simp add: GetAutomation_def journey_db.truncate_def sample_entry_automation_def)
  have up: "UpdateIfStatus ''w'' ''a'' AS_Live AS_Paused db = (True, db\<lparr>jd_automations := [sample_entry_automation]\<rparr>)"
    using assms(2) by (simp add: UpdateIfStatus_def sample_entry_automation_def)
  have root: "a_RootNodeID (sample_entry_automation\<lparr>a_Status := AS_Paused\<rparr>) = ''t''" "a_Nodes (sample_entry_automation\<lparr>a_Status := AS_Paused\<rparr>) = []"
    by (simp_all add: sample_entry_automation_def)
  show ?thesis
    by (simp add: Activate_def env get up root HasEmailNodes_def CreateRealtimeTriggerBinding_def b(1) create)
qed

theorem pausing_strands_journeys_witness:
  "\<exists>db1 db2. Pause sample_lifecycle ''w'' ''a'' sample_frozen = (Inr (), db1) \<and>
     Activate sample_lifecycle ''w'' ''a'' db1 = (Inr (), db2) \<and> due_journey (jd_automations db2) 10 sample_journey \<and>
     ClaimContactAutomation ''j'' ''worker'' 10 60 ''token'' (journey_db.truncate db2) = (Inr None, journey_db.truncate db2)"
proof -
  obtain db1 where pause: "Pause sample_lifecycle ''w'' ''a'' sample_frozen = (Inr (), db1)"
      and after: "ru_bindings db1 = []" "jd_automations db1 = [sample_entry_automation\<lparr>a_Status := AS_Paused\<rparr>]"
    using sample_pause by blast
  obtain db2 where activate: "Activate sample_lifecycle ''w'' ''a'' db1 = (Inr (), db2)"
    using sample_activate [OF after] by blast
  have facts: "distinct (map a_ID (jd_automations sample_frozen))" "distinct (map j_ID (jd_journeys sample_frozen))"
      "sample_entry_automation \<in> set (jd_automations sample_frozen)" "a_ID sample_entry_automation = ''a''"
      "a_WorkspaceID sample_entry_automation = ''w''" "a_DeletedAt sample_entry_automation = None"
      "sample_journey \<in> set (jd_journeys sample_frozen)" "j_AutomationID sample_journey = ''a''"
      "r_AutomationVersion sample_journey = a_Version sample_entry_automation" "j_Status sample_journey = JS_Active"
      "j_ScheduledAt sample_journey = Some 5" "(5::int) \<le> 10" "j_ID sample_journey \<noteq> []" "j_ID sample_journey = ''j''"
    by (simp_all add: sample_frozen_def sample_entry_db_def sample_journey_def entered_journey_def sample_ids_def
        sample_enroll_def sample_entry_automation_def)
  from pausing_strands_journeys [OF pause activate facts(1-13), of "''worker''" 60 10 "''token''"] facts(14)
  show ?thesis using pause activate by auto
qed

end
