(* ===== verification/Rule_Samples.thy ===== *)
theory Rule_Samples
  imports Rule_Engine Automation_Lifecycle
begin

text \<open>
  A workspace with a live automation on the custom event \<open>paid\<close>, its binding, and such an event: the
  concrete inputs of the rule engine's properties.
\<close>

definition sample_event :: event_envelope where
  "sample_event = \<lparr>ev_ID = ''m'', ev_EventID = ''e'', ev_Type = ''custom_event.paid'', ev_SchemaVersion = 1,
     ev_WorkspaceID = ''w'', ev_Subject = \<lparr>es_Type = ''custom_event'', es_ID = ''x'', es_CustomerID = ''k'',
       es_ContactEmail = ''k@x''\<rparr>, ev_Source = ''api'', ev_OccurredAt = 3, ev_ReceivedAt = 3, ev_CorrelationID = ''e'',
     ev_CausationID = None, ev_TraceID = [], ev_Data = ED_Other (JObj [])\<rparr>"

definition sample_append_env :: append_env where
  "sample_append_env = \<lparr>ae_now = 5, ae_uuid = ''u'', ae_is_uuid = (\<lambda>_. True), ae_hash = fp_Source\<rparr>"

definition sample_rule_env :: "bool \<Rightarrow> rule_env" where
  "sample_rule_env verdict = \<lparr>ru_run = (\<lambda>_ _ _. Inr verdict), ru_rank = (\<lambda>_. 0), ru_md5 = (\<lambda>_ _ _ _. ''h''), ru_sha256 = (\<lambda>s. s),
     ru_is_uuid = (\<lambda>_. True), ru_ids = (\<lambda>k. sample_ids (''j.'' @ k)), ru_message = (\<lambda>k. ''start.'' @ k), ru_token = ''t'', ru_now = 10\<rparr>"

definition sample_condition :: compiled_condition where
  "sample_condition = \<lparr>cc_Query = ''SELECT TRUE'', cc_Arguments = [], cc_RootNodeID = ''t'', cc_Frequency = TF_Once,
     cc_Trigger = None\<rparr>"

definition sample_binding :: trigger_binding where
  "sample_binding = \<lparr>tb_AutomationID = ''a'', tb_AutomationVersion = 1, tb_EventType = ''custom_event.paid'',
     tb_SubjectType = ''custom_event'', tb_DependencyKeys = [], tb_ConditionHash = ''h'', tb_Compiled = Some sample_condition\<rparr>"

definition sample_rule_db :: rule_db where
  "sample_rule_db = sample_entry_db\<lparr>ru_bindings := [sample_binding]\<rparr>"

lemma sample_query:
  "trim_space ''SELECT TRUE'' = ''SELECT TRUE''" "is_prefix ''SELECT '' (to_upper ''SELECT TRUE'')" "\<not> str_contains ''SELECT TRUE'' '';''"
  by (simp_all add: trim_space_def is_trim_space_def is_re_space_def to_upper_def upper_char_def)

lemma sample_evaluate:
  "evaluateTriggerBinding (ru_run (sample_rule_env verdict)) sample_binding email db = Inr (verdict, sample_condition)"
  unfolding evaluateTriggerBinding_def
  by (simp add: sample_binding_def sample_condition_def sample_query Let_def and_then_def sample_rule_env_def)

lemma sample_listed:
  assumes "ru_bindings db = [sample_binding]" "jd_automations db = [sample_entry_automation]"
  shows "listTriggerBindings rank ''custom_event.paid'' ''custom_event'' keys db = [sample_binding]"
  using assms
  by (simp add: listTriggerBindings_def binding_current_def sample_binding_def sample_entry_automation_def is_live_def)

lemma sample_event_valid: "EventEnvelope_Validate (\<lambda>_. True) sample_event = None"
  by (simp add: EventEnvelope_Validate_def sample_event_def)

end
