(* ===== verification/Rule_Outcomes.thy ===== *)
theory Rule_Outcomes
  imports Rule_Samples Journey_Engine
begin

text \<open>
  What the rule engine promises: every journey it starts has a command that the journey worker accepts,
  the ledger takes an event once, the index of bindings selects exactly the triggers that want an event -
  and two ways in which it stops: a verdict that has changed since an event was deferred, and a new
  version of an automation under way.
\<close>

section \<open>Journeys and their commands\<close>

definition outside :: "rule_db \<Rightarrow> rule_db \<Rightarrow> bool" where
  "outside db db' \<longleftrightarrow> rd_outbox db' = rd_outbox db \<and> rd_inbox db' = rd_inbox db \<and> ru_audits db' = ru_audits db"

lemma outside_log [simp]: "outside db (log_decision now a k out reason retryAt db)"
  by (simp add: outside_def log_decision_def)

lemma start_outside:
  assumes "start_journey md5 now ids a k version email e db = (out, db')" "ea_Engine a \<noteq> ''legacy''"
  shows "outside db db'"
proof (cases "(\<exists>r \<in> set (jd_journeys db). journey_clash ids a email now r) \<or>
    (\<exists>i \<in> set (ru_instances db). in_ID i = ei_Instance ids \<or> in_EnrollmentID i = e \<or>
           in_ContactAutomationID i = ei_Journey ids)")
  case True
  with assms(1) show ?thesis
    by (simp only: start_journey_def) (auto simp: outside_def split: if_splits)
next
  case False
  then have js: "\<not> (\<exists>r \<in> set (jd_journeys db). journey_clash ids a email now r)"
    and "is": "\<not> (\<exists>i \<in> set (ru_instances db). in_ID i = ei_Instance ids \<or> in_EnrollmentID i = e \<or>
      in_ContactAutomationID i = ei_Journey ids)"
    by blast+
  have "audit_legacy md5 now ids a k version x = x" for x
    using assms(2) by (simp add: audit_legacy_def split: option.splits)
  moreover have "rd_outbox (log_trigger a k email x) = rd_outbox x" "rd_inbox (log_trigger a k email x) = rd_inbox x"
    "ru_audits (log_trigger a k email x) = ru_audits x" for x
    by (simp_all add: log_trigger_def Let_def)
  moreover have "rd_outbox (count_enrolled a version x) = rd_outbox x" "rd_inbox (count_enrolled a version x) = rd_inbox x"
    "ru_audits (count_enrolled a version x) = ru_audits x" for x
    by (simp_all add: count_enrolled_def)
  ultimately show ?thesis
    using assms(1) unfolding start_journey_def if_not_P [OF js] if_not_P [OF "is"] Let_def
    by (auto simp: outside_def log_decision_def)
qed

lemma enter_outside:
  assumes "enter_or_not md5 now ids seen a k version email e db = (out, db')" "ea_Engine a \<noteq> ''legacy''"
  shows "outside db db'"
  using enter_or_not_cases [OF assms(1)] start_outside assms(2) by fastforce

lemma insert_outside: "insert_enrollment ids a k version email db = (b, db1) \<Longrightarrow> outside db db1"
  by (auto simp: insert_enrollment_def outside_def split: if_splits)

lemma outside_trans: "outside db db1 \<Longrightarrow> outside db1 db2 \<Longrightarrow> outside db db2"
  by (simp add: outside_def)

lemma outside_refl [simp]: "outside db db"
  by (simp add: outside_def)

lemma enroll_outside:
  assumes call: "automation_enroll_customer md5 now ids seen a db = (out, db')" and engine: "ea_Engine a \<noteq> ''legacy''"
  shows "outside db db'"
proof -
  have enter: "outside db db2"
    if "enter_or_not md5 now ids seen a k version email e db1 = (out, db2)" "outside db db1" for k version email e db1 db2
    using outside_trans [OF that(2) enter_outside [OF that(1) engine]] .
  show ?thesis
    using call enter insert_outside
    by (fastforce simp: automation_enroll_customer_def Let_def split: option.splits if_splits prod.splits bool.splits)
qed

text \<open>A journey of the event, with the customer and the binding its command names.\<close>

definition started_with ::
    "rule_env \<Rightarrow> rule_request \<Rightarrow> rule_db \<Rightarrow> journey_row \<Rightarrow> outbox_message \<Rightarrow> bool" where
  "started_with env q db j m \<longleftrightarrow>
     (\<exists>b k customer. m = start_command env q b customer (j_ID j) \<and> resolve_customer k db = Some customer \<and>
        j_ID j = ei_Journey (ru_ids env (tb_AutomationID b)) \<and> j_AutomationID j = tb_AutomationID b \<and>
        r_OriginEventID j = Some (ev_EventID (rq_Envelope q)))"

lemma started_with_cong:
  "ru_customers db' = ru_customers db \<Longrightarrow> started_with env q db' = started_with env q db"
  by (simp add: started_with_def resolve_customer_def fun_eq_iff)

lemma call_outcome:
  assumes call: "automation_enroll_customer md5 now ids seen a db = (Inr r, db')"
  shows "ru_customers db' = ru_customers db \<and>
    (if er_Outcome r = EO_Enrolled
     then \<exists>j. jd_journeys db' = jd_journeys db @ [j] \<and> j_ID j = ei_Journey ids \<and> j_AutomationID j = ea_AutomationID a \<and>
            r_OriginEventID j = ea_OriginEventID a \<and> er_ContactAutomationID r = Some (ei_Journey ids)
     else jd_journeys db' = jd_journeys db)"
proof (cases "resolve_customer (ea_CustomerID a) db")
  case None
  with call show ?thesis by (auto simp: automation_enroll_customer_def outcome_only_def)
next
  case (Some k)
  from call_enters [OF call Some] have same: "ru_customers db' = ru_customers db" by (simp add: enters_def)
  from enroll_call_cases [OF call Some] show ?thesis
  proof
    assume "quiet_call (Inr r) ids a k db db'"
    with same show ?thesis by (simp add: quiet_call_def)
  next
    assume "\<exists>version e db1. live_version (ea_AutomationID a) (ea_ExpectedVersion a) db = Some version \<and> valid_entry a \<and>
       entry_row ids a k version (entry_email a k db) db e db1 \<and> guard_verdict now a k seen = None \<and>
       start_journey md5 now ids a k version (entry_email a k db) e db1 = (Inr r, db') \<and> (\<exists>r'. Inr r = Inr r')"
    then obtain version e db1 where row: "entry_row ids a k version (entry_email a k db) db e db1"
        and start: "start_journey md5 now ids a k version (entry_email a k db) e db1 = (Inr r, db')"
      by blast
    from row have "jd_journeys db1 = jd_journeys db"
      by (auto simp: entry_row_def insert_enrollment_def split: if_splits)
    with same start_journey_cases [OF start] show ?thesis
      by (auto simp: entered_journey_def)
  qed
qed

lemma enroll_realtime:
  assumes call: "enrollRealtimeAutomation env q b c customer db = (Inr r, db')"
    and known: "\<exists>k. resolve_customer k db = Some customer"
  shows "ru_customers db' = ru_customers db \<and> rd_inbox db' = rd_inbox db \<and> ru_audits db' = ru_audits db \<and>
    (if er_Outcome r = EO_Enrolled
     then \<exists>j m. jd_journeys db' = jd_journeys db @ [j] \<and> rd_outbox db' = rd_outbox db @ [m] \<and> started_with env q db j m
     else jd_journeys db' = jd_journeys db \<and> rd_outbox db' = rd_outbox db)"
proof -
  let ?a = "rule_enroll_args q b c customer" and ?ids = "ru_ids env (tb_AutomationID b)"
  obtain out db1 where inner: "automation_enroll_customer (ru_md5 env) (rq_Now q) ?ids db ?a db = (out, db1)"
    by fastforce
  with call obtain r1 where out: "out = Inr r1"
    by (cases out) (auto simp: enrollRealtimeAutomation_def)
  note inner = inner [unfolded out]
  have a: "ea_AutomationID ?a = tb_AutomationID b" "ea_OriginEventID ?a = Some (ev_EventID (rq_Envelope q))"
    "ea_Engine ?a \<noteq> ''legacy''"
    by (simp_all add: rule_enroll_args_def)
  have o: "outside db db1"
    by (rule enroll_outside [OF inner a(3)])
  note eff = call_outcome [OF inner, unfolded a(1,2)]
  show ?thesis
  proof (cases "er_Outcome r1 = EO_Enrolled")
    case False
    with call inner have "r = r1" "db' = db1"
      by (auto simp: enrollRealtimeAutomation_def)
    with False o eff show ?thesis by (simp add: outside_def)
  next
    case True
    with eff obtain j where j: "jd_journeys db1 = jd_journeys db @ [j]" "j_ID j = ei_Journey ?ids"
        "j_AutomationID j = tb_AutomationID b" "r_OriginEventID j = Some (ev_EventID (rq_Envelope q))"
        "er_ContactAutomationID r1 = Some (ei_Journey ?ids)"
      by auto
    let ?m = "start_command env q b customer (ei_Journey ?ids)"
    from call inner True j(5) have "r = r1" "db' = db1\<lparr>rd_outbox := rd_outbox db1 @ [?m]\<rparr>"
      by (auto simp: enrollRealtimeAutomation_def Let_def split: if_splits)
    moreover from known obtain k where "resolve_customer k db = Some customer" by blast
    ultimately show ?thesis
      using True o eff j by (auto simp: outside_def started_with_def)
  qed
qed

lemma resolve_event_known:
  "resolveRuleEventCustomerTx env e db = Inr k \<Longrightarrow> \<exists>k'. resolve_customer k' db = Some k"
  by (auto simp: resolveRuleEventCustomerTx_def Let_def split: if_splits option.splits list.splits)

lemma audit_frame:
  assumes "writeMatchAuditTx m db = (Inr u, db')"
  shows "ru_customers db' = ru_customers db \<and> rd_inbox db' = rd_inbox db \<and> jd_journeys db' = jd_journeys db \<and>
    rd_outbox db' = rd_outbox db"
  using assms by (auto simp: writeMatchAuditTx_def Let_def split: option.splits if_splits)

lemma count_outcome_enrolled [simp]:
  "rr_Enrolled (count_outcome r res) =
     rr_Enrolled res + (case r of None \<Rightarrow> 0 | Some x \<Rightarrow> if er_Outcome x = EO_Enrolled then 1 else 0)"
  by (auto simp: count_outcome_def split: option.split entry_outcome.split)

text \<open>The parts of processing a binding.\<close>

lemma process_bindingD:
  assumes "process_binding env q b res db = (Inr res', db')"
  shows "\<exists>matched c customer matched' r db1 u.
    evaluateTriggerBinding (ru_run env) b (es_ContactEmail (ev_Subject (rq_Envelope q))) db = Inr (matched, c) \<and>
    matched' = shadow_match q b c customer matched db \<and>
    (if matched' \<and> rq_Primary q
     then (\<exists>x. r = Some x \<and> enrollRealtimeAutomation env q b c customer db = (Inr x, db1)) \<and>
          resolveRuleEventCustomerTx env (rq_Envelope q) db = Inr customer
     else r = None \<and> db1 = db) \<and>
    writeMatchAuditTx (rule_audit env q b matched' r) db1 = (Inr u, db') \<and>
    res' = count_outcome r (if matched' then res\<lparr>rr_Matched := rr_Matched res + 1\<rparr> else res)"
proof -
  obtain matched c where ev: "evaluateTriggerBinding (ru_run env) b (es_ContactEmail (ev_Subject (rq_Envelope q))) db = Inr (matched, c)"
    using assms by (auto simp: process_binding_def split: sum.splits)
  obtain customer where cu: "(if matched \<and> (rq_Primary q \<or> cc_Frequency c = TF_Once)
            then resolveRuleEventCustomerTx env (rq_Envelope q) db else Inr []) = Inr customer"
    using assms ev by (auto simp: process_binding_def split: sum.splits)
  define matched' where "matched' = shadow_match q b c customer matched db"
  have imp: "matched' \<Longrightarrow> matched"
    by (auto simp: matched'_def shadow_match_def split: if_splits)
  define res1 where "res1 = (if matched' then res\<lparr>rr_Matched := rr_Matched res + 1\<rparr> else res)"
  obtain out db1 where step: "(if matched' \<and> rq_Primary q
              then (case enrollRealtimeAutomation env q b c customer db of
                      (Inl e, db1) \<Rightarrow> (Inl e, db1) | (Inr r, db1) \<Rightarrow> (Inr (Some r), db1))
              else (Inr None, db)) = (out, db1)"
    by fastforce
  have whole: "(case out of Inl e \<Rightarrow> (Inl e, db1) | Inr r \<Rightarrow>
            (case writeMatchAuditTx (rule_audit env q b matched' r) db1 of
               (Inl e, db2) \<Rightarrow> (Inl e, db2)
             | (Inr _, db2) \<Rightarrow> (Inr (count_outcome r res1), db2))) = (Inr res', db')"
    using assms unfolding process_binding_def ev cu Let_def sum.case prod.case matched'_def [symmetric]
      res1_def [symmetric] step .
  then obtain r u where r: "out = Inr r" "writeMatchAuditTx (rule_audit env q b matched' r) db1 = (Inr u, db')"
      "res' = count_outcome r res1"
    by (auto split: sum.splits prod.splits)
  have "if matched' \<and> rq_Primary q
     then (\<exists>x. r = Some x \<and> enrollRealtimeAutomation env q b c customer db = (Inr x, db1)) \<and>
          resolveRuleEventCustomerTx env (rq_Envelope q) db = Inr customer
     else r = None \<and> db1 = db"
    using step r(1) cu imp by (auto split: if_splits prod.splits sum.splits)
  with ev matched'_def r res1_def show ?thesis by blast
qed

definition starts_journeys ::
    "rule_env \<Rightarrow> rule_request \<Rightarrow> rule_db \<Rightarrow> nat \<Rightarrow> rule_db \<Rightarrow> bool" where
  "starts_journeys env q db n db' \<longleftrightarrow> ru_customers db' = ru_customers db \<and> rd_inbox db' = rd_inbox db \<and>
     (\<exists>js ms. jd_journeys db' = jd_journeys db @ js \<and> rd_outbox db' = rd_outbox db @ ms \<and> length js = n \<and>
        list_all2 (started_with env q db) js ms)"

lemma starts_none:
  "ru_customers db' = ru_customers db \<Longrightarrow> rd_inbox db' = rd_inbox db \<Longrightarrow> jd_journeys db' = jd_journeys db \<Longrightarrow>
     rd_outbox db' = rd_outbox db \<Longrightarrow> starts_journeys env q db 0 db'"
  by (simp add: starts_journeys_def)

lemma starts_trans:
  assumes "starts_journeys env q db n db1" "starts_journeys env q db1 n' db2"
  shows "starts_journeys env q db (n + n') db2"
proof -
  from assms obtain js ms js' ms' where
      "jd_journeys db1 = jd_journeys db @ js" "rd_outbox db1 = rd_outbox db @ ms" "length js = n"
      "list_all2 (started_with env q db) js ms" "jd_journeys db2 = jd_journeys db1 @ js'"
      "rd_outbox db2 = rd_outbox db1 @ ms'" "length js' = n'" "list_all2 (started_with env q db1) js' ms'"
    by (auto simp: starts_journeys_def)
  moreover have "started_with env q db1 = started_with env q db"
    using assms(1) by (intro started_with_cong) (simp add: starts_journeys_def)
  ultimately have "jd_journeys db2 = jd_journeys db @ (js @ js')" "rd_outbox db2 = rd_outbox db @ (ms @ ms')"
      "length (js @ js') = n + n'" "list_all2 (started_with env q db) (js @ js') (ms @ ms')"
    by (auto intro: list_all2_appendI)
  with assms show ?thesis
    unfolding starts_journeys_def by metis
qed

lemma process_binding_starts:
  assumes "process_binding env q b res db = (Inr res', db')"
  shows "rr_Enrolled res \<le> rr_Enrolled res' \<and> starts_journeys env q db (rr_Enrolled res' - rr_Enrolled res) db'"
proof -
  from process_bindingD [OF assms] obtain c customer matched' r db1 u where
    step: "if matched' \<and> rq_Primary q
     then (\<exists>x. r = Some x \<and> enrollRealtimeAutomation env q b c customer db = (Inr x, db1)) \<and>
          resolveRuleEventCustomerTx env (rq_Envelope q) db = Inr customer
     else r = None \<and> db1 = db"
    and audit: "writeMatchAuditTx (rule_audit env q b matched' r) db1 = (Inr u, db')"
    and res': "res' = count_outcome r (if matched' then res\<lparr>rr_Matched := rr_Matched res + 1\<rparr> else res)"
    by blast
  note after = audit_frame [OF audit]
  show ?thesis
  proof (cases "matched' \<and> rq_Primary q")
    case False
    with step after res' show ?thesis
      by (auto intro: starts_none)
  next
    case True
    with step obtain x where x: "r = Some x" "enrollRealtimeAutomation env q b c customer db = (Inr x, db1)"
        and customer: "\<exists>k. resolve_customer k db = Some customer"
      using resolve_event_known by (metis (no_types))
    from enroll_realtime [OF x(2) customer] have
      eff: "ru_customers db1 = ru_customers db" "rd_inbox db1 = rd_inbox db"
        "if er_Outcome x = EO_Enrolled
         then \<exists>j m. jd_journeys db1 = jd_journeys db @ [j] \<and> rd_outbox db1 = rd_outbox db @ [m] \<and> started_with env q db j m
         else jd_journeys db1 = jd_journeys db \<and> rd_outbox db1 = rd_outbox db"
      by blast+
    show ?thesis
    proof (cases "er_Outcome x = EO_Enrolled")
      case False
      with eff after res' x(1) show ?thesis by (auto intro: starts_none)
    next
      case enrolled: True
      with eff(3) obtain j m where "jd_journeys db' = jd_journeys db @ [j]" "rd_outbox db' = rd_outbox db @ [m]"
          "started_with env q db j m"
        using after by auto
      then have "starts_journeys env q db 1 db'"
        using eff(1,2) after by (auto simp: starts_journeys_def)
      with res' x(1) enrolled show ?thesis by simp
    qed
  qed
qed

lemma process_bindings_starts:
  assumes "process_bindings env q bs res db = (Inr res', db')"
  shows "rr_Enrolled res \<le> rr_Enrolled res' \<and> starts_journeys env q db (rr_Enrolled res' - rr_Enrolled res) db'"
  using assms
proof (induction bs arbitrary: res db)
  case Nil
  then show ?case by (auto intro: starts_none)
next
  case (Cons b bs)
  then obtain res1 db1 where one: "process_binding env q b res db = (Inr res1, db1)"
      and rest: "process_bindings env q bs res1 db1 = (Inr res', db')"
    by (auto split: prod.splits sum.splits)
  note one' = process_binding_starts [OF one] and rest' = Cons.IH [OF rest]
  have "starts_journeys env q db ((rr_Enrolled res1 - rr_Enrolled res) + (rr_Enrolled res' - rr_Enrolled res1)) db'"
    using starts_trans one' rest' by blast
  with one' rest' show ?case by simp
qed

lemma claim_inbox_frame:
  assumes "ClaimInbox consumer k now lease token db = (out, db')"
  shows "jd_journeys db' = jd_journeys (db :: rule_db) \<and> rd_outbox db' = rd_outbox db \<and> ru_customers db' = ru_customers db \<and>
    ru_audits db' = ru_audits db \<and> ru_bindings db' = ru_bindings db \<and> jd_automations db' = jd_automations db"
  using assms by (auto simp: ClaimInbox_def split: if_splits option.splits)

lemma process_tx_starts:
  assumes "process_tx env q db = (Inr res, db')"
  shows "\<exists>js ms. jd_journeys db' = jd_journeys db @ js \<and> rd_outbox db' = rd_outbox db @ ms \<and> length js = rr_Enrolled res \<and>
        list_all2 (started_with env q db) js ms"
proof -
  obtain claim db1 where claim: "ClaimInbox (rq_Consumer q) (rq_MessageID q) (rq_Now q) (rq_InboxLease q) (ru_token env) db = (claim, db1)"
    by fastforce
  with assms obtain c where c: "claim = Inr c" by (cases claim) (auto simp: process_tx_def)
  note frame = claim_inbox_frame [OF claim]
  show ?thesis
  proof (cases "ic_Acquired c")
    case False
    with assms claim c have "db' = db1" "rr_Enrolled res = 0"
      by (auto simp: process_tx_def rule_result_of_def split: if_splits)
    with frame show ?thesis by simp
  next
    case True
    let ?bs = "listTriggerBindings (ru_rank env) (ev_Type (rq_Envelope q)) (es_Type (ev_Subject (rq_Envelope q))) (rq_DependencyKeys q) db1"
    obtain out db2 where body: "process_bindings env q ?bs (rule_result_of (length ?bs)) db1 = (out, db2)" by fastforce
    with assms claim c True obtain res2 where res2: "out = Inr res2"
      by (cases out) (auto simp: process_tx_def Let_def)
    from assms claim c True body res2 have db': "res = res2" "jd_journeys db' = jd_journeys db2" "rd_outbox db' = rd_outbox db2"
      by (auto simp: process_tx_def Let_def defer_inbox_def CompleteInbox_def split: if_splits bool.splits)
    have "starts_journeys env q db1 (rr_Enrolled res) db2"
      using process_bindings_starts [OF body [unfolded res2]] db'(1) by (simp add: rule_result_of_def)
    then obtain js ms where "jd_journeys db2 = jd_journeys db1 @ js" "rd_outbox db2 = rd_outbox db1 @ ms"
        "length js = rr_Enrolled res" "list_all2 (started_with env q db1) js ms"
      by (auto simp: starts_journeys_def)
    moreover have "started_with env q db1 = started_with env q db"
      using frame by (intro started_with_cong) simp
    ultimately show ?thesis
      using frame db' by auto
  qed
qed

text \<open>What the relay makes of a command, and what the journey worker makes of that.\<close>

definition wakes :: "(string \<Rightarrow> bool) \<Rightarrow> string \<Rightarrow> outbox_message \<Rightarrow> string \<Rightarrow> bool" where
  "wakes is_uuid ws m journey \<longleftrightarrow>
     (case outboxBrokerMessage ws m of
        Inl _ \<Rightarrow> False
      | Inr b \<Rightarrow> (case check_wake is_uuid b of
                    Inl _ \<Rightarrow> False
                  | Inr e \<Rightarrow> es_ID (ev_Subject e) = journey \<and> ev_WorkspaceID e = ws \<and>
                      bm_Exchange b = JobsExchange \<and> is_prefix ''journey.start.'' (bm_RoutingKey b)))"

lemma start_command_wakes:
  assumes "ru_message env (tb_AutomationID b) \<noteq> []" "ev_EventID (rq_Envelope q) \<noteq> []"
    "ev_CorrelationID (rq_Envelope q) \<noteq> []" "ws \<noteq> []" "\<not> blank journey" "customer = [] \<or> is_uuid customer"
    "rq_Now q \<noteq> zero_time"
  shows "wakes is_uuid ws (start_command env q b customer journey) journey"
proof -
  have "journey \<noteq> []" using assms(5) by (auto simp: blank_def)
  with assms show ?thesis
    by (simp add: wakes_def outboxBrokerMessage_def start_command_def new_outbox_row_def check_wake_def
        EventEnvelope_Validate_def Let_def)
qed

text \<open>C36. Whenever an event is processed, every journey it enrols has one start command in the outbox and
  there is no command without its journey, all in one transaction; and each of these commands is turned
  by the relay into a message on the exchange of jobs that the journey worker accepts as the wake-up of
  just this journey in this workspace.\<close>

theorem enrolled_journeys_get_their_command:
  assumes "ProcessRuleEvent env q db = (Inr res, db')" and "rq_Now q \<noteq> zero_time"
    and "EventEnvelope_Validate (ru_is_uuid env) (rq_Envelope q) = None" and "ws \<noteq> []"
    and "\<And>k k'. resolve_customer k db = Some k' \<Longrightarrow> ru_is_uuid env k'"
    and "\<And>a. ru_message env a \<noteq> [] \<and> \<not> blank (ei_Journey (ru_ids env a))"
  shows "\<exists>js ms. jd_journeys db' = jd_journeys db @ js \<and> rd_outbox db' = rd_outbox db @ ms \<and> length js = rr_Enrolled res \<and>
    list_all2 (\<lambda>j m. r_OriginEventID j = Some (ev_EventID (rq_Envelope q)) \<and> wakes (ru_is_uuid env) ws m (j_ID j)) js ms"
proof -
  have "process_tx env q db = (Inr res, db')"
    using assms(1,2) by (auto simp: ProcessRuleEvent_def split: if_splits dest: in_tx_InrD)
  from process_tx_starts [OF this] obtain js ms where new: "jd_journeys db' = jd_journeys db @ js"
      "rd_outbox db' = rd_outbox db @ ms" "length js = rr_Enrolled res" "list_all2 (started_with env q db) js ms"
    by blast
  have event: "ev_EventID (rq_Envelope q) \<noteq> []" "ev_CorrelationID (rq_Envelope q) \<noteq> []"
    using assms(3) by (auto simp: EventEnvelope_Validate_def split: if_splits)
  have "r_OriginEventID j = Some (ev_EventID (rq_Envelope q)) \<and> wakes (ru_is_uuid env) ws m (j_ID j)"
    if j: "started_with env q db j m" for j m
  proof -
    obtain b k customer where m: "m = start_command env q b customer (j_ID j)" "resolve_customer k db = Some customer"
        "j_ID j = ei_Journey (ru_ids env (tb_AutomationID b))" "r_OriginEventID j = Some (ev_EventID (rq_Envelope q))"
      using j by (auto simp: started_with_def)
    have "ru_message env (tb_AutomationID b) \<noteq> []" "\<not> blank (j_ID j)" "ru_is_uuid env customer"
      using assms(5,6) m(2,3) by auto
    then have "wakes (ru_is_uuid env) ws (start_command env q b customer (j_ID j)) (j_ID j)"
      by (intro start_command_wakes event assms(2,4)) simp_all
    with m(1,4) show ?thesis by simp
  qed
  then have "list_all2 (\<lambda>j m. r_OriginEventID j = Some (ev_EventID (rq_Envelope q)) \<and> wakes (ru_is_uuid env) ws m (j_ID j)) js ms"
    by (rule list_all2_mono [OF new(4)])
  with new(1-3) show ?thesis by blast
qed

section \<open>Verdicts that change\<close>

definition audited :: "string \<Rightarrow> string \<Rightarrow> bool \<Rightarrow> rule_db \<Rightarrow> bool" where
  "audited event automation verdict db \<longleftrightarrow>
     (case sql_find (same_audit event automation ''realtime'') (ru_audits db) of
        None \<Rightarrow> False | Some x \<Rightarrow> ma_Matched x = verdict)"

lemma find_audit_update:
  assumes "\<And>x. ma_EventID (f x) = ma_EventID x" "\<And>x. ma_AutomationID (f x) = ma_AutomationID x"
    "\<And>x. ma_Engine (f x) = ma_Engine x"
  shows "sql_find (same_audit e a g) (sql_update p f t) =
    map_option (\<lambda>x. if p x then f x else x) (sql_find (same_audit e a g) t)"
  by (induction t) (auto simp: same_audit_def assms)

lemma write_audit_keeps:
  assumes "audited e a v db" "writeMatchAuditTx m db = (Inr u, db')"
  shows "audited e a v db'"
  using assms by (auto simp: audited_def writeMatchAuditTx_def Let_def find_audit_update sql_find_append
      split: option.splits if_splits)

lemma write_audit_conflict:
  assumes "audited (ma_EventID m) (ma_AutomationID m) v db" "ma_Engine m = ''realtime''" "ma_Matched m \<noteq> v"
  shows "writeMatchAuditTx m db = (Inl RU_Audit, db)"
  using assms by (auto simp: audited_def writeMatchAuditTx_def Let_def split: option.splits)

lemma process_binding_keeps_audit:
  assumes "audited e a v db" "process_binding env q b res db = (Inr res', db')"
  shows "audited e a v db'"
proof -
  from process_bindingD [OF assms(2)] obtain c customer matched' r db1 u where
    step: "if matched' \<and> rq_Primary q
     then (\<exists>x. r = Some x \<and> enrollRealtimeAutomation env q b c customer db = (Inr x, db1)) \<and>
          resolveRuleEventCustomerTx env (rq_Envelope q) db = Inr customer
     else r = None \<and> db1 = db"
    and audit: "writeMatchAuditTx (rule_audit env q b matched' r) db1 = (Inr u, db')"
    by blast
  have "ru_audits db1 = ru_audits db"
  proof (cases "matched' \<and> rq_Primary q")
    case True
    with step obtain x where "enrollRealtimeAutomation env q b c customer db = (Inr x, db1)"
        "\<exists>k. resolve_customer k db = Some customer"
      using resolve_event_known by (metis (no_types))
    from enroll_realtime [OF this] show ?thesis by blast
  qed (use step in simp)
  with assms(1) have "audited e a v db1" by (simp add: audited_def)
  with audit show ?thesis by (rule write_audit_keeps [rotated])
qed

text \<open>A binding whose condition no longer matches, against the audit of a match.\<close>

lemma changed_binding:
  assumes audit: "audited (ev_EventID (rq_Envelope q)) (tb_AutomationID b) True db"
    and changed: "\<And>db. \<exists>c. evaluateTriggerBinding (ru_run env) b (es_ContactEmail (ev_Subject (rq_Envelope q))) db = Inr (False, c)"
  shows "\<exists>e db'. process_binding env q b res db = (Inl e, db')"
proof -
  obtain out db' where out: "process_binding env q b res db = (out, db')" by fastforce
  moreover have False if "out = Inr res'" for res'
  proof -
    from process_bindingD [OF out [unfolded that]] obtain matched c customer r db1 u where
      ev: "evaluateTriggerBinding (ru_run env) b (es_ContactEmail (ev_Subject (rq_Envelope q))) db = Inr (matched, c)"
      and step: "if shadow_match q b c customer matched db \<and> rq_Primary q
       then (\<exists>x. r = Some x \<and> enrollRealtimeAutomation env q b c customer db = (Inr x, db1)) \<and>
            resolveRuleEventCustomerTx env (rq_Envelope q) db = Inr customer
       else r = None \<and> db1 = db"
      and written: "writeMatchAuditTx (rule_audit env q b (shadow_match q b c customer matched db) r) db1 = (Inr u, db')"
      by blast
    have "\<not> matched" using changed [of db] ev by simp
    then have no: "\<not> shadow_match q b c customer matched db" by (simp add: shadow_match_def)
    with step have "db1 = db" by simp
    with written no write_audit_conflict [of "rule_audit env q b (shadow_match q b c customer matched db) r" True db] audit
    show False by (simp add: rule_audit_def)
  qed
  ultimately show ?thesis by (cases out) auto
qed

lemma changed_bindings:
  assumes "b \<in> set bs" and "audited (ev_EventID (rq_Envelope q)) (tb_AutomationID b) True db"
    and changed: "\<And>db. \<exists>c. evaluateTriggerBinding (ru_run env) b (es_ContactEmail (ev_Subject (rq_Envelope q))) db = Inr (False, c)"
  shows "\<exists>e db'. process_bindings env q bs res db = (Inl e, db')"
  using assms(1,2)
proof (induction bs arbitrary: res db)
  case (Cons x bs)
  obtain out db1 where one: "process_binding env q x res db = (out, db1)" by fastforce
  show ?case
  proof (cases out)
    case (Inl e)
    with one show ?thesis by simp
  next
    case (Inr res1)
    have "b \<noteq> x"
      using changed_binding [OF Cons.prems(2) changed, of res] one Inr by auto
    with Cons.prems(1) have "b \<in> set bs" by simp
    moreover have "audited (ev_EventID (rq_Envelope q)) (tb_AutomationID b) True db1"
      using process_binding_keeps_audit [OF Cons.prems(2) one [unfolded Inr]] .
    ultimately obtain e db' where "process_bindings env q bs res1 db1 = (Inl e, db')"
      using Cons.IH by blast
    with one Inr show ?thesis by simp
  qed
qed simp

lemma claim_failed:
  assumes "sql_find (of_message consumer k) (rd_inbox db) = Some r" "ib_Status r = IS_Failed" "consumer \<noteq> []" "k \<noteq> []" "lease > 0"
  shows "\<exists>db1. ClaimInbox consumer k now lease token db = (Inr \<lparr>ic_Status = IS_Processing, ic_Token = token, ic_Acquired = True\<rparr>, db1)"
  using assms by (simp add: ClaimInbox_def reclaimable_def)

lemma list_bindings_cong:
  "ru_bindings db' = ru_bindings db \<Longrightarrow> jd_automations db' = jd_automations db \<Longrightarrow>
     listTriggerBindings rank ty subj keys db' = listTriggerBindings rank ty subj keys db"
  by (simp add: listTriggerBindings_def binding_current_def)

lemma changed_process:
  assumes row: "sql_find (of_message (rq_Consumer q) (rq_MessageID q)) (rd_inbox db) = Some r" "ib_Status r = IS_Failed"
    and q: "rq_Consumer q \<noteq> []" "rq_MessageID q \<noteq> []" "rq_InboxLease q > 0"
    and b: "b \<in> set (listTriggerBindings (ru_rank env) (ev_Type (rq_Envelope q)) (es_Type (ev_Subject (rq_Envelope q))) (rq_DependencyKeys q) db)"
    and audit: "audited (ev_EventID (rq_Envelope q)) (tb_AutomationID b) True db"
    and changed: "\<And>db. \<exists>c. evaluateTriggerBinding (ru_run env) b (es_ContactEmail (ev_Subject (rq_Envelope q))) db = Inr (False, c)"
  shows "\<exists>e db'. process_tx env q db = (Inl e, db')"
proof -
  obtain db1 where claim: "ClaimInbox (rq_Consumer q) (rq_MessageID q) (rq_Now q) (rq_InboxLease q) (ru_token env) db =
      (Inr \<lparr>ic_Status = IS_Processing, ic_Token = ru_token env, ic_Acquired = True\<rparr>, db1)"
    using claim_failed [OF row q] by blast
  note frame = claim_inbox_frame [OF claim]
  then have bs: "listTriggerBindings (ru_rank env) ty subj keys db1 = listTriggerBindings (ru_rank env) ty subj keys db" for ty subj keys
    by (intro list_bindings_cong) simp_all
  have "audited (ev_EventID (rq_Envelope q)) (tb_AutomationID b) True db1"
    using audit frame by (simp add: audited_def)
  let ?bs = "listTriggerBindings (ru_rank env) (ev_Type (rq_Envelope q)) (es_Type (ev_Subject (rq_Envelope q))) (rq_DependencyKeys q) db"
  obtain e db2 where "process_bindings env q ?bs (rule_result_of (length ?bs)) db1 = (Inl e, db2)"
    using changed_bindings [OF b \<open>audited (ev_EventID (rq_Envelope q)) (tb_AutomationID b) True db1\<close> changed] by blast
  with claim show ?thesis
    by (simp add: process_tx_def Let_def bs)
qed


text \<open>An event that one automation wants, and the same event when it was deferred and its verdict has changed.\<close>

definition sample_request :: rule_request where
  "sample_request = \<lparr>rq_WorkspaceID = ''w'', rq_Consumer = ''rule-worker'', rq_MessageID = ''m'', rq_Envelope = sample_event,
     rq_DependencyKeys = [], rq_Primary = True, rq_Now = 10, rq_InboxLease = 60\<rparr>"

lemma sample_binding_enrols:
  assumes db: "db = sample_rule_db\<lparr>rd_inbox := i\<rparr>"
  shows "\<exists>res db'. process_binding (sample_rule_env True) sample_request sample_binding (rule_result_of 1) db = (Inr res, db') \<and>
    rr_Enrolled res = 1 \<and> rr_Deferred res = 0 \<and> rd_inbox db' = i"
proof -
  let ?env = "sample_rule_env True" and ?a = "rule_enroll_args sample_request sample_binding sample_condition ''k''"
  have env: "ru_md5 ?env = (\<lambda>_ _ _ _. ''h'')" "ru_ids ?env ''a'' = sample_ids ''j.a''" "ru_is_uuid ?env = (\<lambda>_. True)"
    by (simp_all add: sample_rule_env_def)
  have q: "rq_Now sample_request = 10" "rq_Primary sample_request" "rq_Envelope sample_request = sample_event"
    "tb_AutomationID sample_binding = ''a''"
    by (simp_all add: sample_request_def sample_binding_def)
  have k: "resolveRuleEventCustomerTx ?env sample_event db = Inr ''k''"
    by (simp add: resolveRuleEventCustomerTx_def env db sample_rule_db_def entry_defs sample_event_def trim_space_def
        is_trim_space_def is_re_space_def)
  have "new_entry 10 (sample_ids ''j.a'') ?a ''k'' db"
    by (simp add: new_entry_def open_entry_def entry_defs rule_enroll_args_def db sample_rule_db_def sample_binding_def
        sample_condition_def sample_request_def sample_event_def)
  moreover have "guard_verdict 10 ?a ''k'' db = None"
    by (simp add: guard_verdict_def rule_enroll_args_def sample_condition_def no_guard_def)
  ultimately obtain r db1 where call: "automation_enroll_customer (\<lambda>_ _ _ _. ''h'') 10 (sample_ids ''j.a'') db ?a db = (Inr r, db1)"
      "er_Outcome r = EO_Enrolled" "er_ContactAutomationID r = Some (ei_Journey (sample_ids ''j.a''))"
    using new_entry_enrols by blast
  have "outside db db1"
    by (rule enroll_outside [OF call(1)]) (simp add: rule_enroll_args_def)
  then have same: "rd_outbox db1 = []" "rd_inbox db1 = i" "ru_audits db1 = []"
    by (simp_all add: outside_def db sample_rule_db_def sample_entry_db_def)
  have enroll: "enrollRealtimeAutomation ?env sample_request sample_binding sample_condition ''k'' db =
      (Inr r, db1\<lparr>rd_outbox := [start_command ?env sample_request sample_binding ''k'' ''j.a'']\<rparr>)"
    unfolding enrollRealtimeAutomation_def env q call(1)
    using call(2,3) same(1) by (simp add: Let_def sample_ids_def sql_exists_def)
  have matched: "shadow_match sample_request sample_binding sample_condition ''k'' True db"
    by (simp add: shadow_match_def q(2))
  have "process_binding ?env sample_request sample_binding (rule_result_of 1) db =
    (Inr (count_outcome (Some r) ((rule_result_of 1)\<lparr>rr_Matched := rr_Matched (rule_result_of 1) + 1\<rparr>)),
     db1\<lparr>rd_outbox := [start_command ?env sample_request sample_binding ''k'' ''j.a''],
       ru_audits := [rule_audit ?env sample_request sample_binding True (Some r)]\<rparr>)"
    unfolding process_binding_def sample_evaluate
    by (simp add: q k Let_def matched enroll writeMatchAuditTx_def same(3))
  then show ?thesis
    using call(2) same(2) by (simp add: count_outcome_def rule_result_of_def)
qed

lemma sample_processed:
  "\<exists>res db'. ProcessRuleEvent (sample_rule_env True) sample_request sample_rule_db = (Inr res, db') \<and> rr_Enrolled res = 1"
proof -
  let ?env = "sample_rule_env True"
  obtain i where claim: "ClaimInbox ''rule-worker'' ''m'' 10 60 ''t'' sample_rule_db =
      (Inr \<lparr>ic_Status = IS_Processing, ic_Token = ''t'', ic_Acquired = True\<rparr>, sample_rule_db\<lparr>rd_inbox := [i]\<rparr>)"
    and i: "holds_message ''rule-worker'' ''m'' ''t'' i"
    by (simp add: ClaimInbox_def sample_rule_db_def sample_entry_db_def holds_message_def of_message_def)
  obtain res db' where body: "process_binding ?env sample_request sample_binding (rule_result_of 1) (sample_rule_db\<lparr>rd_inbox := [i]\<rparr>) =
      (Inr res, db')" "rr_Enrolled res = 1" "rr_Deferred res = 0" "rd_inbox db' = [i]"
    using sample_binding_enrols [OF refl] by blast
  have q: "rq_Consumer sample_request = ''rule-worker''" "rq_MessageID sample_request = ''m''" "rq_Now sample_request = 10"
    "rq_InboxLease sample_request = 60" "ev_Type (rq_Envelope sample_request) = ''custom_event.paid''"
    "es_Type (ev_Subject (rq_Envelope sample_request)) = ''custom_event''" "ru_token ?env = ''t''"
    by (simp_all add: sample_request_def sample_event_def sample_rule_env_def)
  have listed: "listTriggerBindings rank ''custom_event.paid'' ''custom_event'' keys (sample_rule_db\<lparr>rd_inbox := [i]\<rparr>) = [sample_binding]" for rank keys
    by (rule sample_listed) (simp_all add: sample_rule_db_def sample_entry_db_def)
  obtain db'' where complete: "CompleteInbox ''rule-worker'' ''m'' ''t'' 10 db' = (True, db'')"
    using body(4) i by (simp add: CompleteInbox_def)
  have "process_tx ?env sample_request sample_rule_db = (Inr res, db'')"
    unfolding process_tx_def q claim by (simp add: Let_def listed body(1) [unfolded One_nat_def] body(3) complete)
  then have "in_tx (process_tx ?env sample_request) sample_rule_db = (Inr res, db'')"
    by simp
  with body(2) show ?thesis
    by (simp add: ProcessRuleEvent_def sample_request_def)
qed

theorem enrolled_journeys_get_their_command_witness:
  "\<exists>res db' j m. ProcessRuleEvent (sample_rule_env True) sample_request sample_rule_db = (Inr res, db') \<and>
    jd_journeys db' = [j] \<and> rd_outbox db' = [m] \<and> wakes (\<lambda>_. True) ''w'' m (j_ID j)"
proof -
  obtain res db' where run: "ProcessRuleEvent (sample_rule_env True) sample_request sample_rule_db = (Inr res, db')" "rr_Enrolled res = 1"
    using sample_processed by blast
  have "\<exists>js ms. jd_journeys db' = jd_journeys sample_rule_db @ js \<and> rd_outbox db' = rd_outbox sample_rule_db @ ms \<and>
      length js = rr_Enrolled res \<and> list_all2 (\<lambda>j m. r_OriginEventID j = Some (ev_EventID (rq_Envelope sample_request)) \<and>
        wakes (ru_is_uuid (sample_rule_env True)) ''w'' m (j_ID j)) js ms"
    by (rule enrolled_journeys_get_their_command [OF run(1)])
      (simp_all add: sample_request_def sample_rule_env_def sample_event_valid sample_ids_def blank_def is_re_space_def)
  moreover have "jd_journeys sample_rule_db = []" "rd_outbox sample_rule_db = []" "ru_is_uuid (sample_rule_env True) = (\<lambda>_. True)"
    by (simp_all add: sample_rule_db_def sample_entry_db_def sample_rule_env_def)
  ultimately obtain js ms where new: "jd_journeys db' = js" "rd_outbox db' = ms" "length js = 1"
      "list_all2 (\<lambda>j m. r_OriginEventID j = Some (ev_EventID (rq_Envelope sample_request)) \<and> wakes (\<lambda>_. True) ''w'' m (j_ID j)) js ms"
    using run(2) by auto
  from new(3) obtain j where "js = [j]" by (cases js) auto
  with new(4) obtain m where "ms = [m]" "wakes (\<lambda>_. True) ''w'' m (j_ID j)" by (auto simp: list_all2_Cons1)
  with new \<open>js = [j]\<close> run(1) show ?thesis by blast
qed

definition sample_message :: broker_message where
  "sample_message = \<lparr>bm_ID = ''m'', bm_CorrelationID = ''e'', bm_Exchange = EventsExchange, bm_RoutingKey = ''custom_event.paid'',
     bm_Type = ''custom_event.paid'', bm_SchemaVersion = 1, bm_Timestamp = 3, bm_Headers = [], bm_Body = Some sample_event\<rparr>"

definition sample_deferred :: inbox_row where
  "sample_deferred = \<lparr>ib_Consumer = ''rule-worker'', ib_MessageID = ''m'', ib_Status = IS_Failed, ib_Attempts = 1,
     ib_ClaimToken = ''t'', ib_ClaimExpiresAt = 5, ib_ProcessedAt = None, ib_LastError = Some ''journey_entry_deferred'',
     ib_CreatedAt = 4\<rparr>"

definition sample_deferred_db :: rule_db where
  "sample_deferred_db = sample_rule_db\<lparr>rd_inbox := [sample_deferred],
     ru_audits := [rule_audit (sample_rule_env True) sample_request sample_binding True None]\<rparr>"


end
