(* ===== verification/Rule_Index.thy ===== *)
theory Rule_Index
  imports Rule_Samples
begin

text \<open>
  The ledger takes an event once, the index of bindings selects exactly the triggers that want an event,
  and what a new version of an automation does to the journeys under way.
\<close>

section \<open>Appending\<close>

lemma append_firstD:
  assumes "AppendEvent env ws no_data e receivedAt db = (Inr a, db1)" "\<not> ar_Duplicate a"
  defines "e' \<equiv> event_defaults env ws no_data (received_or_now env receivedAt) e"
  shows "\<exists>m. rd_outbox db1 = rd_outbox db @ [m] \<and> om_ID m = ar_MessageID a \<and> om_EventID m = ev_EventID e \<and>
      om_Topic m = EventsExchange \<and>
    sql_find (\<lambda>i. ip_ID i = ev_EventID e) (ru_idempotency db1) =
      Some \<lparr>ip_ID = ev_EventID e, ip_ReceivedAt = ar_ReceivedAt a, ip_PayloadHash = ae_hash env (fingerprint e')\<rparr>"
proof -
  have id: "ev_EventID e' = ev_EventID e" by (simp add: e'_def event_defaults_def)
  have tx: "append_tx env e' db = (Inr a, db1)"
    using assms(1) by (auto simp: AppendEvent_def Let_def e'_def split: option.splits dest: in_tx_InrD)
  have none: "sql_find (\<lambda>i. ip_ID i = ev_EventID e') (ru_idempotency db) = None"
    using tx assms(2) by (auto simp: append_tx_def split: option.splits if_splits)
  from tx show ?thesis
    unfolding append_tx_def none option.case Let_def
    by (auto simp: sql_find_append none [unfolded id] id new_outbox_row_def split: sum.splits if_splits)
qed

lemma filter_quadruple:
  assumes "map q ys = map q xs" "\<And>x. P x = Q (q x)"
  shows "map q (filter P ys) = map q (filter P xs)"
proof -
  have "map q (filter P zs) = filter Q (map q zs)" for zs
    by (induction zs) (auto simp: assms(2))
  with assms(1) show ?thesis by simp
qed


section \<open>The index\<close>

text \<open>The data that the bridge from the timeline gives an event: the entity, if there is one, and the changes.\<close>

definition timeline_data :: "string \<Rightarrow> string \<Rightarrow> string option \<Rightarrow> json_object \<Rightarrow> event_data" where
  "timeline_data operation entity_type entity changes =
     ED_Other (JObj [(''changes'', JObj changes), (''entity_id'', case entity of None \<Rightarrow> JNull | Some s \<Rightarrow> JStr s),
       (''operation'', JStr operation), (''entity_type'', JStr entity_type)])"

text \<open>When a trigger wants an event of a type, an entity and changes.\<close>

definition trigger_wants :: "trigger_config \<Rightarrow> string \<Rightarrow> string option \<Rightarrow> string list \<Rightarrow> bool" where
  "trigger_wants t eventType entity changed \<longleftrightarrow>
     (let kind = tc_EventKind t
      in if kind = ''custom_event'' then \<exists>n \<in> set_option (tc_CustomEventName t). eventType = ''custom_event.'' @ n
         else eventType = kind \<and>
           (if kind = ''contact.tagged'' \<or> kind = ''contact.untagged'' then entity = tc_Tag t
            else if is_prefix ''list.'' kind then entity = tc_ListID t
            else if is_prefix ''segment.'' kind then entity = tc_SegmentID t
            else if kind = ''contact.updated''
            then tc_UpdatedFields t = [] \<or> (\<exists>f \<in> set (tc_UpdatedFields t). f \<in> set changed)
            else True))"

definition binding_selected :: "trigger_binding \<Rightarrow> string \<Rightarrow> string list \<Rightarrow> bool" where
  "binding_selected b eventType keys \<longleftrightarrow> tb_EventType b = eventType \<and>
     (tb_DependencyKeys b = [] \<or> list_ex (List.member keys) (tb_DependencyKeys b))"

lemma listed_iff:
  "b \<in> set (listTriggerBindings rank eventType subjectType keys db) \<longleftrightarrow>
     b \<in> set (ru_bindings db) \<and> binding_current db b \<and> tb_SubjectType b = subjectType \<and> binding_selected b eventType keys"
  by (auto simp: listTriggerBindings_def binding_selected_def)

lemma timeline_keys:
  "set (eventDependencyKeys (timeline_data operation entity_type entity changes)) =
     (case entity of None \<Rightarrow> {} | Some s \<Rightarrow> if s = [] then {} else {''entity_id:'' @ s}) \<union>
     (\<lambda>f. ''changes.'' @ f) ` fst ` set changes"
proof -
  have low: "to_lower ''changes'' = ''changes''" "to_lower ''entity_id'' = ''entity_id''" "to_lower ''operation'' = ''operation''"
      "to_lower ''entity_type'' = ''entity_type''"
    by (simp_all add: to_lower_def lower_char_def)
  show ?thesis
    by (cases entity) (auto simp: eventDependencyKeys_def timeline_data_def low)
qed

lemma set_sortedUniqueStrings: "set (sortedUniqueStrings xs) = {x \<in> set xs. x \<noteq> []}"
  by (simp add: sortedUniqueStrings_def)

lemma sortedUniqueStrings_Nil_iff: "sortedUniqueStrings xs = [] \<longleftrightarrow> (\<forall>x \<in> set xs. x = [])"
  using set_sortedUniqueStrings [of xs] by (metis (mono_tags, lifting) empty_Collect_eq set_empty)

lemma field_dependencies_set: "field_dependencies fs = Inr ds \<Longrightarrow> ds = map (\<lambda>f. ''changes.'' @ f) fs"
  by (induction fs arbitrary: ds) (auto simp: and_then_def split: if_splits sum.splits)

lemma overlap_entity:
  "list_ex (List.member (eventDependencyKeys (timeline_data op et entity cs))) [''entity_id:'' @ s] \<longleftrightarrow> s \<noteq> [] \<and> entity = Some s"
  by (cases entity) (auto simp: List.member_iff timeline_keys)

lemma overlap_fields:
  "list_ex (List.member (eventDependencyKeys (timeline_data op et entity cs))) (sortedUniqueStrings (map (\<lambda>f. ''changes.'' @ f) fs)) \<longleftrightarrow>
     (\<exists>f \<in> set fs. f \<in> fst ` set cs)"
  by (cases entity) (auto simp: list_ex_iff List.member_iff timeline_keys set_sortedUniqueStrings image_iff)

lemma sortedUnique_one: "s \<noteq> [] \<Longrightarrow> sortedUniqueStrings [s] = [s]"
  by (simp add: sortedUniqueStrings_def)

lemma compileD:
  assumes "Compile co automation node (Some t) = Inr b"
  shows "TimelineTriggerConfig_Validate (co_tree co) t = None \<and>
    (\<exists>subjectType. compileTriggerIndex t = Inr (tb_EventType b, subjectType, tb_DependencyKeys b))"
  using assms by (auto simp: Compile_def and_then_def split: option.splits if_splits sum.splits)

lemma if_None_iff: "(if c then Some x else y) = None \<longleftrightarrow> \<not> c \<and> y = None"
  by simp

lemma case_None_iff: "(case z of None \<Rightarrow> y | Some e \<Rightarrow> Some e) = None \<longleftrightarrow> z = None \<and> y = None"
  by (cases z) simp_all

text \<open>What a valid trigger has.\<close>

lemma valid_trigger:
  assumes "TimelineTriggerConfig_Validate tree_ok t = None"
  shows "is_prefix ''list.'' (tc_EventKind t) \<longrightarrow> \<not> absent (tc_ListID t)"
    "is_prefix ''segment.'' (tc_EventKind t) \<longrightarrow> \<not> absent (tc_SegmentID t)"
    "tc_EventKind t = ''contact.tagged'' \<or> tc_EventKind t = ''contact.untagged'' \<longrightarrow> \<not> absent (tc_Tag t)"
proof -
  have blank_tag: "absent p \<Longrightarrow> (case p of None \<Rightarrow> True | Some s \<Rightarrow> trim_space s = [])" for p
    by (auto simp: absent_def trim_space_def split: option.splits)
  note v = assms [unfolded TimelineTriggerConfig_Validate_def if_None_iff case_None_iff]
  from v show "is_prefix ''list.'' (tc_EventKind t) \<longrightarrow> \<not> absent (tc_ListID t)" by blast
  from v show "is_prefix ''segment.'' (tc_EventKind t) \<longrightarrow> \<not> absent (tc_SegmentID t)" by blast
  from v blank_tag show "tc_EventKind t = ''contact.tagged'' \<or> tc_EventKind t = ''contact.untagged'' \<longrightarrow> \<not> absent (tc_Tag t)"
    by blast
qed

lemma and_then_Inr: "and_then r f = Inr y \<longleftrightarrow> (\<exists>x. r = Inr x \<and> f x = Inr y)"
  by (cases r) (auto simp: and_then_def)

lemma with_entity_Inr:
  "with_entity et st p = Inr (a, b, c) \<longleftrightarrow> (\<exists>s. p = Some s \<and> a = et \<and> b = st \<and> c = [''entity_id:'' @ s])"
  by (cases p) (auto simp: with_entity_def deref_def and_then_def)

text \<open>The indexes by the kind of the trigger.\<close>

lemma compile_index_cases:
  assumes "compileTriggerIndex t = Inr (et, st, deps)"
  obtains (custom) n where "tc_EventKind t = ''custom_event''" "tc_CustomEventName t = Some n" "et = ''custom_event.'' @ n" "deps = []"
  | (entity) s where "et = tc_EventKind t" "deps = sortedUniqueStrings [''entity_id:'' @ s]"
      "tc_EventKind t \<noteq> ''custom_event''" "tc_EventKind t \<noteq> ''contact.updated''"
      "(tc_EventKind t = ''contact.tagged'' \<or> tc_EventKind t = ''contact.untagged'') \<and> tc_Tag t = Some s \<or>
       is_prefix ''list.'' (tc_EventKind t) \<and> tc_ListID t = Some s \<or>
       is_prefix ''segment.'' (tc_EventKind t) \<and> tc_SegmentID t = Some s"
  | (fields) "et = tc_EventKind t" "tc_EventKind t = ''contact.updated''"
      "deps = sortedUniqueStrings (map (\<lambda>f. ''changes.'' @ f) (tc_UpdatedFields t))"
  | (any) "et = tc_EventKind t" "deps = []" "tc_EventKind t \<noteq> ''custom_event''" "tc_EventKind t \<noteq> ''contact.updated''"
      "tc_EventKind t \<noteq> ''contact.tagged''" "tc_EventKind t \<noteq> ''contact.untagged''"
      "is_prefix ''contact.'' (tc_EventKind t) \<or> is_prefix ''email.'' (tc_EventKind t)"
proof -
  define k where "k = tc_EventKind t"
  define c where "c \<longleftrightarrow> k = ''custom_event''"
  define g where "g \<longleftrightarrow> k = ''contact.tagged'' \<or> k = ''contact.untagged''"
  define p where "p \<longleftrightarrow> k = ''contact.profile_created'' \<or> k = ''contact.profile_updated''"
  define u where "u \<longleftrightarrow> k = ''contact.updated''"
  define pc where "pc \<longleftrightarrow> is_prefix ''contact.'' k"
  define pl where "pl \<longleftrightarrow> is_prefix ''list.'' k"
  define ps where "ps \<longleftrightarrow> is_prefix ''segment.'' k"
  define pe where "pe \<longleftrightarrow> is_prefix ''email.'' k"
  have facts: "u \<Longrightarrow> \<not> c \<and> \<not> g \<and> \<not> p \<and> pc" "g \<Longrightarrow> \<not> c" "p \<Longrightarrow> \<not> c \<and> \<not> g \<and> pc"
    by (auto simp: u_def c_def g_def p_def pc_def)
  have empty: "sortedUniqueStrings [] = []" by (simp add: sortedUniqueStrings_def)
  obtain et' st' ds fs where index: "(if c then and_then (deref (tc_CustomEventName t)) (\<lambda>n. Inr (''custom_event.'' @ n, ''custom_event'', []))
             else if g then with_entity k ''contact_tag'' (tc_Tag t)
             else if p then Inr (k, ''contact_profile'', [])
             else if pc then Inr (k, ''contact'', [])
             else if pl then with_entity k ''contact_list'' (tc_ListID t)
             else if ps then with_entity k ''contact_segment'' (tc_SegmentID t)
             else if pe then Inr (k, ''message_history'', [])
             else Inl (''unsupported realtime trigger event kind '' @ k)) = Inr (et', st', ds)"
      and fs: "(if u then field_dependencies (tc_UpdatedFields t) else Inr []) = Inr fs"
      and res: "et = et'" "deps = sortedUniqueStrings (ds @ fs)"
    using assms unfolding compileTriggerIndex_def Let_def k_def [symmetric] c_def [symmetric] g_def [symmetric]
      p_def [symmetric] u_def [symmetric] pc_def [symmetric] pl_def [symmetric] ps_def [symmetric] pe_def [symmetric]
    by (simp add: and_then_Inr split_paired_Ex) blast
  consider c | "\<not> c" g | "\<not> c" "\<not> g" u | "\<not> c" "\<not> g" "\<not> u" "pc \<or> p" | "\<not> c" "\<not> g" "\<not> u" "\<not> pc" "\<not> p" pl
    | "\<not> c" "\<not> g" "\<not> u" "\<not> pc" "\<not> p" "\<not> pl" ps | "\<not> c" "\<not> g" "\<not> u" "\<not> pc" "\<not> p" "\<not> pl" "\<not> ps"
    by blast
  then show thesis
  proof cases
    case 1
    with facts(1) fs have "fs = []" by (auto split: if_splits)
    from 1 index obtain n where "tc_CustomEventName t = Some n" "et' = ''custom_event.'' @ n" "ds = []"
      by (auto simp: and_then_Inr deref_def simp del: append_Cons split: option.splits)
    with 1 res \<open>fs = []\<close> empty show thesis
      by (intro custom) (simp_all add: c_def k_def)
  next
    case 2
    with facts(1) fs have "fs = []" by (auto split: if_splits)
    from 2 index obtain s where "tc_Tag t = Some s" "et' = k" "ds = [''entity_id:'' @ s]"
      by (auto simp: with_entity_Inr simp del: append_Cons)
    moreover have "\<not> u" using facts(1) 2 by blast
    ultimately show thesis
      using 2 res \<open>fs = []\<close> by (intro entity [of s]) (simp_all add: c_def g_def u_def k_def del: append_Cons)
  next
    case 3
    with facts(1) index have "et' = k" "ds = []" by auto
    with 3 res fs show thesis
      by (intro fields) (auto simp: u_def k_def dest: field_dependencies_set)
  next
    case 4
    then have "et' = k" "ds = []" "fs = []" using index fs facts(3) by (auto split: if_splits)
    with 4 res empty facts(3) show thesis
      by (intro any) (auto simp: c_def g_def u_def pc_def k_def)
  next
    case 5
    then have "fs = []" using fs by simp
    from 5 index obtain s where "tc_ListID t = Some s" "et' = k" "ds = [''entity_id:'' @ s]"
      by (auto simp: with_entity_Inr simp del: append_Cons)
    with 5 res \<open>fs = []\<close> show thesis
      by (intro entity [of s]) (simp_all add: c_def u_def pl_def k_def del: append_Cons)
  next
    case 6
    then have "fs = []" using fs by simp
    from 6 index obtain s where "tc_SegmentID t = Some s" "et' = k" "ds = [''entity_id:'' @ s]"
      by (auto simp: with_entity_Inr simp del: append_Cons)
    with 6 res \<open>fs = []\<close> show thesis
      by (intro entity [of s]) (simp_all add: c_def u_def ps_def k_def del: append_Cons)
  next
    case 7
    then have "fs = []" "et' = k" "ds = []" "pe" using fs index by (auto split: if_splits)
    with 7 res empty show thesis
      by (intro any) (simp_all add: c_def g_def u_def pe_def k_def)
  qed
qed

lemma prefixes_apart:
  "is_prefix ''contact.'' k \<Longrightarrow> \<not> is_prefix ''list.'' k \<and> \<not> is_prefix ''segment.'' k"
  "is_prefix ''email.'' k \<Longrightarrow> \<not> is_prefix ''list.'' k \<and> \<not> is_prefix ''segment.'' k"
  "is_prefix ''list.'' k \<Longrightarrow> \<not> is_prefix ''segment.'' k"
  by (auto simp: is_prefix_append_iff)


lemma sample_append:
  "\<exists>a db1. AppendEvent sample_append_env ''w'' False sample_event 7 sample_entry_db = (Inr a, db1) \<and>
     \<not> ar_Duplicate a \<and> ar_EventID a = ''e''"
proof -
  have e: "event_defaults sample_append_env ''w'' False (received_or_now sample_append_env 7) sample_event =
      sample_event\<lparr>ev_ReceivedAt := 7\<rparr>"
    by (simp add: event_defaults_def sample_event_def received_or_now_def)
  have valid: "EventEnvelope_Validate (ae_is_uuid sample_append_env) (sample_event\<lparr>ev_ReceivedAt := 7\<rparr>) = None"
    by (simp add: EventEnvelope_Validate_def sample_event_def sample_append_env_def)
  have "\<exists>a db1. append_tx sample_append_env (sample_event\<lparr>ev_ReceivedAt := 7\<rparr>) sample_entry_db = (Inr a, db1) \<and>
      \<not> ar_Duplicate a \<and> ar_EventID a = ''e''"
    by (simp add: append_tx_def sample_event_def sample_entry_db_def event_customer_def known_customer_def Let_def sql_exists_def)
  then obtain a db1 where tx: "append_tx sample_append_env (sample_event\<lparr>ev_ReceivedAt := 7\<rparr>) sample_entry_db = (Inr a, db1)"
      "\<not> ar_Duplicate a" "ar_EventID a = ''e''"
    by blast
  then have "AppendEvent sample_append_env ''w'' False sample_event 7 sample_entry_db = (Inr a, db1)"
    by (simp add: AppendEvent_def Let_def e valid in_tx_def)
  with tx(2,3) show ?thesis by blast
qed


text \<open>A trigger on the tag \<open>vip\<close>.\<close>

definition tag_trigger :: trigger_config where
  "tag_trigger = sample_trigger\<lparr>tc_EventKind := ''contact.tagged'', tc_Tag := Some ''vip''\<rparr>"

lemma tag_compiles: "\<exists>b. Compile (lf_compiler sample_lifecycle) ''a'' ''t'' (Some tag_trigger) = Inr b"
  by (simp add: Compile_def sample_lifecycle_def tag_trigger_def sample_trigger_def TimelineTriggerConfig_Validate_def
      IsValidEventKind_def ValidEventKinds_def absent_def compileTriggerIndex_def compileCondition_def and_then_def
      with_entity_def deref_def trim_space_def is_trim_space_def is_re_space_def)


end
