(* ===== verification/Spec2Isabelle.thy ===== *)
theory Spec2Isabelle
  imports Worker_Outcomes Rate_Limiter Task_Outcomes Journey_Outcomes Broker_Runs Outbox_Runs Outbox_Ticks
    Entry_Outcomes Delivery_Ends Rule_Outcomes Rule_Index
begin

text \<open>
  A verification of the delivery core, the task engine, the rule engine and the journey engines of
  the marketing platform: how an e-mail gets from the queue to a provider at most once, how
  background tasks are claimed, run, retried and rescheduled, how events start journeys, and how
  contacts move through automations.

  \<^bold>\<open>The program.\<close> A workspace database holds the delivery ledger. An intent is what should be
  sent, once per effect key; a queue row is the claimable work item of an intent; an attempt is
  one submission to a provider; receipts are what providers report later; reconciliations are
  the cases an operator has to settle. Queue workers claim rows under a lease, ask breakers, a
  rate limiter and guards, open an attempt, call the provider and record the outcome. The
  system database holds the tasks: a scheduler fetches due rows, an execution claims a row
  under a lease, runs the processor of its type and records how the run ended. Broadcast
  events move the task of a broadcast. A journey is a contact's way through the nodes of an
  automation. Two engines move journeys: the legacy engine runs the nodes of due journeys in a
  tick; the realtime engine wakes a journey by a message, claims it, plans one step and commits
  it by compare-and-swap, together with a reserved side effect and its command in the outbox,
  which a delivery worker executes behind a consumer inbox.

  \<^bold>\<open>Theories and code.\<close>

  \<^item> \<open>Go_Prelude\<close>: Go integers, strings and times; tables as lists of rows with \<open>UPDATE\<close>,
    \<open>DELETE\<close> and counts; transactions that roll back on an error.
  \<^item> \<open>Leased_Store\<close>: the interface of a store of claims, a locale, interpreted on the queue.
  \<^item> \<open>Email_Error\<close>: \<open>pkg/emailerror\<close>. \<open>Circuit_Breaker\<close>: \<open>internal/service/queue/circuit_breaker.go\<close>.
    \<open>Rate_Limiter\<close>: \<open>pkg/ratelimiter/ratelimiter.go\<close>.
  \<^item> \<open>Delivery_Status\<close>: \<open>internal/domain/delivery.go\<close>, the status graph and the effect keys.
    \<open>Delivery_Store\<close>: the rows of \<open>internal/domain\<close> and the constraints of
    \<open>internal/database/schema/delivery_tables.go\<close>.
  \<^item> \<open>Email_Queue\<close>: \<open>internal/repository/email_queue_postgres.go\<close>. \<open>Delivery_Ledger\<close>:
    \<open>delivery_postgres.go\<close> and \<open>delivery_management_postgres.go\<close>. \<open>Delivery_Receipts\<close>:
    \<open>delivery_receipt_postgres.go\<close>. \<open>Message_History\<close>: the upsert of
    \<open>message_history_postgre.go\<close>.
  \<^item> \<open>Ledger_Spec\<close>: the abstract ledger and its moves. \<open>Ledger_Runs\<close>, \<open>Ledger_Properties\<close>: runs of
    the repositories, refinement and invariants.
  \<^item> \<open>Queue_Worker\<close>: \<open>internal/service/queue/worker.go\<close>. \<open>Worker_Properties\<close>: what a system of
    workers never does. \<open>Worker_Outcomes\<close>: what one processing of an entry does.
  \<^item> \<open>Task_Store\<close>: \<open>internal/domain/task.go\<close> and \<open>internal/repository/task_postgres.go\<close>.
    \<open>Task_Engine\<close>: \<open>internal/service/task_service.go\<close>. \<open>Task_Runs\<close>: invariants over runs.
    \<open>Task_Outcomes\<close>: retry budget, schedules, events.
  \<^item> \<open>Journey_Nodes\<close>: the nodes of \<open>internal/domain/automation.go\<close> and their executors,
    \<open>internal/service/automation_node_executor.go\<close> and \<open>channel_node_executor.go\<close>.
    \<open>Realtime_Store\<close>: outbox, inbox and side effects of \<open>internal/repository/realtime_postgres.go\<close>.
    \<open>Journey_Store\<close>: the journeys of \<open>internal/repository/automation_postgres.go\<close>.
  \<^item> \<open>Journey_Engine\<close>: \<open>internal/service/automation_executor.go\<close> and
    \<open>realtime_journey_worker.go\<close>. \<open>Realtime_Delivery\<close>: \<open>realtime_delivery_worker.go\<close>.
  \<^item> \<open>Broker\<close>: \<open>pkg/broker\<close>, with the topology that the workers use; \<open>Broker_Runs\<close>: how retries
    travel through it. \<open>Outbox_Relay\<close>: \<open>internal/service/realtime_outbox_relay.go\<close> and
    \<open>internal/repository/realtime_cursor.go\<close>; \<open>Outbox_Runs\<close>, \<open>Outbox_Ticks\<close>: relays side by side,
    and their ticks over the workspaces.
  \<^item> \<open>Enrollment\<close>: the function \<open>automation_enroll_customer\<close> of
    \<open>internal/database/schema/journey_tables.go\<close> with its tables, and the enrolment of an audience.
    \<open>Enrollment_Runs\<close>, \<open>Entry_Outcomes\<close>: runs of enrolments.
  \<^item> \<open>Trigger_Bindings\<close>: triggers, their compilation (\<open>internal/service/realtime_rule_compiler.go\<close>) and
    the table of bindings. \<open>Rule_Engine\<close>: the ledger of events and \<open>ProcessRuleEvent\<close> of
    \<open>realtime_postgres.go\<close>, and \<open>realtime_rule_worker.go\<close>. \<open>Automation_Lifecycle\<close>: \<open>Activate\<close> and
    \<open>Pause\<close> of \<open>internal/service/automation_service.go\<close>. \<open>Rule_Index\<close>, \<open>Rule_Outcomes\<close>: what they
    promise together, on the samples of \<open>Rule_Samples\<close>.
  \<^item> \<open>Journey_Ticks\<close>: nodes and ticks, and where the engines agree. \<open>Journey_Commits\<close>: runs of claims
    and commits. \<open>Side_Effect_Runs\<close>: runs of delivery handlers. \<open>Delivery_Ends\<close>: that they end. \<open>Journey_Outcomes\<close>: where the
    engines differ.

  \<^bold>\<open>How the model is made.\<close> A repository method is a function from the table (or the whole
  delivery database) to an error or a result and the new state; its transaction is atomic.
  Clocks, random draws, row locks held by others, generated ids, hashes and provider answers
  are arguments. A call that the driver fails is a failed call, or one whose effect is kept
  and whose answer is lost. In a processing of the worker any list of ledger operations of
  other processes may run before each repository call. Loops are structural recursions over
  finite lists, so no fuel is used; a tick of the legacy engine counts its ten nodes down; a
  delivery handler is a machine that ends after six phases; a cleanup tick of the rate limiter and an execution of a
  task are steps of a run.

  \<^bold>\<open>What is shown.\<close> At most one attempt of an intent is in flight or done, in every database the
  repositories reach, and no worker submits an intent again that reached its recipient;
  outcomes are all or nothing; claims exclude each other until their lease ends; the
  repositories refine the abstract ledger; breakers refine a gate and survive races; the rate
  limiter keeps its bound; executions of a task exclude each other; no unfinished task is
  stranded; the retry budget refines its specification; the versions of a journey are committed
  once and in order; a webhook is called again only after a failure; a tick is a sequence of
  guarded writes; the engines agree on internal nodes; a command marked as published was
  confirmed, and none is lost; a customer enters a \<open>once\<close> automation once; the index of bindings
  selects the triggers that want an event, the ledger takes an event once, and every journey that
  an event starts gets its command. Some properties state where the code
  does not do what it says: they are the findings of the manifest.

  \<^bold>\<open>Not modelled.\<close> HTTP, tracing, logging and the wiring of the application; the console, SDK
  and generated code; the construction of messages from templates; provider clients; the triggers
  of PostgreSQL that the legacy mode generates, with the adapter that enrols by e-mail address; the
  SQL that segments and conditions are compiled to; the broadcast orchestrator, which assembles
  recipients and templates into the queue's entries; the comparison of the two engines before the
  cutover, which reports and does not act; lists, contacts, analytics, authentication and the language-model services, which
  are queries and glue. Claim tokens are drawn by the caller: their freshness is a
  hypothesis where it is used.
\<close>

end
